(* ===== verification/Prelude.thy ===== *)
theory Prelude
  imports Main
begin

text \<open>
  Shared vocabulary of the development: exceptions as values, table primitives over
  lists of rows, and the three operation-system locales that the components interpret.

  \<^item> A service method is a function from the state to a pair of the new state and
    either an exception or a result.  The state is returned in both cases, because a
    JavaScript exception does not undo the writes that came before it.
  \<^item> A table is a list of rows in insertion order.  \<open>find_row\<close> is a lookup by a unique
    column, \<open>update_where\<close> a conditional update, as the code writes them.
  \<^item> \<open>op_system\<close>, \<open>at_most_once\<close> and \<open>ledger\<close> state what several components promise
    of their operations, and prove once what follows for every sequence of calls.
\<close>

section \<open>Types shared by all components\<close>

type_synonym id = string
type_synonym time = int \<comment> \<open>milliseconds since the epoch\<close>

text \<open>
  The exceptions the services throw.  The first group are the NestJS exceptions of the
  code; the second group are raised by the database layer: a violated foreign key, a
  violated unique index, and an update or delete of a row that does not exist.
  The string is a short ASCII tag of the place that throws.
\<close>

datatype exn =
    NotFoundException string
  | BadRequestException string
  | UnauthorizedException string
  | ForbiddenException string
  | ConflictException string
  | UnprocessableEntityException string
  | ServiceUnavailableException string
  | TooManyRequestsException string
  | PlainError string
  | ForeignKeyViolation string
  | UniqueViolation string
  | RecordNotFound string

type_synonym ('s, 'a) outcome = "'s \<times> (exn + 'a)"

named_theorems op_defs \<open>definitions of the operations, for symbolic execution\<close>
named_theorems key_simps \<open>facts that separate the keys of the Redis keyspace\<close>

section \<open>Sequencing of fallible operations\<close>

definition bindE :: "('s, 'a) outcome \<Rightarrow> ('s \<Rightarrow> 'a \<Rightarrow> ('s, 'b) outcome) \<Rightarrow> ('s, 'b) outcome" where
  "bindE m f = (case m of (s, Inl e) \<Rightarrow> (s, Inl e) | (s, Inr x) \<Rightarrow> f s x)"

lemma bindE_Inl [simp]: "bindE (s, Inl e) f = (s, Inl e)"
  by (simp add: bindE_def)

lemma bindE_Inr [simp]: "bindE (s, Inr x) f = f s x"
  by (simp add: bindE_def)

lemma bindE_split:
  "P (bindE m f) \<longleftrightarrow>
     (\<forall>s e. m = (s, Inl e) \<longrightarrow> P (s, Inl e)) \<and> (\<forall>s x. m = (s, Inr x) \<longrightarrow> P (f s x))"
  by (cases m; cases "snd m") auto

lemma bindE_eq_InrE:
  assumes "bindE m f = (s', Inr y)"
  obtains s x where "m = (s, Inr x)" and "f s x = (s', Inr y)"
  using assms by (cases m; cases "snd m") auto

text \<open>A loop whose body may throw: the first exception ends it, earlier effects stay.\<close>

fun forE :: "'x list \<Rightarrow> ('x \<Rightarrow> 's \<Rightarrow> ('s, unit) outcome) \<Rightarrow> 's \<Rightarrow> ('s, unit) outcome" where
  "forE [] f s = (s, Inr ())"
| "forE (x # xs) f s = bindE (f x s) (\<lambda>s' _. forE xs f s')"

lemma forE_invariant:
  assumes "P s" and "\<And>x s. x \<in> set xs \<Longrightarrow> P s \<Longrightarrow> P (fst (f x s))"
  shows "P (fst (forE xs f s))"
  using assms
proof (induction xs arbitrary: s)
  case Nil
  then show ?case by simp
next
  case (Cons x xs)
  obtain s1 r where fx: "f x s = (s1, r)" by (cases "f x s")
  have "P s1" using Cons.prems fx by (metis fst_conv list.set_intros(1))
  then show ?case using Cons fx by (cases r) auto
qed

section \<open>Tables as lists of rows\<close>

definition find_row :: "('r \<Rightarrow> 'k) \<Rightarrow> 'k \<Rightarrow> 'r list \<Rightarrow> 'r option" where
  "find_row key k rows = List.find (\<lambda>r. key r = k) rows"

definition update_where :: "('r \<Rightarrow> bool) \<Rightarrow> ('r \<Rightarrow> 'r) \<Rightarrow> 'r list \<Rightarrow> 'r list" where
  "update_where p f rows = map (\<lambda>r. if p r then f r else r) rows"

definition count_where :: "('r \<Rightarrow> bool) \<Rightarrow> 'r list \<Rightarrow> nat" where
  "count_where p rows = length (filter p rows)"

definition delete_where :: "('r \<Rightarrow> bool) \<Rightarrow> 'r list \<Rightarrow> 'r list" where
  "delete_where p rows = filter (\<lambda>r. \<not> p r) rows"

definition unique_key :: "('r \<Rightarrow> 'k) \<Rightarrow> 'r list \<Rightarrow> bool" where
  "unique_key key rows \<longleftrightarrow> distinct (map key rows)"

lemma find_row_Nil [simp]: "find_row key k [] = None"
  by (simp add: find_row_def)

lemma find_row_Cons [simp]:
  "find_row key k (r # rows) = (if key r = k then Some r else find_row key k rows)"
  by (simp add: find_row_def)

lemma find_row_append [simp]:
  "find_row key k (xs @ ys) =
     (case find_row key k xs of None \<Rightarrow> find_row key k ys | Some r \<Rightarrow> Some r)"
  by (induction xs) auto

lemma find_row_SomeD: "find_row key k rows = Some r \<Longrightarrow> r \<in> set rows \<and> key r = k"
  by (induction rows) (auto split: if_splits)

lemma find_row_None_iff: "find_row key k rows = None \<longleftrightarrow> (\<forall>r \<in> set rows. key r \<noteq> k)"
  by (induction rows) auto

lemma find_row_None_image: "find_row key k rows = None \<longleftrightarrow> k \<notin> key ` set rows"
  by (induction rows) auto

lemma find_row_unique:
  "unique_key key rows \<Longrightarrow> r \<in> set rows \<Longrightarrow> find_row key (key r) rows = Some r"
  unfolding unique_key_def
  by (induction rows) force+

lemma unique_key_inject:
  "unique_key key rows \<Longrightarrow> x \<in> set rows \<Longrightarrow> y \<in> set rows \<Longrightarrow> key x = key y \<Longrightarrow> x = y"
  by (auto simp: unique_key_def distinct_map inj_on_def)

lemma update_where_Nil [simp]: "update_where p f [] = []"
  by (simp add: update_where_def)

lemma update_where_Cons [simp]:
  "update_where p f (r # rows) = (if p r then f r else r) # update_where p f rows"
  by (simp add: update_where_def)

lemma update_where_append [simp]:
  "update_where p f (xs @ ys) = update_where p f xs @ update_where p f ys"
  by (simp add: update_where_def)

lemma length_update_where [simp]: "length (update_where p f rows) = length rows"
  by (simp add: update_where_def)

lemma update_where_None: "(\<And>r. r \<in> set rows \<Longrightarrow> \<not> p r) \<Longrightarrow> update_where p f rows = rows"
  by (induction rows) auto

lemma update_where_fresh:
  "find_row key k rows = None \<Longrightarrow> update_where (\<lambda>r. key r = k) f rows = rows"
  by (induction rows) (auto split: if_splits)

text \<open>A lookup after an update that leaves the key column alone.\<close>

lemma find_row_update_where:
  "(\<And>r. key (f r) = key r) \<Longrightarrow>
   find_row key k (update_where p f rows) =
     map_option (\<lambda>r. if p r then f r else r) (find_row key k rows)"
  by (induction rows) auto

lemma filter_update_where:
  "(\<And>r. q (f r) = q r) \<Longrightarrow> filter q (update_where p f rows) = update_where p f (filter q rows)"
  by (induction rows) auto

lemma find_update_where:
  "(\<And>r. q (f r) = q r) \<Longrightarrow>
   List.find q (update_where p f rows) =
     map_option (\<lambda>r. if p r then f r else r) (List.find q rows)"
  by (induction rows) auto

lemma find_append:
  "List.find q (xs @ ys) = (case List.find q xs of None \<Rightarrow> List.find q ys | Some r \<Rightarrow> Some r)"
  by (induction xs) auto

lemma set_update_where: "set (update_where p f rows) = (\<lambda>r. if p r then f r else r) ` set rows"
  by (simp add: update_where_def)

lemma map_key_update_where:
  "(\<And>r. key (f r) = key r) \<Longrightarrow> map key (update_where p f rows) = map key rows"
  by (induction rows) auto

lemma unique_key_update_where [simp]:
  "(\<And>r. key (f r) = key r) \<Longrightarrow> unique_key key (update_where p f rows) = unique_key key rows"
  by (simp add: unique_key_def map_key_update_where)

text \<open>Changing one row keeps a column unique when the new value is not used by another row.\<close>

lemma unique_key_update_one:
  assumes "unique_key key rows" and "unique_key k2 rows" and "find_row key i rows = Some r"
    and "\<And>x. x \<in> set rows \<Longrightarrow> k2 x = k2 (f r) \<Longrightarrow> key x = i"
  shows "unique_key k2 (update_where (\<lambda>x. key x = i) f rows)"
  using assms
proof (induction rows)
  case Nil
  then show ?case by simp
next
  case (Cons x rows)
  have uniq: "unique_key key rows" "unique_key k2 rows" "key x \<notin> key ` set rows" "k2 x \<notin> k2 ` set rows"
    using Cons.prems(1,2) by (simp_all add: unique_key_def)
  show ?case
  proof (cases "key x = i")
    case True
    then have "update_where (\<lambda>x. key x = i) f rows = rows" "r = x"
      using uniq(3) Cons.prems(3) by (auto intro!: update_where_None simp: image_iff)
    moreover have "k2 (f x) \<notin> k2 ` set rows"
      using Cons.prems(4) True uniq(3) \<open>r = x\<close> by (auto simp: image_iff)
    ultimately show ?thesis using True uniq(2) by (simp add: unique_key_def)
  next
    case False
    then have r: "find_row key i rows = Some r" using Cons.prems(3) by simp
    have "unique_key k2 (update_where (\<lambda>x. key x = i) f rows)"
      using Cons.IH [OF uniq(1,2) r] Cons.prems(4) by simp
    moreover have "k2 x \<noteq> k2 y" if "y \<in> set (update_where (\<lambda>x. key x = i) f rows)" for y
    proof -
      obtain z where z: "z \<in> set rows" "y = (if key z = i then f z else z)"
        using \<open>y \<in> _\<close> by (auto simp: set_update_where)
      show ?thesis
      proof (cases "key z = i")
        case True
        then have "z = r" using find_row_unique [OF uniq(1) z(1)] r by simp
        then show ?thesis using z True Cons.prems(4) [of x] False by auto
      next
        case False
        then show ?thesis using z uniq(4) by (auto simp: image_iff)
      qed
    qed
    ultimately show ?thesis using False by (auto simp: unique_key_def)
  qed
qed

lemma unique_key_snoc:
  "unique_key key (rows @ [r]) \<longleftrightarrow> unique_key key rows \<and> find_row key (key r) rows = None"
  by (auto simp: unique_key_def find_row_None_image)

lemma count_where_Nil [simp]: "count_where p [] = 0"
  by (simp add: count_where_def)

lemma count_where_Cons [simp]:
  "count_where p (r # rows) = (if p r then Suc (count_where p rows) else count_where p rows)"
  by (simp add: count_where_def)

lemma count_where_append [simp]:
  "count_where p (xs @ ys) = count_where p xs + count_where p ys"
  by (simp add: count_where_def)

lemma count_where_update_where_same:
  "(\<And>r. q (f r) = q r) \<Longrightarrow> count_where q (update_where p f rows) = count_where q rows"
  by (induction rows) auto

lemma count_where_unique_key:
  assumes "unique_key key rows" and "r \<in> set rows"
  shows "count_where (\<lambda>x. key x = key r \<and> p x) rows = (if p r then 1 else 0)"
  using assms
proof (induction rows)
  case Nil
  then show ?case by simp
next
  case (Cons x rows)
  have uniq: "unique_key key rows" and x: "key x \<notin> key ` set rows"
    using Cons.prems(1) by (simp_all add: unique_key_def)
  show ?case
  proof (cases "x = r")
    case True
    then have "count_where (\<lambda>y. key y = key r \<and> p y) rows = 0"
      using x by (auto simp: count_where_def filter_empty_conv image_iff)
    then show ?thesis using True by simp
  next
    case False
    then have "r \<in> set rows" "key x \<noteq> key r" using Cons.prems(2) x by auto
    with Cons.IH [OF uniq] show ?thesis by simp
  qed
qed

subsection \<open>Column sums\<close>

text \<open>
  An update of the one row with a given key changes a column sum by the difference of
  that row; this carries the inventory invariants over the order table.
\<close>

lemma sum_list_update_where:
  fixes g :: "'r \<Rightarrow> int"
  assumes "unique_key key rows" and "find_row key k rows = Some r" and "key (f r) = k"
  shows "sum_list (map g (update_where (\<lambda>x. key x = k) f rows)) =
         sum_list (map g rows) - g r + g (f r)"
  using assms
proof (induction rows)
  case Nil
  then show ?case by simp
next
  case (Cons x rows)
  have uniq: "unique_key key rows" using Cons.prems(1) by (simp add: unique_key_def)
  show ?case
  proof (cases "key x = k")
    case True
    then have "update_where (\<lambda>x. key x = k) f rows = rows"
      using Cons.prems(1)
      by (intro update_where_fresh) (auto simp: unique_key_def find_row_None_image)
    with True Cons.prems show ?thesis by simp
  next
    case False
    with Cons uniq show ?thesis by simp
  qed
qed

lemma sum_list_nonneg_elem:
  fixes g :: "'r \<Rightarrow> int"
  shows "r \<in> set rows \<Longrightarrow> (\<And>x. x \<in> set rows \<Longrightarrow> 0 \<le> g x) \<Longrightarrow> g r \<le> sum_list (map g rows)"
proof (induction rows)
  case Nil
  then show ?case by simp
next
  case (Cons x rows)
  have "0 \<le> sum_list (map g rows)"
    using Cons.prems(2) by (intro sum_list_nonneg) auto
  moreover have "0 \<le> g x" using Cons.prems(2) by simp
  ultimately show ?case using Cons by (cases "r = x") force+
qed

section \<open>Operation systems\<close>

text \<open>
  Running a list of operations and collecting their results: the calls of several
  clients, in the order in which the server executes them.
\<close>

fun run_ops :: "('op \<Rightarrow> 's \<Rightarrow> 's \<times> 'r) \<Rightarrow> 'op list \<Rightarrow> 's \<Rightarrow> 's \<times> ('op \<times> 'r) list" where
  "run_ops app [] s = (s, [])"
| "run_ops app (x # xs) s =
     (let (s', r) = app x s; (s'', rs) = run_ops app xs s' in (s'', (x, r) # rs))"

text \<open>An interface whose operations all keep an invariant.\<close>

locale op_system =
  fixes app :: "'op \<Rightarrow> 's \<Rightarrow> 's \<times> 'r"
    and ok :: "'op \<Rightarrow> bool"
    and inv :: "'s \<Rightarrow> bool"
  assumes inv_step: "inv s \<Longrightarrow> ok x \<Longrightarrow> inv (fst (app x s))"
begin

lemma inv_run:
  "inv s \<Longrightarrow> (\<And>x. x \<in> set xs \<Longrightarrow> ok x) \<Longrightarrow> inv (fst (run_ops app xs s))"
proof (induction xs arbitrary: s)
  case Nil
  then show ?case by simp
next
  case (Cons x xs)
  from inv_step [OF Cons.prems(1)] Cons.prems(2)
  have "inv (fst (app x s))" by simp
  from Cons.IH [OF this] Cons.prems(2) show ?case
    by (auto simp: split_def Let_def)
qed

text \<open>What holds of the result of every allowed call holds of every entry of the log.\<close>

lemma results_run:
  assumes "\<And>s x. inv s \<Longrightarrow> ok x \<Longrightarrow> good x (snd (app x s))"
    and "inv s" and "\<And>x. x \<in> set xs \<Longrightarrow> ok x" and "(x, r) \<in> set (snd (run_ops app xs s))"
  shows "good x r"
  using assms(2-4)
proof (induction xs arbitrary: s)
  case Nil
  then show ?case by simp
next
  case (Cons y ys)
  have oky: "ok y" using Cons.prems(2) by simp
  consider "x = y" "r = snd (app y s)" | "(x, r) \<in> set (snd (run_ops app ys (fst (app y s))))"
    using Cons.prems(3) by (auto simp: split_def Let_def)
  then show ?case
  proof cases
    case 1
    then show ?thesis using assms(1) [OF Cons.prems(1) oky] by simp
  next
    case 2
    then show ?thesis
      using Cons.IH [OF inv_step [OF Cons.prems(1) oky]] Cons.prems(2) by simp
  qed
qed

end

text \<open>
  An interface that grants a resource at most once per key: success needs the key to be
  open, closes it, and nothing opens a closed key again.
\<close>

locale at_most_once = op_system +
  fixes key :: "'op \<Rightarrow> 'k"
    and success :: "'r \<Rightarrow> bool"
    and closed :: "'k \<Rightarrow> 's \<Rightarrow> bool"
  assumes success_needs_open:
      "inv s \<Longrightarrow> ok x \<Longrightarrow> success (snd (app x s)) \<Longrightarrow> \<not> closed (key x) s"
    and success_closes:
      "inv s \<Longrightarrow> ok x \<Longrightarrow> success (snd (app x s)) \<Longrightarrow> closed (key x) (fst (app x s))"
    and closed_stable: "inv s \<Longrightarrow> ok x \<Longrightarrow> closed k s \<Longrightarrow> closed k (fst (app x s))"
begin

lemma closed_no_success:
  "inv s \<Longrightarrow> closed k s \<Longrightarrow> (\<And>x. x \<in> set xs \<Longrightarrow> ok x) \<Longrightarrow>
   length (filter (\<lambda>(x, r). key x = k \<and> success r) (snd (run_ops app xs s))) = 0"
proof (induction xs arbitrary: s)
  case Nil
  then show ?case by simp
next
  case (Cons x xs)
  have okx: "ok x" using Cons.prems(3) by simp
  have "\<not> (key x = k \<and> success (snd (app x s)))"
    using success_needs_open [OF Cons.prems(1) okx] Cons.prems(2) by blast
  moreover have "closed k (fst (app x s))"
    using closed_stable [OF Cons.prems(1) okx Cons.prems(2)] .
  moreover have "inv (fst (app x s))" using inv_step [OF Cons.prems(1) okx] .
  ultimately show ?case
    using Cons.IH [of "fst (app x s)"] Cons.prems(3)
    by (auto simp: split_def Let_def)
qed

theorem at_most_one_success:
  "inv s \<Longrightarrow> (\<And>x. x \<in> set xs \<Longrightarrow> ok x) \<Longrightarrow>
   length (filter (\<lambda>(x, r). key x = k \<and> success r) (snd (run_ops app xs s))) \<le> 1"
proof (induction xs arbitrary: s)
  case Nil
  then show ?case by simp
next
  case (Cons x xs)
  have okx: "ok x" using Cons.prems(2) by simp
  have inv': "inv (fst (app x s))" using inv_step [OF Cons.prems(1) okx] .
  show ?case
  proof (cases "key x = k \<and> success (snd (app x s))")
    case True
    then have "closed k (fst (app x s))"
      using success_closes [OF Cons.prems(1) okx] by blast
    from closed_no_success [OF inv' this] Cons.prems(2)
    show ?thesis by (auto simp: split_def Let_def)
  next
    case False
    with Cons.IH [OF inv'] Cons.prems(2) show ?thesis
      by (auto simp: split_def Let_def)
  qed
qed

end

text \<open>
  An interface that moves an integer balance: every call changes it by an amount that
  its result reports.
\<close>

locale ledger = op_system +
  fixes balance :: "'s \<Rightarrow> int"
    and delta :: "'op \<Rightarrow> 'r \<Rightarrow> int"
  assumes balance_step:
    "inv s \<Longrightarrow> ok x \<Longrightarrow> balance (fst (app x s)) = balance s + delta x (snd (app x s))"
begin

lemma balance_run:
  "inv s \<Longrightarrow> (\<And>x. x \<in> set xs \<Longrightarrow> ok x) \<Longrightarrow>
   balance (fst (run_ops app xs s)) =
     balance s + sum_list (map (\<lambda>(x, r). delta x r) (snd (run_ops app xs s)))"
proof (induction xs arbitrary: s)
  case Nil
  then show ?case by simp
next
  case (Cons x xs)
  have okx: "ok x" using Cons.prems(2) by simp
  from Cons.IH [OF inv_step [OF Cons.prems(1) okx]] Cons.prems(2)
    balance_step [OF Cons.prems(1) okx]
  show ?case by (auto simp: split_def Let_def)
qed

end

end
