(* ===== verification/Domain.thy ===== *)
theory Domain
  imports Prelude "HOL-Library.List_Lexorder" "HOL-Library.Char_ord" Complex_Main
begin

text \<open>
  The persistent data of the backend: the enums and models of
  \<open>backend/prisma/schema.prisma\<close> (records with the columns the code reads or writes, each
  prefixed by its model), the values kept in Redis, the jobs put on the BullMQ queues, and
  the one \<open>world\<close> that all services share.

  \<^item> A column that no modelled operation reads or writes (\<open>updatedAt\<close> of most
    models) is left out.  Rows are kept in insertion order, so an
    \<open>orderBy createdAt\<close> is the list order or its reverse.
  \<^item> Order items are nested in their order, as the code always reads and writes them
    together with it.
  \<^item> The cryptographic functions of node are the fields of a record that every operation
    using them takes as an argument; nothing is assumed of them here.
\<close>

section \<open>Enums of the schema\<close>

datatype Role = CUSTOMER | ORGANIZER | STAFF | ADMIN

datatype ConcertStatus =
  DRAFT | PUBLISHED | SALE_OPEN | SALE_CLOSED | CONCERT_CANCELLED | COMPLETED

datatype TicketTypeStatus = ACTIVE | INACTIVE | SOLD_OUT

datatype OrderStatus =
  PENDING_PAYMENT | PAID | EXPIRED | ORDER_CANCELLED | PAYMENT_FAILED | ORDER_REFUNDED

datatype PaymentProvider = MOCK | MOMO | VNPAY

datatype PaymentStatus = INITIATED | PAY_SUCCESS | PAY_FAILED | PAY_TIMEOUT | PAY_CANCELLED

datatype TicketStatus = ISSUED | CHECKED_IN | TICKET_CANCELLED | TICKET_REFUNDED

datatype CheckinStatus =
    CHECKIN_SUCCESS
  | INVALID_TICKET
  | ALREADY_CHECKED_IN
  | OFFLINE_PENDING
  | REJECTED_CONFLICT
  | GATE_MISMATCH

text \<open>
  The life cycle of an order as an order relation: an order leaves
  \<open>PENDING_PAYMENT\<close> at most once, and every other status is final.  Monotonicity in this
  relation is what the handlers of the order and payment services promise.
\<close>

instantiation OrderStatus :: order
begin

definition less_eq_OrderStatus :: "OrderStatus \<Rightarrow> OrderStatus \<Rightarrow> bool" where
  "less_eq_OrderStatus s t \<longleftrightarrow> s = t \<or> s = PENDING_PAYMENT"

definition less_OrderStatus :: "OrderStatus \<Rightarrow> OrderStatus \<Rightarrow> bool" where
  "less_OrderStatus s t \<longleftrightarrow> s = PENDING_PAYMENT \<and> t \<noteq> PENDING_PAYMENT"

instance
  by standard (auto simp: less_eq_OrderStatus_def less_OrderStatus_def)

end

lemma OrderStatus_le_iff [simp]:
  "(s :: OrderStatus) \<le> t \<longleftrightarrow> s = t \<or> s = PENDING_PAYMENT"
  by (simp add: less_eq_OrderStatus_def)

section \<open>Models of the schema\<close>

record user =
  u_id :: id
  u_email :: string
  u_phone :: "string option"
  u_passwordHash :: string
  u_fullName :: "string option"
  u_role :: Role
  u_createdAt :: time

record concert =
  c_id :: id
  c_organizerId :: id
  c_title :: string
  c_slug :: string
  c_description :: "string option"
  c_artistBio :: "string option"
  c_venue :: string
  c_startsAt :: time
  c_saleStartsAt :: "time option"
  c_saleEndsAt :: "time option"
  c_status :: ConcertStatus
  c_seatMapUrl :: "string option"
  c_coverImageUrl :: "string option"
  c_reminderJobId :: "string option"
  c_createdAt :: time
  c_updatedAt :: time

record ticket_type =
  tt_id :: id
  tt_concertId :: id
  tt_name :: string
  tt_price :: int
  tt_totalQty :: int
  tt_soldQty :: int
  tt_reservedQty :: int
  tt_maxPerUser :: int
  tt_saleStartsAt :: time
  tt_saleEndsAt :: "time option"
  tt_status :: TicketTypeStatus

record user_ticket_counter =
  uc_userId :: id
  uc_ticketTypeId :: id
  uc_paidQty :: int
  uc_reservedQty :: int

record order_item =
  oi_id :: id
  oi_ticketTypeId :: id
  oi_quantity :: int
  oi_unitPrice :: int
  oi_subtotal :: int

record order =
  o_id :: id
  o_userId :: id
  o_concertId :: id
  o_status :: OrderStatus
  o_totalAmountInVnd :: int
  o_currency :: string
  o_expiresAt :: "time option"
  o_paidAt :: "time option"
  o_cancelledAt :: "time option"
  o_inventoryReleasedAt :: "time option"
  o_releaseReason :: "string option"
  o_items :: "order_item list"
  o_createdAt :: time

datatype MockPaymentResult = RESULT_SUCCESS | RESULT_FAILED | RESULT_TIMEOUT

record mock_webhook_dto =
  wh_orderId :: id
  wh_providerTransactionId :: string
  wh_result :: MockPaymentResult
  wh_amount :: int
  wh_signature :: string

text \<open>The JSON column \<open>rawWebhook\<close>: a stored webhook, or the marker the cron job writes.\<close>

datatype raw_webhook = RawDto mock_webhook_dto | RawCron string

record payment =
  p_id :: id
  p_orderId :: id
  p_provider :: PaymentProvider
  p_status :: PaymentStatus
  p_amount :: int
  p_providerTransactionId :: "string option"
  p_paymentUrl :: "string option"
  p_rawWebhook :: "raw_webhook option"
  p_receivedAt :: "time option"

record ticket =
  t_id :: id
  t_orderId :: id
  t_orderItemId :: id
  t_concertId :: id
  t_ticketTypeId :: id
  t_userId :: id
  t_gateId :: "string option"
  t_qrRawToken :: string
  t_qrTokenHash :: string
  t_qrSignature :: "string option"
  t_status :: TicketStatus
  t_checkedInAt :: "time option"
  t_createdAt :: time

record gate =
  g_id :: id
  g_name :: string
  g_concertId :: id
  g_createdAt :: time

record checkin_log =
  l_ticketId :: "id option"
  l_staffId :: id
  l_concertId :: "id option"
  l_deviceId :: string
  l_gate :: "string option"
  l_offlineEventId :: "string option"
  l_status :: CheckinStatus
  l_reason :: "string option"
  l_isOffline :: bool
  l_conflict :: bool
  l_scannedAt :: time
  l_syncedAt :: "time option"

record guest =
  gl_id :: id
  gl_concertId :: id
  gl_fullName :: string
  gl_email :: "string option"
  gl_phone :: "string option"
  gl_sponsorName :: "string option"
  gl_sourceFile :: "string option"
  gl_createdAt :: time

record uploaded_file =
  uf_id :: id
  uf_concertId :: "id option"
  uf_objectKey :: string
  uf_fileName :: string
  uf_mimeType :: string
  uf_purpose :: string
  uf_status :: string
  uf_errorMessage :: "string option"
  uf_createdAt :: time

section \<open>Values kept in Redis\<close>

text \<open>The JSON record that \<open>reserve-ticket.lua\<close> writes under \<open>reservation:{orderId}\<close>.\<close>

record reservation =
  r_order_id :: id
  r_user_id :: id
  r_ticket_type_id :: id
  r_quantity :: int
  r_created_at :: int

datatype ZoneStatus = ZONE_AVAILABLE | ZONE_RESERVED | ZONE_SOLD_OUT

record zone_availability =
  zoneId :: id
  zoneName :: string
  availableCount :: int
  reservedCount :: int
  soldCount :: int
  zoneStatus :: ZoneStatus

datatype IdemStatus = IDEM_PROCESSING | IDEM_COMPLETED | IDEM_FAILED

record idempotency_record =
  ir_status :: IdemStatus
  ir_requestHash :: string
  ir_responseBody :: "string option"

text \<open>The concert answers that \<open>concert.service.ts\<close> caches, with their summaries.\<close>

record ticket_type_summary =
  ts_id :: id
  ts_name :: string
  ts_price :: int
  ts_totalQty :: int
  ts_soldQty :: int
  ts_reservedQty :: int
  ts_maxPerUser :: int
  ts_status :: TicketTypeStatus
  ts_saleStartsAt :: time
  ts_saleEndsAt :: "time option"

record uploaded_file_summary =
  fs_id :: id
  fs_concertId :: "id option"
  fs_originalName :: string
  fs_objectKey :: string
  fs_mimeType :: string
  fs_sizeBytes :: int
  fs_purpose :: string
  fs_status :: string
  fs_errorMessage :: "string option"
  fs_createdAt :: time

record organizer_summary =
  os_id :: id
  os_fullName :: "string option"
  os_email :: string

record concert_response =
  cr_id :: id
  cr_title :: string
  cr_slug :: string
  cr_description :: "string option"
  cr_artistBio :: "string option"
  cr_venue :: string
  cr_startsAt :: time
  cr_saleStartsAt :: "time option"
  cr_saleEndsAt :: "time option"
  cr_status :: ConcertStatus
  cr_seatMapUrl :: "string option"
  cr_coverImageUrl :: "string option"
  cr_organizerId :: id
  cr_organizerName :: "string option"
  cr_createdAt :: time
  cr_updatedAt :: time
  cr_ticketTypes :: "ticket_type_summary list option"
  cr_organizer :: "organizer_summary option"
  cr_uploadedFiles :: "uploaded_file_summary list option"

record concert_list_response =
  cl_data :: "concert_response list"
  cl_total :: nat
  cl_page :: nat
  cl_limit :: nat
  cl_totalPages :: nat

text \<open>
  A Redis value: an integer counter, one of the JSON documents the services store (as the
  value that \<open>JSON.parse\<close> gives back), or the hash of a token bucket.
\<close>

datatype rval =
    RInt int
  | RReservation reservation
  | RZones "zone_availability list"
  | RIdem idempotency_record
  | RBucket rat rat
  | RConcert concert_response
  | RConcertList concert_list_response
  | RText string

type_synonym redis = "string \<Rightarrow> (rval \<times> time option) option"

section \<open>Queues, messages and the shared state\<close>

datatype job =
    ExpireJob id int             \<comment> \<open>order, delay in milliseconds\<close>
  | IssueTicketJob id            \<comment> \<open>order\<close>
  | OrderPaidEmailJob id id      \<comment> \<open>order, user\<close>
  | CsvImportJob id id string    \<comment> \<open>concert, uploaded file, object key\<close>
  | AiBioJob id id string        \<comment> \<open>concert, uploaded file, object key\<close>

text \<open>
  A delayed job of the notification queue that has an identifier of its own.  BullMQ keeps a
  failed job under its identifier, ignores an addition under one that is taken, and does not
  remove a job that a worker holds.
\<close>

datatype job_state = JOB_DELAYED | JOB_WAITING | JOB_ACTIVE | JOB_COMPLETED | JOB_FAILED

record reminder_job =
  rj_id :: string
  rj_concertId :: id
  rj_delay :: int
  rj_state :: job_state

record zone_update_payload =
  zu_ticketTypeId :: id
  zu_zoneId :: id
  zu_oldStatus :: ZoneStatus
  zu_newStatus :: ZoneStatus
  zu_availableCount :: int
  zu_timestamp :: time

record world =
  users :: "user list"
  concerts :: "concert list"
  ticketTypes :: "ticket_type list"
  counters :: "user_ticket_counter list"
  orders :: "order list"
  payments :: "payment list"
  tickets :: "ticket list"
  gates :: "gate list"
  checkinLogs :: "checkin_log list"
  redisdb :: redis
  jobs :: "job list"
  broadcasts :: "(string \<times> zone_update_payload) list" \<comment> \<open>room, payload\<close>
  guestListEntries :: "guest list"
  uploadedFiles :: "uploaded_file list"
  reminderJobs :: "reminder_job list"

type_synonym 'a handler = "world \<Rightarrow> (world, 'a) outcome"

text \<open>The node \<open>crypto\<close> functions the services call: SHA-256 and HMAC-SHA-256 in hex.\<close>

record crypto =
  sha256 :: "string \<Rightarrow> string"
  hmac256 :: "string \<Rightarrow> string \<Rightarrow> string"

section \<open>Table operations the services share\<close>

definition find_order :: "id \<Rightarrow> world \<Rightarrow> order option" where
  "find_order i w = find_row o_id i (orders w)"

definition find_ticket_type :: "id \<Rightarrow> world \<Rightarrow> ticket_type option" where
  "find_ticket_type i w = find_row tt_id i (ticketTypes w)"

definition find_concert :: "id \<Rightarrow> world \<Rightarrow> concert option" where
  "find_concert i w = find_row c_id i (concerts w)"

definition find_ticket :: "id \<Rightarrow> world \<Rightarrow> ticket option" where
  "find_ticket i w = find_row t_id i (tickets w)"

definition counter_key :: "user_ticket_counter \<Rightarrow> id \<times> id" where
  "counter_key c = (uc_userId c, uc_ticketTypeId c)"

definition find_counter :: "id \<Rightarrow> id \<Rightarrow> world \<Rightarrow> user_ticket_counter option" where
  "find_counter u tt w = find_row counter_key (u, tt) (counters w)"

definition find_user :: "id \<Rightarrow> world \<Rightarrow> user option" where
  "find_user i w = find_row u_id i (users w)"

text \<open>\<open>prisma.<model>.update\<close>: an error when the row does not exist.\<close>

definition update_order :: "id \<Rightarrow> (order \<Rightarrow> order) \<Rightarrow> unit handler" where
  "update_order i f w =
     (case find_order i w of
        None \<Rightarrow> (w, Inl (RecordNotFound ''Order''))
      | Some _ \<Rightarrow> (w\<lparr>orders := update_where (\<lambda>r. o_id r = i) f (orders w)\<rparr>, Inr ()))"

definition update_ticket_type :: "id \<Rightarrow> (ticket_type \<Rightarrow> ticket_type) \<Rightarrow> unit handler" where
  "update_ticket_type i f w =
     (case find_ticket_type i w of
        None \<Rightarrow> (w, Inl (RecordNotFound ''TicketType''))
      | Some _ \<Rightarrow> (w\<lparr>ticketTypes := update_where (\<lambda>r. tt_id r = i) f (ticketTypes w)\<rparr>, Inr ()))"

definition update_counter ::
  "id \<Rightarrow> id \<Rightarrow> (user_ticket_counter \<Rightarrow> user_ticket_counter) \<Rightarrow> unit handler" where
  "update_counter u tt f w =
     (case find_counter u tt w of
        None \<Rightarrow> (w, Inl (RecordNotFound ''UserTicketCounter''))
      | Some _ \<Rightarrow>
          (w\<lparr>counters := update_where (\<lambda>r. counter_key r = (u, tt)) f (counters w)\<rparr>, Inr ()))"

text \<open>\<open>prisma.userTicketCounter.upsert\<close>: update the row, or create it.\<close>

definition upsert_counter ::
  "user_ticket_counter \<Rightarrow> (user_ticket_counter \<Rightarrow> user_ticket_counter) \<Rightarrow> world \<Rightarrow> world" where
  "upsert_counter new f w =
     (case find_row counter_key (counter_key new) (counters w) of
        None \<Rightarrow> w\<lparr>counters := counters w @ [new]\<rparr>
      | Some _ \<Rightarrow>
          w\<lparr>counters := update_where (\<lambda>r. counter_key r = counter_key new) f (counters w)\<rparr>)"

text \<open>
  \<open>prisma.order.delete\<close>.  The foreign keys of \<open>OrderItem\<close>, \<open>PaymentTransaction\<close> and
  \<open>Ticket\<close> on \<open>Order\<close> are \<open>ON DELETE RESTRICT\<close> in the migration, so the delete is refused
  while such a row exists.
\<close>

definition delete_order :: "id \<Rightarrow> unit handler" where
  "delete_order i w =
     (case find_order i w of
        None \<Rightarrow> (w, Inl (RecordNotFound ''Order''))
      | Some ord \<Rightarrow>
          if o_items ord \<noteq> [] \<or> (\<exists>p \<in> set (payments w). p_orderId p = i)
             \<or> (\<exists>t \<in> set (tickets w). t_orderId t = i)
          then (w, Inl (ForeignKeyViolation ''Order''))
          else (w\<lparr>orders := delete_where (\<lambda>r. o_id r = i) (orders w)\<rparr>, Inr ()))"

text \<open>
  \<open>prisma.$transaction\<close>: the body runs on the tables and is undone when it throws.  No
  transaction of the program touches Redis, a queue or a socket.
\<close>

definition transaction :: "'a handler \<Rightarrow> 'a handler" where
  "transaction body w = (case body w of (w', Inl e) \<Rightarrow> (w, Inl e) | (w', Inr x) \<Rightarrow> (w', Inr x))"

text \<open>
  \<open>Promise.all\<close> over calls of one server: all of them run, in list order, and the first
  exception is the result.
\<close>

fun promise_all :: "unit handler list \<Rightarrow> unit handler" where
  "promise_all [] w = (w, Inr ())"
| "promise_all (h # hs) w =
     (case h w of
        (w', Inl e) \<Rightarrow> (fst (promise_all hs w'), Inl e)
      | (w', Inr _) \<Rightarrow> promise_all hs w')"

lemma transaction_Inr [simp]: "body w = (w', Inr x) \<Longrightarrow> transaction body w = (w', Inr x)"
  by (simp add: transaction_def)

lemma transaction_Inl [simp]: "body w = (w', Inl e) \<Longrightarrow> transaction body w = (w, Inl e)"
  by (simp add: transaction_def)

section \<open>Handlers that keep a predicate\<close>

text \<open>
  \<open>keeps P h\<close>: handler \<open>h\<close> leads from \<open>P\<close> to \<open>P\<close> whether it returns or throws.  The rules
  follow the ways in which the services are put together.
\<close>

definition keeps :: "(world \<Rightarrow> bool) \<Rightarrow> 'a handler \<Rightarrow> bool" where
  "keeps P h \<longleftrightarrow> (\<forall>w. P w \<longrightarrow> P (fst (h w)))"

named_theorems keeps_intros \<open>rules that build up \<open>keeps\<close>\<close>

lemma keepsI: "(\<And>w. P w \<Longrightarrow> P (fst (h w))) \<Longrightarrow> keeps P h"
  by (simp add: keeps_def)

lemma keepsD: "keeps P h \<Longrightarrow> P w \<Longrightarrow> P (fst (h w))"
  by (simp add: keeps_def)

lemma keeps_promise_all [keeps_intros]:
  "(\<And>h. h \<in> set hs \<Longrightarrow> keeps P h) \<Longrightarrow> keeps P (promise_all hs)"
proof (rule keepsI)
  fix w
  show "(\<And>h. h \<in> set hs \<Longrightarrow> keeps P h) \<Longrightarrow> P w \<Longrightarrow> P (fst (promise_all hs w))"
  proof (induction hs arbitrary: w)
    case Nil
    then show ?case by simp
  next
    case (Cons h hs)
    obtain w' r where h: "h w = (w', r)" by (cases "h w")
    then have "P w'" using keepsD [OF Cons.prems(1), of h w] Cons.prems(2) by simp
    then show ?case using Cons h by (cases r) auto
  qed
qed

lemma keeps_forE [keeps_intros]:
  "(\<And>x. x \<in> set xs \<Longrightarrow> keeps P (f x)) \<Longrightarrow> keeps P (forE xs f)"
proof (rule keepsI)
  fix w
  assume keeps: "\<And>x. x \<in> set xs \<Longrightarrow> keeps P (f x)" and "P w"
  then show "P (fst (forE xs f w))"
    by (intro forE_invariant [where P = P] \<open>P w\<close>) (rule keepsD [OF keeps])
qed

lemma keeps_transaction [keeps_intros]: "keeps P h \<Longrightarrow> keeps P (transaction h)"
proof (rule keepsI)
  fix w
  assume "keeps P h" "P w"
  obtain w' r where "h w = (w', r)" by (cases "h w")
  with keepsD [OF \<open>keeps P h\<close> \<open>P w\<close>] \<open>P w\<close> show "P (fst (transaction h w))"
    by (cases r) simp_all
qed

lemma keeps_bindE:
  assumes "P (fst m)" and "\<And>w x. m = (w, Inr x) \<Longrightarrow> P w \<Longrightarrow> P (fst (f w x))"
  shows "P (fst (bindE m f))"
  using assms by (cases m; cases "snd m") auto

lemma fst_transaction_cases: "fst (transaction h w) = w \<or> fst (transaction h w) = fst (h w)"
  by (auto simp: transaction_def split: prod.splits sum.splits)

text \<open>An empty database, from which the concrete states of the examples are built.\<close>

definition empty_world :: world where
  "empty_world =
     \<lparr>users = [], concerts = [], ticketTypes = [], counters = [], orders = [], payments = [],
      tickets = [], gates = [], checkinLogs = [], redisdb = (\<lambda>_. None), jobs = [],
      broadcasts = [], guestListEntries = [], uploadedFiles = [], reminderJobs = []\<rparr>"

end
