(* ===== verification/Redis_Store.thy ===== *)
theory Redis_Store
  imports Domain
begin

text \<open>
  Redis as the backend uses it: the key builders of \<open>redis-keys.ts\<close>, the commands GET,
  SET, SET NX, DEL, EXISTS, INCRBY with key expiry, the two Lua scripts that reserve and
  release tickets, and the methods of \<open>redis.service.ts\<close> that run them.

  \<^item> The server is a map from keys to values with an optional expiry instant; a key is
    visible at \<open>now\<close> iff \<open>now\<close> is not past its expiry.
  \<^item> A script is a function of the state and the server clock (it runs without
    interleaving); its result is one of the errors it returns or the success record.
  \<^item> An abstract inventory (stock per ticket type, held tickets per user, live holds per
    order) specifies what the two scripts do; the scripts refine it.
\<close>

section \<open>Keys\<close>

definition REDIS_KEY_STOCK :: "id \<Rightarrow> string" where
  "REDIS_KEY_STOCK ticketTypeId = ''stock:'' @ ticketTypeId"

definition REDIS_KEY_USER_LIMIT :: "id \<Rightarrow> id \<Rightarrow> string" where
  "REDIS_KEY_USER_LIMIT userId ticketTypeId = ''user_limit:'' @ userId @ '':'' @ ticketTypeId"

definition REDIS_KEY_RESERVATION :: "id \<Rightarrow> string" where
  "REDIS_KEY_RESERVATION orderId = ''reservation:'' @ orderId"

definition REDIS_KEY_CONCERT_LIST :: string where
  "REDIS_KEY_CONCERT_LIST = ''cache:concert:list''"

definition REDIS_KEY_CONCERT_DETAIL :: "id \<Rightarrow> string" where
  "REDIS_KEY_CONCERT_DETAIL concertId = ''cache:concert:detail:'' @ concertId"

definition zoneAvailabilityCacheKey :: "id \<Rightarrow> id \<Rightarrow> string" where
  "zoneAvailabilityCacheKey concertId ticketTypeId =
     ''seatmap:'' @ concertId @ '':'' @ ticketTypeId @ '':zones''"

lemmas key_defs =
  REDIS_KEY_STOCK_def REDIS_KEY_USER_LIMIT_def REDIS_KEY_RESERVATION_def
  REDIS_KEY_CONCERT_LIST_def REDIS_KEY_CONCERT_DETAIL_def zoneAvailabilityCacheKey_def

lemma keys_disjoint [simp]:
  "REDIS_KEY_STOCK tt \<noteq> REDIS_KEY_USER_LIMIT u tt'"
  "REDIS_KEY_USER_LIMIT u tt' \<noteq> REDIS_KEY_STOCK tt"
  "REDIS_KEY_STOCK tt \<noteq> REDIS_KEY_RESERVATION ord"
  "REDIS_KEY_RESERVATION ord \<noteq> REDIS_KEY_STOCK tt"
  "REDIS_KEY_USER_LIMIT u tt \<noteq> REDIS_KEY_RESERVATION ord"
  "REDIS_KEY_RESERVATION ord \<noteq> REDIS_KEY_USER_LIMIT u tt"
  "REDIS_KEY_CONCERT_LIST \<noteq> REDIS_KEY_STOCK tt"
  "REDIS_KEY_CONCERT_LIST \<noteq> REDIS_KEY_USER_LIMIT u tt"
  "REDIS_KEY_CONCERT_LIST \<noteq> REDIS_KEY_RESERVATION ord"
  "REDIS_KEY_CONCERT_DETAIL c \<noteq> REDIS_KEY_STOCK tt"
  "REDIS_KEY_CONCERT_DETAIL c \<noteq> REDIS_KEY_USER_LIMIT u tt"
  "REDIS_KEY_CONCERT_DETAIL c \<noteq> REDIS_KEY_RESERVATION ord"
  "REDIS_KEY_STOCK tt \<noteq> REDIS_KEY_CONCERT_LIST"
  "REDIS_KEY_USER_LIMIT u tt \<noteq> REDIS_KEY_CONCERT_LIST"
  "REDIS_KEY_RESERVATION ord \<noteq> REDIS_KEY_CONCERT_LIST"
  "REDIS_KEY_STOCK tt \<noteq> REDIS_KEY_CONCERT_DETAIL c"
  "REDIS_KEY_USER_LIMIT u tt \<noteq> REDIS_KEY_CONCERT_DETAIL c"
  "REDIS_KEY_RESERVATION ord \<noteq> REDIS_KEY_CONCERT_DETAIL c"
  "zoneAvailabilityCacheKey c tt' \<noteq> REDIS_KEY_STOCK tt"
  "zoneAvailabilityCacheKey c tt' \<noteq> REDIS_KEY_USER_LIMIT u tt"
  "zoneAvailabilityCacheKey c tt' \<noteq> REDIS_KEY_RESERVATION ord"
  "REDIS_KEY_STOCK tt \<noteq> zoneAvailabilityCacheKey c tt'"
  "REDIS_KEY_USER_LIMIT u tt \<noteq> zoneAvailabilityCacheKey c tt'"
  "REDIS_KEY_RESERVATION ord \<noteq> zoneAvailabilityCacheKey c tt'"
  by (simp_all add: key_defs)

lemma keys_inject [simp]:
  "REDIS_KEY_STOCK tt = REDIS_KEY_STOCK tt' \<longleftrightarrow> tt = tt'"
  "REDIS_KEY_RESERVATION ord = REDIS_KEY_RESERVATION ord' \<longleftrightarrow> ord = ord'"
  by (simp_all add: key_defs)

text \<open>
  The per-user key joins two identifiers with a colon, so it separates them only for user
  identifiers without a colon (UUIDs).
\<close>

definition colon_free :: "string \<Rightarrow> bool" where
  "colon_free s \<longleftrightarrow> CHR '':'' \<notin> set s"

lemma append_sep_inject:
  "x \<notin> set us \<Longrightarrow> x \<notin> set us' \<Longrightarrow> us @ x # ts = us' @ x # ts' \<longleftrightarrow> us = us' \<and> ts = ts'"
  proof (induction us arbitrary: us')
  case Nil
  then show ?case by (cases us') auto
next
  case (Cons a us)
  then show ?case by (cases us') auto
qed

lemma user_key_inject [simp]:
  "colon_free u \<Longrightarrow> colon_free u' \<Longrightarrow>
   REDIS_KEY_USER_LIMIT u tt = REDIS_KEY_USER_LIMIT u' tt' \<longleftrightarrow> u = u' \<and> tt = tt'"
  by (simp add: key_defs colon_free_def append_sep_inject)

section \<open>Commands\<close>

definition alive :: "time \<Rightarrow> time option \<Rightarrow> bool" where
  "alive now e = (case e of None \<Rightarrow> True | Some t \<Rightarrow> now \<le> t)"

definition redis_live :: "time \<Rightarrow> string \<Rightarrow> redis \<Rightarrow> (rval \<times> time option) option" where
  "redis_live now k r =
     (case r k of None \<Rightarrow> None | Some (v, e) \<Rightarrow> if alive now e then Some (v, e) else None)"

definition redis_get :: "time \<Rightarrow> string \<Rightarrow> redis \<Rightarrow> rval option" where
  "redis_get now k r = map_option fst (redis_live now k r)"

definition redis_set :: "time \<Rightarrow> string \<Rightarrow> rval \<Rightarrow> int option \<Rightarrow> redis \<Rightarrow> redis" where
  "redis_set now k v ttlSeconds r =
     r(k \<mapsto> (v, map_option (\<lambda>s. now + s * 1000) ttlSeconds))"

definition redis_del :: "string \<Rightarrow> redis \<Rightarrow> redis" where
  "redis_del k r = r(k := None)"

definition redis_exists :: "time \<Rightarrow> string \<Rightarrow> redis \<Rightarrow> bool" where
  "redis_exists now k r \<longleftrightarrow> redis_live now k r \<noteq> None"

definition redis_setNx :: "time \<Rightarrow> string \<Rightarrow> rval \<Rightarrow> redis \<Rightarrow> redis \<times> bool" where
  "redis_setNx now k v r =
     (if redis_exists now k r then (r, False) else (redis_set now k v None r, True))"

text \<open>GET followed by Lua's \<open>tonumber\<close>; a missing key counts as 0, as in both scripts.\<close>

definition redis_int :: "time \<Rightarrow> string \<Rightarrow> redis \<Rightarrow> int" where
  "redis_int now k r = (case redis_get now k r of Some (RInt n) \<Rightarrow> n | _ \<Rightarrow> 0)"

text \<open>INCRBY (DECRBY with a negated amount): keeps the expiry of a live key.\<close>

definition redis_incrby :: "time \<Rightarrow> string \<Rightarrow> int \<Rightarrow> redis \<Rightarrow> redis \<times> int" where
  "redis_incrby now k d r =
     (let n = redis_int now k r + d;
          e = (case redis_live now k r of Some (_, e) \<Rightarrow> e | None \<Rightarrow> None)
      in (r(k \<mapsto> (RInt n, e)), n))"

lemma redis_get_set [simp]:
  "redis_get now k (redis_set now' k' v t r) =
     (if k = k'
      then (if alive now (map_option (\<lambda>s. now' + s * 1000) t) then Some v else None)
      else redis_get now k r)"
  by (simp add: redis_get_def redis_live_def redis_set_def)

lemma redis_get_del [simp]:
  "redis_get now k (redis_del k' r) = (if k = k' then None else redis_get now k r)"
  by (simp add: redis_get_def redis_live_def redis_del_def)

lemma redis_get_incrby_other [simp]:
  "k \<noteq> k' \<Longrightarrow> redis_get now k (fst (redis_incrby now' k' d r)) = redis_get now k r"
  by (simp add: redis_get_def redis_live_def redis_incrby_def Let_def)

lemma redis_get_incrby_same [simp]:
  "redis_get now k (fst (redis_incrby now k d r)) = Some (RInt (redis_int now k r + d))"
  by (auto simp: redis_get_def redis_live_def redis_incrby_def Let_def alive_def
      split: option.splits if_splits)

lemma redis_int_incrby [simp]:
  "redis_int now k (fst (redis_incrby now k' d r)) =
     (if k = k' then redis_int now k r + d else redis_int now k r)"
  by (cases "k = k'")
    (auto simp: redis_int_def redis_get_def redis_live_def redis_incrby_def Let_def alive_def
      split: option.splits if_splits rval.splits)

lemma redis_int_set [simp]:
  "redis_int now k (redis_set now' k' v t r) =
     (if k = k'
      then (if alive now (map_option (\<lambda>s. now' + s * 1000) t)
            then (case v of RInt n \<Rightarrow> n | _ \<Rightarrow> 0) else 0)
      else redis_int now k r)"
  by (simp add: redis_int_def)

lemma redis_int_del [simp]:
  "redis_int now k (redis_del k' r) = (if k = k' then 0 else redis_int now k r)"
  by (simp add: redis_int_def)

lemma snd_redis_incrby [simp]: "snd (redis_incrby now k d r) = redis_int now k r + d"
  by (simp add: redis_incrby_def Let_def)

lemma redis_exists_iff: "redis_exists now k r \<longleftrightarrow> redis_get now k r \<noteq> None"
  by (simp add: redis_exists_def redis_get_def)

lemma alive_None [simp]: "alive now None"
  by (simp add: alive_def)

lemma alive_Some [simp]: "alive now (Some t) \<longleftrightarrow> now \<le> t"
  by (simp add: alive_def)

section \<open>The reservation scripts\<close>

record reserve_params =
  rp_ticketTypeId :: id
  rp_userId :: id
  rp_orderId :: id
  rp_quantity :: int
  rp_maxPerUser :: int
  rp_ttlSeconds :: int

record release_params =
  lp_ticketTypeId :: id
  lp_userId :: id
  lp_orderId :: id
  lp_quantity :: int

text \<open>The error codes of the scripts, with the figures their JSON carries.\<close>

datatype lua_error =
    OUT_OF_STOCK int int                       \<comment> \<open>remaining stock, requested\<close>
  | EXCEED_USER_LIMIT int int int int          \<comment> \<open>user has, requested, maximum, can still buy\<close>
  | RESERVATION_ALREADY_EXISTS id
  | RESERVATION_NOT_FOUND id
  | ORDER_ID_MISMATCH id id                    \<comment> \<open>expected, actual\<close>
  | USER_ID_MISMATCH id id
  | TICKET_TYPE_MISMATCH id id
  | QUANTITY_MISMATCH int int

record reserve_success =
  rs_reserved_qty :: int
  rs_new_stock :: int
  rs_new_user_qty :: int
  rs_expires_in_seconds :: int

record release_success =
  ls_released_qty :: int
  ls_new_stock :: int
  ls_new_user_qty :: int

definition reserve_ticket_lua ::
  "time \<Rightarrow> string \<times> string \<times> string \<Rightarrow> int \<times> int \<times> int \<times> id \<times> id \<times> id \<Rightarrow> redis \<Rightarrow>
   redis \<times> (lua_error + reserve_success)" where
  "reserve_ticket_lua now keys argv r =
     (case (keys, argv) of
        ((stockKey, userKey, resKey), (requested_qty, max_per_user, ttl, order_id, user_id, type_id)) \<Rightarrow>
      let current_stock = redis_int now stockKey r;
          user_current_qty = redis_int now userKey r
      in if current_stock < requested_qty
         then (r, Inl (OUT_OF_STOCK current_stock requested_qty))
         else if user_current_qty + requested_qty > max_per_user
         then (r, Inl (EXCEED_USER_LIMIT user_current_qty requested_qty max_per_user
                        (max_per_user - user_current_qty)))
         else if redis_exists now resKey r
         then (r, Inl (RESERVATION_ALREADY_EXISTS order_id))
         else
           let (r1, new_stock) = redis_incrby now stockKey (- requested_qty) r;
               (r2, new_user_qty) = redis_incrby now userKey requested_qty r1;
               reservation_data = \<lparr>r_order_id = order_id, r_user_id = user_id,
                 r_ticket_type_id = type_id, r_quantity = requested_qty,
                 r_created_at = now div 1000\<rparr>;
               r3 = redis_set now resKey (RReservation reservation_data) (Some ttl) r2
           in (r3, Inr \<lparr>rs_reserved_qty = requested_qty, rs_new_stock = new_stock,
                       rs_new_user_qty = new_user_qty, rs_expires_in_seconds = ttl\<rparr>))"

definition release_reservation_lua ::
  "time \<Rightarrow> string \<times> string \<times> string \<Rightarrow> int \<times> id \<times> id \<times> id \<Rightarrow> redis \<Rightarrow>
   redis \<times> (lua_error + release_success)" where
  "release_reservation_lua now keys argv r =
     (case (keys, argv) of
        ((stockKey, userKey, resKey), (requested_release_qty, order_id, user_id, type_id)) \<Rightarrow>
      (case redis_get now resKey r of
         Some (RReservation res) \<Rightarrow>
           if r_order_id res \<noteq> order_id
           then (r, Inl (ORDER_ID_MISMATCH order_id (r_order_id res)))
           else if r_user_id res \<noteq> user_id
           then (r, Inl (USER_ID_MISMATCH user_id (r_user_id res)))
           else if r_ticket_type_id res \<noteq> type_id
           then (r, Inl (TICKET_TYPE_MISMATCH type_id (r_ticket_type_id res)))
           else if r_quantity res \<noteq> requested_release_qty
           then (r, Inl (QUANTITY_MISMATCH requested_release_qty (r_quantity res)))
           else
             let (r1, new_stock) = redis_incrby now stockKey (r_quantity res) r;
                 (r2, user_qty) = redis_incrby now userKey (- r_quantity res) r1;
                 (r3, new_user_qty) =
                   (if user_qty < 0 then (redis_set now userKey (RInt 0) None r2, 0)
                    else (r2, user_qty));
                 r4 = redis_del resKey r3
             in (r4, Inr \<lparr>ls_released_qty = r_quantity res, ls_new_stock = new_stock,
                         ls_new_user_qty = new_user_qty\<rparr>)
       | _ \<Rightarrow> (r, Inl (RESERVATION_NOT_FOUND order_id))))"

definition reserveTicket ::
  "time \<Rightarrow> reserve_params \<Rightarrow> redis \<Rightarrow> redis \<times> (lua_error + reserve_success)" where
  "reserveTicket now params r =
     reserve_ticket_lua now
       (REDIS_KEY_STOCK (rp_ticketTypeId params),
        REDIS_KEY_USER_LIMIT (rp_userId params) (rp_ticketTypeId params),
        REDIS_KEY_RESERVATION (rp_orderId params))
       (rp_quantity params, rp_maxPerUser params, rp_ttlSeconds params,
        rp_orderId params, rp_userId params, rp_ticketTypeId params) r"

definition releaseReservation ::
  "time \<Rightarrow> release_params \<Rightarrow> redis \<Rightarrow> redis \<times> (lua_error + release_success)" where
  "releaseReservation now params r =
     release_reservation_lua now
       (REDIS_KEY_STOCK (lp_ticketTypeId params),
        REDIS_KEY_USER_LIMIT (lp_userId params) (lp_ticketTypeId params),
        REDIS_KEY_RESERVATION (lp_orderId params))
       (lp_quantity params, lp_orderId params, lp_userId params, lp_ticketTypeId params) r"

definition seedStock :: "time \<Rightarrow> id \<Rightarrow> int \<Rightarrow> redis \<Rightarrow> redis" where
  "seedStock now ticketTypeId available r =
     redis_set now (REDIS_KEY_STOCK ticketTypeId) (RInt (max 0 available)) None r"

definition decrementUserLimit :: "time \<Rightarrow> id \<Rightarrow> id \<Rightarrow> int \<Rightarrow> redis \<Rightarrow> redis" where
  "decrementUserLimit now ticketTypeId userId quantity r =
     (let userLimitKey = REDIS_KEY_USER_LIMIT userId ticketTypeId
      in case redis_get now userLimitKey r of
           None \<Rightarrow> r
         | Some _ \<Rightarrow>
             redis_set now userLimitKey
               (RInt (max 0 (redis_int now userLimitKey r - quantity))) None r)"

lemmas script_defs =
  reserveTicket_def releaseReservation_def reserve_ticket_lua_def release_reservation_lua_def

section \<open>What the scripts write\<close>

lemma redis_incrby_apply [simp]:
  "k \<noteq> k' \<Longrightarrow> fst (redis_incrby now k' d r) k = r k"
  by (simp add: redis_incrby_def Let_def)

lemma redis_set_apply [simp]: "k \<noteq> k' \<Longrightarrow> redis_set now k' v t r k = r k"
  by (simp add: redis_set_def)

lemma redis_del_apply [simp]: "redis_del k' r k = (if k = k' then None else r k)"
  by (simp add: redis_del_def)

text \<open>A refused call changes nothing.\<close>

lemma reserveTicket_error: "snd (reserveTicket now p r) = Inl e \<Longrightarrow> fst (reserveTicket now p r) = r"
  by (auto simp: script_defs Let_def split_def split: if_splits)

lemma releaseReservation_error:
  "snd (releaseReservation now p r) = Inl e \<Longrightarrow> fst (releaseReservation now p r) = r"
  by (auto simp: script_defs Let_def split_def split: if_splits option.splits rval.splits)

text \<open>Neither script touches a key other than the three it is given.\<close>

lemma reserveTicket_frame:
  "k \<noteq> REDIS_KEY_STOCK (rp_ticketTypeId p) \<Longrightarrow>
   k \<noteq> REDIS_KEY_USER_LIMIT (rp_userId p) (rp_ticketTypeId p) \<Longrightarrow>
   k \<noteq> REDIS_KEY_RESERVATION (rp_orderId p) \<Longrightarrow> fst (reserveTicket now p r) k = r k"
  by (auto simp: script_defs Let_def split_def)

lemma releaseReservation_frame:
  "k \<noteq> REDIS_KEY_STOCK (lp_ticketTypeId p) \<Longrightarrow>
   k \<noteq> REDIS_KEY_USER_LIMIT (lp_userId p) (lp_ticketTypeId p) \<Longrightarrow>
   k \<noteq> REDIS_KEY_RESERVATION (lp_orderId p) \<Longrightarrow> fst (releaseReservation now p r) k = r k"
  by (auto simp: script_defs Let_def split_def split: option.splits rval.splits)

lemma releaseReservation_missing:
  "redis_get now (REDIS_KEY_RESERVATION (lp_orderId p)) r = None \<Longrightarrow>
   releaseReservation now p r = (r, Inl (RESERVATION_NOT_FOUND (lp_orderId p)))"
  by (simp add: script_defs)

lemma releaseReservation_success_needs_key:
  "snd (releaseReservation now p r) = Inr s \<Longrightarrow> r (REDIS_KEY_RESERVATION (lp_orderId p)) \<noteq> None"
  by (auto simp: script_defs redis_get_def redis_live_def split: option.splits)

lemma releaseReservation_success_deletes:
  "snd (releaseReservation now p r) = Inr s \<Longrightarrow>
   fst (releaseReservation now p r) (REDIS_KEY_RESERVATION (lp_orderId p)) = None"
  by (auto simp: script_defs Let_def split_def split: if_splits option.splits rval.splits)

section \<open>The abstract inventory\<close>

text \<open>
  What the two scripts are for, without keys, expiry or JSON: stock per ticket type,
  tickets held per user and ticket type, and the live hold of each order.
\<close>

record inventory =
  inv_avail :: "id \<Rightarrow> int"
  inv_held :: "id \<Rightarrow> id \<Rightarrow> int"
  inv_hold :: "id \<Rightarrow> reservation option"

definition abs_inventory :: "time \<Rightarrow> redis \<Rightarrow> inventory" where
  "abs_inventory now r =
     \<lparr>inv_avail = (\<lambda>tt. redis_int now (REDIS_KEY_STOCK tt) r),
      inv_held = (\<lambda>u tt. if colon_free u then redis_int now (REDIS_KEY_USER_LIMIT u tt) r else 0),
      inv_hold = (\<lambda>ord. case redis_get now (REDIS_KEY_RESERVATION ord) r of
                    Some (RReservation x) \<Rightarrow> Some x | _ \<Rightarrow> None)\<rparr>"

definition reserve_spec ::
  "time \<Rightarrow> reserve_params \<Rightarrow> inventory \<Rightarrow> inventory \<times> (lua_error + reserve_success)" where
  "reserve_spec now p s =
     (let tt = rp_ticketTypeId p; u = rp_userId p; ord = rp_orderId p; q = rp_quantity p;
          stock = inv_avail s tt; held = inv_held s u tt
      in if stock < q then (s, Inl (OUT_OF_STOCK stock q))
         else if held + q > rp_maxPerUser p
         then (s, Inl (EXCEED_USER_LIMIT held q (rp_maxPerUser p) (rp_maxPerUser p - held)))
         else if inv_hold s ord \<noteq> None then (s, Inl (RESERVATION_ALREADY_EXISTS ord))
         else (s\<lparr>inv_avail := (inv_avail s)(tt := stock - q),
                 inv_held := (inv_held s)(u := (inv_held s u)(tt := held + q)),
                 inv_hold := (inv_hold s)(ord \<mapsto> \<lparr>r_order_id = ord, r_user_id = u,
                   r_ticket_type_id = tt, r_quantity = q, r_created_at = now div 1000\<rparr>)\<rparr>,
               Inr \<lparr>rs_reserved_qty = q, rs_new_stock = stock - q,
                    rs_new_user_qty = held + q, rs_expires_in_seconds = rp_ttlSeconds p\<rparr>))"

definition release_spec ::
  "release_params \<Rightarrow> inventory \<Rightarrow> inventory \<times> (lua_error + release_success)" where
  "release_spec p s =
     (let tt = lp_ticketTypeId p; u = lp_userId p; ord = lp_orderId p; q = lp_quantity p
      in case inv_hold s ord of
           None \<Rightarrow> (s, Inl (RESERVATION_NOT_FOUND ord))
         | Some x \<Rightarrow>
             if r_order_id x \<noteq> ord then (s, Inl (ORDER_ID_MISMATCH ord (r_order_id x)))
             else if r_user_id x \<noteq> u then (s, Inl (USER_ID_MISMATCH u (r_user_id x)))
             else if r_ticket_type_id x \<noteq> tt
             then (s, Inl (TICKET_TYPE_MISMATCH tt (r_ticket_type_id x)))
             else if r_quantity x \<noteq> q then (s, Inl (QUANTITY_MISMATCH q (r_quantity x)))
             else
               let held = max 0 (inv_held s u tt - q)
               in (s\<lparr>inv_avail := (inv_avail s)(tt := inv_avail s tt + q),
                     inv_held := (inv_held s)(u := (inv_held s u)(tt := held)),
                     inv_hold := (inv_hold s)(ord := None)\<rparr>,
                   Inr \<lparr>ls_released_qty = q, ls_new_stock = inv_avail s tt + q,
                        ls_new_user_qty = held\<rparr>))"

text \<open>The reservation keys hold reservation records only.\<close>

definition redis_typed :: "redis \<Rightarrow> bool" where
  "redis_typed r \<longleftrightarrow>
     (\<forall>ord v e. r (REDIS_KEY_RESERVATION ord) = Some (v, e) \<longrightarrow> (\<exists>x. v = RReservation x))"

lemma redis_typed_hold:
  "redis_typed r \<Longrightarrow>
   redis_exists now (REDIS_KEY_RESERVATION ord) r \<longleftrightarrow> inv_hold (abs_inventory now r) ord \<noteq> None"
  by (auto simp: redis_typed_def abs_inventory_def redis_exists_iff redis_get_def redis_live_def
      split: option.splits rval.splits if_splits)

lemma abs_hold_Some_iff:
  "inv_hold (abs_inventory now r) ord = Some x \<longleftrightarrow>
   redis_get now (REDIS_KEY_RESERVATION ord) r = Some (RReservation x)"
  by (auto simp: abs_inventory_def split: option.splits rval.splits)

lemma reserve_refines:
  assumes "redis_typed r" and "colon_free (rp_userId p)" and "0 \<le> rp_ttlSeconds p"
  shows "abs_inventory now (fst (reserveTicket now p r)) = fst (reserve_spec now p (abs_inventory now r))
       \<and> snd (reserveTicket now p r) = snd (reserve_spec now p (abs_inventory now r))"
  using assms
  by (auto simp: reserve_spec_def reserveTicket_def reserve_ticket_lua_def Let_def split_def
      redis_typed_hold abs_inventory_def fun_eq_iff)

lemma release_refines:
  assumes "colon_free (lp_userId p)"
  shows "abs_inventory now (fst (releaseReservation now p r)) = fst (release_spec p (abs_inventory now r))
       \<and> snd (releaseReservation now p r) = snd (release_spec p (abs_inventory now r))"
proof (cases "redis_get now (REDIS_KEY_RESERVATION (lp_orderId p)) r")
  case None
  then show ?thesis by (simp add: script_defs release_spec_def Let_def abs_inventory_def)
next
  case (Some v)
  then show ?thesis
    using assms
    by (cases v)
      (auto simp: script_defs release_spec_def Let_def split_def abs_inventory_def fun_eq_iff max_def)
qed

section \<open>Runs of script calls\<close>

text \<open>
  The script calls that reach the server, each with the instant at which it runs.  A
  successful call reports the quantity it moved.
\<close>

datatype redis_op = OpReserve time reserve_params | OpRelease time release_params

definition redis_apply :: "redis_op \<Rightarrow> redis \<Rightarrow> redis \<times> (lua_error + int)" where
  "redis_apply x r =
     (case x of
        OpReserve now p \<Rightarrow> apsnd (map_sum id rs_reserved_qty) (reserveTicket now p r)
      | OpRelease now p \<Rightarrow> apsnd (map_sum id ls_released_qty) (releaseReservation now p r))"

definition granted :: "lua_error + int \<Rightarrow> bool" where
  "granted res \<longleftrightarrow> (case res of Inl _ \<Rightarrow> False | Inr _ \<Rightarrow> True)"

fun op_quantity :: "redis_op \<Rightarrow> int" where
  "op_quantity (OpReserve _ p) = rp_quantity p"
| "op_quantity (OpRelease _ p) = lp_quantity p"

fun op_order :: "redis_op \<Rightarrow> id" where
  "op_order (OpReserve _ p) = rp_orderId p"
| "op_order (OpRelease _ p) = lp_orderId p"

fun op_ticket_type :: "redis_op \<Rightarrow> id" where
  "op_ticket_type (OpReserve _ p) = rp_ticketTypeId p"
| "op_ticket_type (OpRelease _ p) = lp_ticketTypeId p"

fun op_user :: "redis_op \<Rightarrow> id" where
  "op_user (OpReserve _ p) = rp_userId p"
| "op_user (OpRelease _ p) = lp_userId p"

fun is_release :: "redis_op \<Rightarrow> bool" where
  "is_release (OpRelease _ _) = True"
| "is_release (OpReserve _ _) = False"

text \<open>Tickets that a call took out of the stock of a ticket type (negative: put back).\<close>

fun stock_delta :: "id \<Rightarrow> redis_op \<Rightarrow> lua_error + int \<Rightarrow> int" where
  "stock_delta tt x (Inl _) = 0"
| "stock_delta tt (OpReserve _ p) (Inr q) = (if rp_ticketTypeId p = tt then - q else 0)"
| "stock_delta tt (OpRelease _ p) (Inr q) = (if lp_ticketTypeId p = tt then q else 0)"

text \<open>A seeded stock key: a non-negative counter without expiry.\<close>

definition stock_ok :: "id \<Rightarrow> redis \<Rightarrow> bool" where
  "stock_ok tt r \<longleftrightarrow>
     (case r (REDIS_KEY_STOCK tt) of Some (RInt n, None) \<Rightarrow> 0 \<le> n | _ \<Rightarrow> False)"

definition stock_value :: "id \<Rightarrow> redis \<Rightarrow> int" where
  "stock_value tt r = (case r (REDIS_KEY_STOCK tt) of Some (RInt n, _) \<Rightarrow> n | _ \<Rightarrow> 0)"

lemma stock_ok_iff: "stock_ok tt r \<longleftrightarrow> (\<exists>n \<ge> 0. r (REDIS_KEY_STOCK tt) = Some (RInt n, None))"
  by (auto simp: stock_ok_def split: option.splits prod.splits rval.splits)

lemma stock_ok_nonneg: "stock_ok tt r \<Longrightarrow> 0 \<le> stock_value tt r"
  by (auto simp: stock_ok_iff stock_value_def)

lemma redis_int_stock: "stock_ok tt r \<Longrightarrow> redis_int now (REDIS_KEY_STOCK tt) r = stock_value tt r"
  by (auto simp: stock_ok_iff stock_value_def redis_int_def redis_get_def redis_live_def)

lemma incrby_persistent:
  "r k = Some (RInt n, None) \<Longrightarrow> fst (redis_incrby now k d r) k = Some (RInt (n + d), None)"
  by (simp add: redis_incrby_def redis_int_def redis_get_def redis_live_def Let_def)

lemma reserve_stock_step:
  assumes "stock_ok tt r" and "0 \<le> rp_quantity p"
  shows "(\<exists>n \<ge> 0. fst (reserveTicket now p r) (REDIS_KEY_STOCK tt) = Some (RInt n, None) \<and>
           n = stock_value tt r
               + stock_delta tt (OpReserve now p)
                   (map_sum id rs_reserved_qty (snd (reserveTicket now p r))))"
proof -
  obtain n where n: "0 \<le> n" "r (REDIS_KEY_STOCK tt) = Some (RInt n, None)"
    using assms(1) by (auto simp: stock_ok_iff)
  then have v: "stock_value tt r = n" "redis_int now (REDIS_KEY_STOCK tt) r = n"
    using assms(1) by (simp_all add: stock_value_def redis_int_stock)
  show ?thesis
    using assms(2) n v
    by (cases "rp_ticketTypeId p = tt")
      (auto simp: script_defs Let_def split_def incrby_persistent [of r _ n])
qed

lemma release_stock_step:
  assumes "stock_ok tt r" and "0 \<le> lp_quantity p"
  shows "(\<exists>n \<ge> 0. fst (releaseReservation now p r) (REDIS_KEY_STOCK tt) = Some (RInt n, None) \<and>
           n = stock_value tt r
               + stock_delta tt (OpRelease now p)
                   (map_sum id ls_released_qty (snd (releaseReservation now p r))))"
proof -
  obtain n where n: "0 \<le> n" "r (REDIS_KEY_STOCK tt) = Some (RInt n, None)"
    using assms(1) by (auto simp: stock_ok_iff)
  then have v: "stock_value tt r = n" by (simp add: stock_value_def)
  show ?thesis
    using assms(2) n v
    by (cases "lp_ticketTypeId p = tt")
      (auto simp: script_defs Let_def split_def incrby_persistent [of r _ n]
        split: option.splits rval.splits)
qed

lemma redis_apply_stock_step:
  assumes "stock_ok tt r" and "0 \<le> op_quantity x"
  shows "stock_ok tt (fst (redis_apply x r)) \<and>
    stock_value tt (fst (redis_apply x r)) = stock_value tt r + stock_delta tt x (snd (redis_apply x r))"
proof (cases x)
  case (OpReserve now p)
  with reserve_stock_step [OF assms(1), of p now] assms(2) show ?thesis
    by (auto simp: redis_apply_def stock_ok_iff stock_value_def [of tt "fst _"])
next
  case (OpRelease now p)
  with release_stock_step [OF assms(1), of p now] assms(2) show ?thesis
    by (auto simp: redis_apply_def stock_ok_iff stock_value_def [of tt "fst _"])
qed

interpretation stock: ledger redis_apply "\<lambda>x. 0 \<le> op_quantity x" "stock_ok tt"
    "stock_value tt" "stock_delta tt"
  for tt :: id
  by unfold_locales (simp_all add: redis_apply_stock_step)

subsection \<open>Per-user limit\<close>

definition user_limit_ok :: "int \<Rightarrow> id \<Rightarrow> id \<Rightarrow> redis \<Rightarrow> bool" where
  "user_limit_ok M u tt r \<longleftrightarrow>
     (case r (REDIS_KEY_USER_LIMIT u tt) of
        None \<Rightarrow> 0 \<le> M | Some (RInt n, None) \<Rightarrow> n \<le> M \<and> 0 \<le> M | _ \<Rightarrow> False)"

text \<open>Calls on behalf of users with UUIDs; all calls for one ticket type use its limit.\<close>

definition limit_op :: "int \<Rightarrow> id \<Rightarrow> redis_op \<Rightarrow> bool" where
  "limit_op M tt x \<longleftrightarrow>
     0 \<le> op_quantity x \<and> colon_free (op_user x) \<and>
     (case x of OpReserve _ p \<Rightarrow> rp_ticketTypeId p = tt \<longrightarrow> rp_maxPerUser p = M
              | OpRelease _ _ \<Rightarrow> True)"

lemma user_limit_ok_cases:
  assumes "user_limit_ok M u tt r"
  obtains "r (REDIS_KEY_USER_LIMIT u tt) = None" "0 \<le> M"
  | n where "r (REDIS_KEY_USER_LIMIT u tt) = Some (RInt n, None)" "n \<le> M" "0 \<le> M"
  using assms by (auto simp: user_limit_ok_def split: option.splits prod.splits rval.splits)

lemma redis_incrby_absent:
  "r k = None \<Longrightarrow> fst (redis_incrby now k d r) k = Some (RInt d, None)"
  by (simp add: redis_incrby_def redis_int_def redis_get_def redis_live_def)

lemma user_limit_step:
  assumes ok: "user_limit_ok M u tt r" and u: "colon_free u" and x: "limit_op M tt x"
  shows "user_limit_ok M u tt (fst (redis_apply x r))"
proof (cases "op_user x = u \<and> op_ticket_type x = tt")
  case True
  from ok show ?thesis
  proof (cases rule: user_limit_ok_cases)
    case 1
    then show ?thesis using True x u
      by (cases x)
        (auto simp: redis_apply_def limit_op_def script_defs Let_def split_def user_limit_ok_def
          redis_int_def redis_get_def redis_live_def redis_incrby_def redis_set_def redis_del_def
          split: option.splits rval.splits)
  next
    case (2 n)
    then show ?thesis using True x u
      by (cases x)
        (auto simp: redis_apply_def limit_op_def script_defs Let_def split_def user_limit_ok_def
          redis_int_def redis_get_def redis_live_def redis_incrby_def redis_set_def redis_del_def
          split: option.splits rval.splits)
  qed
next
  case False
  then have "fst (redis_apply x r) (REDIS_KEY_USER_LIMIT u tt) = r (REDIS_KEY_USER_LIMIT u tt)"
    using x u
    by (cases x)
      (auto simp: redis_apply_def limit_op_def intro!: reserveTicket_frame releaseReservation_frame)
  then show ?thesis using ok by (simp add: user_limit_ok_def)
qed

interpretation user_limit: op_system redis_apply "limit_op M tt"
    "\<lambda>r. user_limit_ok M u tt r \<and> colon_free u"
  for M :: int and u tt :: id
  by unfold_locales (simp add: user_limit_step)

subsection \<open>Releasing at most once\<close>

text \<open>
  The reservation key of an order is consumed by the first release; without a new
  reservation of the same order, no later release can succeed.
\<close>

interpretation release: at_most_once redis_apply is_release "\<lambda>_. True" op_order granted
    "\<lambda>ord r. r (REDIS_KEY_RESERVATION ord) = None"
proof unfold_locales
  fix s x
  assume rel: "is_release x" and ok: "granted (snd (redis_apply x s))"
  then obtain now p where x: "x = OpRelease now p" by (cases x) auto
  with ok obtain res where res: "snd (releaseReservation now p s) = Inr res"
    by (cases "snd (releaseReservation now p s)") (auto simp: redis_apply_def granted_def)
  show "s (REDIS_KEY_RESERVATION (op_order x)) \<noteq> None"
    using releaseReservation_success_needs_key [OF res] x by simp
  show "fst (redis_apply x s) (REDIS_KEY_RESERVATION (op_order x)) = None"
    using releaseReservation_success_deletes [OF res] x by (simp add: redis_apply_def)
next
  fix s :: redis and x k
  assume rel: "is_release x" and cl: "s (REDIS_KEY_RESERVATION k) = None"
  then obtain now p where x: "x = OpRelease now p" by (cases x) auto
  show "fst (redis_apply x s) (REDIS_KEY_RESERVATION k) = None"
  proof (cases "snd (releaseReservation now p s)")
    case (Inl e)
    with x cl show ?thesis by (simp add: redis_apply_def releaseReservation_error)
  next
    case (Inr b)
    with x cl releaseReservation_success_deletes [OF Inr] show ?thesis
      by (cases "k = lp_orderId p") (simp_all add: redis_apply_def releaseReservation_frame)
  qed
qed simp_all

section \<open>Running a script through its cached digest\<close>

text \<open>
  \<open>runScript\<close> sends the digest that \<open>initScripts\<close> stored, and the body when there is no
  digest or the server answers NOSCRIPT (its script cache was flushed).  The server keeps
  the loaded scripts by digest, and EVAL loads the body it is given.
\<close>

record 'r script_server =
  sv_data :: redis
  sv_loaded :: "string \<Rightarrow> (redis \<Rightarrow> redis \<times> 'r) option"

definition eval_script ::
  "(string \<Rightarrow> string) \<Rightarrow> (string \<Rightarrow> redis \<Rightarrow> redis \<times> 'r) \<Rightarrow> string \<Rightarrow> 'r script_server \<Rightarrow>
   'r script_server \<times> 'r" where
  "eval_script sha_of body_of filename sv =
     (let (d, res) = body_of filename (sv_data sv)
      in (sv\<lparr>sv_data := d,
            sv_loaded := (sv_loaded sv)(sha_of filename \<mapsto> body_of filename)\<rparr>, res))"

definition runScript ::
  "(string \<Rightarrow> string) \<Rightarrow> (string \<Rightarrow> redis \<Rightarrow> redis \<times> 'r) \<Rightarrow> (string \<Rightarrow> string option) \<Rightarrow> string \<Rightarrow>
   'r script_server \<Rightarrow> 'r script_server \<times> 'r" where
  "runScript sha_of body_of scriptCache filename sv =
     (case scriptCache filename of
        Some sha \<Rightarrow>
          (case sv_loaded sv sha of
             Some script \<Rightarrow> (let (d, res) = script (sv_data sv) in (sv\<lparr>sv_data := d\<rparr>, res))
           | None \<Rightarrow> eval_script sha_of body_of filename sv)
      | None \<Rightarrow> eval_script sha_of body_of filename sv)"

text \<open>\<open>initScripts\<close> loads each file and remembers its digest; a file that cannot be read is skipped.\<close>

definition initScripts ::
  "(string \<Rightarrow> string) \<Rightarrow> (string \<Rightarrow> redis \<Rightarrow> redis \<times> 'r) \<Rightarrow> (string \<Rightarrow> bool) \<Rightarrow> string list \<Rightarrow>
   (string \<Rightarrow> string option) \<times> 'r script_server \<Rightarrow> (string \<Rightarrow> string option) \<times> 'r script_server" where
  "initScripts sha_of body_of readable files st =
     foldl (\<lambda>(cache, sv) filename.
       if readable filename
       then (cache(filename \<mapsto> sha_of filename),
             sv\<lparr>sv_loaded := (sv_loaded sv)(sha_of filename \<mapsto> body_of filename)\<rparr>)
       else (cache, sv)) st files"

text \<open>Every digest in use belongs to the file it was computed from.\<close>

definition digests_ok ::
  "(string \<Rightarrow> string) \<Rightarrow> (string \<Rightarrow> redis \<Rightarrow> redis \<times> 'r) \<Rightarrow>
   (string \<Rightarrow> string option) \<Rightarrow> 'r script_server \<Rightarrow> bool" where
  "digests_ok sha_of body_of cache sv \<longleftrightarrow>
     (\<forall>f sha. cache f = Some sha \<longrightarrow> sha = sha_of f) \<and>
     (\<forall>f script. sv_loaded sv (sha_of f) = Some script \<longrightarrow> script = body_of f)"

lemma initScripts_digests_ok:
  "inj sha_of \<Longrightarrow> digests_ok sha_of body_of cache sv \<Longrightarrow>
   initScripts sha_of body_of readable files (cache, sv) = (cache', sv') \<Longrightarrow>
   digests_ok sha_of body_of cache' sv' \<and> sv_data sv' = sv_data sv"
proof (induction files arbitrary: cache sv)
  case Nil
  then show ?case by (simp add: initScripts_def)
next
  case (Cons f files)
  show ?case
  proof (cases "readable f")
    case True
    have "digests_ok sha_of body_of (cache(f \<mapsto> sha_of f))
            (sv\<lparr>sv_loaded := (sv_loaded sv)(sha_of f \<mapsto> body_of f)\<rparr>)"
      using Cons.prems(1,2) by (auto simp: digests_ok_def dest: injD)
    from Cons.IH [OF Cons.prems(1) this] Cons.prems(3) True show ?thesis
      by (simp add: initScripts_def del: fun_upd_apply)
  next
    case False
    with Cons show ?thesis by (simp add: initScripts_def)
  qed
qed

lemma runScript_is_body:
  "digests_ok sha_of body_of cache sv \<Longrightarrow>
   sv_data (fst (runScript sha_of body_of cache filename sv)) = fst (body_of filename (sv_data sv)) \<and>
   snd (runScript sha_of body_of cache filename sv) = snd (body_of filename (sv_data sv))"
  by (auto simp: runScript_def eval_script_def digests_ok_def split_def Let_def split: option.splits)

section \<open>Properties\<close>

definition release_of :: "reserve_params \<Rightarrow> release_params" where
  "release_of p =
     \<lparr>lp_ticketTypeId = rp_ticketTypeId p, lp_userId = rp_userId p, lp_orderId = rp_orderId p,
      lp_quantity = rp_quantity p\<rparr>"

lemma release_of_simps [simp]:
  "lp_ticketTypeId (release_of p) = rp_ticketTypeId p"
  "lp_userId (release_of p) = rp_userId p"
  "lp_orderId (release_of p) = rp_orderId p"
  "lp_quantity (release_of p) = rp_quantity p"
  by (simp_all add: release_of_def)

text \<open>The state after a granted reservation, for persistent counters.\<close>

lemma redis_incrby_persistent:
  "r k = Some (RInt n, None) \<Longrightarrow> redis_incrby now k d r = (r(k \<mapsto> (RInt (n + d), None)), n + d)"
  by (simp add: redis_incrby_def redis_int_def redis_get_def redis_live_def Let_def)

lemma redis_incrby_missing:
  "r k = None \<Longrightarrow> redis_incrby now k d r = (r(k \<mapsto> (RInt d, None)), d)"
  by (simp add: redis_incrby_def redis_int_def redis_get_def redis_live_def Let_def)

lemma reserve_granted_state:
  assumes ok: "snd (reserveTicket now p r) = Inr res"
    and stock: "r (REDIS_KEY_STOCK (rp_ticketTypeId p)) = Some (RInt n, None)"
    and user: "r (REDIS_KEY_USER_LIMIT (rp_userId p) (rp_ticketTypeId p)) = Some (RInt m, None)
      \<or> r (REDIS_KEY_USER_LIMIT (rp_userId p) (rp_ticketTypeId p)) = None \<and> m = 0"
  shows "fst (reserveTicket now p r) =
    r(REDIS_KEY_STOCK (rp_ticketTypeId p) \<mapsto> (RInt (n - rp_quantity p), None),
      REDIS_KEY_USER_LIMIT (rp_userId p) (rp_ticketTypeId p) \<mapsto> (RInt (m + rp_quantity p), None),
      REDIS_KEY_RESERVATION (rp_orderId p) \<mapsto>
        (RReservation \<lparr>r_order_id = rp_orderId p, r_user_id = rp_userId p,
           r_ticket_type_id = rp_ticketTypeId p, r_quantity = rp_quantity p,
           r_created_at = now div 1000\<rparr>, Some (now + rp_ttlSeconds p * 1000)))"
  using ok user
  by (auto simp: reserveTicket_def reserve_ticket_lua_def Let_def stock redis_incrby_persistent
      redis_incrby_missing redis_set_def split: if_splits)

text \<open>Within the time to live, a release puts back exactly what the reservation took.\<close>

lemma release_after_reserve:
  assumes "snd (reserveTicket now p r) = Inr res"
    and "r (REDIS_KEY_STOCK (rp_ticketTypeId p)) = Some (RInt n, None)"
    and "r (REDIS_KEY_USER_LIMIT (rp_userId p) (rp_ticketTypeId p)) = Some (RInt m, None)
      \<or> r (REDIS_KEY_USER_LIMIT (rp_userId p) (rp_ticketTypeId p)) = None \<and> m = 0"
    and "0 \<le> m"
    and "r (REDIS_KEY_RESERVATION (rp_orderId p)) = None"
    and "now' \<le> now + rp_ttlSeconds p * 1000"
  shows "releaseReservation now' (release_of p) (fst (reserveTicket now p r)) =
    (r(REDIS_KEY_USER_LIMIT (rp_userId p) (rp_ticketTypeId p) \<mapsto> (RInt m, None)),
     Inr \<lparr>ls_released_qty = rp_quantity p, ls_new_stock = n, ls_new_user_qty = m\<rparr>)"
  unfolding reserve_granted_state [OF assms(1-3)]
  using assms(2,4-6)
  by (auto simp: releaseReservation_def release_reservation_lua_def Let_def redis_get_def
      redis_live_def redis_incrby_persistent redis_del_def fun_eq_iff)

text \<open>
  C5: Any sequence of reserve and release calls, by any users and orders, in any order and
  at any instants, keeps the Redis stock of a seeded ticket type non-negative, and the stock
  at the end is the stock at the start less the tickets granted plus the tickets given back:
  Redis never grants more tickets than there are.
\<close>

theorem redis_never_oversells:
  assumes "stock_ok tt r" and "\<And>x. x \<in> set ops \<Longrightarrow> 0 \<le> op_quantity x"
  shows "0 \<le> stock_value tt (fst (run_ops redis_apply ops r)) \<and>
    stock_value tt (fst (run_ops redis_apply ops r)) =
      stock_value tt r
      + sum_list (map (\<lambda>(x, res). stock_delta tt x res) (snd (run_ops redis_apply ops r)))"
  using stock.inv_run [OF assms] stock.balance_run [OF assms] stock_ok_nonneg by blast

definition demo_reserve :: "id \<Rightarrow> int \<Rightarrow> reserve_params" where
  "demo_reserve ord q =
     \<lparr>rp_ticketTypeId = ''vip'', rp_userId = ''alice'', rp_orderId = ord, rp_quantity = q,
      rp_maxPerUser = 4, rp_ttlSeconds = 900\<rparr>"

definition demo_redis :: redis where
  "demo_redis = seedStock 0 ''vip'' 3 (\<lambda>_. None)"

lemma demo_redis_stock [simp]: "stock_ok ''vip'' demo_redis" "stock_value ''vip'' demo_redis = 3"
  by (simp_all add: demo_redis_def stock_ok_def stock_value_def seedStock_def redis_set_def)

lemma demo_redis_apply [simp]:
  "demo_redis k = (if k = REDIS_KEY_STOCK ''vip'' then Some (RInt 3, None) else None)"
  by (simp add: demo_redis_def seedStock_def redis_set_def)

theorem redis_never_oversells_witness:
  "0 \<le> stock_value ''vip'' (fst (run_ops redis_apply
     [OpReserve 5 (demo_reserve ''o1'' 2), OpReserve 6 (demo_reserve ''o2'' 2)] demo_redis))"
  by (rule redis_never_oversells [THEN conjunct1]) (auto simp: demo_reserve_def)

text \<open>
  C10: No sequence of script calls lets the tickets a user holds of a ticket type exceed the
  limit per user, whatever other users and other ticket types do in between.
\<close>

theorem redis_user_limit_respected:
  assumes "user_limit_ok M u tt r" and "colon_free u" and "\<And>x. x \<in> set ops \<Longrightarrow> limit_op M tt x"
  shows "user_limit_ok M u tt (fst (run_ops redis_apply ops r))"
  using user_limit.inv_run [of M u tt r ops] assms by blast

theorem redis_user_limit_respected_witness:
  "user_limit_ok 4 ''alice'' ''vip'' (fst (run_ops redis_apply
     [OpReserve 5 (demo_reserve ''o1'' 2), OpReserve 6 (demo_reserve ''o2'' 3)] demo_redis))"
  by (rule redis_user_limit_respected)
    (auto simp: demo_reserve_def limit_op_def colon_free_def user_limit_ok_def)

text \<open>
  However many workers release the reservation of an order, at most one of the calls
  gives the tickets back.
\<close>

theorem redis_release_at_most_once:
  assumes "\<And>x. x \<in> set ops \<Longrightarrow> is_release x"
  shows "length (filter (\<lambda>(x, res). op_order x = ord \<and> granted res)
           (snd (run_ops redis_apply ops r))) \<le> 1"
  by (rule release.at_most_one_success) (use assms in simp_all)

theorem redis_release_at_most_once_witness:
  "length (filter (\<lambda>(x, res). op_order x = ''o1'' \<and> granted res)
     (snd (run_ops redis_apply
       [OpRelease 7 (release_of (demo_reserve ''o1'' 2)), OpRelease 8 (release_of (demo_reserve ''o1'' 2))]
       (fst (reserveTicket 5 (demo_reserve ''o1'' 2) demo_redis))))) \<le> 1"
  by (rule redis_release_at_most_once) auto

text \<open>
  C9: The two scripts implement the abstract inventory: for users with colon-free
  identifiers, running a script and then reading off stock, per-user holdings and live
  holds is the same as running the specification, and both return the same result or error.
\<close>

theorem redis_scripts_refine_inventory:
  assumes "redis_typed r" and "colon_free (rp_userId p)" and "0 \<le> rp_ttlSeconds p"
    and "colon_free (lp_userId p')"
  shows "(abs_inventory now (fst (reserveTicket now p r)), snd (reserveTicket now p r)) =
           reserve_spec now p (abs_inventory now r)
       \<and> (abs_inventory now (fst (releaseReservation now p' r)), snd (releaseReservation now p' r)) =
           release_spec p' (abs_inventory now r)"
  using reserve_refines [OF assms(1-3), of now] release_refines [OF assms(4), of now r]
  by (simp add: prod_eq_iff)

theorem redis_scripts_refine_inventory_witness:
  "snd (reserveTicket 5 (demo_reserve ''o1'' 2) demo_redis) =
     snd (reserve_spec 5 (demo_reserve ''o1'' 2) (abs_inventory 5 demo_redis))
   \<and> snd (reserve_spec 5 (demo_reserve ''o1'' 2) (abs_inventory 5 demo_redis)) =
       Inr \<lparr>rs_reserved_qty = 2, rs_new_stock = 1, rs_new_user_qty = 2, rs_expires_in_seconds = 900\<rparr>"
proof -
  have "redis_typed demo_redis" by (auto simp: redis_typed_def)
  then have "snd (reserveTicket 5 (demo_reserve ''o1'' 2) demo_redis) =
      snd (reserve_spec 5 (demo_reserve ''o1'' 2) (abs_inventory 5 demo_redis))"
    using redis_scripts_refine_inventory [of demo_redis "demo_reserve ''o1'' 2"
        "release_of (demo_reserve ''o1'' 2)" 5]
    by (simp add: demo_reserve_def colon_free_def prod_eq_iff)
  moreover have "snd (reserve_spec 5 (demo_reserve ''o1'' 2) (abs_inventory 5 demo_redis)) =
      Inr \<lparr>rs_reserved_qty = 2, rs_new_stock = 1, rs_new_user_qty = 2, rs_expires_in_seconds = 900\<rparr>"
    by (simp add: demo_reserve_def reserve_spec_def Let_def abs_inventory_def colon_free_def
        redis_int_def redis_get_def redis_live_def)
  ultimately show ?thesis by simp
qed

text \<open>
  A reservation that is released before its expiry leaves no trace: for a seeded stock
  key and a non-negative per-user count, the release of what was reserved succeeds at any
  instant within the time to live, and the stock, the holdings and the live holds are
  those from before the reservation.
\<close>

theorem redis_release_undoes_reserve:
  assumes "snd (reserveTicket now p r) = Inr res"
    and "stock_ok (rp_ticketTypeId p) r"
    and "user_limit_ok M (rp_userId p) (rp_ticketTypeId p) r"
    and "0 \<le> redis_int now (REDIS_KEY_USER_LIMIT (rp_userId p) (rp_ticketTypeId p)) r"
    and "r (REDIS_KEY_RESERVATION (rp_orderId p)) = None"
    and "now' \<le> now + rp_ttlSeconds p * 1000"
    and "(r', res') = releaseReservation now' (release_of p) (fst (reserveTicket now p r))"
  shows "granted (map_sum id ls_released_qty res') \<and> abs_inventory now' r' = abs_inventory now' r"
proof -
  let ?uk = "REDIS_KEY_USER_LIMIT (rp_userId p) (rp_ticketTypeId p)"
  obtain n where n: "r (REDIS_KEY_STOCK (rp_ticketTypeId p)) = Some (RInt n, None)"
    using assms(2) by (auto simp: stock_ok_iff)
  define m where "m = redis_int now ?uk r"
  have uk: "r ?uk = Some (RInt m, None) \<or> r ?uk = None \<and> m = 0"
    using assms(3) by (auto elim!: user_limit_ok_cases
        simp: m_def redis_int_def redis_get_def redis_live_def)
  have rel: "r' = r(?uk \<mapsto> (RInt m, None))" and res': "granted (map_sum id ls_released_qty res')"
    using release_after_reserve [OF assms(1) n uk _ assms(5,6)] assms(4,7)
    by (simp_all add: m_def granted_def)
  have "redis_int now' k r' = redis_int now' k r" for k
    using uk rel by (auto simp: redis_int_def redis_get_def redis_live_def)
  moreover have "redis_get now' (REDIS_KEY_RESERVATION ord) r' =
      redis_get now' (REDIS_KEY_RESERVATION ord) r" for ord
    using rel by (simp add: redis_get_def redis_live_def)
  ultimately show ?thesis using res' by (simp add: abs_inventory_def cong: if_cong)
qed

lemma demo_reserve_grants:
  "snd (reserveTicket 5 (demo_reserve ''o1'' 2) demo_redis) =
     Inr \<lparr>rs_reserved_qty = 2, rs_new_stock = 1, rs_new_user_qty = 2, rs_expires_in_seconds = 900\<rparr>"
  by (simp add: script_defs Let_def split_def demo_reserve_def redis_exists_iff
      redis_int_def redis_get_def redis_live_def)

theorem redis_release_undoes_reserve_witness:
  "abs_inventory 9 (fst (releaseReservation 9 (release_of (demo_reserve ''o1'' 2))
     (fst (reserveTicket 5 (demo_reserve ''o1'' 2) demo_redis)))) = abs_inventory 9 demo_redis"
proof -
  have "user_limit_ok 4 ''alice'' ''vip'' demo_redis" by (simp add: user_limit_ok_def)
  with redis_release_undoes_reserve [OF demo_reserve_grants _ _ _ _ _ prod.collapse,
      of 4 9]
  show ?thesis
    by (simp add: demo_reserve_def redis_int_def redis_get_def redis_live_def)
qed

text \<open>
  After its time to live has passed, a reservation can no longer be given back: the
  release finds no reservation, and neither the stock nor the tickets counted for the user
  return to what they were.
\<close>

theorem redis_expired_reservation_not_released:
  assumes "snd (reserveTicket now p r) = Inr res"
    and "now + rp_ttlSeconds p * 1000 < now'"
    and "stock_ok (rp_ticketTypeId p) r"
  shows "releaseReservation now' (release_of p) (fst (reserveTicket now p r)) =
           (fst (reserveTicket now p r), Inl (RESERVATION_NOT_FOUND (rp_orderId p)))
       \<and> stock_value (rp_ticketTypeId p) (fst (reserveTicket now p r)) =
           stock_value (rp_ticketTypeId p) r - rp_quantity p"
proof -
  let ?r = "fst (reserveTicket now p r)"
  have res: "?r (REDIS_KEY_RESERVATION (rp_orderId p)) =
      Some (RReservation \<lparr>r_order_id = rp_orderId p, r_user_id = rp_userId p,
         r_ticket_type_id = rp_ticketTypeId p, r_quantity = rp_quantity p,
         r_created_at = now div 1000\<rparr>, Some (now + rp_ttlSeconds p * 1000))"
    using assms(1) by (auto simp: reserveTicket_def reserve_ticket_lua_def Let_def split_def
        redis_set_def split: if_splits)
  have qty: "rs_reserved_qty res = rp_quantity p"
    using assms(1) by (auto simp: reserveTicket_def reserve_ticket_lua_def Let_def split_def
        split: if_splits)
  obtain n where n: "r (REDIS_KEY_STOCK (rp_ticketTypeId p)) = Some (RInt n, None)"
    using assms(3) by (auto simp: stock_ok_iff)
  have "?r (REDIS_KEY_STOCK (rp_ticketTypeId p)) = Some (RInt (n - rp_quantity p), None)"
    using assms(1) n by (auto simp: reserveTicket_def reserve_ticket_lua_def Let_def split_def
        redis_incrby_persistent split: if_splits)
  with res n assms(2) show ?thesis
    by (simp add: releaseReservation_missing redis_get_def redis_live_def stock_value_def)
qed

theorem redis_expired_reservation_not_released_witness:
  "snd (releaseReservation 900006 (release_of (demo_reserve ''o1'' 2))
     (fst (reserveTicket 5 (demo_reserve ''o1'' 2) demo_redis))) = Inl (RESERVATION_NOT_FOUND ''o1'')"
  using redis_expired_reservation_not_released [OF demo_reserve_grants, of 900006]
  by (simp add: demo_reserve_def)

end
