(* ===== verification/Seatmap_Service.thy ===== *)
theory Seatmap_Service
  imports Redis_Store
begin

text \<open>
  The seat map: \<open>seatmap.service.ts\<close> (zone availability of a ticket type, its short Redis
  cache, the recomputation after an inventory change), \<open>seatmap-broadcast.service.ts\<close> and the
  broadcasting part of \<open>seatmap.gateway.ts\<close>; and the cache invalidation of
  \<open>concert.service.ts\<close> that the same handlers trigger.  The services that change inventory
  call \<open>refreshAndBroadcast\<close> for every affected ticket type last.

  \<^item> A message to a socket.io room is appended to \<open>broadcasts\<close> of the world; which
    clients are in a room is the library's affair.
\<close>

definition AVAILABILITY_TTL_SEC :: int where
  "AVAILABILITY_TTL_SEC = 3"

record seatmap_ticket_type =
  st_id :: id
  st_name :: string
  st_price :: int
  st_zones :: "zone_availability list"
  st_maxPerUser :: int
  st_totalQty :: int
  st_soldQty :: int
  st_reservedQty :: int

record seatmap_response =
  sm_concertId :: id
  sm_seatMapUrl :: "string option"
  sm_venueName :: string
  sm_ticketTypes :: "seatmap_ticket_type list"

section \<open>Availability of a zone\<close>

definition available_qty :: "ticket_type \<Rightarrow> int" where
  "available_qty tt = tt_totalQty tt - tt_soldQty tt - tt_reservedQty tt"

definition computeZoneAvailability :: "ticket_type \<Rightarrow> zone_availability list" where
  "computeZoneAvailability ticketType =
     (let available = available_qty ticketType;
          status = (if available \<le> 0 then ZONE_SOLD_OUT
                    else if 0 < tt_reservedQty ticketType then ZONE_RESERVED
                    else ZONE_AVAILABLE)
      in [\<lparr>zoneId = tt_id ticketType, zoneName = tt_name ticketType,
           availableCount = max 0 available, reservedCount = tt_reservedQty ticketType,
           soldCount = tt_soldQty ticketType, zoneStatus = status\<rparr>])"

definition cached_zones :: "time \<Rightarrow> id \<Rightarrow> id \<Rightarrow> redis \<Rightarrow> zone_availability list option" where
  "cached_zones now concertId ticketTypeId r =
     (case redis_get now (zoneAvailabilityCacheKey concertId ticketTypeId) r of
        Some (RZones zs) \<Rightarrow> Some zs | _ \<Rightarrow> None)"

definition cache_zones :: "time \<Rightarrow> id \<Rightarrow> id \<Rightarrow> zone_availability list \<Rightarrow> redis \<Rightarrow> redis" where
  "cache_zones now concertId ticketTypeId zs r =
     redis_set now (zoneAvailabilityCacheKey concertId ticketTypeId) (RZones zs)
       (Some AVAILABILITY_TTL_SEC) r"

section \<open>Reading the seat map\<close>

text \<open>The parallel cache-aside reads of \<open>getSeatmap\<close>, one per ticket type.\<close>

fun fetch_zones ::
  "time \<Rightarrow> id \<Rightarrow> ticket_type list \<Rightarrow> redis \<Rightarrow> redis \<times> (id \<times> zone_availability list) list" where
  "fetch_zones now concertId [] r = (r, [])"
| "fetch_zones now concertId (tt # tts) r =
     (case cached_zones now concertId (tt_id tt) r of
        Some zs \<Rightarrow> apsnd ((#) (tt_id tt, zs)) (fetch_zones now concertId tts r)
      | None \<Rightarrow>
          (let zs = computeZoneAvailability tt
           in apsnd ((#) (tt_id tt, zs))
                (fetch_zones now concertId tts (cache_zones now concertId (tt_id tt) zs r))))"

definition ticket_types_of :: "id \<Rightarrow> world \<Rightarrow> ticket_type list" where
  "ticket_types_of concertId w = filter (\<lambda>t. tt_concertId t = concertId) (ticketTypes w)"

definition getSeatmap :: "time \<Rightarrow> id \<Rightarrow> seatmap_response handler" where
  "getSeatmap now concertId w =
     (case find_concert concertId w of
        None \<Rightarrow> (w, Inl (NotFoundException ''concert''))
      | Some c \<Rightarrow>
          if c_status c \<noteq> PUBLISHED \<and> c_status c \<noteq> SALE_OPEN
          then (w, Inl (NotFoundException ''concert''))
          else
            let tts = sort_key (\<lambda>t. - tt_price t) (ticket_types_of concertId w);
                (r, zoneList) = fetch_zones now concertId tts (redisdb w);
                zoneMap = map_of (rev zoneList)
            in (w\<lparr>redisdb := r\<rparr>,
                Inr \<lparr>sm_concertId = c_id c, sm_seatMapUrl = c_seatMapUrl c, sm_venueName = c_venue c,
                  sm_ticketTypes = map (\<lambda>tt.
                    \<lparr>st_id = tt_id tt, st_name = tt_name tt, st_price = tt_price tt,
                     st_zones = (case zoneMap (tt_id tt) of Some zs \<Rightarrow> zs | None \<Rightarrow> []),
                     st_maxPerUser = tt_maxPerUser tt, st_totalQty = tt_totalQty tt,
                     st_soldQty = tt_soldQty tt, st_reservedQty = tt_reservedQty tt\<rparr>) tts\<rparr>))"

text \<open>
  \<open>getAvailability\<close> reads the identifiers first and each row again on a cache miss; the
  loop is sequential and nothing intervenes on one server.
\<close>

fun availability_loop ::
  "time \<Rightarrow> id \<Rightarrow> id list \<Rightarrow> zone_availability list \<Rightarrow> world \<Rightarrow> world \<times> zone_availability list" where
  "availability_loop now concertId [] allZones w = (w, allZones)"
| "availability_loop now concertId (i # is) allZones w =
     (case cached_zones now concertId i (redisdb w) of
        Some zs \<Rightarrow> availability_loop now concertId is (allZones @ zs) w
      | None \<Rightarrow>
          (case find_ticket_type i w of
             None \<Rightarrow> availability_loop now concertId is allZones w
           | Some tt \<Rightarrow>
               (let zs = computeZoneAvailability tt
                in availability_loop now concertId is (allZones @ zs)
                     (w\<lparr>redisdb := cache_zones now concertId i zs (redisdb w)\<rparr>))))"

definition getAvailability :: "time \<Rightarrow> id \<Rightarrow> world \<Rightarrow> world \<times> zone_availability list" where
  "getAvailability now concertId w =
     availability_loop now concertId (map tt_id (ticket_types_of concertId w)) [] w"

section \<open>Refreshing after an inventory change\<close>

definition first_status :: "zone_availability list \<Rightarrow> ZoneStatus option" where
  "first_status zs = (case zs of [] \<Rightarrow> None | z # _ \<Rightarrow> Some (zoneStatus z))"

definition invalidateAndBroadcast ::
  "time \<Rightarrow> id \<Rightarrow> id \<Rightarrow> world \<Rightarrow> world \<times> zone_update_payload option" where
  "invalidateAndBroadcast now concertId ticketTypeId w =
     (case find_ticket_type ticketTypeId w of
        None \<Rightarrow> (w, None)
      | Some tt \<Rightarrow>
          let oldStatus = Option.bind (cached_zones now concertId ticketTypeId (redisdb w)) first_status;
              r1 = redis_del (zoneAvailabilityCacheKey concertId ticketTypeId) (redisdb w);
              zones = computeZoneAvailability tt;
              w' = w\<lparr>redisdb := cache_zones now concertId ticketTypeId zones r1\<rparr>
          in (case (oldStatus, zones) of
                (Some old, z # _) \<Rightarrow>
                  if old \<noteq> zoneStatus z
                  then (w', Some \<lparr>zu_ticketTypeId = ticketTypeId, zu_zoneId = zoneId z,
                                 zu_oldStatus = old, zu_newStatus = zoneStatus z,
                                 zu_availableCount = availableCount z, zu_timestamp = now\<rparr>)
                  else (w', None)
              | _ \<Rightarrow> (w', None)))"

definition seatmap_room :: "id \<Rightarrow> string" where
  "seatmap_room concertId = ''concert:'' @ concertId @ '':seatmap''"

definition broadcastZoneUpdate :: "id \<Rightarrow> zone_update_payload \<Rightarrow> world \<Rightarrow> world" where
  "broadcastZoneUpdate concertId payload w =
     w\<lparr>broadcasts := broadcasts w @ [(seatmap_room concertId, payload)]\<rparr>"

definition refreshAndBroadcast :: "time \<Rightarrow> id \<Rightarrow> id \<Rightarrow> world \<Rightarrow> world" where
  "refreshAndBroadcast now concertId ticketTypeId w =
     (case invalidateAndBroadcast now concertId ticketTypeId w of
        (w', Some payload) \<Rightarrow> broadcastZoneUpdate concertId payload w'
      | (w', None) \<Rightarrow> w')"

definition invalidateCache :: "id option \<Rightarrow> world \<Rightarrow> world" where
  "invalidateCache concertId w =
     w\<lparr>redisdb :=
         (case concertId of
            None \<Rightarrow> redis_del REDIS_KEY_CONCERT_LIST (redisdb w)
          | Some c \<Rightarrow> redis_del (REDIS_KEY_CONCERT_DETAIL c)
                       (redis_del REDIS_KEY_CONCERT_LIST (redisdb w)))\<rparr>"

text \<open>The loop over the ticket types of an order that ends the inventory handlers.\<close>

definition refresh_all :: "time \<Rightarrow> id \<Rightarrow> id list \<Rightarrow> world \<Rightarrow> world" where
  "refresh_all now concertId tts w = fold (refreshAndBroadcast now concertId) tts w"

section \<open>What refreshing leaves alone\<close>

text \<open>A change of the caches and of the messages sent, and of nothing else.\<close>

definition views_only :: "world \<Rightarrow> world \<Rightarrow> bool" where
  "views_only w w' \<longleftrightarrow>
     w' = w\<lparr>redisdb := redisdb w', broadcasts := broadcasts w'\<rparr> \<and>
     (\<forall>tt. redisdb w' (REDIS_KEY_STOCK tt) = redisdb w (REDIS_KEY_STOCK tt)) \<and>
     (\<forall>u tt. redisdb w' (REDIS_KEY_USER_LIMIT u tt) = redisdb w (REDIS_KEY_USER_LIMIT u tt)) \<and>
     (\<forall>ord. redisdb w' (REDIS_KEY_RESERVATION ord) = redisdb w (REDIS_KEY_RESERVATION ord))"

lemma views_only_refl [simp]: "views_only w w"
  by (simp add: views_only_def)

lemma views_only_trans: "views_only w1 w2 \<Longrightarrow> views_only w2 w3 \<Longrightarrow> views_only w1 w3"
  unfolding views_only_def by (cases w1; cases w2; cases w3) simp

lemma views_only_tables:
  assumes "views_only w w'"
  shows "concerts w' = concerts w" "ticketTypes w' = ticketTypes w" "counters w' = counters w"
    "orders w' = orders w" "payments w' = payments w" "tickets w' = tickets w"
    "gates w' = gates w" "checkinLogs w' = checkinLogs w" "jobs w' = jobs w"
  using assms unfolding views_only_def by (cases w; cases w'; simp)+

lemma views_only_keys:
  assumes "views_only w w'"
  shows "redisdb w' (REDIS_KEY_STOCK tt) = redisdb w (REDIS_KEY_STOCK tt)"
    "redisdb w' (REDIS_KEY_USER_LIMIT u tt) = redisdb w (REDIS_KEY_USER_LIMIT u tt)"
    "redisdb w' (REDIS_KEY_RESERVATION ord) = redisdb w (REDIS_KEY_RESERVATION ord)"
  using assms by (simp_all add: views_only_def)

lemma views_only_invalidateCache: "views_only w (invalidateCache c w)"
  by (cases c) (simp_all add: views_only_def invalidateCache_def)

lemma views_only_refreshAndBroadcast: "views_only w (refreshAndBroadcast now c tt w)"
  by (auto simp: views_only_def refreshAndBroadcast_def invalidateAndBroadcast_def
      broadcastZoneUpdate_def cache_zones_def Let_def split: option.splits list.splits)

lemma views_only_refresh_all: "views_only w (refresh_all now c tts w)"
  unfolding refresh_all_def
proof (induction tts arbitrary: w)
  case Nil
  then show ?case by simp
next
  case (Cons tt tts)
  then show ?case
    by (auto intro: views_only_trans [OF views_only_refreshAndBroadcast])
qed

lemma views_only_refresh_invalidate:
  "views_only w (invalidateCache c (refresh_all now c' tts w))"
  using views_only_trans [OF views_only_refresh_all views_only_invalidateCache] .

lemmas refresh_tables [simp] =
  views_only_tables [OF views_only_refresh_all] views_only_keys [OF views_only_refresh_all]
  views_only_tables [OF views_only_invalidateCache] views_only_keys [OF views_only_invalidateCache]

lemma find_refresh [simp]:
  "find_order i (refresh_all now c tts w) = find_order i w"
  "find_order i (invalidateCache c' w) = find_order i w"
  "find_ticket_type i (refresh_all now c tts w) = find_ticket_type i w"
  "find_ticket_type i (invalidateCache c' w) = find_ticket_type i w"
  "find_counter u i (refresh_all now c tts w) = find_counter u i w"
  "find_counter u i (invalidateCache c' w) = find_counter u i w"
  by (simp_all add: find_order_def find_ticket_type_def find_counter_def)

end
