(* ===== verification/Qr_Payload.thy ===== *)
theory Qr_Payload
  imports Redis_Store
begin

text \<open>
  The QR payload of a ticket (\<open>qr-payload.util.ts\<close>) and the token, hash and signature behind it
  (\<open>generateQrToken\<close> of the payment service and of the ticket issue processor,
  \<open>recomputeSignature\<close> of the check-in service).

  \<^item> The random token of \<open>crypto.randomUUID\<close> is an argument; the hash functions are the
    fields of \<open>crypto\<close>.
\<close>

section \<open>Splitting at a separator\<close>

text \<open>JavaScript's \<open>split\<close> with a one-character separator: never empty, keeps empty parts.\<close>

fun split_char :: "char \<Rightarrow> string \<Rightarrow> string list" where
  "split_char c [] = [[]]"
| "split_char c (x # xs) =
     (if x = c then [] # split_char c xs
      else case split_char c xs of [] \<Rightarrow> [[x]] | y # ys \<Rightarrow> (x # y) # ys)"

text \<open>JavaScript's \<open>join\<close>.\<close>

fun join_char :: "char \<Rightarrow> string list \<Rightarrow> string" where
  "join_char c [] = []"
| "join_char c [x] = x"
| "join_char c (x # y # ys) = x @ c # join_char c (y # ys)"

lemma split_char_not_Nil [simp]: "split_char c xs \<noteq> []"
  by (induction xs) (auto split: list.splits)

lemma join_char_Cons_Cons: "join_char c ((x # y) # ys) = x # join_char c (y # ys)"
  by (cases ys) simp_all

lemma join_split [simp]: "join_char c (split_char c xs) = xs"
proof (induction xs)
  case Nil
  then show ?case by simp
next
  case (Cons x xs)
  then show ?case by (cases "split_char c xs") (auto simp: join_char_Cons_Cons)
qed

lemma split_char_free: "c \<notin> set xs \<Longrightarrow> split_char c xs = [xs]"
  by (induction xs) auto

lemma split_char_append: "c \<notin> set xs \<Longrightarrow> split_char c (xs @ c # ys) = xs # split_char c ys"
  by (induction xs) auto

lemma split_char_parts_free: "y \<in> set (split_char c xs) \<Longrightarrow> c \<notin> set y"
proof (induction xs arbitrary: y)
  case Nil
  then show ?case by simp
next
  case (Cons x xs)
  then show ?case by (cases "split_char c xs") (auto split: if_splits)
qed

text \<open>JavaScript's \<open>trim\<close> on one-byte characters.\<close>

definition is_space :: "char \<Rightarrow> bool" where
  "is_space c \<longleftrightarrow> (of_char c :: nat) \<in> {9, 10, 11, 12, 13, 32, 160}"

definition trim :: "string \<Rightarrow> string" where
  "trim s = rev (dropWhile is_space (rev (dropWhile is_space s)))"

section \<open>Payload\<close>

record qr_payload =
  qp_ticketId :: id
  qp_rawToken :: string
  qp_gateId :: string

definition buildQrPayload :: "qr_payload \<Rightarrow> string" where
  "buildQrPayload ticket = qp_ticketId ticket @ '':'' @ qp_rawToken ticket @ '':'' @ qp_gateId ticket"

definition parseQrPayload :: "string \<Rightarrow> qr_payload option" where
  "parseQrPayload payload =
     (case split_char (CHR '':'') payload of
        [ticketId, rawToken, gateId] \<Rightarrow>
          if ticketId = [] \<or> rawToken = [] \<or> gateId = [] then None
          else Some \<lparr>qp_ticketId = ticketId, qp_rawToken = rawToken, qp_gateId = gateId\<rparr>
      | _ \<Rightarrow> None)"

text \<open>The parts of a payload that the parser gives back: not empty and without a colon.\<close>

definition payload_ok :: "qr_payload \<Rightarrow> bool" where
  "payload_ok p \<longleftrightarrow>
     (\<forall>s \<in> {qp_ticketId p, qp_rawToken p, qp_gateId p}. s \<noteq> [] \<and> colon_free s)"

section \<open>Tokens and signatures\<close>

definition signature_of :: "crypto \<Rightarrow> string \<Rightarrow> id \<Rightarrow> string \<Rightarrow> string \<Rightarrow> string" where
  "signature_of C secret ticketId qrTokenHash gateId =
     hmac256 C secret (ticketId @ '':'' @ qrTokenHash @ '':'' @ gateId)"

text \<open>The same function in \<open>checkin.service.ts\<close>, with its own argument order.\<close>

definition recomputeSignature :: "crypto \<Rightarrow> id \<Rightarrow> string \<Rightarrow> string \<Rightarrow> string \<Rightarrow> string" where
  "recomputeSignature C ticketId qrTokenHash gateId secret =
     hmac256 C secret (ticketId @ '':'' @ qrTokenHash @ '':'' @ gateId)"

record qr_token =
  qt_rawToken :: string
  qt_qrTokenHash :: string
  qt_qrSignature :: string

definition generateQrToken :: "crypto \<Rightarrow> string \<Rightarrow> id \<Rightarrow> string \<Rightarrow> string \<Rightarrow> qr_token" where
  "generateQrToken C rawToken ticketId gateId secret =
     (let qrTokenHash = sha256 C rawToken;
          signaturePayload = ticketId @ '':'' @ qrTokenHash @ '':'' @ gateId
      in \<lparr>qt_rawToken = rawToken, qt_qrTokenHash = qrTokenHash,
          qt_qrSignature = hmac256 C secret signaturePayload\<rparr>)"

lemma generateQrToken_simps [simp]:
  "qt_rawToken (generateQrToken C raw i g s) = raw"
  "qt_qrTokenHash (generateQrToken C raw i g s) = sha256 C raw"
  "qt_qrSignature (generateQrToken C raw i g s) = recomputeSignature C i (sha256 C raw) g s"
  by (simp_all add: generateQrToken_def recomputeSignature_def Let_def)

section \<open>Properties\<close>

lemma parse_build:
  "payload_ok p \<Longrightarrow> parseQrPayload (buildQrPayload p) = Some p"
  by (auto simp: parseQrPayload_def buildQrPayload_def payload_ok_def colon_free_def
      split_char_append split_char_free)

lemma build_parse: "parseQrPayload s = Some p \<Longrightarrow> buildQrPayload p = s \<and> payload_ok p"
proof -
  assume parsed: "parseQrPayload s = Some p"
  then obtain a b c where parts: "split_char (CHR '':'') s = [a, b, c]"
    and nonempty: "a \<noteq> [] \<and> b \<noteq> [] \<and> c \<noteq> []"
    and p: "p = \<lparr>qp_ticketId = a, qp_rawToken = b, qp_gateId = c\<rparr>"
    by (auto simp: parseQrPayload_def split: list.splits if_splits)
  have "s = a @ CHR '':'' # b @ CHR '':'' # c"
    using join_split [of "CHR '':''" s] parts by simp
  moreover have "\<forall>x \<in> {a, b, c}. colon_free x"
    using split_char_parts_free [of _ "CHR '':''" s] parts by (simp add: colon_free_def)
  ultimately show ?thesis using nonempty p by (simp add: buildQrPayload_def payload_ok_def)
qed

text \<open>
  The QR payload format is unambiguous: the parser accepts exactly the strings that
  \<open>buildQrPayload\<close> makes from three non-empty parts without a colon, and gives those parts back.
\<close>

theorem qr_payload_roundtrip:
  "parseQrPayload s = Some p \<longleftrightarrow> buildQrPayload p = s \<and> payload_ok p"
  using parse_build build_parse by blast

text \<open>
  The payload of a ticket issued without a gate, which ends in a colon and an empty
  gate, is refused by the parser.
\<close>

theorem qr_payload_without_gate_rejected:
  "parseQrPayload (buildQrPayload (p\<lparr>qp_gateId := ''''\<rparr>)) = None"
proof -
  have "parseQrPayload (buildQrPayload (p\<lparr>qp_gateId := ''''\<rparr>)) = Some q \<Longrightarrow> False" for q
  proof -
    assume "parseQrPayload (buildQrPayload (p\<lparr>qp_gateId := ''''\<rparr>)) = Some q"
    then have eq: "buildQrPayload q = buildQrPayload (p\<lparr>qp_gateId := ''''\<rparr>)" and ok: "payload_ok q"
      using build_parse by blast+
    from ok have "last (buildQrPayload q) \<noteq> CHR '':''"
      by (auto simp: buildQrPayload_def payload_ok_def colon_free_def last_append)
        (metis last_in_set)
    moreover have "last (buildQrPayload (p\<lparr>qp_gateId := ''''\<rparr>)) = CHR '':''"
      by (simp add: buildQrPayload_def)
    ultimately show False using eq by simp
  qed
  then show ?thesis by (cases "parseQrPayload (buildQrPayload (p\<lparr>qp_gateId := ''''\<rparr>))") auto
qed

end
