(* ===== verification/Payment_Gateway.thy ===== *)
theory Payment_Gateway
  imports Qr_Payload
begin

text \<open>
  Payment URLs: \<open>mock-gateway.service.ts\<close> (URL, transaction lookup, webhook signature), the
  circuit breaker wrapper, and \<open>createPaymentUrl\<close> of \<open>payment.service.ts\<close>, which the order
  service calls when it creates an order.

  \<^item> The breaker library decides whether the action runs: \<open>refusal\<close> is \<open>None\<close> when it ran
    and the library's error (open circuit, timeout) when it did not.
  \<^item> The identifier of a created row is an argument.
\<close>

section \<open>Strings\<close>

fun contains_string :: "string \<Rightarrow> string \<Rightarrow> bool" where
  "contains_string p [] = (p = [])"
| "contains_string p (x # xs) = (take (length p) (x # xs) = p \<or> contains_string p xs)"

definition lower_char :: "char \<Rightarrow> char" where
  "lower_char c =
     (let n = (of_char c :: nat) in if 65 \<le> n \<and> n \<le> 90 then char_of (n + 32) else c)"

fun show_nat :: "nat \<Rightarrow> string" where
  "show_nat n =
     (if n < 10 then [''0123456789'' ! n] else show_nat (n div 10) @ [''0123456789'' ! (n mod 10)])"

declare show_nat.simps [simp del]

definition show_int :: "int \<Rightarrow> string" where
  "show_int i = (if i < 0 then CHR ''-'' # show_nat (nat (- i)) else show_nat (nat i))"

section \<open>Mock gateway\<close>

datatype MockVerifyResult = VERIFY_SUCCESS | VERIFY_FAILED | VERIFY_PENDING

definition gateway_createPaymentUrl :: "string \<Rightarrow> id \<Rightarrow> int \<Rightarrow> string" where
  "gateway_createPaymentUrl baseUrl orderId amount =
     baseUrl @ ''/payments/mock-page?orderId='' @ orderId @ ''&amount='' @ show_int amount"

text \<open>The lookup answers with the configured \<open>MOCK_VERIFY_RESULT\<close>, by default PENDING.\<close>

definition verifyTransaction :: "MockVerifyResult option \<Rightarrow> id \<Rightarrow> MockVerifyResult" where
  "verifyTransaction configured orderId =
     (case configured of Some v \<Rightarrow> v | None \<Rightarrow> VERIFY_PENDING)"

definition createSignature :: "crypto \<Rightarrow> string \<Rightarrow> string \<Rightarrow> string" where
  "createSignature C secret payload = hmac256 C secret payload"

definition verifySignature :: "crypto \<Rightarrow> string \<Rightarrow> string \<Rightarrow> string \<Rightarrow> bool" where
  "verifySignature C secret payload signature =
     (let expected = createSignature C secret payload
      in if length expected \<noteq> length signature then False else expected = signature)"

lemma verifySignature_iff:
  "verifySignature C secret payload signature \<longleftrightarrow> signature = hmac256 C secret payload"
  by (auto simp: verifySignature_def createSignature_def Let_def)

fun show_result :: "MockPaymentResult \<Rightarrow> string" where
  "show_result RESULT_SUCCESS = ''SUCCESS''"
| "show_result RESULT_FAILED = ''FAILED''"
| "show_result RESULT_TIMEOUT = ''TIMEOUT''"

definition webhook_payload :: "mock_webhook_dto \<Rightarrow> string" where
  "webhook_payload dto =
     wh_orderId dto @ '':'' @ wh_providerTransactionId dto @ '':'' @ show_result (wh_result dto)
       @ '':'' @ show_int (wh_amount dto)"

section \<open>Circuit breaker\<close>

fun is_http_exception :: "exn \<Rightarrow> bool" where
  "is_http_exception (PlainError _) = False"
| "is_http_exception (ForeignKeyViolation _) = False"
| "is_http_exception (UniqueViolation _) = False"
| "is_http_exception (RecordNotFound _) = False"
| "is_http_exception _ = True"

definition breaker_fallback :: "exn \<Rightarrow> exn" where
  "breaker_fallback err =
     (if is_http_exception err then err else ServiceUnavailableException ''gateway interrupted'')"

definition breaker_execute :: "exn option \<Rightarrow> exn + 'a \<Rightarrow> exn + 'a" where
  "breaker_execute refusal action =
     (case refusal of
        Some err \<Rightarrow> Inl (breaker_fallback err)
      | None \<Rightarrow> (case action of Inl err \<Rightarrow> Inl (breaker_fallback err) | Inr x \<Rightarrow> Inr x))"

section \<open>Creating a payment URL\<close>

record payment_env =
  pe_baseUrl :: string
  pe_refusal :: "exn option"
  pe_paymentId :: id

definition isStaleMockPaymentUrl :: "string \<Rightarrow> bool" where
  "isStaleMockPaymentUrl url \<longleftrightarrow>
     contains_string ''/payment/mock-page'' url \<or> contains_string ''localhost:3000'' (map lower_char url)"

definition payments_of :: "id \<Rightarrow> world \<Rightarrow> payment list" where
  "payments_of orderId w = filter (\<lambda>p. p_orderId p = orderId) (payments w)"

text \<open>Ask the gateway through the breaker, then update the INITIATED row or create one.\<close>

definition request_payment_url ::
  "payment_env \<Rightarrow> order \<Rightarrow> payment option \<Rightarrow> (string \<times> bool) handler" where
  "request_payment_url env ord existingInitiated w =
     (case breaker_execute (pe_refusal env)
             (Inr (gateway_createPaymentUrl (pe_baseUrl env) (o_id ord) (o_totalAmountInVnd ord))) of
        Inl err \<Rightarrow> (w, Inl err)
      | Inr paymentUrl \<Rightarrow>
          (case existingInitiated of
             Some p0 \<Rightarrow>
               (w\<lparr>payments := update_where (\<lambda>p. p_id p = p_id p0)
                    (\<lambda>p. p\<lparr>p_paymentUrl := Some paymentUrl\<rparr>) (payments w)\<rparr>,
                Inr (paymentUrl, False))
           | None \<Rightarrow>
               (w\<lparr>payments := payments w @
                    [\<lparr>p_id = pe_paymentId env, p_orderId = o_id ord, p_provider = MOCK,
                      p_status = INITIATED, p_amount = o_totalAmountInVnd ord,
                      p_providerTransactionId = None, p_paymentUrl = Some paymentUrl,
                      p_rawWebhook = None, p_receivedAt = None\<rparr>]\<rparr>,
                Inr (paymentUrl, False))))"

definition createPaymentUrl :: "payment_env \<Rightarrow> id \<Rightarrow> id \<Rightarrow> (string \<times> bool) handler" where
  "createPaymentUrl env orderId userId w =
     (case find_order orderId w of
        None \<Rightarrow> (w, Inl (NotFoundException ''order''))
      | Some ord \<Rightarrow>
          if o_userId ord \<noteq> userId then (w, Inl (BadRequestException ''not the order of the user''))
          else if o_status ord \<noteq> PENDING_PAYMENT
          then (w, Inl (BadRequestException ''order not pending''))
          else
            let existing = List.find (\<lambda>p. p_status p = INITIATED) (payments_of orderId w)
            in (case Option.bind existing p_paymentUrl of
                  Some url \<Rightarrow>
                    if url \<noteq> [] \<and> \<not> isStaleMockPaymentUrl url then (w, Inr (url, True))
                    else request_payment_url env ord existing w
                | None \<Rightarrow> request_payment_url env ord existing w))"

section \<open>Facts\<close>

lemma createPaymentUrl_payments_only:
  "\<exists>ps. fst (createPaymentUrl env i u w) = w\<lparr>payments := ps\<rparr>"
proof -
  have "\<exists>ps. fst (request_payment_url env ord ex w) = w\<lparr>payments := ps\<rparr>" for ord ex
    by (cases "pe_refusal env"; cases ex)
      (auto simp: request_payment_url_def breaker_execute_def
        intro: exI [of _ "payments w"] world.equality)
  moreover have "\<exists>ps. w = w\<lparr>payments := ps\<rparr>"
    by (rule exI [of _ "payments w"]) simp
  ultimately show ?thesis
    by (auto simp: createPaymentUrl_def Let_def split: option.splits)
qed

lemma createPaymentUrl_tables [simp]:
  "orders (fst (createPaymentUrl env i u w)) = orders w"
  "tickets (fst (createPaymentUrl env i u w)) = tickets w"
  "ticketTypes (fst (createPaymentUrl env i u w)) = ticketTypes w"
  "counters (fst (createPaymentUrl env i u w)) = counters w"
  "redisdb (fst (createPaymentUrl env i u w)) = redisdb w"
  "jobs (fst (createPaymentUrl env i u w)) = jobs w"
  "concerts (fst (createPaymentUrl env i u w)) = concerts w"
  "gates (fst (createPaymentUrl env i u w)) = gates w"
  "checkinLogs (fst (createPaymentUrl env i u w)) = checkinLogs w"
  "broadcasts (fst (createPaymentUrl env i u w)) = broadcasts w"
  using createPaymentUrl_payments_only [of env i u w] by auto

lemma createPaymentUrl_error: "snd (createPaymentUrl env i u w) = Inl e \<Longrightarrow> fst (createPaymentUrl env i u w) = w"
  by (auto simp: createPaymentUrl_def request_payment_url_def Let_def breaker_execute_def
      split: option.splits if_splits)

lemma request_payment_url_reused:
  assumes find: "find_order i w = Some ord" "o_userId ord = u" "o_status ord = PENDING_PAYMENT"
    and ex: "existing = List.find (\<lambda>p. p_status p = INITIATED) (payments_of i w)"
    and run: "request_payment_url env ord existing w = (w', Inr (url, b))"
    and fresh: "url \<noteq> []" "\<not> isStaleMockPaymentUrl url"
  shows "createPaymentUrl env' i u w' = (w', Inr (url, True))"
proof -
  have id: "o_id ord = i" using find(1) find_row_SomeD by (fastforce simp: find_order_def)
  have w': "find_order i w' = Some ord"
    using run find(1) by (auto simp: request_payment_url_def find_order_def breaker_execute_def
        split: option.splits)
  have "Option.bind (List.find (\<lambda>p. p_status p = INITIATED) (payments_of i w')) p_paymentUrl = Some url"
  proof (cases existing)
    case None
    then show ?thesis
      using run ex id by (auto simp: request_payment_url_def breaker_execute_def payments_of_def
          find_append split: option.splits)
  next
    case (Some p0)
    then show ?thesis
      using run ex id by (auto simp: request_payment_url_def breaker_execute_def payments_of_def
          filter_update_where find_update_where split: option.splits)
  qed
  then show ?thesis
    using w' find(2,3) fresh by (simp add: createPaymentUrl_def)
qed

section \<open>Properties\<close>

text \<open>
  \<open>createPaymentUrl\<close> hands out one URL per pending order: once it has succeeded, a later
  call by the same user returns the same URL, marked as reused, and changes nothing, as
  long as the URL is not of the stale form that the code replaces.
\<close>

theorem payment_url_reused:
  assumes "createPaymentUrl env i u w = (w', Inr (url, b))"
    and "url \<noteq> []" and "\<not> isStaleMockPaymentUrl url"
  shows "createPaymentUrl env' i u w' = (w', Inr (url, True))"
proof -
  obtain ord where ord: "find_order i w = Some ord" "o_userId ord = u" "o_status ord = PENDING_PAYMENT"
    using assms(1) by (auto simp: createPaymentUrl_def split: option.splits if_splits)
  let ?ex = "List.find (\<lambda>p. p_status p = INITIATED) (payments_of i w)"
  have "w' = w \<and> Option.bind ?ex p_paymentUrl = Some url \<or>
      request_payment_url env ord ?ex w = (w', Inr (url, b))"
    using assms(1) ord by (auto simp: createPaymentUrl_def Let_def split: option.splits if_splits)
  then show ?thesis
  proof
    assume "w' = w \<and> Option.bind ?ex p_paymentUrl = Some url"
    then show ?thesis using ord assms(2,3) by (simp add: createPaymentUrl_def)
  next
    assume "request_payment_url env ord ?ex w = (w', Inr (url, b))"
    from request_payment_url_reused [OF ord refl this assms(2,3)] show ?thesis .
  qed
qed

definition demo_order :: order where
  "demo_order =
     \<lparr>o_id = ''o1'', o_userId = ''alice'', o_concertId = ''c1'', o_status = PENDING_PAYMENT,
      o_totalAmountInVnd = 200, o_currency = ''VND'', o_expiresAt = Some 900000, o_paidAt = None,
      o_cancelledAt = None, o_inventoryReleasedAt = None, o_releaseReason = None,
      o_items = [\<lparr>oi_id = ''i1'', oi_ticketTypeId = ''vip'', oi_quantity = 2, oi_unitPrice = 100,
                  oi_subtotal = 200\<rparr>],
      o_createdAt = 0\<rparr>"

definition demo_env :: payment_env where
  "demo_env = \<lparr>pe_baseUrl = ''http://pay'', pe_refusal = None, pe_paymentId = ''p1''\<rparr>"

theorem payment_url_reused_witness:
  "createPaymentUrl demo_env ''o1'' ''alice''
     (fst (createPaymentUrl demo_env ''o1'' ''alice'' (empty_world\<lparr>orders := [demo_order]\<rparr>))) =
   (fst (createPaymentUrl demo_env ''o1'' ''alice'' (empty_world\<lparr>orders := [demo_order]\<rparr>)),
    Inr (''http://pay/payments/mock-page?orderId=o1&amount=200'', True))"
  by (rule payment_url_reused [where b = False and env = demo_env
        and w = "empty_world\<lparr>orders := [demo_order]\<rparr>"])
    (simp_all add: prod_eq_iff createPaymentUrl_def request_payment_url_def find_order_def
      demo_order_def demo_env_def empty_world_def payments_of_def breaker_execute_def
      gateway_createPaymentUrl_def show_int_def show_nat.simps isStaleMockPaymentUrl_def
      lower_char_def Let_def)

end
