(* ===== verification/Order_Service.thy ===== *)
theory Order_Service
  imports Seatmap_Service Payment_Gateway
begin

text \<open>
  \<open>order.service.ts\<close> and the expire processor: validation of an order, lazy seeding of the
  Redis counters, reservation with rollback, persistence, the PostgreSQL inventory guard,
  the payment URL, the expire job; the customer and admin queries; cancellation; expiry.

  \<^item> \<open>createOrder\<close> is the composition of the stages below in the order of the code, each
    with its own rollback.  The instants \<open>t0\<close> (when \<open>expiresAt\<close> is computed) and \<open>t1\<close>
    (when the server calls run) are separate arguments.
  \<^item> What the environment decides is in \<open>order_env\<close>: configured time to live, fresh
    identifiers, a failure of the insert or of the inventory transaction for a reason
    outside the program (lost connection), and the gateway.
\<close>

section \<open>Requests and responses\<close>

record order_item_dto =
  di_ticketTypeId :: id
  di_quantity :: int

record create_order_dto =
  do_concertId :: id
  do_items :: "order_item_dto list"

record ticket_meta =
  m_ticketTypeId :: id
  m_quantity :: int
  m_maxPerUser :: int
  m_unitPrice :: int

record order_env =
  oe_reservationTtlSeconds :: "int option"
  oe_orderId :: id
  oe_itemId :: "nat \<Rightarrow> id"
  oe_insertFails :: bool
  oe_inventoryFails :: bool
  oe_payment :: payment_env

record order_item_response =
  ri_id :: id
  ri_ticketTypeId :: id
  ri_ticketTypeName :: string
  ri_quantity :: int
  ri_unitPrice :: int
  ri_subtotal :: int
  ri_ticketCount :: nat

record order_ticket_response =
  rt_id :: id
  rt_ticketTypeId :: id
  rt_ticketTypeName :: string
  rt_status :: TicketStatus
  rt_checkedInAt :: "time option"
  rt_createdAt :: time
  rt_qrPayload :: string

record order_response =
  or_id :: id
  or_userId :: id
  or_concertId :: id
  or_concertTitle :: string
  or_status :: OrderStatus
  or_totalAmountInVnd :: int
  or_currency :: string
  or_expiresAt :: "time option"
  or_paidAt :: "time option"
  or_cancelledAt :: "time option"
  or_createdAt :: time
  or_items :: "order_item_response list"
  or_paymentUrl :: "string option"
  or_ticketCount :: nat
  or_tickets :: "order_ticket_response list option"
  or_serverTime :: time

record order_list_response =
  ol_data :: "order_response list"
  ol_total :: nat
  ol_page :: nat
  ol_limit :: nat
  ol_totalPages :: nat

section \<open>Mapping helpers\<close>

definition ticket_type_name :: "id \<Rightarrow> world \<Rightarrow> string" where
  "ticket_type_name i w = (case find_ticket_type i w of Some tt \<Rightarrow> tt_name tt | None \<Rightarrow> [])"

definition concert_title :: "id \<Rightarrow> world \<Rightarrow> string" where
  "concert_title i w = (case find_concert i w of Some c \<Rightarrow> c_title c | None \<Rightarrow> [])"

definition item_tickets :: "world \<Rightarrow> order_item \<Rightarrow> ticket list" where
  "item_tickets w item = filter (\<lambda>t. t_orderItemId t = oi_id item) (tickets w)"

definition order_buildQrPayload :: "ticket \<Rightarrow> string" where
  "order_buildQrPayload t =
     buildQrPayload \<lparr>qp_ticketId = t_id t, qp_rawToken = t_qrRawToken t,
       qp_gateId = (case t_gateId t of Some g \<Rightarrow> g | None \<Rightarrow> [])\<rparr>"

definition toOrderItemResponse :: "world \<Rightarrow> order_item \<Rightarrow> order_item_response" where
  "toOrderItemResponse w item =
     \<lparr>ri_id = oi_id item, ri_ticketTypeId = oi_ticketTypeId item,
      ri_ticketTypeName = ticket_type_name (oi_ticketTypeId item) w, ri_quantity = oi_quantity item,
      ri_unitPrice = oi_unitPrice item, ri_subtotal = oi_subtotal item,
      ri_ticketCount = length (item_tickets w item)\<rparr>"

definition toTicketResponse :: "world \<Rightarrow> ticket \<Rightarrow> order_ticket_response" where
  "toTicketResponse w t =
     \<lparr>rt_id = t_id t, rt_ticketTypeId = t_ticketTypeId t,
      rt_ticketTypeName = ticket_type_name (t_ticketTypeId t) w, rt_status = t_status t,
      rt_checkedInAt = t_checkedInAt t, rt_createdAt = t_createdAt t,
      rt_qrPayload = order_buildQrPayload t\<rparr>"

definition toOrderResponseFull :: "time \<Rightarrow> string option \<Rightarrow> world \<Rightarrow> order \<Rightarrow> order_response" where
  "toOrderResponseFull now paymentUrl w ord =
     (let ts = concat (map (\<lambda>item. map (toTicketResponse w) (item_tickets w item)) (o_items ord))
      in \<lparr>or_id = o_id ord, or_userId = o_userId ord, or_concertId = o_concertId ord,
          or_concertTitle = concert_title (o_concertId ord) w, or_status = o_status ord,
          or_totalAmountInVnd = o_totalAmountInVnd ord, or_currency = o_currency ord,
          or_expiresAt = o_expiresAt ord, or_paidAt = o_paidAt ord,
          or_cancelledAt = o_cancelledAt ord, or_createdAt = o_createdAt ord,
          or_items = map (toOrderItemResponse w) (o_items ord), or_paymentUrl = paymentUrl,
          or_ticketCount = length ts,
          or_tickets = (if o_status ord = PAID then Some ts else None), or_serverTime = now\<rparr>)"

definition toOrderResponseMinimal :: "time \<Rightarrow> string option \<Rightarrow> world \<Rightarrow> order \<Rightarrow> order_response" where
  "toOrderResponseMinimal now paymentUrl w ord =
     \<lparr>or_id = o_id ord, or_userId = o_userId ord, or_concertId = o_concertId ord,
      or_concertTitle = concert_title (o_concertId ord) w, or_status = o_status ord,
      or_totalAmountInVnd = o_totalAmountInVnd ord, or_currency = o_currency ord,
      or_expiresAt = o_expiresAt ord, or_paidAt = o_paidAt ord,
      or_cancelledAt = o_cancelledAt ord, or_createdAt = o_createdAt ord,
      or_items = map (toOrderItemResponse w) (o_items ord), or_paymentUrl = paymentUrl,
      or_ticketCount = sum_list (map (\<lambda>item. length (item_tickets w item)) (o_items ord)),
      or_tickets = None, or_serverTime = now\<rparr>"

section \<open>Internal helpers\<close>

definition validateTicketType :: "time \<Rightarrow> id \<Rightarrow> id \<Rightarrow> world \<Rightarrow> exn + (int \<times> int)" where
  "validateTicketType now concertId ticketTypeId w =
     (case find_concert concertId w of
        None \<Rightarrow> Inl (NotFoundException ''concert'')
      | Some c \<Rightarrow>
          if c_status c \<noteq> PUBLISHED \<and> c_status c \<noteq> SALE_OPEN
          then Inl (BadRequestException ''concert not open'')
          else
            (case find_ticket_type ticketTypeId w of
               None \<Rightarrow> Inl (NotFoundException ''ticket type'')
             | Some tt \<Rightarrow>
                 if tt_concertId tt \<noteq> concertId
                 then Inl (BadRequestException ''ticket type of another concert'')
                 else if tt_status tt \<noteq> ACTIVE then Inl (BadRequestException ''ticket type not active'')
                 else if tt_saleStartsAt tt > now then Inl (BadRequestException ''sale not started'')
                 else if (case tt_saleEndsAt tt of None \<Rightarrow> False | Some e \<Rightarrow> e < now)
                 then Inl (BadRequestException ''sale ended'')
                 else Inr (tt_maxPerUser tt, tt_price tt)))"

definition ensureRedisStock :: "time \<Rightarrow> id \<Rightarrow> world \<Rightarrow> world" where
  "ensureRedisStock now ticketTypeId w =
     (let key = REDIS_KEY_STOCK ticketTypeId
      in if redis_exists now key (redisdb w) then w
         else (case find_ticket_type ticketTypeId w of
                 None \<Rightarrow> w
               | Some tt \<Rightarrow>
                   let available = max 0 (tt_totalQty tt - tt_soldQty tt - tt_reservedQty tt)
                   in w\<lparr>redisdb := fst (redis_setNx now key (RInt available) (redisdb w))\<rparr>))"

definition ensureRedisUserLimit :: "time \<Rightarrow> id \<Rightarrow> id \<Rightarrow> world \<Rightarrow> world" where
  "ensureRedisUserLimit now userId ticketTypeId w =
     (let key = REDIS_KEY_USER_LIMIT userId ticketTypeId
      in if redis_exists now key (redisdb w) then w
         else
           let currentCount = (case find_counter userId ticketTypeId w of
                                 Some c \<Rightarrow> uc_paidQty c + uc_reservedQty c | None \<Rightarrow> 0)
           in w\<lparr>redisdb := fst (redis_setNx now key (RInt currentCount) (redisdb w))\<rparr>)"

definition DEFAULT_RESERVATION_TTL_SECONDS :: int where
  "DEFAULT_RESERVATION_TTL_SECONDS = 15 * 60"

definition getReservationTtl :: "order_env \<Rightarrow> int" where
  "getReservationTtl env =
     (case oe_reservationTtlSeconds env of Some t \<Rightarrow> t | None \<Rightarrow> DEFAULT_RESERVATION_TTL_SECONDS)"

text \<open>The releases of one order, fired together; each one's result is ignored.\<close>

definition release_item :: "time \<Rightarrow> id \<Rightarrow> id \<Rightarrow> id \<times> int \<Rightarrow> redis \<Rightarrow> redis" where
  "release_item now userId orderId item r =
     fst (releaseReservation now
       \<lparr>lp_ticketTypeId = fst item, lp_userId = userId, lp_orderId = orderId,
        lp_quantity = snd item\<rparr> r)"

definition release_items :: "time \<Rightarrow> id \<Rightarrow> id \<Rightarrow> (id \<times> int) list \<Rightarrow> world \<Rightarrow> world" where
  "release_items now userId orderId items w =
     w\<lparr>redisdb := fold (release_item now userId orderId) items (redisdb w)\<rparr>"

definition meta_pairs :: "ticket_meta list \<Rightarrow> (id \<times> int) list" where
  "meta_pairs ms = map (\<lambda>m. (m_ticketTypeId m, m_quantity m)) ms"

definition item_pairs :: "order \<Rightarrow> (id \<times> int) list" where
  "item_pairs ord = map (\<lambda>i. (oi_ticketTypeId i, oi_quantity i)) (o_items ord)"

text \<open>\<open>reservedQty: { decrement }\<close> on the ticket types, then on the user's counters.\<close>

definition dec_type :: "id \<times> int \<Rightarrow> unit handler" where
  "dec_type item =
     update_ticket_type (fst item) (\<lambda>tt. tt\<lparr>tt_reservedQty := tt_reservedQty tt - snd item\<rparr>)"

definition dec_counter :: "id \<Rightarrow> id \<times> int \<Rightarrow> unit handler" where
  "dec_counter userId item =
     update_counter userId (fst item) (\<lambda>c. c\<lparr>uc_reservedQty := uc_reservedQty c - snd item\<rparr>)"

section \<open>Creating an order\<close>

subsection \<open>Step 1: validation\<close>

fun collect_meta :: "time \<Rightarrow> id \<Rightarrow> order_item_dto list \<Rightarrow> world \<Rightarrow> exn + ticket_meta list" where
  "collect_meta now concertId [] w = Inr []"
| "collect_meta now concertId (item # items) w =
     (case validateTicketType now concertId (di_ticketTypeId item) w of
        Inl e \<Rightarrow> Inl e
      | Inr (maxPerUser, unitPrice) \<Rightarrow>
          (case collect_meta now concertId items w of
             Inl e \<Rightarrow> Inl e
           | Inr ms \<Rightarrow>
               Inr (\<lparr>m_ticketTypeId = di_ticketTypeId item, m_quantity = di_quantity item,
                     m_maxPerUser = maxPerUser, m_unitPrice = unitPrice\<rparr> # ms)))"

subsection \<open>Steps 2 to 4: seeding, reservation, rollback\<close>

definition seed_counters :: "time \<Rightarrow> id \<Rightarrow> ticket_meta list \<Rightarrow> world \<Rightarrow> world" where
  "seed_counters now userId ms w =
     fold (\<lambda>m w. ensureRedisUserLimit now userId (m_ticketTypeId m)
                   (ensureRedisStock now (m_ticketTypeId m) w)) ms w"

definition reserve_params_of :: "id \<Rightarrow> id \<Rightarrow> int \<Rightarrow> ticket_meta \<Rightarrow> reserve_params" where
  "reserve_params_of userId orderId ttl m =
     \<lparr>rp_ticketTypeId = m_ticketTypeId m, rp_userId = userId, rp_orderId = orderId,
      rp_quantity = m_quantity m, rp_maxPerUser = m_maxPerUser m, rp_ttlSeconds = ttl\<rparr>"

fun reserve_all ::
  "time \<Rightarrow> id \<Rightarrow> id \<Rightarrow> int \<Rightarrow> ticket_meta list \<Rightarrow> redis \<Rightarrow>
   redis \<times> (lua_error + reserve_success) list" where
  "reserve_all now userId orderId ttl [] r = (r, [])"
| "reserve_all now userId orderId ttl (m # ms) r =
     (let (r', res) = reserveTicket now (reserve_params_of userId orderId ttl m) r;
          (r'', ress) = reserve_all now userId orderId ttl ms r'
      in (r'', res # ress))"

text \<open>\<open>findIndex\<close> of the first refused reservation, with its error.\<close>

fun first_failure :: "(lua_error + 'a) list \<Rightarrow> (nat \<times> lua_error) option" where
  "first_failure [] = None"
| "first_failure (Inl e # _) = Some (0, e)"
| "first_failure (Inr _ # rs) = map_option (apfst Suc) (first_failure rs)"

fun reservation_exn :: "lua_error \<Rightarrow> exn" where
  "reservation_exn (OUT_OF_STOCK _ _) = UnprocessableEntityException ''not enough tickets''"
| "reservation_exn (EXCEED_USER_LIMIT _ _ _ _) = UnprocessableEntityException ''limit exceeded''"
| "reservation_exn _ = UnprocessableEntityException ''reservation failed''"

definition reserve_stage ::
  "time \<Rightarrow> id \<Rightarrow> id \<Rightarrow> int \<Rightarrow> ticket_meta list \<Rightarrow> unit handler" where
  "reserve_stage now userId orderId ttl ms w =
     (let (r, results) = reserve_all now userId orderId ttl ms (redisdb w);
          w' = w\<lparr>redisdb := r\<rparr>
      in case first_failure results of
           None \<Rightarrow> (w', Inr ())
         | Some (failedIndex, err) \<Rightarrow>
             (release_items now userId orderId (rev (meta_pairs (take failedIndex ms))) w',
              Inl (reservation_exn err)))"

subsection \<open>Step 5: the order row and the inventory guard\<close>

text \<open>The \<open>Int\<close> columns are 32 bits wide; a value outside is refused by the database.\<close>

definition fits_int4 :: "int \<Rightarrow> bool" where
  "fits_int4 n \<longleftrightarrow> - (2 ^ 31) \<le> n \<and> n < 2 ^ 31"

definition new_items :: "order_env \<Rightarrow> ticket_meta list \<Rightarrow> order_item list" where
  "new_items env ms =
     map (\<lambda>(n, m). \<lparr>oi_id = oe_itemId env n, oi_ticketTypeId = m_ticketTypeId m,
                    oi_quantity = m_quantity m, oi_unitPrice = m_unitPrice m,
                    oi_subtotal = m_unitPrice m * m_quantity m\<rparr>) (zip [0..<length ms] ms)"

definition new_order :: "order_env \<Rightarrow> time \<Rightarrow> time \<Rightarrow> id \<Rightarrow> id \<Rightarrow> ticket_meta list \<Rightarrow> order" where
  "new_order env t0 now concertId userId ms =
     \<lparr>o_id = oe_orderId env, o_userId = userId, o_concertId = concertId,
      o_status = PENDING_PAYMENT,
      o_totalAmountInVnd = sum_list (map (\<lambda>m. m_unitPrice m * m_quantity m) ms),
      o_currency = ''VND'', o_expiresAt = Some (t0 + getReservationTtl env * 1000),
      o_paidAt = None, o_cancelledAt = None, o_inventoryReleasedAt = None,
      o_releaseReason = None, o_items = new_items env ms, o_createdAt = now\<rparr>"

definition order_fits :: "order \<Rightarrow> bool" where
  "order_fits ord \<longleftrightarrow>
     fits_int4 (o_totalAmountInVnd ord) \<and>
     (\<forall>i \<in> set (o_items ord). fits_int4 (oi_quantity i) \<and> fits_int4 (oi_unitPrice i) \<and>
        fits_int4 (oi_subtotal i))"

definition persist_stage ::
  "order_env \<Rightarrow> time \<Rightarrow> time \<Rightarrow> id \<Rightarrow> id \<Rightarrow> ticket_meta list \<Rightarrow> order handler" where
  "persist_stage env t0 now concertId userId ms w =
     (let ord = new_order env t0 now concertId userId ms
      in if oe_insertFails env \<or> \<not> order_fits ord
         then (release_items now userId (oe_orderId env) (meta_pairs ms) w,
               Inl (BadRequestException ''failed to create order''))
         else (w\<lparr>orders := orders w @ [ord]\<rparr>, Inr ord))"

text \<open>
  One round of the inventory loop: the guarded UPDATE (rows where reserved, sold and the
  new quantity fit the total), then the upsert of the user's counter.
\<close>

definition inventory_row :: "id \<Rightarrow> ticket_meta \<Rightarrow> unit handler" where
  "inventory_row userId m w =
     (let guard = (\<lambda>tt. tt_id tt = m_ticketTypeId m \<and>
                     tt_reservedQty tt + tt_soldQty tt + m_quantity m \<le> tt_totalQty tt)
      in if count_where guard (ticketTypes w) = 0
         then (w, Inl (UnprocessableEntityException ''not enough tickets''))
         else (upsert_counter
                 \<lparr>uc_userId = userId, uc_ticketTypeId = m_ticketTypeId m, uc_paidQty = 0,
                  uc_reservedQty = m_quantity m\<rparr>
                 (\<lambda>c. c\<lparr>uc_reservedQty := uc_reservedQty c + m_quantity m\<rparr>)
                 (w\<lparr>ticketTypes := update_where guard
                      (\<lambda>tt. tt\<lparr>tt_reservedQty := tt_reservedQty tt + m_quantity m\<rparr>)
                      (ticketTypes w)\<rparr>),
               Inr ()))"

definition sync_inventory :: "order_env \<Rightarrow> id \<Rightarrow> ticket_meta list \<Rightarrow> unit handler" where
  "sync_inventory env userId ms =
     transaction (\<lambda>w. if oe_inventoryFails env then (w, Inl (PlainError ''database''))
                      else forE ms (inventory_row userId) w)"

fun is_unprocessable :: "exn \<Rightarrow> bool" where
  "is_unprocessable (UnprocessableEntityException _) = True"
| "is_unprocessable _ = False"

definition inventory_stage :: "order_env \<Rightarrow> time \<Rightarrow> id \<Rightarrow> ticket_meta list \<Rightarrow> unit handler" where
  "inventory_stage env now userId ms w =
     (case sync_inventory env userId ms w of
        (w', Inr _) \<Rightarrow> (w', Inr ())
      | (w', Inl err) \<Rightarrow>
          (fst (delete_order (oe_orderId env)
                  (release_items now userId (oe_orderId env) (meta_pairs ms) w')),
           Inl (if is_unprocessable err then err
                else BadRequestException ''failed to create order'')))"

subsection \<open>Payment URL, with the rollback on a gateway error\<close>

definition payment_stage ::
  "order_env \<Rightarrow> time \<Rightarrow> id \<Rightarrow> ticket_meta list \<Rightarrow> string handler" where
  "payment_stage env now userId ms w =
     (case createPaymentUrl (oe_payment env) (oe_orderId env) userId w of
        (w', Inr (paymentUrl, _)) \<Rightarrow> (w', Inr paymentUrl)
      | (w', Inl gatewayErr) \<Rightarrow>
          (let w1 = release_items now userId (oe_orderId env) (meta_pairs ms) w'
           in bindE (promise_all (map dec_type (meta_pairs ms) @ map (dec_counter userId) (meta_pairs ms)) w1)
                (\<lambda>w2 _. bindE (delete_order (oe_orderId env) w2) (\<lambda>w3 _. (w3, Inl gatewayErr)))))"

subsection \<open>The whole handler\<close>

definition createOrder ::
  "order_env \<Rightarrow> time \<Rightarrow> time \<Rightarrow> create_order_dto \<Rightarrow> id \<Rightarrow> (order_response \<times> string) handler" where
  "createOrder env t0 now dto userId w =
     (case collect_meta now (do_concertId dto) (do_items dto) w of
        Inl e \<Rightarrow> (w, Inl e)
      | Inr ms \<Rightarrow>
          bindE (reserve_stage now userId (oe_orderId env) (getReservationTtl env) ms
                   (seed_counters now userId ms w)) (\<lambda>w1 _.
          bindE (persist_stage env t0 now (do_concertId dto) userId ms w1) (\<lambda>w2 created.
          bindE (inventory_stage env now userId ms w2) (\<lambda>w3 _.
          bindE (payment_stage env now userId ms w3) (\<lambda>w4 paymentUrl.
            let w5 = w4\<lparr>jobs := jobs w4 @ [ExpireJob (oe_orderId env) (getReservationTtl env * 1000)]\<rparr>;
                w6 = invalidateCache (Some (do_concertId dto))
                       (refresh_all now (do_concertId dto) (map m_ticketTypeId ms) w5)
            in (w6, Inr (toOrderResponseMinimal now (Some paymentUrl) w2 created, paymentUrl)))))))"

section \<open>Queries\<close>

definition getOrder :: "time \<Rightarrow> id \<Rightarrow> id \<Rightarrow> world \<Rightarrow> exn + order_response" where
  "getOrder now orderId userId w =
     (case find_order orderId w of
        None \<Rightarrow> Inl (NotFoundException ''order'')
      | Some ord \<Rightarrow>
          if o_userId ord \<noteq> userId then Inl (UnauthorizedException ''view order'')
          else Inr (toOrderResponseFull now None w ord))"

text \<open>\<open>skip\<close> and \<open>take\<close>; pages count from 1.\<close>

definition page_of :: "nat \<Rightarrow> nat \<Rightarrow> 'r list \<Rightarrow> 'r list" where
  "page_of page limit rows = take limit (drop ((page - 1) * limit) rows)"

definition ceil_div :: "nat \<Rightarrow> nat \<Rightarrow> nat" where
  "ceil_div n k = (n + k - 1) div k"

definition getMyOrders :: "time \<Rightarrow> id \<Rightarrow> nat \<Rightarrow> nat \<Rightarrow> OrderStatus option \<Rightarrow> world \<Rightarrow> order_list_response" where
  "getMyOrders now userId page limit status w =
     (let found = filter (\<lambda>ord. o_userId ord = userId \<and> (case status of None \<Rightarrow> True | Some s \<Rightarrow> o_status ord = s))
                    (rev (orders w));
          total = count_where (\<lambda>ord. o_userId ord = userId) (orders w)
      in \<lparr>ol_data = map (toOrderResponseMinimal now None w) (page_of page limit found),
          ol_total = total, ol_page = page, ol_limit = limit, ol_totalPages = ceil_div total limit\<rparr>)"

definition getAllOrders ::
  "time \<Rightarrow> nat \<Rightarrow> nat \<Rightarrow> OrderStatus option \<Rightarrow> id option \<Rightarrow> id option \<Rightarrow> world \<Rightarrow> order_list_response" where
  "getAllOrders now page limit status concertId organizerId w =
     (let cond = (\<lambda>ord.
            (case status of None \<Rightarrow> True | Some s \<Rightarrow> o_status ord = s) \<and>
            (case concertId of None \<Rightarrow> True | Some c \<Rightarrow> o_concertId ord = c) \<and>
            (case organizerId of None \<Rightarrow> True
             | Some g \<Rightarrow> map_option c_organizerId (find_concert (o_concertId ord) w) = Some g));
          total = count_where cond (orders w)
      in \<lparr>ol_data = map (toOrderResponseMinimal now None w) (page_of page limit (filter cond (rev (orders w)))),
          ol_total = total, ol_page = page, ol_limit = limit, ol_totalPages = ceil_div total limit\<rparr>)"

definition getOrderAdmin :: "time \<Rightarrow> id \<Rightarrow> world \<Rightarrow> exn + order_response" where
  "getOrderAdmin now orderId w =
     (case find_order orderId w of
        None \<Rightarrow> Inl (NotFoundException ''order'')
      | Some ord \<Rightarrow>
          let paymentUrl = (case rev (payments_of orderId w) of [] \<Rightarrow> None | p # _ \<Rightarrow> p_paymentUrl p)
          in Inr (toOrderResponseMinimal now paymentUrl w ord))"

section \<open>Cancelling and expiring\<close>

definition cancelOrder :: "time \<Rightarrow> id \<Rightarrow> id \<Rightarrow> order_response handler" where
  "cancelOrder now orderId userId w =
     (case find_order orderId w of
        None \<Rightarrow> (w, Inl (NotFoundException ''order''))
      | Some ord \<Rightarrow>
          if o_userId ord \<noteq> userId then (w, Inl (UnauthorizedException ''cancel order''))
          else if o_status ord \<noteq> PENDING_PAYMENT then (w, Inl (BadRequestException ''order not pending''))
          else
            bindE (promise_all (map dec_type (item_pairs ord) @ map (dec_counter userId) (item_pairs ord))
                     (release_items now userId orderId (item_pairs ord) w)) (\<lambda>w1 _.
            bindE (update_order orderId
                     (\<lambda>x. x\<lparr>o_status := ORDER_CANCELLED, o_cancelledAt := Some now,
                            o_releaseReason := Some ''CANCELLED'',
                            o_inventoryReleasedAt := Some now\<rparr>) w1) (\<lambda>w2 _.
            (case find_order orderId w2 of
               None \<Rightarrow> (w2, Inl (RecordNotFound ''Order''))
             | Some updated \<Rightarrow>
                 let w3 = invalidateCache (Some (o_concertId updated))
                            (refresh_all now (o_concertId updated) (map fst (item_pairs updated)) w2)
                 in (w3, Inr (toOrderResponseMinimal now None w2 updated))))))"

definition expireOrder :: "time \<Rightarrow> id \<Rightarrow> unit handler" where
  "expireOrder now orderId w =
     (case find_order orderId w of
        None \<Rightarrow> (w, Inr ())
      | Some ord \<Rightarrow>
          if o_status ord \<noteq> PENDING_PAYMENT then (w, Inr ())
          else if (case o_expiresAt ord of None \<Rightarrow> False | Some e \<Rightarrow> e > now) then (w, Inr ())
          else
            bindE (promise_all (map (dec_counter (o_userId ord)) (item_pairs ord))
                     (release_items now (o_userId ord) (o_id ord) (item_pairs ord) w)) (\<lambda>w1 _.
            bindE (promise_all (map dec_type (item_pairs ord)) w1) (\<lambda>w2 _.
            bindE (update_order orderId
                     (\<lambda>x. x\<lparr>o_status := EXPIRED, o_inventoryReleasedAt := Some now,
                            o_releaseReason := Some ''PAYMENT_TIMEOUT''\<rparr>) w2) (\<lambda>w3 _.
            (invalidateCache (Some (o_concertId ord))
               (refresh_all now (o_concertId ord) (map fst (item_pairs ord)) w3), Inr ())))))"

section \<open>Closed forms of the loops over items\<close>

text \<open>The quantity that a list of item pairs asks of one ticket type.\<close>

definition pairs_qty :: "id \<Rightarrow> (id \<times> int) list \<Rightarrow> int" where
  "pairs_qty tt ps = sum_list (map (\<lambda>p. if fst p = tt then snd p else 0) ps)"

lemma pairs_qty_Nil [simp]: "pairs_qty tt [] = 0"
  by (simp add: pairs_qty_def)

lemma pairs_qty_Cons [simp]:
  "pairs_qty tt (p # ps) = (if fst p = tt then snd p else 0) + pairs_qty tt ps"
  by (simp add: pairs_qty_def)

definition dec_types :: "(id \<times> int) list \<Rightarrow> ticket_type list \<Rightarrow> ticket_type list" where
  "dec_types ps rows =
     map (\<lambda>t. t\<lparr>tt_reservedQty := tt_reservedQty t - pairs_qty (tt_id t) ps\<rparr>) rows"

definition dec_counters :: "id \<Rightarrow> (id \<times> int) list \<Rightarrow> user_ticket_counter list \<Rightarrow> user_ticket_counter list" where
  "dec_counters u ps rows =
     map (\<lambda>c. if uc_userId c = u
              then c\<lparr>uc_reservedQty := uc_reservedQty c - pairs_qty (uc_ticketTypeId c) ps\<rparr> else c) rows"

lemma dec_types_Nil [simp]: "dec_types [] rows = rows"
  by (simp add: dec_types_def)

lemma dec_counters_Nil [simp]: "dec_counters u [] rows = rows"
  by (simp add: dec_counters_def cong: if_cong)

lemma find_row_map:
  "(\<And>r. key (f r) = key r) \<Longrightarrow> find_row key k (map f rows) = map_option f (find_row key k rows)"
  by (induction rows) auto

lemma dec_type_eq:
  "find_ticket_type (fst p) w \<noteq> None \<Longrightarrow>
   dec_type p w = (w\<lparr>ticketTypes := dec_types [p] (ticketTypes w)\<rparr>, Inr ())"
  by (auto simp: dec_type_def update_ticket_type_def dec_types_def update_where_def
      intro!: map_cong ticket_type.equality)

lemma dec_counter_eq:
  "find_counter u (fst p) w \<noteq> None \<Longrightarrow>
   dec_counter u p w = (w\<lparr>counters := dec_counters u [p] (counters w)\<rparr>, Inr ())"
  by (auto simp: dec_counter_def update_counter_def dec_counters_def update_where_def counter_key_def
      intro!: map_cong user_ticket_counter.equality)

lemma dec_types_Cons: "dec_types ps (dec_types [p] rows) = dec_types (p # ps) rows"
  by (simp add: dec_types_def algebra_simps)

lemma dec_counters_Cons: "dec_counters u ps (dec_counters u [p] rows) = dec_counters u (p # ps) rows"
  by (auto simp: dec_counters_def algebra_simps)

lemma find_ticket_type_dec [simp]:
  "find_ticket_type i (w\<lparr>ticketTypes := dec_types ps (ticketTypes w)\<rparr>) =
     map_option (\<lambda>t. t\<lparr>tt_reservedQty := tt_reservedQty t - pairs_qty (tt_id t) ps\<rparr>) (find_ticket_type i w)"
  by (simp add: find_ticket_type_def dec_types_def find_row_map)

lemma find_counter_dec:
  "(find_counter u' i (w\<lparr>counters := dec_counters u ps (counters w)\<rparr>) = None) = (find_counter u' i w = None)"
  by (simp add: find_counter_def dec_counters_def find_row_map counter_key_def)

definition types_exist :: "(id \<times> int) list \<Rightarrow> world \<Rightarrow> bool" where
  "types_exist ps w \<longleftrightarrow> (\<forall>p \<in> set ps. find_ticket_type (fst p) w \<noteq> None)"

definition counters_exist :: "id \<Rightarrow> (id \<times> int) list \<Rightarrow> world \<Rightarrow> bool" where
  "counters_exist u ps w \<longleftrightarrow> (\<forall>p \<in> set ps. find_counter u (fst p) w \<noteq> None)"

lemma promise_all_append:
  "promise_all (xs @ ys) w =
     (case promise_all xs w of
        (w', Inl e) \<Rightarrow> (fst (promise_all ys w'), Inl e)
      | (w', Inr _) \<Rightarrow> promise_all ys w')"
  by (induction xs arbitrary: w) (auto split: prod.splits sum.splits)

lemma promise_all_dec_types:
  "types_exist ps w \<Longrightarrow>
   promise_all (map dec_type ps) w = (w\<lparr>ticketTypes := dec_types ps (ticketTypes w)\<rparr>, Inr ())"
proof (induction ps arbitrary: w)
  case Nil
  then show ?case by simp
next
  case (Cons p ps)
  let ?w = "w\<lparr>ticketTypes := dec_types [p] (ticketTypes w)\<rparr>"
  have "types_exist ps ?w" using Cons.prems by (auto simp: types_exist_def)
  with Cons.IH [of ?w] Cons.prems show ?case
    by (simp add: types_exist_def dec_type_eq dec_types_Cons)
qed

lemma promise_all_dec_counters:
  "counters_exist u ps w \<Longrightarrow>
   promise_all (map (dec_counter u) ps) w = (w\<lparr>counters := dec_counters u ps (counters w)\<rparr>, Inr ())"
proof (induction ps arbitrary: w)
  case Nil
  then show ?case by simp
next
  case (Cons p ps)
  let ?w = "w\<lparr>counters := dec_counters u [p] (counters w)\<rparr>"
  have "counters_exist u ps ?w" using Cons.prems by (auto simp: counters_exist_def find_counter_dec)
  with Cons.IH [of ?w] Cons.prems show ?case
    by (simp add: counters_exist_def dec_counter_eq dec_counters_Cons)
qed

lemma types_exist_frame [simp]:
  "types_exist ps (w\<lparr>counters := cs\<rparr>) = types_exist ps w"
  "types_exist ps (release_items now u i qs w) = types_exist ps w"
  by (simp_all add: types_exist_def find_ticket_type_def release_items_def)

lemma counters_exist_frame [simp]:
  "counters_exist u ps (w\<lparr>ticketTypes := ts\<rparr>) = counters_exist u ps w"
  "counters_exist u ps (release_items now u' i qs w) = counters_exist u ps w"
  by (simp_all add: counters_exist_def find_counter_def release_items_def)

lemma release_items_tables [simp]:
  "concerts (release_items now u i ps w) = concerts w"
  "ticketTypes (release_items now u i ps w) = ticketTypes w"
  "counters (release_items now u i ps w) = counters w"
  "orders (release_items now u i ps w) = orders w"
  "payments (release_items now u i ps w) = payments w"
  "tickets (release_items now u i ps w) = tickets w"
  "gates (release_items now u i ps w) = gates w"
  "checkinLogs (release_items now u i ps w) = checkinLogs w"
  "jobs (release_items now u i ps w) = jobs w"
  "broadcasts (release_items now u i ps w) = broadcasts w"
  "find_order j (release_items now u i ps w) = find_order j w"
  by (simp_all add: release_items_def find_order_def)

text \<open>Without a live reservation of the order, releasing its items does nothing.\<close>

lemma release_item_missing:
  "redis_get now (REDIS_KEY_RESERVATION orderId) r = None \<Longrightarrow> release_item now u orderId p r = r"
  by (simp add: release_item_def releaseReservation_missing)

lemma release_items_missing:
  "redis_get now (REDIS_KEY_RESERVATION orderId) (redisdb w) = None \<Longrightarrow>
   release_items now u orderId ps w = w"
proof -
  assume "redis_get now (REDIS_KEY_RESERVATION orderId) (redisdb w) = None"
  then have "fold (release_item now u orderId) ps (redisdb w) = redisdb w"
    by (induction ps) (simp_all add: release_item_missing)
  then show ?thesis by (simp add: release_items_def)
qed

section \<open>Cancelling and expiring: the effect on success\<close>

text \<open>
  The tables after an order has left the pending state and its inventory was given back:
  the order row is rewritten by \<open>f\<close>, the reserved quantities of its items are taken off the
  ticket types and the user's counters, and no other table changes.
\<close>

definition closed_tables :: "(order \<Rightarrow> order) \<Rightarrow> order \<Rightarrow> world \<Rightarrow> world" where
  "closed_tables f ord w =
     w\<lparr>orders := update_where (\<lambda>x. o_id x = o_id ord) f (orders w),
       ticketTypes := dec_types (item_pairs ord) (ticketTypes w),
       counters := dec_counters (o_userId ord) (item_pairs ord) (counters w)\<rparr>"

lemma closed_tables_order:
  "w\<lparr>counters := cs, ticketTypes := ts, orders := os\<rparr> = w\<lparr>orders := os, ticketTypes := ts, counters := cs\<rparr>"
  "w\<lparr>ticketTypes := ts, counters := cs, orders := os\<rparr> = w\<lparr>orders := os, ticketTypes := ts, counters := cs\<rparr>"
  by simp_all

definition cancelled_by :: "time \<Rightarrow> order \<Rightarrow> order" where
  "cancelled_by now x =
     x\<lparr>o_status := ORDER_CANCELLED, o_cancelledAt := Some now,
       o_releaseReason := Some ''CANCELLED'', o_inventoryReleasedAt := Some now\<rparr>"

definition expired_by :: "time \<Rightarrow> order \<Rightarrow> order" where
  "expired_by now x =
     x\<lparr>o_status := EXPIRED, o_inventoryReleasedAt := Some now,
       o_releaseReason := Some ''PAYMENT_TIMEOUT''\<rparr>"

lemma find_order_id: "find_order i w = Some ord \<Longrightarrow> o_id ord = i"
  by (auto simp: find_order_def dest: find_row_SomeD)

lemma cancelOrder_success:
  assumes "find_order orderId w = Some ord" and "o_userId ord = u" and "o_status ord = PENDING_PAYMENT"
    and "types_exist (item_pairs ord) w" and "counters_exist u (item_pairs ord) w"
  shows "\<exists>w' resp. cancelOrder now orderId u w = (w', Inr resp) \<and> or_status resp = ORDER_CANCELLED \<and>
     views_only (closed_tables (cancelled_by now) ord (release_items now u orderId (item_pairs ord) w)) w'"
proof -
  let ?w1 = "closed_tables (cancelled_by now) ord (release_items now u orderId (item_pairs ord) w)"
  have upd: "find_order orderId ?w1 = Some (cancelled_by now ord)"
    using assms(1) find_order_id [OF assms(1)]
    by (simp add: find_order_def closed_tables_def find_row_update_where cancelled_by_def)
  have pairs: "map fst (item_pairs (cancelled_by now ord)) = map fst (item_pairs ord)"
    by (simp add: item_pairs_def cancelled_by_def)
  have "cancelOrder now orderId u w =
      (invalidateCache (Some (o_concertId ord))
         (refresh_all now (o_concertId ord) (map fst (item_pairs ord)) ?w1),
       Inr (toOrderResponseMinimal now None ?w1 (cancelled_by now ord)))"
    using assms upd pairs find_order_id [OF assms(1)]
    by (simp add: cancelOrder_def promise_all_append promise_all_dec_types promise_all_dec_counters
        update_order_def find_order_def closed_tables_def cancelled_by_def [abs_def]
        closed_tables_order Let_def)
  then show ?thesis
    using views_only_refresh_invalidate
    by (auto simp: toOrderResponseMinimal_def cancelled_by_def)
qed

lemma expireOrder_success:
  assumes "find_order orderId w = Some ord" and "o_status ord = PENDING_PAYMENT"
    and "\<And>e. o_expiresAt ord = Some e \<Longrightarrow> e \<le> now"
    and "types_exist (item_pairs ord) w" and "counters_exist (o_userId ord) (item_pairs ord) w"
  shows "\<exists>w'. expireOrder now orderId w = (w', Inr ()) \<and>
     views_only (closed_tables (expired_by now) ord
       (release_items now (o_userId ord) orderId (item_pairs ord) w)) w'"
proof -
  let ?w1 = "closed_tables (expired_by now) ord
      (release_items now (o_userId ord) orderId (item_pairs ord) w)"
  have "\<not> (case o_expiresAt ord of None \<Rightarrow> False | Some e \<Rightarrow> e > now)"
    using assms(3) by (force split: option.splits)
  then have "expireOrder now orderId w =
      (invalidateCache (Some (o_concertId ord))
         (refresh_all now (o_concertId ord) (map fst (item_pairs ord)) ?w1), Inr ())"
    using assms find_order_id [OF assms(1)]
    by (simp add: expireOrder_def promise_all_dec_types promise_all_dec_counters
        update_order_def find_order_def closed_tables_def expired_by_def [abs_def] closed_tables_order Let_def)
  then show ?thesis
    using views_only_refresh_invalidate by auto
qed

section \<open>Reserving several items\<close>

text \<open>
  After the first granted reservation of an order its key is live, so every further
  reservation of the same order is refused.
\<close>

lemma reserve_granted_key:
  assumes "snd (reserveTicket now p r) = Inr res" and "0 \<le> rp_ttlSeconds p"
  shows "redis_exists now (REDIS_KEY_RESERVATION (rp_orderId p)) (fst (reserveTicket now p r))"
  using assms
  by (auto simp: reserveTicket_def reserve_ticket_lua_def Let_def split_def redis_exists_iff
      split: if_splits)

lemma reserve_refused_when_held:
  assumes "redis_exists now (REDIS_KEY_RESERVATION (rp_orderId p)) r"
  obtains e where "reserveTicket now p r = (r, Inl e)"
proof -
  have "\<exists>e. reserveTicket now p r = (r, Inl e)"
    using assms by (simp add: reserveTicket_def reserve_ticket_lua_def Let_def)
  then show ?thesis using that by blast
qed

lemma first_failure_Some_Inl: "Inl e \<in> set rs \<Longrightarrow> first_failure rs \<noteq> None"
  by (induction rs rule: first_failure.induct) auto

lemma reserve_all_two:
  assumes "0 \<le> ttl" and "reserve_all now u i ttl (m1 # m2 # ms) r = (r', results)"
  shows "first_failure results \<noteq> None"
proof (cases "snd (reserveTicket now (reserve_params_of u i ttl m1) r)")
  case (Inl e)
  then show ?thesis using assms(2) by (auto simp: Let_def split_def)
next
  case (Inr res)
  let ?r1 = "fst (reserveTicket now (reserve_params_of u i ttl m1) r)"
  have "redis_exists now (REDIS_KEY_RESERVATION (rp_orderId (reserve_params_of u i ttl m2))) ?r1"
    using reserve_granted_key [OF Inr] assms(1) by (simp add: reserve_params_of_def)
  then obtain e where "reserveTicket now (reserve_params_of u i ttl m2) ?r1 = (?r1, Inl e)"
    by (rule reserve_refused_when_held)
  then have "Inl e \<in> set results" using assms(2) by (auto simp: Let_def split_def)
  then show ?thesis by (rule first_failure_Some_Inl)
qed

lemma reserve_stage_two:
  assumes "0 \<le> ttl"
  shows "\<exists>e. snd (reserve_stage now u i ttl (m1 # m2 # ms) w) = Inl e"
proof -
  obtain r results where "reserve_all now u i ttl (m1 # m2 # ms) (redisdb w) = (r, results)"
    by fastforce
  with reserve_all_two [OF assms this] show ?thesis
    by (auto simp: reserve_stage_def Let_def split_def simp del: reserve_all.simps)
qed

lemma collect_meta_map:
  "collect_meta now c items w = Inr ms \<Longrightarrow>
   map (\<lambda>m. (m_ticketTypeId m, m_quantity m)) ms = map (\<lambda>d. (di_ticketTypeId d, di_quantity d)) items"
  by (induction items arbitrary: ms) (auto split: sum.splits)

text \<open>A refused single item changes nothing but the seeded counters.\<close>

lemma reserve_stage_single_error:
  "snd (reserve_stage now u i ttl [m] w) = Inl e \<Longrightarrow> fst (reserve_stage now u i ttl [m] w) = w"
  by (cases "snd (reserveTicket now (reserve_params_of u i ttl m) (redisdb w))")
    (auto simp: reserve_stage_def Let_def split_def release_items_def meta_pairs_def
      reserveTicket_error)


end
