(* ===== verification/Order_Properties.thy ===== *)
theory Order_Properties
  imports Order_Service
begin

text \<open>
  What the order service guarantees, and where its rollbacks fall short: the inventory bound
  of PostgreSQL is kept by every order handler; the effect of a successful order, of
  cancelling and of expiring; the fate of orders with several items, of reservations after
  the failed one, of orders whose gateway call or inventory update failed, and of expired
  reservations; access control and pagination of the queries.
\<close>

section \<open>Inventory bound\<close>

text \<open>What PostgreSQL must never lose: sold and reserved tickets together fit the total.\<close>

definition types_bounded :: "world \<Rightarrow> bool" where
  "types_bounded w \<longleftrightarrow>
     (\<forall>tt \<in> set (ticketTypes w). tt_soldQty tt + tt_reservedQty tt \<le> tt_totalQty tt)"

lemma types_bounded_cong:
  "ticketTypes w' = ticketTypes w \<Longrightarrow> types_bounded w' = types_bounded w"
  by (simp add: types_bounded_def)

lemma types_bounded_frame [simp]:
  "types_bounded (release_items now u i ps w) = types_bounded w"
  "types_bounded (w\<lparr>orders := os\<rparr>) = types_bounded w"
  "types_bounded (w\<lparr>redisdb := r\<rparr>) = types_bounded w"
  "types_bounded (w\<lparr>jobs := js\<rparr>) = types_bounded w"
  "types_bounded (w\<lparr>counters := cs\<rparr>) = types_bounded w"
  "types_bounded (w\<lparr>payments := ps'\<rparr>) = types_bounded w"
  "types_bounded (refresh_all now c tts w) = types_bounded w"
  "types_bounded (invalidateCache c' w) = types_bounded w"
  "types_bounded (fst (createPaymentUrl env i u w)) = types_bounded w"
  by (simp_all add: types_bounded_def)

lemma types_bounded_update_where:
  assumes "types_bounded w"
    and "\<And>tt. tt \<in> set (ticketTypes w) \<Longrightarrow> g tt \<Longrightarrow>
           tt_soldQty (f tt) + tt_reservedQty (f tt) \<le> tt_totalQty (f tt)"
  shows "types_bounded (w\<lparr>ticketTypes := update_where g f (ticketTypes w)\<rparr>)"
  using assms by (auto simp: types_bounded_def set_update_where)

lemma keeps_types_bounded_dec_type: "0 \<le> snd p \<Longrightarrow> keeps types_bounded (dec_type p)"
  by (rule keepsI)
    (auto simp: dec_type_def update_ticket_type_def types_bounded_def set_update_where
      split: option.splits)

lemma keeps_types_bounded_dec_counter: "keeps types_bounded (dec_counter u p)"
  by (rule keepsI) (auto simp: dec_counter_def update_counter_def split: option.splits)

lemma keeps_types_bounded_decs:
  assumes "\<And>p. p \<in> set ps \<Longrightarrow> 0 \<le> snd p"
  shows "keeps types_bounded (promise_all (map dec_type ps @ map (dec_counter u) ps))"
    "keeps types_bounded (promise_all (map dec_type ps))"
    "keeps types_bounded (promise_all (map (dec_counter u) ps))"
  using assms
  by (auto intro!: keeps_promise_all keeps_types_bounded_dec_counter keeps_types_bounded_dec_type)

lemma keeps_types_bounded_inventory_row: "keeps types_bounded (inventory_row u m)"
  by (rule keepsI)
    (auto simp: inventory_row_def Let_def upsert_counter_def intro!: types_bounded_update_where
      split: option.splits)

lemma keeps_types_bounded_sync: "keeps types_bounded (sync_inventory env u ms)"
  unfolding sync_inventory_def
proof (intro keeps_transaction keepsI)
  fix w
  assume "types_bounded w"
  with keepsD [OF keeps_forE [where xs = ms and f = "inventory_row u", OF keeps_types_bounded_inventory_row]]
  show "types_bounded (fst (if oe_inventoryFails env then (w, Inl (PlainError ''database''))
      else forE ms (inventory_row u) w))"
    by simp
qed

lemma types_bounded_delete_order: "types_bounded w \<Longrightarrow> types_bounded (fst (delete_order i w))"
  by (auto simp: delete_order_def split: option.splits)

lemma seed_counters_redis_only:
  "\<exists>r. seed_counters now u ms w = w\<lparr>redisdb := r\<rparr>"
proof (induction ms arbitrary: w)
  case Nil
  then show ?case by (auto simp: seed_counters_def intro: exI [of _ "redisdb w"])
next
  case (Cons m ms)
  have stock: "\<exists>r. ensureRedisStock now tt w = w\<lparr>redisdb := r\<rparr>" for tt w
    by (auto simp: ensureRedisStock_def Let_def intro: exI [of _ "redisdb w"] split: option.splits)
  have limit: "\<exists>r. ensureRedisUserLimit now u tt w = w\<lparr>redisdb := r\<rparr>" for tt w
    by (auto simp: ensureRedisUserLimit_def Let_def intro: exI [of _ "redisdb w"])
  obtain r1 where r1: "ensureRedisStock now (m_ticketTypeId m) w = w\<lparr>redisdb := r1\<rparr>"
    using stock by blast
  obtain r2 where r2: "ensureRedisUserLimit now u (m_ticketTypeId m) (w\<lparr>redisdb := r1\<rparr>) =
      w\<lparr>redisdb := r2\<rparr>"
    using limit [of "m_ticketTypeId m" "w\<lparr>redisdb := r1\<rparr>"] by auto
  from Cons.IH [of "w\<lparr>redisdb := r2\<rparr>"] show ?case
    using r1 r2 by (auto simp: seed_counters_def)
qed

lemma reserve_stage_redis_only: "\<exists>r. fst (reserve_stage now u i ttl ms w) = w\<lparr>redisdb := r\<rparr>"
  by (auto simp: reserve_stage_def Let_def split_def release_items_def split: option.splits)

lemma meta_pairs_nonneg:
  assumes "collect_meta now c items w = Inr ms" and "\<And>d. d \<in> set items \<Longrightarrow> 0 \<le> di_quantity d"
    and "p \<in> set (meta_pairs ms)"
  shows "0 \<le> snd p"
  using assms collect_meta_map [OF assms(1)] by (auto simp: meta_pairs_def)

lemma createOrder_types_bounded:
  assumes "types_bounded w" and "\<And>d. d \<in> set (do_items dto) \<Longrightarrow> 0 \<le> di_quantity d"
  shows "types_bounded (fst (createOrder env t0 now dto u w))"
proof (cases "collect_meta now (do_concertId dto) (do_items dto) w")
  case (Inl e)
  then show ?thesis using assms(1) by (simp add: createOrder_def)
next
  case (Inr ms)
  note decs = keepsD [OF keeps_types_bounded_decs(1) [OF meta_pairs_nonneg [OF Inr assms(2)]]]
  have seed: "types_bounded (seed_counters now u ms w)"
    using assms(1) seed_counters_redis_only [of now u ms w] by auto
  have reserve: "types_bounded w' \<Longrightarrow> types_bounded (fst (reserve_stage now u i ttl ms w'))" for w' i ttl
    using reserve_stage_redis_only [of now u i ttl ms w'] by auto
  have persist: "types_bounded w' \<Longrightarrow>
      types_bounded (fst (persist_stage env t0 now (do_concertId dto) u ms w'))" for w'
    by (simp add: persist_stage_def Let_def)
  have inventory: "types_bounded w' \<Longrightarrow> types_bounded (fst (inventory_stage env now u ms w'))" for w'
    using keepsD [OF keeps_types_bounded_sync, of w' env u ms]
    by (auto simp: inventory_stage_def types_bounded_delete_order split: prod.splits sum.splits)
  have payment: "types_bounded w' \<Longrightarrow> types_bounded (fst (payment_stage env now u ms w'))" for w'
  proof -
    assume "types_bounded w'"
    obtain w1 r where url: "createPaymentUrl (oe_payment env) (oe_orderId env) u w' = (w1, r)"
      by (cases "createPaymentUrl (oe_payment env) (oe_orderId env) u w'")
    have "types_bounded (fst (createPaymentUrl (oe_payment env) (oe_orderId env) u w'))"
      using \<open>types_bounded w'\<close> by simp
    with url show ?thesis
      by (cases r) (auto simp: payment_stage_def Let_def
          intro!: keeps_bindE [where P = types_bounded] decs types_bounded_delete_order)
  qed
  show ?thesis
    using seed reserve persist inventory payment
    by (simp add: createOrder_def Inr Let_def)
      (intro keeps_bindE [where P = types_bounded]; simp)
qed

lemma cancelOrder_types_bounded:
  assumes "types_bounded w"
    and "\<And>ord p. ord \<in> set (orders w) \<Longrightarrow> p \<in> set (item_pairs ord) \<Longrightarrow> 0 \<le> snd p"
  shows "types_bounded (fst (cancelOrder now i u w))"
proof (cases "find_order i w")
  case None
  then show ?thesis using assms(1) by (simp add: cancelOrder_def)
next
  case (Some ord)
  then have "ord \<in> set (orders w)" by (auto simp: find_order_def dest: find_row_SomeD)
  from keepsD [OF keeps_types_bounded_decs(1) [OF assms(2) [OF this]]]
  have decs: "types_bounded w' \<Longrightarrow>
      types_bounded (fst (promise_all (map dec_type (item_pairs ord) @ map (dec_counter v) (item_pairs ord)) w'))"
    for w' v .
  have upd: "types_bounded w' \<Longrightarrow> types_bounded (fst (update_order j f w'))" for w' j f
    by (simp add: update_order_def split: option.splits)
  show ?thesis
    using assms(1) Some
    by (auto simp: cancelOrder_def Let_def split: option.splits
        intro!: keeps_bindE [where P = types_bounded] decs upd)
qed

lemma expireOrder_types_bounded:
  assumes "types_bounded w"
    and "\<And>ord p. ord \<in> set (orders w) \<Longrightarrow> p \<in> set (item_pairs ord) \<Longrightarrow> 0 \<le> snd p"
  shows "types_bounded (fst (expireOrder now i w))"
proof (cases "find_order i w")
  case None
  then show ?thesis using assms(1) by (simp add: expireOrder_def)
next
  case (Some ord)
  then have ord: "ord \<in> set (orders w)" by (auto simp: find_order_def dest: find_row_SomeD)
  note decs = keepsD [OF keeps_types_bounded_decs(2) [OF assms(2) [OF ord]]]
    keepsD [OF keeps_types_bounded_decs(3) [OF assms(2) [OF ord]]]
  have upd: "types_bounded w' \<Longrightarrow> types_bounded (fst (update_order j f w'))" for w' j f
    by (simp add: update_order_def split: option.splits)
  show ?thesis
    using assms(1) Some
    by (auto simp: expireOrder_def Let_def
        intro!: keeps_bindE [where P = types_bounded] decs upd)
qed

section \<open>Creating an order with one item\<close>

lemma validated_type:
  "validateTicketType now c i w = Inr (mx, price) \<Longrightarrow>
   \<exists>tt. find_ticket_type i w = Some tt \<and> tt_concertId tt = c \<and> tt_status tt = ACTIVE \<and>
        tt_maxPerUser tt = mx \<and> tt_price tt = price \<and> tt_saleStartsAt tt \<le> now"
  by (auto simp: validateTicketType_def split: option.splits if_splits)

text \<open>Counters that Redis already holds are not seeded again.\<close>

lemma seed_counters_present:
  assumes "\<And>m. m \<in> set ms \<Longrightarrow> redis_exists now (REDIS_KEY_STOCK (m_ticketTypeId m)) (redisdb w)"
    and "\<And>m. m \<in> set ms \<Longrightarrow> redis_exists now (REDIS_KEY_USER_LIMIT u (m_ticketTypeId m)) (redisdb w)"
  shows "seed_counters now u ms w = w"
  using assms
  by (induction ms) (auto simp: seed_counters_def ensureRedisStock_def ensureRedisUserLimit_def)

lemma update_where_cong_find:
  assumes "unique_key key rows" and "find_row key k rows = Some r" and "g r"
  shows "update_where (\<lambda>x. key x = k \<and> g x) f rows = update_where (\<lambda>x. key x = k) f rows"
proof -
  have "key x = k \<Longrightarrow> x \<in> set rows \<Longrightarrow> x = r" for x
    using find_row_unique [OF assms(1), of x] assms(2) by simp
  then show ?thesis using assms(3) by (auto simp: update_where_def)
qed

lemma count_where_find_pos:
  "find_row key k rows = Some r \<Longrightarrow> g r \<Longrightarrow> count_where (\<lambda>x. key x = k \<and> g x) rows \<noteq> 0"
  using find_row_SomeD [of key k rows r] by (auto simp: count_where_def filter_empty_conv)

lemma inventory_row_ok:
  assumes "unique_key tt_id (ticketTypes w)" and "find_ticket_type (m_ticketTypeId m) w = Some tt"
    and "tt_reservedQty tt + tt_soldQty tt + m_quantity m \<le> tt_totalQty tt"
  shows "inventory_row u m w =
    (upsert_counter
       \<lparr>uc_userId = u, uc_ticketTypeId = m_ticketTypeId m, uc_paidQty = 0, uc_reservedQty = m_quantity m\<rparr>
       (\<lambda>c. c\<lparr>uc_reservedQty := uc_reservedQty c + m_quantity m\<rparr>)
       (w\<lparr>ticketTypes := update_where (\<lambda>t. tt_id t = m_ticketTypeId m)
            (\<lambda>t. t\<lparr>tt_reservedQty := tt_reservedQty t + m_quantity m\<rparr>) (ticketTypes w)\<rparr>), Inr ())"
  using assms
    update_where_cong_find [where g = "\<lambda>t. tt_reservedQty t + tt_soldQty t + m_quantity m \<le> tt_totalQty t",
      OF assms(1), of "m_ticketTypeId m" tt]
    count_where_find_pos [where g = "\<lambda>t. tt_reservedQty t + tt_soldQty t + m_quantity m \<le> tt_totalQty t",
      of tt_id "m_ticketTypeId m" "ticketTypes w" tt]
  by (simp add: inventory_row_def find_ticket_type_def Let_def)

lemma upsert_counter_tables [simp]:
  "orders (upsert_counter n f w) = orders w" "payments (upsert_counter n f w) = payments w"
  "ticketTypes (upsert_counter n f w) = ticketTypes w" "jobs (upsert_counter n f w) = jobs w"
  "redisdb (upsert_counter n f w) = redisdb w" "tickets (upsert_counter n f w) = tickets w"
  "gates (upsert_counter n f w) = gates w" "concerts (upsert_counter n f w) = concerts w"
  by (simp_all add: upsert_counter_def split: option.splits)

lemma createPaymentUrl_fresh:
  assumes "find_order i w = Some ord" and "o_userId ord = u" and "o_status ord = PENDING_PAYMENT"
    and "payments_of i w = []" and "pe_refusal env = None"
  shows "createPaymentUrl env i u w =
    (w\<lparr>payments := payments w @
        [\<lparr>p_id = pe_paymentId env, p_orderId = i, p_provider = MOCK, p_status = INITIATED,
          p_amount = o_totalAmountInVnd ord, p_providerTransactionId = None,
          p_paymentUrl = Some (gateway_createPaymentUrl (pe_baseUrl env) i (o_totalAmountInVnd ord)),
          p_rawWebhook = None, p_receivedAt = None\<rparr>]\<rparr>,
     Inr (gateway_createPaymentUrl (pe_baseUrl env) i (o_totalAmountInVnd ord), False))"
  using assms find_order_id [OF assms(1)]
  by (simp add: createPaymentUrl_def request_payment_url_def breaker_execute_def)

text \<open>The stages of a successful order with one item.\<close>

definition one_meta :: "id \<Rightarrow> int \<Rightarrow> int \<Rightarrow> int \<Rightarrow> ticket_meta" where
  "one_meta tt q mx price =
     \<lparr>m_ticketTypeId = tt, m_quantity = q, m_maxPerUser = mx, m_unitPrice = price\<rparr>"

lemma one_meta_simps [simp]:
  "m_ticketTypeId (one_meta tt q mx price) = tt" "m_quantity (one_meta tt q mx price) = q"
  "m_maxPerUser (one_meta tt q mx price) = mx" "m_unitPrice (one_meta tt q mx price) = price"
  by (simp_all add: one_meta_def)

lemma reserve_stage_one:
  assumes "reserveTicket now (reserve_params_of u i ttl m) (redisdb w) = (r, Inr res)"
  shows "reserve_stage now u i ttl [m] w = (w\<lparr>redisdb := r\<rparr>, Inr ())"
  using assms by (simp add: reserve_stage_def)

lemma reserve_granted:
  assumes "r (REDIS_KEY_STOCK (rp_ticketTypeId p)) = Some (RInt n, None)" and "rp_quantity p \<le> n"
    and "r (REDIS_KEY_USER_LIMIT (rp_userId p) (rp_ticketTypeId p)) = Some (RInt h, None)"
    and "h + rp_quantity p \<le> rp_maxPerUser p"
    and "r (REDIS_KEY_RESERVATION (rp_orderId p)) = None"
  shows "snd (reserveTicket now p r) =
    Inr \<lparr>rs_reserved_qty = rp_quantity p, rs_new_stock = n - rp_quantity p,
         rs_new_user_qty = h + rp_quantity p, rs_expires_in_seconds = rp_ttlSeconds p\<rparr>"
  using assms
  by (simp add: reserveTicket_def reserve_ticket_lua_def Let_def split_def redis_exists_iff
      redis_int_def redis_get_def redis_live_def)


definition persistent_int :: "string \<Rightarrow> redis \<Rightarrow> int option" where
  "persistent_int k r = (case r k of Some (RInt n, None) \<Rightarrow> Some n | _ \<Rightarrow> None)"

lemma persistent_int_iff: "persistent_int k r = Some n \<longleftrightarrow> r k = Some (RInt n, None)"
  by (auto simp: persistent_int_def split: option.splits prod.splits rval.splits)

lemma persistent_int_eq [simp]: "r k = Some (RInt n, None) \<Longrightarrow> persistent_int k r = Some n"
  by (simp add: persistent_int_def)

text \<open>
  When an order for \<open>q\<close> tickets of type \<open>tt\<close> is to go through: the type is on sale, Redis
  and PostgreSQL both have the tickets, the user has the allowance, the identifiers are
  fresh, the amounts fit their columns and neither database nor gateway fails.
\<close>

definition order_possible :: "order_env \<Rightarrow> time \<Rightarrow> id \<Rightarrow> id \<Rightarrow> id \<Rightarrow> int \<Rightarrow> world \<Rightarrow> bool" where
  "order_possible env now c u tt q w \<longleftrightarrow>
     (case (validateTicketType now c tt w, find_ticket_type tt w,
            persistent_int (REDIS_KEY_STOCK tt) (redisdb w),
            persistent_int (REDIS_KEY_USER_LIMIT u tt) (redisdb w)) of
        (Inr (mx, price), Some row, Some n, Some h) \<Rightarrow>
          q \<le> n \<and> h + q \<le> mx \<and> tt_reservedQty row + tt_soldQty row + q \<le> tt_totalQty row \<and>
          fits_int4 q \<and> fits_int4 price \<and> fits_int4 (price * q)
      | _ \<Rightarrow> False) \<and>
     redisdb w (REDIS_KEY_RESERVATION (oe_orderId env)) = None \<and>
     find_order (oe_orderId env) w = None \<and> payments_of (oe_orderId env) w = [] \<and>
     unique_key tt_id (ticketTypes w) \<and>
     \<not> oe_insertFails env \<and> \<not> oe_inventoryFails env \<and> pe_refusal (oe_payment env) = None"

lemma order_possibleE:
  assumes "order_possible env now c u tt q w"
  obtains mx price row n h where
    "validateTicketType now c tt w = Inr (mx, price)" "find_ticket_type tt w = Some row"
    "redisdb w (REDIS_KEY_STOCK tt) = Some (RInt n, None)" "q \<le> n"
    "redisdb w (REDIS_KEY_USER_LIMIT u tt) = Some (RInt h, None)" "h + q \<le> mx"
    "tt_reservedQty row + tt_soldQty row + q \<le> tt_totalQty row"
    "fits_int4 q" "fits_int4 price" "fits_int4 (price * q)"
proof -
  obtain mx price where v: "validateTicketType now c tt w = Inr (mx, price)"
    using assms by (cases "validateTicketType now c tt w") (auto simp: order_possible_def)
  obtain row where f: "find_ticket_type tt w = Some row"
    using assms v by (cases "find_ticket_type tt w") (auto simp: order_possible_def)
  obtain n where n: "persistent_int (REDIS_KEY_STOCK tt) (redisdb w) = Some n"
    using assms v f by (cases "persistent_int (REDIS_KEY_STOCK tt) (redisdb w)")
      (auto simp: order_possible_def)
  obtain h where h: "persistent_int (REDIS_KEY_USER_LIMIT u tt) (redisdb w) = Some h"
    using assms v f n by (cases "persistent_int (REDIS_KEY_USER_LIMIT u tt) (redisdb w)")
      (auto simp: order_possible_def)
  show ?thesis
    using assms v f n h by (intro that [of mx price row n h]) (simp_all add: order_possible_def persistent_int_iff)
qed

lemma createOrder_one:
  assumes possible: "order_possible env now c u tt q w"
    and valid: "validateTicketType now c tt w = Inr (mx, price)"
  shows "\<exists>w' resp url.
    createOrder env t0 now \<lparr>do_concertId = c, do_items = [\<lparr>di_ticketTypeId = tt, di_quantity = q\<rparr>]\<rparr> u w
      = (w', Inr (resp, url)) \<and>
    orders w' = orders w @ [new_order env t0 now c u [one_meta tt q mx price]] \<and>
    ticketTypes w' = update_where (\<lambda>t. tt_id t = tt)
      (\<lambda>t. t\<lparr>tt_reservedQty := tt_reservedQty t + q\<rparr>) (ticketTypes w) \<and>
    redisdb w' (REDIS_KEY_STOCK tt) =
      map_option (map_prod (\<lambda>v. RInt (stock_value tt (redisdb w) - q)) id) (redisdb w (REDIS_KEY_STOCK tt)) \<and>
    redisdb w' (REDIS_KEY_RESERVATION (oe_orderId env)) =
      Some (RReservation \<lparr>r_order_id = oe_orderId env, r_user_id = u, r_ticket_type_id = tt,
              r_quantity = q, r_created_at = now div 1000\<rparr>,
            Some (now + getReservationTtl env * 1000)) \<and>
    jobs w' = jobs w @ [ExpireJob (oe_orderId env) (getReservationTtl env * 1000)] \<and>
    tickets w' = tickets w \<and>
    or_status resp = PENDING_PAYMENT \<and> or_totalAmountInVnd resp = price * q \<and>
    url = gateway_createPaymentUrl (pe_baseUrl (oe_payment env)) (oe_orderId env) (price * q)"
proof -
  let ?m = "one_meta tt q mx price" and ?i = "oe_orderId env" and ?ttl = "getReservationTtl env"
  from possible obtain row n h where row: "find_ticket_type tt w = Some row"
    and stock: "redisdb w (REDIS_KEY_STOCK tt) = Some (RInt n, None)" "q \<le> n"
    and limit: "redisdb w (REDIS_KEY_USER_LIMIT u tt) = Some (RInt h, None)" "h + q \<le> mx"
    and room: "tt_reservedQty row + tt_soldQty row + q \<le> tt_totalQty row"
    and fits: "fits_int4 q" "fits_int4 price" "fits_int4 (price * q)"
    by (rule order_possibleE) (use valid in auto)
  have env: "redisdb w (REDIS_KEY_RESERVATION ?i) = None" "find_order ?i w = None"
      "payments_of ?i w = []" "unique_key tt_id (ticketTypes w)" "\<not> oe_insertFails env"
      "\<not> oe_inventoryFails env" "pe_refusal (oe_payment env) = None"
    using possible by (simp_all add: order_possible_def)
  have meta: "collect_meta now c [\<lparr>di_ticketTypeId = tt, di_quantity = q\<rparr>] w = Inr [?m]"
    using valid by (simp add: one_meta_def)
  have seed: "seed_counters now u [?m] w = w"
    using stock limit by (intro seed_counters_present) (auto simp: redis_exists_def redis_live_def)
  let ?p = "reserve_params_of u ?i ?ttl ?m"
  have granted: "snd (reserveTicket now ?p (redisdb w)) =
      Inr \<lparr>rs_reserved_qty = q, rs_new_stock = n - q, rs_new_user_qty = h + q, rs_expires_in_seconds = ?ttl\<rparr>"
    using reserve_granted [of "redisdb w" ?p n h] stock limit env(1)
    by (simp add: reserve_params_of_def)
  obtain r where r: "reserveTicket now ?p (redisdb w) = (r, Inr \<lparr>rs_reserved_qty = q,
      rs_new_stock = n - q, rs_new_user_qty = h + q, rs_expires_in_seconds = ?ttl\<rparr>)"
    using granted by (metis prod.collapse)
  have state: "r = (redisdb w)(REDIS_KEY_STOCK tt \<mapsto> (RInt (n - q), None),
      REDIS_KEY_USER_LIMIT u tt \<mapsto> (RInt (h + q), None),
      REDIS_KEY_RESERVATION ?i \<mapsto>
        (RReservation \<lparr>r_order_id = ?i, r_user_id = u, r_ticket_type_id = tt,
           r_quantity = q, r_created_at = now div 1000\<rparr>, Some (now + ?ttl * 1000)))"
    using reserve_granted_state [OF granted, of n h] stock limit r by (simp add: reserve_params_of_def)
  let ?ord = "new_order env t0 now c u [?m]"
  have persist: "persist_stage env t0 now c u [?m] (w\<lparr>redisdb := r\<rparr>) =
      (w\<lparr>redisdb := r, orders := orders w @ [?ord]\<rparr>, Inr ?ord)"
    using env fits by (simp add: persist_stage_def order_fits_def new_order_def new_items_def Let_def)
  let ?w2 = "w\<lparr>redisdb := r, orders := orders w @ [?ord]\<rparr>"
  obtain w3 where w3: "inventory_row u ?m ?w2 = (w3, Inr ())"
    and w3t: "orders w3 = orders w @ [?ord]" "redisdb w3 = r" "payments w3 = payments w" "jobs w3 = jobs w"
      "tickets w3 = tickets w"
      "ticketTypes w3 = update_where (\<lambda>t. tt_id t = tt)
         (\<lambda>t. t\<lparr>tt_reservedQty := tt_reservedQty t + q\<rparr>) (ticketTypes w)"
    using inventory_row_ok [of ?w2 ?m row u] env(4) row room by (simp add: find_ticket_type_def)
  have inventory: "inventory_stage env now u [?m] ?w2 = (w3, Inr ())"
    using env w3 by (simp add: inventory_stage_def sync_inventory_def)
  have found: "find_order ?i w3 = Some ?ord"
    using env(2) w3t(1) by (simp add: find_order_def new_order_def)
  let ?url = "gateway_createPaymentUrl (pe_baseUrl (oe_payment env)) ?i (price * q)"
  obtain w4 where payment: "payment_stage env now u [?m] w3 = (w4, Inr ?url)"
    and w4t: "orders w4 = orders w3" "redisdb w4 = r" "jobs w4 = jobs w" "tickets w4 = tickets w"
      "ticketTypes w4 = ticketTypes w3"
    using createPaymentUrl_fresh [OF found, of u "oe_payment env"] env(3,7) w3t
    by (simp add: payment_stage_def payments_of_def new_order_def)
  let ?w5 = "w4\<lparr>jobs := jobs w4 @ [ExpireJob ?i (?ttl * 1000)]\<rparr>"
  have "createOrder env t0 now \<lparr>do_concertId = c, do_items = [\<lparr>di_ticketTypeId = tt, di_quantity = q\<rparr>]\<rparr> u w =
      (invalidateCache (Some c) (refresh_all now c [tt] ?w5),
       Inr (toOrderResponseMinimal now (Some ?url) ?w2 ?ord, ?url))"
    unfolding createOrder_def
    by (simp only: create_order_dto.simps meta seed sum.case reserve_stage_one [OF r] bindE_Inr
        persist inventory payment Let_def list.map one_meta_simps)
  then show ?thesis
    using w3t w4t stock(1) state
    by (simp add: toOrderResponseMinimal_def new_order_def stock_value_def)
qed


section \<open>A concrete shop\<close>

definition demo_type :: "id \<Rightarrow> int \<Rightarrow> ticket_type" where
  "demo_type i n =
     \<lparr>tt_id = i, tt_concertId = ''c1'', tt_name = i, tt_price = 100, tt_totalQty = n,
      tt_soldQty = 0, tt_reservedQty = 0, tt_maxPerUser = 4, tt_saleStartsAt = 0,
      tt_saleEndsAt = None, tt_status = ACTIVE\<rparr>"

definition demo_shop :: world where
  "demo_shop = empty_world\<lparr>
     concerts := [\<lparr>c_id = ''c1'', c_organizerId = ''org'', c_title = ''Show'', c_slug = ''show'',
                   c_description = None, c_artistBio = None, c_venue = ''Hall'', c_startsAt = 10 ^ 9,
                   c_saleStartsAt = None, c_saleEndsAt = None, c_status = PUBLISHED,
                   c_seatMapUrl = None, c_coverImageUrl = None, c_reminderJobId = None,
                   c_createdAt = 0, c_updatedAt = 0\<rparr>],
     ticketTypes := [demo_type ''vip'' 3, demo_type ''ga'' 1],
     redisdb := (\<lambda>_. None)(REDIS_KEY_STOCK ''vip'' \<mapsto> (RInt 3, None),
                            REDIS_KEY_STOCK ''ga'' \<mapsto> (RInt 1, None),
                            REDIS_KEY_USER_LIMIT ''alice'' ''vip'' \<mapsto> (RInt 0, None),
                            REDIS_KEY_USER_LIMIT ''alice'' ''ga'' \<mapsto> (RInt 0, None))\<rparr>"

definition demo_order_env :: "exn option \<Rightarrow> bool \<Rightarrow> order_env" where
  "demo_order_env refusal inventoryFails =
     \<lparr>oe_reservationTtlSeconds = None, oe_orderId = ''o1'', oe_itemId = (\<lambda>n. ''i''),
      oe_insertFails = False, oe_inventoryFails = inventoryFails,
      oe_payment = \<lparr>pe_baseUrl = ''http://pay'', pe_refusal = refusal, pe_paymentId = ''p1''\<rparr>\<rparr>"

definition demo_dto :: "(id \<times> int) list \<Rightarrow> create_order_dto" where
  "demo_dto items =
     \<lparr>do_concertId = ''c1'',
      do_items = map (\<lambda>(i, q). \<lparr>di_ticketTypeId = i, di_quantity = q\<rparr>) items\<rparr>"

lemma demo_shop_valid [simp]:
  "validateTicketType 1000 ''c1'' ''vip'' demo_shop = Inr (4, 100)"
  "validateTicketType 1000 ''c1'' ''ga'' demo_shop = Inr (4, 100)"
  by (simp_all add: validateTicketType_def demo_shop_def demo_type_def find_concert_def
      find_ticket_type_def empty_world_def)

lemma demo_keys [simp]:
  "REDIS_KEY_USER_LIMIT ''alice'' ''vip'' \<noteq> REDIS_KEY_USER_LIMIT ''alice'' ''ga''"
  "REDIS_KEY_USER_LIMIT ''alice'' ''ga'' \<noteq> REDIS_KEY_USER_LIMIT ''alice'' ''vip''"
  by (simp_all add: key_defs)

lemma demo_shop_redis [simp]:
  "redisdb demo_shop (REDIS_KEY_STOCK ''vip'') = Some (RInt 3, None)"
  "redisdb demo_shop (REDIS_KEY_STOCK ''ga'') = Some (RInt 1, None)"
  "redisdb demo_shop (REDIS_KEY_USER_LIMIT ''alice'' ''vip'') = Some (RInt 0, None)"
  "redisdb demo_shop (REDIS_KEY_USER_LIMIT ''alice'' ''ga'') = Some (RInt 0, None)"
  "redisdb demo_shop (REDIS_KEY_RESERVATION ord) = None"
  by (simp_all add: demo_shop_def)

lemma demo_order_possible:
  "order_possible (demo_order_env None False) 1000 ''c1'' ''alice'' ''vip'' 2 demo_shop"
proof -
  have "find_ticket_type ''vip'' demo_shop = Some (demo_type ''vip'' 3)"
    "find_order ''o1'' demo_shop = None" "payments_of ''o1'' demo_shop = []"
    "unique_key tt_id (ticketTypes demo_shop)"
    by (simp_all add: demo_shop_def find_ticket_type_def find_order_def payments_of_def
        empty_world_def unique_key_def demo_type_def)
  then show ?thesis
    by (simp add: order_possible_def demo_order_env_def fits_int4_def demo_type_def)
qed

section \<open>Properties\<close>

text \<open>
  C11: An order for one ticket type that Redis, PostgreSQL, the limit per user and the
  gateway all admit goes through: it is stored as PENDING_PAYMENT with the right amount, the
  reserved quantity of the type grows and the Redis stock shrinks by the quantity, the
  reservation record is written with the configured time to live, the expire job is queued
  with the same delay, no ticket is issued, and the payment URL of the order is returned.
\<close>

theorem create_order_single_item:
  assumes "order_possible env now c u tt q w" and "validateTicketType now c tt w = Inr (mx, price)"
  shows "\<exists>w' resp url.
    createOrder env t0 now \<lparr>do_concertId = c, do_items = [\<lparr>di_ticketTypeId = tt, di_quantity = q\<rparr>]\<rparr> u w
      = (w', Inr (resp, url)) \<and>
    orders w' = orders w @ [new_order env t0 now c u [one_meta tt q mx price]] \<and>
    ticketTypes w' = update_where (\<lambda>t. tt_id t = tt)
      (\<lambda>t. t\<lparr>tt_reservedQty := tt_reservedQty t + q\<rparr>) (ticketTypes w) \<and>
    redisdb w' (REDIS_KEY_STOCK tt) =
      map_option (map_prod (\<lambda>v. RInt (stock_value tt (redisdb w) - q)) id) (redisdb w (REDIS_KEY_STOCK tt)) \<and>
    redisdb w' (REDIS_KEY_RESERVATION (oe_orderId env)) =
      Some (RReservation \<lparr>r_order_id = oe_orderId env, r_user_id = u, r_ticket_type_id = tt,
              r_quantity = q, r_created_at = now div 1000\<rparr>,
            Some (now + getReservationTtl env * 1000)) \<and>
    jobs w' = jobs w @ [ExpireJob (oe_orderId env) (getReservationTtl env * 1000)] \<and>
    tickets w' = tickets w \<and>
    or_status resp = PENDING_PAYMENT \<and> or_totalAmountInVnd resp = price * q \<and>
    url = gateway_createPaymentUrl (pe_baseUrl (oe_payment env)) (oe_orderId env) (price * q)"
  by (rule createOrder_one [OF assms])

theorem create_order_single_item_witness:
  "\<exists>w' resp url. createOrder (demo_order_env None False) 990 1000 (demo_dto [(''vip'', 2)]) ''alice'' demo_shop
     = (w', Inr (resp, url)) \<and> redisdb w' (REDIS_KEY_STOCK ''vip'') = Some (RInt 1, None)"
  using create_order_single_item [OF demo_order_possible demo_shop_valid(1), of 990]
  by (auto simp: demo_dto_def stock_value_def)

text \<open>
  C12: An order with two or more items is never accepted, whatever is in stock: all items
  share the reservation key of the order, so the second reservation of the order is
  refused as a duplicate.  No order row is written.
\<close>

theorem create_order_multi_item_fails:
  assumes "2 \<le> length (do_items dto)" and "0 \<le> getReservationTtl env"
  shows "(\<exists>e. snd (createOrder env t0 now dto u w) = Inl e) \<and>
         orders (fst (createOrder env t0 now dto u w)) = orders w"
proof (cases "collect_meta now (do_concertId dto) (do_items dto) w")
  case (Inl e)
  then show ?thesis by (simp add: createOrder_def)
next
  case (Inr ms)
  from arg_cong [OF collect_meta_map [OF Inr], of length] assms(1) have "2 \<le> length ms" by simp
  then obtain m1 m2 ms' where ms: "ms = m1 # m2 # ms'"
    by (metis Suc_le_length_iff numeral_2_eq_2)
  let ?w1 = "seed_counters now u ms w"
  obtain e where "snd (reserve_stage now u (oe_orderId env) (getReservationTtl env) ms ?w1) = Inl e"
    using reserve_stage_two [OF assms(2)] ms by blast
  moreover have "orders (fst (reserve_stage now u (oe_orderId env) (getReservationTtl env) ms ?w1)) = orders w"
    using reserve_stage_redis_only [of now u "oe_orderId env" "getReservationTtl env" ms ?w1]
      seed_counters_redis_only [of now u ms w] by auto
  ultimately show ?thesis
    by (cases "reserve_stage now u (oe_orderId env) (getReservationTtl env) ms ?w1")
      (simp add: createOrder_def Inr)
qed

theorem create_order_multi_item_fails_witness:
  "\<exists>e. snd (createOrder (demo_order_env None False) 990 1000
     (demo_dto [(''vip'', 1), (''ga'', 1)]) ''alice'' demo_shop) = Inl e"
  using create_order_multi_item_fails [of "demo_dto [(''vip'', 1), (''ga'', 1)]" "demo_order_env None False"]
  by (simp add: demo_dto_def demo_order_env_def getReservationTtl_def DEFAULT_RESERVATION_TTL_SECONDS_def)

text \<open>
  When the first of two items is refused and the second is granted, the rollback, which
  only visits the items before the failed one, leaves the granted reservation in place: the
  request is refused, yet the stock of the second type stays reduced by the quantity asked.
\<close>

theorem create_order_leaks_later_reservation:
  assumes "collect_meta now (do_concertId dto) (do_items dto) w = Inr [m1, m2]"
    and "w1 = seed_counters now u [m1, m2] w"
    and "reserveTicket now (reserve_params_of u (oe_orderId env) (getReservationTtl env) m1) (redisdb w1)
           = (redisdb w1, Inl e)"
    and "reserveTicket now (reserve_params_of u (oe_orderId env) (getReservationTtl env) m2) (redisdb w1)
           = (r2, Inr res)"
    and "redisdb w1 (REDIS_KEY_STOCK (m_ticketTypeId m2)) = Some (RInt n, None)"
  shows "createOrder env t0 now dto u w = (w1\<lparr>redisdb := r2\<rparr>, Inl (reservation_exn e)) \<and>
         r2 (REDIS_KEY_STOCK (m_ticketTypeId m2)) = Some (RInt (n - m_quantity m2), None)"
proof -
  have "reserve_stage now u (oe_orderId env) (getReservationTtl env) [m1, m2] w1 =
      (w1\<lparr>redisdb := r2\<rparr>, Inl (reservation_exn e))"
    using assms(3,4) by (simp add: reserve_stage_def release_items_def meta_pairs_def)
  moreover have "r2 (REDIS_KEY_STOCK (m_ticketTypeId m2)) = Some (RInt (n - m_quantity m2), None)"
    using assms(4,5)
    by (auto simp: reserveTicket_def reserve_ticket_lua_def Let_def split_def reserve_params_of_def
        redis_incrby_persistent split: if_splits)
  ultimately show ?thesis using assms(1,2) by (simp add: createOrder_def)
qed

theorem create_order_leaks_later_reservation_witness:
  "\<exists>w' e. createOrder (demo_order_env None False) 990 1000 (demo_dto [(''ga'', 2), (''vip'', 2)]) ''alice'' demo_shop
     = (w', Inl e) \<and> redisdb w' (REDIS_KEY_STOCK ''vip'') = Some (RInt 1, None)"
proof -
  let ?ms = "[one_meta ''ga'' 2 4 100, one_meta ''vip'' 2 4 100]"
  have seed: "seed_counters 1000 ''alice'' ?ms demo_shop = demo_shop"
    by (rule seed_counters_present) (auto simp: redis_exists_def redis_live_def)
  obtain r2 res where r2: "reserveTicket 1000 (reserve_params_of ''alice'' ''o1'' 900 (one_meta ''vip'' 2 4 100))
      (redisdb demo_shop) = (r2, Inr res)"
    using reserve_granted [of "redisdb demo_shop"
        "reserve_params_of ''alice'' ''o1'' 900 (one_meta ''vip'' 2 4 100)" 3 0]
    by (auto simp: reserve_params_of_def) (metis prod.collapse)
  show ?thesis
    using create_order_leaks_later_reservation [of 1000 "demo_dto [(''ga'', 2), (''vip'', 2)]" demo_shop
        "one_meta ''ga'' 2 4 100" "one_meta ''vip'' 2 4 100" demo_shop "''alice''"
        "demo_order_env None False" "OUT_OF_STOCK 1 2" r2 res 3 990] r2 seed
    by (simp add: demo_dto_def demo_order_env_def getReservationTtl_def
        DEFAULT_RESERVATION_TTL_SECONDS_def one_meta_def reserveTicket_def reserve_ticket_lua_def
        reserve_params_of_def redis_int_def redis_get_def redis_live_def)
qed


lemma delete_order_with_items:
  "find_order i w = Some ord \<Longrightarrow> o_items ord \<noteq> [] \<Longrightarrow>
   delete_order i w = (w, Inl (ForeignKeyViolation ''Order''))"
  by (simp add: delete_order_def)

text \<open>
  When the gateway refuses (the breaker is open, or the call fails), the rollback of
  \<open>createOrder\<close> cannot delete the order, because its items still refer to it: the customer
  gets the database error in place of the gateway error, and the order stays in the table,
  pending and payable, although its reserved quantities have been given back.
\<close>

theorem create_order_gateway_failure_leaves_order:
  assumes "find_order (oe_orderId env) w = Some ord" and "o_items ord \<noteq> []"
    and "o_userId ord = u" and "o_status ord = PENDING_PAYMENT"
    and "payments_of (oe_orderId env) w = []" and "pe_refusal (oe_payment env) = Some err"
    and "types_exist (meta_pairs ms) w" and "counters_exist u (meta_pairs ms) w"
  shows "\<exists>w'. payment_stage env now u ms w = (w', Inl (ForeignKeyViolation ''Order'')) \<and>
     find_order (oe_orderId env) w' = Some ord \<and>
     ticketTypes w' = dec_types (meta_pairs ms) (ticketTypes w) \<and>
     counters w' = dec_counters u (meta_pairs ms) (counters w)"
proof -
  let ?w1 = "release_items now u (oe_orderId env) (meta_pairs ms) w"
  let ?w2 = "?w1\<lparr>ticketTypes := dec_types (meta_pairs ms) (ticketTypes w),
                 counters := dec_counters u (meta_pairs ms) (counters w)\<rparr>"
  have url: "createPaymentUrl (oe_payment env) (oe_orderId env) u w = (w, Inl (breaker_fallback err))"
    using assms(1,3-6)
    by (simp add: createPaymentUrl_def request_payment_url_def breaker_execute_def)
  have decs: "promise_all (map dec_type (meta_pairs ms) @ map (dec_counter u) (meta_pairs ms)) ?w1
      = (?w2, Inr ())"
    using assms(7,8)
    by (simp add: promise_all_append promise_all_dec_types promise_all_dec_counters)
  have found: "find_order (oe_orderId env) ?w2 = Some ord"
    using assms(1) by (simp add: find_order_def)
  have "payment_stage env now u ms w = (?w2, Inl (ForeignKeyViolation ''Order''))"
    by (simp add: payment_stage_def url decs delete_order_with_items [OF found assms(2)])
  then show ?thesis using found by simp
qed

definition demo_pending :: world where
  "demo_pending = demo_shop\<lparr>orders := [demo_order],
     ticketTypes := [(demo_type ''vip'' 3)\<lparr>tt_reservedQty := 2\<rparr>],
     counters := [\<lparr>uc_userId = ''alice'', uc_ticketTypeId = ''vip'', uc_paidQty = 0, uc_reservedQty = 2\<rparr>]\<rparr>"

lemma demo_pending_facts [simp]:
  "find_order ''o1'' demo_pending = Some demo_order" "orders demo_pending = [demo_order]"
  "payments_of ''o1'' demo_pending = []" "tickets demo_pending = []" "payments demo_pending = []"
  "find_ticket_type ''vip'' demo_pending = Some ((demo_type ''vip'' 3)\<lparr>tt_reservedQty := 2\<rparr>)"
  "find_counter ''alice'' ''vip'' demo_pending =
     Some \<lparr>uc_userId = ''alice'', uc_ticketTypeId = ''vip'', uc_paidQty = 0, uc_reservedQty = 2\<rparr>"
  "redisdb demo_pending = redisdb demo_shop" "gates demo_pending = []"
  "ticketTypes demo_pending = [(demo_type ''vip'' 3)\<lparr>tt_reservedQty := 2\<rparr>]"
  "counters demo_pending =
     [\<lparr>uc_userId = ''alice'', uc_ticketTypeId = ''vip'', uc_paidQty = 0, uc_reservedQty = 2\<rparr>]"
  by (simp_all add: demo_pending_def find_order_def demo_order_def payments_of_def demo_shop_def
      empty_world_def find_ticket_type_def demo_type_def find_counter_def counter_key_def)

lemma demo_order_facts [simp]:
  "item_pairs demo_order = [(''vip'', 2)]" "o_userId demo_order = ''alice''" "o_id demo_order = ''o1''"
  "o_status demo_order = PENDING_PAYMENT" "o_expiresAt demo_order = Some 900000"
  "o_concertId demo_order = ''c1''" "o_items demo_order \<noteq> []" "o_totalAmountInVnd demo_order = 200"
  by (simp_all add: demo_order_def item_pairs_def)

lemma demo_pending_exist [simp]:
  "types_exist [(''vip'', 2)] demo_pending" "counters_exist ''alice'' [(''vip'', 2)] demo_pending"
  by (simp_all add: types_exist_def counters_exist_def)

theorem create_order_gateway_failure_leaves_order_witness:
  "snd (payment_stage (demo_order_env (Some (PlainError ''Breaker is open'')) False) 1000 ''alice''
     [one_meta ''vip'' 2 4 100] demo_pending) = Inl (ForeignKeyViolation ''Order'')"
proof -
  have "find_order (oe_orderId (demo_order_env (Some (PlainError ''Breaker is open'')) False)) demo_pending
      = Some demo_order"
    by (simp add: demo_order_env_def)
  from create_order_gateway_failure_leaves_order [OF this, of "''alice''" "PlainError ''Breaker is open''"
      "[one_meta ''vip'' 2 4 100]" 1000]
  show ?thesis by (auto simp: demo_order_env_def meta_pairs_def)
qed

text \<open>
  When the PostgreSQL guard finds too few tickets for an order that Redis admitted, the
  request is refused but its order row survives the swallowed delete: it stays pending and
  payable without any reserved quantity behind it.
\<close>

theorem create_order_guard_failure_leaves_order:
  assumes "find_order (oe_orderId env) w = Some ord" and "o_items ord \<noteq> []"
    and "find_ticket_type (m_ticketTypeId m) w = Some tt" and "unique_key tt_id (ticketTypes w)"
    and "tt_totalQty tt < tt_reservedQty tt + tt_soldQty tt + m_quantity m"
    and "\<not> oe_inventoryFails env"
  shows "\<exists>w'. inventory_stage env now u [m] w = (w', Inl (UnprocessableEntityException ''not enough tickets'')) \<and>
     find_order (oe_orderId env) w' = Some ord \<and> ticketTypes w' = ticketTypes w \<and> counters w' = counters w"
proof -
  have "tt_id x = m_ticketTypeId m \<Longrightarrow> x \<in> set (ticketTypes w) \<Longrightarrow> x = tt" for x
    using find_row_unique [OF assms(4), of x] assms(3) by (simp add: find_ticket_type_def)
  then have "count_where (\<lambda>x. tt_id x = m_ticketTypeId m \<and>
      tt_reservedQty x + tt_soldQty x + m_quantity m \<le> tt_totalQty x) (ticketTypes w) = 0"
    using assms(5) by (fastforce simp: count_where_def filter_empty_conv)
  then have "sync_inventory env u [m] w = (w, Inl (UnprocessableEntityException ''not enough tickets''))"
    using assms(6) by (simp add: sync_inventory_def inventory_row_def transaction_def Let_def)
  then show ?thesis
    using assms(1,2) by (simp add: inventory_stage_def delete_order_with_items)
qed

theorem create_order_guard_failure_leaves_order_witness:
  "\<exists>w'. inventory_stage (demo_order_env None False) 1000 ''alice'' [one_meta ''vip'' 2 4 100] demo_pending
     = (w', Inl (UnprocessableEntityException ''not enough tickets'')) \<and> find_order ''o1'' w' = Some demo_order"
  using create_order_guard_failure_leaves_order [of "demo_order_env None False" demo_pending demo_order
      "one_meta ''vip'' 2 4 100" "(demo_type ''vip'' 3)\<lparr>tt_reservedQty := 2\<rparr>" 1000 "''alice''"]
  by (auto simp: demo_order_env_def demo_type_def unique_key_def)

text \<open>
  Cancelling is for the owner of a pending order only: anyone else and any other status
  gets an error and changes nothing; the owner's cancellation marks the order CANCELLED and
  takes its quantities off the reserved counts of its ticket types and of the user.
\<close>

theorem cancel_order_effect:
  assumes "find_order i w = Some ord" and "types_exist (item_pairs ord) w"
    and "counters_exist (o_userId ord) (item_pairs ord) w"
  shows "(u \<noteq> o_userId ord \<longrightarrow> cancelOrder now i u w = (w, Inl (UnauthorizedException ''cancel order''))) \<and>
    (u = o_userId ord \<and> o_status ord \<noteq> PENDING_PAYMENT \<longrightarrow>
       cancelOrder now i u w = (w, Inl (BadRequestException ''order not pending''))) \<and>
    (u = o_userId ord \<and> o_status ord = PENDING_PAYMENT \<longrightarrow>
       (\<exists>w' resp. cancelOrder now i u w = (w', Inr resp) \<and> or_status resp = ORDER_CANCELLED \<and>
          find_order i w' = Some (cancelled_by now ord) \<and>
          ticketTypes w' = dec_types (item_pairs ord) (ticketTypes w) \<and>
          counters w' = dec_counters u (item_pairs ord) (counters w) \<and>
          tickets w' = tickets w \<and> payments w' = payments w))"
proof (intro conjI impI)
  assume "u \<noteq> o_userId ord"
  then show "cancelOrder now i u w = (w, Inl (UnauthorizedException ''cancel order''))"
    using assms(1) by (simp add: cancelOrder_def)
next
  assume "u = o_userId ord \<and> o_status ord \<noteq> PENDING_PAYMENT"
  then show "cancelOrder now i u w = (w, Inl (BadRequestException ''order not pending''))"
    using assms(1) by (simp add: cancelOrder_def)
next
  assume u: "u = o_userId ord \<and> o_status ord = PENDING_PAYMENT"
  then obtain w' resp where run: "cancelOrder now i u w = (w', Inr resp)" "or_status resp = ORDER_CANCELLED"
    and vo: "views_only (closed_tables (cancelled_by now) ord (release_items now u i (item_pairs ord) w)) w'"
    using cancelOrder_success [of i w ord u now] assms by auto
  then show "\<exists>w' resp. cancelOrder now i u w = (w', Inr resp) \<and> or_status resp = ORDER_CANCELLED \<and>
          find_order i w' = Some (cancelled_by now ord) \<and>
          ticketTypes w' = dec_types (item_pairs ord) (ticketTypes w) \<and>
          counters w' = dec_counters u (item_pairs ord) (counters w) \<and>
          tickets w' = tickets w \<and> payments w' = payments w"
    using views_only_tables [OF vo] u assms(1) find_order_id [OF assms(1)]
    by (simp add: closed_tables_def find_order_def find_row_update_where cancelled_by_def)
qed

theorem cancel_order_effect_witness:
  "\<exists>w' resp. cancelOrder 1000 ''o1'' ''alice'' demo_pending = (w', Inr resp) \<and>
     find_order ''o1'' w' = Some (cancelled_by 1000 demo_order)"
  using cancel_order_effect [of "''o1''" demo_pending demo_order "''alice''" 1000] by auto

text \<open>
  The expire job acts on an order exactly when it is still pending and its expiry is not
  in the future; then it becomes EXPIRED and its quantities leave the reserved counts.  In
  every other case the job changes nothing.
\<close>

theorem expire_order_effect:
  assumes "find_order i w = Some ord" and "types_exist (item_pairs ord) w"
    and "counters_exist (o_userId ord) (item_pairs ord) w"
  shows "(if o_status ord = PENDING_PAYMENT \<and> (\<forall>e. o_expiresAt ord = Some e \<longrightarrow> e \<le> now)
          then \<exists>w'. expireOrder now i w = (w', Inr ()) \<and>
                 find_order i w' = Some (expired_by now ord) \<and>
                 ticketTypes w' = dec_types (item_pairs ord) (ticketTypes w) \<and>
                 counters w' = dec_counters (o_userId ord) (item_pairs ord) (counters w)
          else expireOrder now i w = (w, Inr ()))"
proof (cases "o_status ord = PENDING_PAYMENT \<and> (\<forall>e. o_expiresAt ord = Some e \<longrightarrow> e \<le> now)")
  case True
  then obtain w' where run: "expireOrder now i w = (w', Inr ())"
    and vo: "views_only (closed_tables (expired_by now) ord
      (release_items now (o_userId ord) i (item_pairs ord) w)) w'"
    using expireOrder_success [of i w ord now] assms by auto
  then show ?thesis
    using True views_only_tables [OF vo] assms(1) find_order_id [OF assms(1)]
    by (simp add: closed_tables_def find_order_def find_row_update_where expired_by_def)
next
  case False
  then have "expireOrder now i w = (w, Inr ())"
    using assms(1) by (auto simp: expireOrder_def split: option.splits)
  then show ?thesis unfolding if_not_P [OF False] .
qed

theorem expire_order_effect_witness:
  "(\<exists>w'. expireOrder 900000 ''o1'' demo_pending = (w', Inr ()) \<and>
      find_order ''o1'' w' = Some (expired_by 900000 demo_order)) \<and>
   expireOrder 899999 ''o1'' demo_pending = (demo_pending, Inr ())"
  using expire_order_effect [of "''o1''" demo_pending demo_order 900000]
    expire_order_effect [of "''o1''" demo_pending demo_order 899999]
  by auto



text \<open>
  A customer sees an order only if it is theirs, and its QR payloads only once it is
  paid.
\<close>

theorem get_order_access:
  "(case getOrder now i u w of
      Inl e \<Rightarrow> (find_order i w = None \<and> e = NotFoundException ''order'') \<or>
               (\<exists>ord. find_order i w = Some ord \<and> o_userId ord \<noteq> u \<and> e = UnauthorizedException ''view order'')
    | Inr resp \<Rightarrow> \<exists>ord. find_order i w = Some ord \<and> o_userId ord = u \<and> or_id resp = i \<and>
               (or_tickets resp = None \<longleftrightarrow> o_status ord \<noteq> PAID))"
  using find_order_id [of i w]
  by (auto simp: getOrder_def toOrderResponseFull_def Let_def split: option.splits)

lemma take_drop_pages:
  "concat (map (\<lambda>p. take limit (drop (p * limit) rows)) [0..<n]) = take (n * limit) rows"
proof (induction n)
  case 0
  then show ?case by simp
next
  case (Suc n)
  have "take (Suc n * limit) rows = take (n * limit + limit) rows" by (simp add: add.commute)
  also have "\<dots> = take (n * limit) rows @ take limit (drop (n * limit) rows)" by (rule take_add)
  finally show ?case using Suc by simp
qed

lemma pages_cover_listing:
  assumes "0 < limit"
  shows "concat (map (\<lambda>page. page_of page limit rows) [1..<Suc (ceil_div (length rows) limit)]) = rows"
proof -
  let ?n = "ceil_div (length rows) limit"
  have "[1..<Suc ?n] = map Suc [0..<?n]" by (simp only: map_Suc_upt One_nat_def)
  then have "concat (map (\<lambda>page. page_of page limit rows) [1..<Suc ?n]) =
      concat (map (\<lambda>p. take limit (drop (p * limit) rows)) [0..<?n])"
    by (simp add: page_of_def comp_def del: upt_Suc)
  also have "\<dots> = take (?n * limit) rows" by (rule take_drop_pages)
  also have "length rows \<le> ?n * limit"
  proof -
    have "length rows + limit - 1 = ?n * limit + (length rows + limit - 1) mod limit"
      by (simp add: ceil_div_def)
    moreover have "(length rows + limit - 1) mod limit < limit" using assms by simp
    ultimately show ?thesis by linarith
  qed
  then have "take (?n * limit) rows = rows" by simp
  finally show ?thesis .
qed

text \<open>
  Walking through all pages of the customer's order list, as many as \<open>totalPages\<close> says,
  shows every order of the user exactly once, newest first.  With a status filter the
  reported total still counts the orders of every status.
\<close>

theorem my_orders_pages_complete:
  assumes "0 < limit"
  shows "concat (map (\<lambda>page. ol_data (getMyOrders now u page limit None w))
             [1..<Suc (ol_totalPages (getMyOrders now u 1 limit None w))]) =
           map (toOrderResponseMinimal now None w) (filter (\<lambda>ord. o_userId ord = u) (rev (orders w)))
       \<and> ol_total (getMyOrders now u 1 limit (Some st) w) = length (filter (\<lambda>ord. o_userId ord = u) (orders w))"
proof -
  let ?rows = "filter (\<lambda>ord. o_userId ord = u) (rev (orders w))"
  have pages: "ol_totalPages (getMyOrders now u 1 limit None w) = ceil_div (length ?rows) limit"
    by (simp add: getMyOrders_def count_where_def Let_def flip: rev_filter)
  have "concat (map (\<lambda>page. ol_data (getMyOrders now u page limit None w))
             [1..<Suc (ceil_div (length ?rows) limit)]) =
      map (toOrderResponseMinimal now None w)
        (concat (map (\<lambda>page. page_of page limit ?rows) [1..<Suc (ceil_div (length ?rows) limit)]))"
    by (simp add: getMyOrders_def Let_def map_concat comp_def del: upt_Suc)
  then show ?thesis
    unfolding pages pages_cover_listing [OF assms]
    by (simp add: getMyOrders_def count_where_def Let_def)
qed

theorem my_orders_pages_complete_witness:
  "ol_total (getMyOrders 0 ''alice'' 1 10 (Some PAID) demo_pending) = 1"
  using my_orders_pages_complete [of 10 0 "''alice''" demo_pending PAID] by simp


end
