(* ===== verification/Payment_Service.thy ===== *)
theory Payment_Service
  imports Order_Properties "HOL-Library.List_Lexorder"
begin

text \<open>
  \<open>payment.service.ts\<close>: the webhook of the payment gateway (signature, amount, the states of
  the order, late and repeated calls), the failed, timed-out and successful payment, the
  choice of the least loaded gate, the issue of tickets, and the payment status query.

  \<^item> \<open>handlePaymentSuccess\<close> takes the order as the webhook read it, so that two webhooks
    which both read a pending order can be run one after the other.
  \<^item> Identifiers and raw tokens of new tickets come from \<open>ticket_env\<close>, indexed by the
    position of the ticket in the plan; the identifier of a new payment row is an argument.
\<close>

record ticket_env =
  te_ticketId :: "nat \<Rightarrow> id"
  te_rawToken :: "nat \<Rightarrow> string"
  te_qrSecret :: string
  te_paymentId :: id

section \<open>Least loaded gate\<close>

text \<open>The count per gate name over issued and checked-in tickets of the concert.\<close>

definition gate_count :: "id \<Rightarrow> string \<Rightarrow> world \<Rightarrow> nat" where
  "gate_count concertId name w =
     count_where (\<lambda>t. t_concertId t = concertId \<and> t_status t \<in> {ISSUED, CHECKED_IN} \<and>
                      t_gateId t = Some name) (tickets w)"

text \<open>The loop over the gates: the first gate with the least count.\<close>

fun least_loaded :: "(string \<Rightarrow> nat) \<Rightarrow> gate \<Rightarrow> nat \<Rightarrow> gate list \<Rightarrow> gate" where
  "least_loaded count leastLoaded minCount [] = leastLoaded"
| "least_loaded count leastLoaded minCount (g # gs) =
     (if count (g_name g) < minCount then least_loaded count g (count (g_name g)) gs
      else least_loaded count leastLoaded minCount gs)"

definition gates_of :: "id \<Rightarrow> world \<Rightarrow> gate list" where
  "gates_of concertId w = filter (\<lambda>g. g_concertId g = concertId) (gates w)"

definition findLeastLoadedGate :: "id \<Rightarrow> world \<Rightarrow> gate option" where
  "findLeastLoadedGate concertId w =
     (case gates_of concertId w of
        [] \<Rightarrow> None
      | g # gs \<Rightarrow> Some (least_loaded (\<lambda>n. gate_count concertId n w) g
                       (gate_count concertId (g_name g) w) (g # gs)))"

section \<open>Recording a webhook\<close>

text \<open>The upsert on (provider, providerTransactionId), with the status the caller gives.\<close>

definition is_transaction :: "string \<Rightarrow> payment \<Rightarrow> bool" where
  "is_transaction txId p \<longleftrightarrow> p_provider p = MOCK \<and> p_providerTransactionId p = Some txId"

definition upsert_payment ::
  "time \<Rightarrow> id \<Rightarrow> PaymentStatus \<Rightarrow> (PaymentStatus \<Rightarrow> PaymentStatus) \<Rightarrow> mock_webhook_dto \<Rightarrow> world \<Rightarrow> world" where
  "upsert_payment now newId created updated dto w =
     (if count_where (is_transaction (wh_providerTransactionId dto)) (payments w) = 0
      then w\<lparr>payments := payments w @
             [\<lparr>p_id = newId, p_orderId = wh_orderId dto, p_provider = MOCK, p_status = created,
               p_amount = wh_amount dto, p_providerTransactionId = Some (wh_providerTransactionId dto),
               p_paymentUrl = None, p_rawWebhook = Some (RawDto dto), p_receivedAt = Some now\<rparr>]\<rparr>
      else w\<lparr>payments := update_where (is_transaction (wh_providerTransactionId dto))
             (\<lambda>p. p\<lparr>p_status := updated (p_status p), p_rawWebhook := Some (RawDto dto),
                    p_receivedAt := Some now\<rparr>) (payments w)\<rparr>)"

definition recordLateWebhook :: "time \<Rightarrow> id \<Rightarrow> mock_webhook_dto \<Rightarrow> world \<Rightarrow> world" where
  "recordLateWebhook now newId dto w =
     upsert_payment now newId
       (case wh_result dto of RESULT_SUCCESS \<Rightarrow> PAY_SUCCESS | RESULT_FAILED \<Rightarrow> PAY_FAILED
        | RESULT_TIMEOUT \<Rightarrow> PAY_TIMEOUT) (\<lambda>s. s) dto w"

definition handlePaymentTimeout :: "time \<Rightarrow> id \<Rightarrow> mock_webhook_dto \<Rightarrow> world \<Rightarrow> world" where
  "handlePaymentTimeout now newId dto w =
     upsert_payment now newId PAY_TIMEOUT (\<lambda>_. PAY_TIMEOUT) dto w"

section \<open>Failed payment\<close>

text \<open>\<open>updateMany\<close> with the guard \<open>reservedQty >= quantity\<close>: silently skips other rows.\<close>

definition release_guarded :: "id \<Rightarrow> id \<times> int \<Rightarrow> world \<Rightarrow> world" where
  "release_guarded userId item w =
     w\<lparr>ticketTypes := update_where (\<lambda>tt. tt_id tt = fst item \<and> snd item \<le> tt_reservedQty tt)
         (\<lambda>tt. tt\<lparr>tt_reservedQty := tt_reservedQty tt - snd item\<rparr>) (ticketTypes w),
       counters := update_where (\<lambda>c. counter_key c = (userId, fst item) \<and> snd item \<le> uc_reservedQty c)
         (\<lambda>c. c\<lparr>uc_reservedQty := uc_reservedQty c - snd item\<rparr>) (counters w)\<rparr>"

definition handlePaymentFailed :: "time \<Rightarrow> id \<Rightarrow> order \<Rightarrow> world \<Rightarrow> world" where
  "handlePaymentFailed now orderId ord w =
     (let w1 =
        (case find_order orderId w of
           None \<Rightarrow> w
         | Some latest \<Rightarrow>
             if o_status latest \<noteq> PENDING_PAYMENT then w
             else
               fold (release_guarded (o_userId ord)) (item_pairs ord)
                 (w\<lparr>payments := update_where (\<lambda>p. p_orderId p = orderId \<and> p_status p = INITIATED)
                      (\<lambda>p. p\<lparr>p_status := PAY_FAILED\<rparr>) (payments w),
                    orders := update_where (\<lambda>x. o_id x = orderId)
                      (\<lambda>x. x\<lparr>o_status := PAYMENT_FAILED, o_inventoryReleasedAt := Some now,
                             o_releaseReason := Some ''PAYMENT_FAILED''\<rparr>) (orders w)\<rparr>));
          w2 = release_items now (o_userId ord) (o_id ord) (item_pairs ord) w1
      in refresh_all now (o_concertId ord) (map fst (item_pairs ord)) w2)"

section \<open>Successful payment\<close>

record ticket_plan =
  tp_orderItemId :: id
  tp_ticketTypeId :: id
  tp_ticketId :: id
  tp_token :: qr_token
  tp_gateName :: string

text \<open>One entry per ticket, in the order of the items; \<open>n\<close> counts the tickets planned so far.\<close>

fun plan_item :: "crypto \<Rightarrow> ticket_env \<Rightarrow> string \<Rightarrow> order_item \<Rightarrow> nat \<Rightarrow> nat \<Rightarrow> ticket_plan list" where
  "plan_item C env gateName item n 0 = []"
| "plan_item C env gateName item n (Suc k) =
     \<lparr>tp_orderItemId = oi_id item, tp_ticketTypeId = oi_ticketTypeId item,
      tp_ticketId = te_ticketId env n,
      tp_token = generateQrToken C (te_rawToken env n) (te_ticketId env n) gateName (te_qrSecret env),
      tp_gateName = gateName\<rparr> # plan_item C env gateName item (Suc n) k"

fun plan_items :: "crypto \<Rightarrow> ticket_env \<Rightarrow> string \<Rightarrow> order_item list \<Rightarrow> nat \<Rightarrow> ticket_plan list" where
  "plan_items C env gateName [] n = []"
| "plan_items C env gateName (item # items) n =
     plan_item C env gateName item n (nat (oi_quantity item)) @
     plan_items C env gateName items (n + nat (oi_quantity item))"

definition gate_or_null :: "string \<Rightarrow> string option" where
  "gate_or_null name = (if name = [] then None else Some name)"

definition ticket_of_plan :: "time \<Rightarrow> order \<Rightarrow> ticket_plan \<Rightarrow> ticket" where
  "ticket_of_plan now ord plan =
     \<lparr>t_id = tp_ticketId plan, t_orderId = o_id ord, t_orderItemId = tp_orderItemId plan,
      t_concertId = o_concertId ord, t_ticketTypeId = tp_ticketTypeId plan,
      t_userId = o_userId ord, t_gateId = gate_or_null (tp_gateName plan),
      t_qrRawToken = qt_rawToken (tp_token plan), t_qrTokenHash = qt_qrTokenHash (tp_token plan),
      t_qrSignature = Some (qt_qrSignature (tp_token plan)), t_status = ISSUED,
      t_checkedInAt = None, t_createdAt = now\<rparr>"

text \<open>\<open>prisma.ticket.create\<close>: identifier and token hash are unique columns.\<close>

definition create_ticket :: "ticket \<Rightarrow> unit handler" where
  "create_ticket t w =
     (if (\<exists>x \<in> set (tickets w). t_id x = t_id t \<or> t_qrTokenHash x = t_qrTokenHash t)
      then (w, Inl (UniqueViolation ''Ticket''))
      else (w\<lparr>tickets := tickets w @ [t]\<rparr>, Inr ()))"

definition sell_type :: "id \<times> int \<Rightarrow> unit handler" where
  "sell_type item =
     update_ticket_type (fst item)
       (\<lambda>tt. tt\<lparr>tt_soldQty := tt_soldQty tt + snd item, tt_reservedQty := tt_reservedQty tt - snd item\<rparr>)"

definition sell_counter :: "id \<Rightarrow> id \<times> int \<Rightarrow> unit handler" where
  "sell_counter userId item w =
     (upsert_counter
        \<lparr>uc_userId = userId, uc_ticketTypeId = fst item, uc_paidQty = snd item, uc_reservedQty = 0\<rparr>
        (\<lambda>c. c\<lparr>uc_paidQty := uc_paidQty c + snd item, uc_reservedQty := uc_reservedQty c - snd item\<rparr>) w,
      Inr ())"

definition paid_at :: "time \<Rightarrow> order \<Rightarrow> order" where
  "paid_at now x = x\<lparr>o_status := PAID, o_paidAt := Some now\<rparr>"

definition handlePaymentSuccess ::
  "crypto \<Rightarrow> ticket_env \<Rightarrow> time \<Rightarrow> mock_webhook_dto \<Rightarrow> order \<Rightarrow> unit handler" where
  "handlePaymentSuccess C env now dto ord w =
     (let gateName = (case findLeastLoadedGate (o_concertId ord) w of Some g \<Rightarrow> g_name g | None \<Rightarrow> []);
          plans = plan_items C env gateName (o_items ord) 0
      in bindE (transaction (\<lambda>tx.
             bindE (update_order (wh_orderId dto) (paid_at now)
                      (upsert_payment now (te_paymentId env) PAY_SUCCESS (\<lambda>_. PAY_SUCCESS) dto tx)) (\<lambda>w1 _.
             bindE (forE (map (ticket_of_plan now ord) plans) create_ticket w1) (\<lambda>w2 _.
             bindE (forE (item_pairs ord) sell_type w2) (\<lambda>w3 _.
             forE (item_pairs ord) (sell_counter (o_userId ord)) w3)))) w) (\<lambda>w1 _.
           let w2 = invalidateCache (Some (o_concertId ord))
                      (w1\<lparr>redisdb := redis_del (REDIS_KEY_RESERVATION (wh_orderId dto)) (redisdb w1)\<rparr>);
               w3 = w2\<lparr>jobs := jobs w2 @ [OrderPaidEmailJob (wh_orderId dto) (o_userId ord)]\<rparr>
           in (refresh_all now (o_concertId ord) (map fst (item_pairs ord)) w3, Inr ())))"

section \<open>The webhook\<close>

record webhook_response =
  wr_orderId :: id
  wr_status :: "OrderStatus option"

definition handleMockWebhook ::
  "crypto \<Rightarrow> string \<Rightarrow> ticket_env \<Rightarrow> time \<Rightarrow> mock_webhook_dto \<Rightarrow> webhook_response handler" where
  "handleMockWebhook C webhookSecret env now dto w =
     (if \<not> verifySignature C webhookSecret (webhook_payload dto) (wh_signature dto)
      then (w, Inl (BadRequestException ''webhook signature''))
      else case find_order (wh_orderId dto) w of
        None \<Rightarrow> (w, Inl (NotFoundException ''order''))
      | Some ord \<Rightarrow>
          if o_totalAmountInVnd ord \<noteq> wh_amount dto
          then (w, Inl (BadRequestException ''amount mismatch''))
          else if o_status ord = PAID
          then (w, Inr \<lparr>wr_orderId = o_id ord, wr_status = Some PAID\<rparr>)
          else if o_status ord = EXPIRED
          then (recordLateWebhook now (te_paymentId env) dto w,
                Inr \<lparr>wr_orderId = o_id ord, wr_status = Some EXPIRED\<rparr>)
          else if o_status ord \<noteq> PENDING_PAYMENT
          then (w, Inr \<lparr>wr_orderId = o_id ord, wr_status = Some (o_status ord)\<rparr>)
          else (case wh_result dto of
                  RESULT_FAILED \<Rightarrow>
                    (handlePaymentFailed now (wh_orderId dto) ord w,
                     Inr \<lparr>wr_orderId = o_id ord, wr_status = Some PAYMENT_FAILED\<rparr>)
                | RESULT_TIMEOUT \<Rightarrow>
                    (handlePaymentTimeout now (te_paymentId env) dto w,
                     Inr \<lparr>wr_orderId = o_id ord, wr_status = None\<rparr>)
                | RESULT_SUCCESS \<Rightarrow>
                    bindE (handlePaymentSuccess C env now dto ord w) (\<lambda>w' _.
                      (w', Inr \<lparr>wr_orderId = o_id ord, wr_status = Some PAID\<rparr>))))"

record payment_status_response =
  ps_orderId :: id
  ps_status :: OrderStatus
  ps_payments :: "payment list"
  ps_ticketCount :: nat

definition getPaymentStatus :: "id \<Rightarrow> id \<Rightarrow> world \<Rightarrow> exn + payment_status_response" where
  "getPaymentStatus orderId userId w =
     (case find_order orderId w of
        None \<Rightarrow> Inl (NotFoundException ''order'')
      | Some ord \<Rightarrow>
          if o_userId ord \<noteq> userId then Inl (BadRequestException ''not the order of the user'')
          else Inr \<lparr>ps_orderId = o_id ord, ps_status = o_status ord,
                    ps_payments = payments_of orderId w,
                    ps_ticketCount = count_where (\<lambda>t. t_orderId t = orderId) (tickets w)\<rparr>)"

end
