(* ===== verification/Payment_Properties.thy ===== *)
theory Payment_Properties
  imports Payment_Service
begin

text \<open>
  What the payment service guarantees: the effect of a successful payment (the tickets of
  every item, their gate, hash and signature, the sale of the reserved quantity), replays,
  forged and late webhooks, the failed payment, the choice of the gate; and what two
  concurrent success webhooks do.
\<close>

section \<open>The plan of tickets\<close>

definition total_qty :: "order_item list \<Rightarrow> nat" where
  "total_qty items = sum_list (map (\<lambda>i. nat (oi_quantity i)) items)"

lemma plan_item_map:
  "plan_item C env g item n k =
     map (\<lambda>j. \<lparr>tp_orderItemId = oi_id item, tp_ticketTypeId = oi_ticketTypeId item,
              tp_ticketId = te_ticketId env j,
              tp_token = generateQrToken C (te_rawToken env j) (te_ticketId env j) g (te_qrSecret env),
              tp_gateName = g\<rparr>) [n..<n + k]"
  by (induction k arbitrary: n) (simp_all add: upt_conv_Cons del: upt_Suc)

lemma length_plan_items [simp]: "length (plan_items C env g items n) = total_qty items"
  by (induction items arbitrary: n) (simp_all add: plan_item_map total_qty_def)

lemma plan_items_columns:
  "map tp_ticketId (plan_items C env g items n) = map (te_ticketId env) [n..<n + total_qty items]"
  "map (\<lambda>p. qt_qrTokenHash (tp_token p)) (plan_items C env g items n) =
     map (\<lambda>j. sha256 C (te_rawToken env j)) [n..<n + total_qty items]"
proof (induction items arbitrary: n)
  case Nil
  { case 1 then show ?case by (simp add: total_qty_def) }
  { case 2 then show ?case by (simp add: total_qty_def) }
next
  case (Cons item items)
  have split: "[n..<n + total_qty (item # items)] =
      [n..<n + nat (oi_quantity item)] @
      [n + nat (oi_quantity item)..<n + nat (oi_quantity item) + total_qty items]" for n
    using upt_add_eq_append [of n "n + nat (oi_quantity item)" "total_qty items"]
    by (simp add: total_qty_def add.assoc)
  { case 1 then show ?case unfolding split using Cons.IH by (simp add: plan_item_map comp_def) }
  { case 2 then show ?case unfolding split using Cons.IH by (simp add: plan_item_map comp_def) }
qed

lemma plan_items_token:
  "p \<in> set (plan_items C env g items n) \<Longrightarrow>
   \<exists>j. tp_ticketId p = te_ticketId env j \<and> tp_gateName p = g \<and>
       tp_token p = generateQrToken C (te_rawToken env j) (te_ticketId env j) g (te_qrSecret env)"
  by (induction items arbitrary: n) (auto simp: plan_item_map)

text \<open>
  What \<open>crypto.randomUUID\<close> is for: the identifiers and token hashes of the new tickets are
  pairwise different and not in the table.
\<close>

definition fresh_tickets :: "crypto \<Rightarrow> ticket_env \<Rightarrow> nat \<Rightarrow> ticket list \<Rightarrow> bool" where
  "fresh_tickets C env n ts \<longleftrightarrow>
     distinct (map (te_ticketId env) [0..<n]) \<and>
     distinct (map (\<lambda>j. sha256 C (te_rawToken env j)) [0..<n]) \<and>
     (\<forall>t \<in> set ts. \<forall>j \<in> set [0..<n]. t_id t \<noteq> te_ticketId env j \<and>
        t_qrTokenHash t \<noteq> sha256 C (te_rawToken env j))"

lemma forE_create_ticket:
  assumes "distinct (map t_id ts)" and "distinct (map t_qrTokenHash ts)"
    and "\<And>x t. x \<in> set (tickets w) \<Longrightarrow> t \<in> set ts \<Longrightarrow> t_id x \<noteq> t_id t \<and> t_qrTokenHash x \<noteq> t_qrTokenHash t"
  shows "forE ts create_ticket w = (w\<lparr>tickets := tickets w @ ts\<rparr>, Inr ())"
  using assms
proof (induction ts arbitrary: w)
  case Nil
  then show ?case by simp
next
  case (Cons t ts)
  let ?w = "w\<lparr>tickets := tickets w @ [t]\<rparr>"
  have "create_ticket t w = (?w, Inr ())"
    using Cons.prems(3) by (force simp: create_ticket_def)
  moreover have "forE ts create_ticket ?w = (?w\<lparr>tickets := tickets ?w @ ts\<rparr>, Inr ())"
    using Cons.prems by (intro Cons.IH) (auto simp: image_iff)
  ultimately show ?case by simp
qed

lemma issue_planned_tickets:
  assumes "fresh_tickets C env (total_qty (o_items ord)) (tickets w)"
  shows "forE (map (ticket_of_plan now ord) (plan_items C env g (o_items ord) 0)) create_ticket w =
    (w\<lparr>tickets := tickets w @ map (ticket_of_plan now ord) (plan_items C env g (o_items ord) 0)\<rparr>, Inr ())"
proof (rule forE_create_ticket)
  let ?ps = "plan_items C env g (o_items ord) 0" and ?n = "total_qty (o_items ord)"
  have ids: "map t_id (map (ticket_of_plan now ord) ?ps) = map (te_ticketId env) [0..<?n]"
    and hashes: "map t_qrTokenHash (map (ticket_of_plan now ord) ?ps) =
      map (\<lambda>j. sha256 C (te_rawToken env j)) [0..<?n]"
    using plan_items_columns [of C env g "o_items ord" 0]
    by (simp_all add: ticket_of_plan_def comp_def)
  show "distinct (map t_id (map (ticket_of_plan now ord) ?ps))"
    and "distinct (map t_qrTokenHash (map (ticket_of_plan now ord) ?ps))"
    using assms by (simp_all only: ids hashes fresh_tickets_def)
  fix x t
  assume x: "x \<in> set (tickets w)" and t: "t \<in> set (map (ticket_of_plan now ord) ?ps)"
  have "t_id t \<in> set (map (te_ticketId env) [0..<?n])"
    and "t_qrTokenHash t \<in> set (map (\<lambda>j. sha256 C (te_rawToken env j)) [0..<?n])"
    using t by (simp_all only: ids [symmetric] hashes [symmetric] set_map imageI)
  then show "t_id x \<noteq> t_id t \<and> t_qrTokenHash x \<noteq> t_qrTokenHash t"
    using assms x by (auto simp: fresh_tickets_def)
qed

section \<open>Closed form of the sale\<close>

definition sell_types :: "(id \<times> int) list \<Rightarrow> ticket_type list \<Rightarrow> ticket_type list" where
  "sell_types ps rows =
     map (\<lambda>t. t\<lparr>tt_soldQty := tt_soldQty t + pairs_qty (tt_id t) ps,
               tt_reservedQty := tt_reservedQty t - pairs_qty (tt_id t) ps\<rparr>) rows"

lemma sell_types_Nil [simp]: "sell_types [] rows = rows"
  by (simp add: sell_types_def)

lemma sell_type_eq:
  "find_ticket_type (fst p) w \<noteq> None \<Longrightarrow>
   sell_type p w = (w\<lparr>ticketTypes := sell_types [p] (ticketTypes w)\<rparr>, Inr ())"
  by (auto simp: sell_type_def update_ticket_type_def sell_types_def update_where_def
      intro!: map_cong ticket_type.equality)

lemma sell_types_Cons: "sell_types ps (sell_types [p] rows) = sell_types (p # ps) rows"
  by (simp add: sell_types_def algebra_simps)

lemma types_exist_sell:
  "types_exist ps (w\<lparr>ticketTypes := sell_types qs (ticketTypes w)\<rparr>) = types_exist ps w"
  by (simp add: types_exist_def find_ticket_type_def sell_types_def find_row_map)

lemma forE_sell_type:
  "types_exist ps w \<Longrightarrow>
   forE ps sell_type w = (w\<lparr>ticketTypes := sell_types ps (ticketTypes w)\<rparr>, Inr ())"
proof (induction ps arbitrary: w)
  case Nil
  then show ?case by simp
next
  case (Cons p ps)
  have p: "find_ticket_type (fst p) w \<noteq> None" and ps: "types_exist ps w"
    using Cons.prems by (simp_all add: types_exist_def)
  from Cons.IH [of "w\<lparr>ticketTypes := sell_types [p] (ticketTypes w)\<rparr>"] show ?case
    using ps by (simp add: sell_type_eq [OF p] types_exist_sell sell_types_Cons)
qed

lemma upsert_counter_counters_only: "\<exists>cs. upsert_counter n f w = w\<lparr>counters := cs\<rparr>"
  by (auto simp: upsert_counter_def split: option.splits)

lemma sell_counter_counters_only: "\<exists>cs. sell_counter u p w = (w\<lparr>counters := cs\<rparr>, Inr ())"
  by (auto simp: sell_counter_def upsert_counter_def split: option.split)

lemma forE_sell_counter: "\<exists>cs. forE ps (sell_counter u) w = (w\<lparr>counters := cs\<rparr>, Inr ())"
proof (induction ps arbitrary: w)
  case Nil
  show ?case by (auto intro: exI [of _ "counters w"])
next
  case (Cons p ps)
  obtain cs where cs: "sell_counter u p w = (w\<lparr>counters := cs\<rparr>, Inr ())"
    using sell_counter_counters_only by blast
  from Cons.IH [of "w\<lparr>counters := cs\<rparr>"] cs show ?case by auto
qed

lemma upsert_payment_payments_only: "\<exists>ps. upsert_payment now i s f dto w = w\<lparr>payments := ps\<rparr>"
  by (auto simp: upsert_payment_def)

lemma upsert_payment_tables [simp]:
  "orders (upsert_payment now i s f dto w) = orders w"
  "tickets (upsert_payment now i s f dto w) = tickets w"
  "ticketTypes (upsert_payment now i s f dto w) = ticketTypes w"
  "counters (upsert_payment now i s f dto w) = counters w"
  "gates (upsert_payment now i s f dto w) = gates w"
  "redisdb (upsert_payment now i s f dto w) = redisdb w"
  "jobs (upsert_payment now i s f dto w) = jobs w"
  "concerts (upsert_payment now i s f dto w) = concerts w"
  "checkinLogs (upsert_payment now i s f dto w) = checkinLogs w"
  "broadcasts (upsert_payment now i s f dto w) = broadcasts w"
  using upsert_payment_payments_only [of now i s f dto w] by auto

text \<open>The effect of a success that goes through, up to payments, counters and views.\<close>

definition issued_tickets :: "crypto \<Rightarrow> ticket_env \<Rightarrow> time \<Rightarrow> order \<Rightarrow> world \<Rightarrow> ticket list" where
  "issued_tickets C env now ord w =
     map (ticket_of_plan now ord)
       (plan_items C env (case findLeastLoadedGate (o_concertId ord) w of Some g \<Rightarrow> g_name g | None \<Rightarrow> [])
          (o_items ord) 0)"

lemma handlePaymentSuccess_effect:
  assumes "find_order (wh_orderId dto) w \<noteq> None"
    and "types_exist (item_pairs ord) w"
    and "fresh_tickets C env (total_qty (o_items ord)) (tickets w)"
  shows "\<exists>w'. handlePaymentSuccess C env now dto ord w = (w', Inr ()) \<and>
    orders w' = update_where (\<lambda>x. o_id x = wh_orderId dto) (paid_at now) (orders w) \<and>
    tickets w' = tickets w @ issued_tickets C env now ord w \<and>
    ticketTypes w' = sell_types (item_pairs ord) (ticketTypes w) \<and>
    jobs w' = jobs w @ [OrderPaidEmailJob (wh_orderId dto) (o_userId ord)] \<and>
    gates w' = gates w \<and> concerts w' = concerts w \<and> checkinLogs w' = checkinLogs w \<and>
    redisdb w' (REDIS_KEY_RESERVATION (wh_orderId dto)) = None \<and>
    (\<forall>tt. redisdb w' (REDIS_KEY_STOCK tt) = redisdb w (REDIS_KEY_STOCK tt)) \<and>
    (\<forall>u tt. redisdb w' (REDIS_KEY_USER_LIMIT u tt) = redisdb w (REDIS_KEY_USER_LIMIT u tt))"
proof -
  let ?i = "wh_orderId dto"
  let ?g = "case findLeastLoadedGate (o_concertId ord) w of Some g \<Rightarrow> g_name g | None \<Rightarrow> []"
  let ?u1 = "upsert_payment now (te_paymentId env) PAY_SUCCESS (\<lambda>_. PAY_SUCCESS) dto w"
  let ?w1 = "?u1\<lparr>orders := update_where (\<lambda>x. o_id x = ?i) (paid_at now) (orders w)\<rparr>"
  let ?ts = "issued_tickets C env now ord w"
  let ?w2 = "?w1\<lparr>tickets := tickets w @ ?ts\<rparr>"
  let ?w3 = "?w2\<lparr>ticketTypes := sell_types (item_pairs ord) (ticketTypes w)\<rparr>"
  have "update_order ?i (paid_at now) ?u1 = (?w1, Inr ())"
    using assms(1) by (auto simp: update_order_def find_order_def)
  moreover have "forE (map (ticket_of_plan now ord) (plan_items C env ?g (o_items ord) 0)) create_ticket ?w1
      = (?w2, Inr ())"
    using issue_planned_tickets [of C env ord ?w1 now ?g] assms(3) by (simp add: issued_tickets_def)
  moreover have "forE (item_pairs ord) sell_type ?w2 = (?w3, Inr ())"
    using forE_sell_type [of "item_pairs ord" ?w2] assms(2)
    by (simp add: types_exist_def find_ticket_type_def)
  moreover obtain cs where
    "forE (item_pairs ord) (sell_counter (o_userId ord)) ?w3 = (?w3\<lparr>counters := cs\<rparr>, Inr ())"
    using forE_sell_counter by blast
  ultimately show ?thesis
    by (simp add: handlePaymentSuccess_def Let_def views_only_keys [OF views_only_refresh_all]
        views_only_keys [OF views_only_invalidateCache])
qed

section \<open>Failed payment\<close>

lemma release_guarded_types:
  assumes "\<And>t. t \<in> set (ticketTypes w) \<Longrightarrow> tt_id t = fst p \<Longrightarrow> snd p \<le> tt_reservedQty t"
  shows "ticketTypes (release_guarded u p w) = dec_types [p] (ticketTypes w)"
  using assms by (auto simp: release_guarded_def dec_types_def update_where_def
      intro!: ticket_type.equality)

lemma release_guarded_tables [simp]:
  "orders (release_guarded u p w) = orders w" "payments (release_guarded u p w) = payments w"
  "tickets (release_guarded u p w) = tickets w" "redisdb (release_guarded u p w) = redisdb w"
  "jobs (release_guarded u p w) = jobs w" "gates (release_guarded u p w) = gates w"
  "concerts (release_guarded u p w) = concerts w" "checkinLogs (release_guarded u p w) = checkinLogs w"
  by (simp_all add: release_guarded_def)

lemma pairs_qty_nonneg: "(\<And>p. p \<in> set ps \<Longrightarrow> 0 \<le> snd p) \<Longrightarrow> 0 \<le> pairs_qty tt ps"
  by (induction ps) auto

lemma fold_release_guarded_types:
  assumes "\<And>t. t \<in> set (ticketTypes w) \<Longrightarrow> pairs_qty (tt_id t) ps \<le> tt_reservedQty t"
    and "\<And>p. p \<in> set ps \<Longrightarrow> 0 \<le> snd p"
  shows "ticketTypes (fold (release_guarded u) ps w) = dec_types ps (ticketTypes w)"
  using assms
proof (induction ps arbitrary: w)
  case Nil
  then show ?case by simp
next
  case (Cons p ps)
  have step: "ticketTypes (release_guarded u p w) = dec_types [p] (ticketTypes w)"
  proof (rule release_guarded_types)
    fix t
    assume "t \<in> set (ticketTypes w)" "tt_id t = fst p"
    moreover have "0 \<le> pairs_qty (tt_id t) ps" using Cons.prems(2) by (intro pairs_qty_nonneg) simp
    ultimately show "snd p \<le> tt_reservedQty t" using Cons.prems(1) [of t] by simp
  qed
  have "pairs_qty (tt_id t) ps \<le> tt_reservedQty t" if "t \<in> set (dec_types [p] (ticketTypes w))" for t
  proof -
    from that obtain t' where "t' \<in> set (ticketTypes w)"
      and "t = t'\<lparr>tt_reservedQty := tt_reservedQty t' - pairs_qty (tt_id t') [p]\<rparr>"
      by (auto simp: dec_types_def)
    then show ?thesis using Cons.prems(1) [of t'] by (simp split: if_splits)
  qed
  then have "ticketTypes (fold (release_guarded u) ps (release_guarded u p w)) =
      dec_types ps (dec_types [p] (ticketTypes w))"
    using Cons.IH [of "release_guarded u p w"] Cons.prems(2) step by simp
  then show ?case by (simp add: dec_types_Cons)
qed

lemma fold_release_guarded_tables [simp]:
  "orders (fold (release_guarded u) ps w) = orders w"
  "payments (fold (release_guarded u) ps w) = payments w"
  "tickets (fold (release_guarded u) ps w) = tickets w"
  "redisdb (fold (release_guarded u) ps w) = redisdb w"
  "jobs (fold (release_guarded u) ps w) = jobs w"
  "gates (fold (release_guarded u) ps w) = gates w"
  "concerts (fold (release_guarded u) ps w) = concerts w"
  "checkinLogs (fold (release_guarded u) ps w) = checkinLogs w"
  by (induction ps arbitrary: w) simp_all

definition failed_at :: "time \<Rightarrow> order \<Rightarrow> order" where
  "failed_at now x =
     x\<lparr>o_status := PAYMENT_FAILED, o_inventoryReleasedAt := Some now,
       o_releaseReason := Some ''PAYMENT_FAILED''\<rparr>"

lemma handlePaymentFailed_effect:
  assumes "find_order i w = Some latest" and "o_status latest = PENDING_PAYMENT"
    and "\<And>t. t \<in> set (ticketTypes w) \<Longrightarrow> pairs_qty (tt_id t) (item_pairs ord) \<le> tt_reservedQty t"
    and "\<And>p. p \<in> set (item_pairs ord) \<Longrightarrow> 0 \<le> snd p"
  shows "orders (handlePaymentFailed now i ord w) = update_where (\<lambda>x. o_id x = i) (failed_at now) (orders w) \<and>
    ticketTypes (handlePaymentFailed now i ord w) = dec_types (item_pairs ord) (ticketTypes w) \<and>
    tickets (handlePaymentFailed now i ord w) = tickets w \<and>
    jobs (handlePaymentFailed now i ord w) = jobs w"
proof -
  let ?w = "w\<lparr>payments := update_where (\<lambda>p. p_orderId p = i \<and> p_status p = INITIATED)
                (\<lambda>p. p\<lparr>p_status := PAY_FAILED\<rparr>) (payments w),
              orders := update_where (\<lambda>x. o_id x = i) (failed_at now) (orders w)\<rparr>"
  have "ticketTypes (fold (release_guarded (o_userId ord)) (item_pairs ord) ?w) =
      dec_types (item_pairs ord) (ticketTypes w)"
    using fold_release_guarded_types [of ?w "item_pairs ord"] assms(3,4) by simp
  then show ?thesis
    using assms(1,2)
    by (simp add: handlePaymentFailed_def failed_at_def [abs_def] Let_def)
qed

section \<open>Least loaded gate\<close>

lemma least_loaded_min:
  assumes "count (g_name best) = m"
  shows "least_loaded count best m gs \<in> insert best (set gs) \<and>
    (\<forall>h \<in> insert best (set gs). count (g_name (least_loaded count best m gs)) \<le> count (g_name h))"
  using assms
proof (induction gs arbitrary: best m)
  case Nil
  then show ?case by simp
next
  case (Cons g gs)
  show ?case
  proof (cases "count (g_name g) < m")
    case True
    with Cons.IH [of g "count (g_name g)"] Cons.prems show ?thesis by fastforce
  next
    case False
    with Cons.IH [OF Cons.prems] Cons.prems show ?thesis by fastforce
  qed
qed

lemma findLeastLoadedGate_min:
  assumes "findLeastLoadedGate c w = Some g"
  shows "g \<in> set (gates_of c w) \<and>
    (\<forall>h \<in> set (gates_of c w). gate_count c (g_name g) w \<le> gate_count c (g_name h) w)"
proof -
  obtain g0 gs where gates: "gates_of c w = g0 # gs"
    using assms by (auto simp: findLeastLoadedGate_def split: list.splits)
  then have g: "g = least_loaded (\<lambda>n. gate_count c n w) g0 (gate_count c (g_name g0) w) (g0 # gs)"
    using assms by (simp add: findLeastLoadedGate_def)
  show ?thesis
    using least_loaded_min [of "\<lambda>n. gate_count c n w" g0 "gate_count c (g_name g0) w" "g0 # gs"]
    unfolding g [symmetric] gates by simp
qed

section \<open>The webhook\<close>

lemma webhook_signed:
  "verifySignature C secret (webhook_payload dto) (wh_signature dto) \<Longrightarrow>
   find_order (wh_orderId dto) w = Some ord \<Longrightarrow> o_totalAmountInVnd ord = wh_amount dto \<Longrightarrow>
   o_status ord = PENDING_PAYMENT \<Longrightarrow> wh_result dto = RESULT_SUCCESS \<Longrightarrow>
   handleMockWebhook C secret env now dto w =
     bindE (handlePaymentSuccess C env now dto ord w)
       (\<lambda>w' _. (w', Inr \<lparr>wr_orderId = o_id ord, wr_status = Some PAID\<rparr>))"
  by (simp add: handleMockWebhook_def)

text \<open>An order row is never touched except for a move out of the pending state.\<close>

definition orders_progress :: "world \<Rightarrow> world \<Rightarrow> bool" where
  "orders_progress w w' \<longleftrightarrow>
     (\<forall>i ord. find_order i w = Some ord \<longrightarrow>
        (\<exists>ord'. find_order i w' = Some ord' \<and> o_status ord \<le> o_status ord'))"

lemma orders_progress_refl [simp]: "orders_progress w w"
  by (auto simp: orders_progress_def)

lemma orders_progress_trans:
  "orders_progress w1 w2 \<Longrightarrow> orders_progress w2 w3 \<Longrightarrow> orders_progress w1 w3"
  unfolding orders_progress_def by (metis order_trans)

lemma orders_progress_same: "orders w' = orders w \<Longrightarrow> orders_progress w w'"
  by (auto simp: orders_progress_def find_order_def)

lemma orders_progress_update:
  assumes "orders w' = update_where (\<lambda>x. o_id x = i) f (orders w)"
    and "find_order i w = Some ord" and "o_status ord = PENDING_PAYMENT" and "\<And>x. o_id (f x) = o_id x"
  shows "orders_progress w w'"
proof -
  have "find_order j w' = map_option (\<lambda>x. if o_id x = i then f x else x) (find_order j w)" for j
    using find_row_update_where [of o_id f j "\<lambda>x. o_id x = i" "orders w"] assms(1,4)
    by (simp add: find_order_def)
  moreover have "j = i \<Longrightarrow> find_order j w = Some x \<Longrightarrow> o_status x = PENDING_PAYMENT" for j x
    using assms(2,3) by simp
  ultimately show ?thesis
    unfolding orders_progress_def using find_order_id by fastforce
qed

lemma transaction_orders_cases:
  "transaction h w = (w', r) \<Longrightarrow> (w' = w \<and> (\<exists>e. r = Inl e)) \<or> (\<exists>x. r = Inr x \<and> h w = (w', Inr x))"
  by (auto simp: transaction_def split: prod.splits sum.splits)

lemma forE_orders:
  assumes "\<And>x w. orders (fst (f x w)) = orders w"
  shows "orders (fst (forE xs f w)) = orders w"
  by (rule forE_invariant [where P = "\<lambda>w'. orders w' = orders w"]) (simp_all add: assms)

lemma create_ticket_orders [simp]: "orders (fst (create_ticket t w)) = orders w"
  by (simp add: create_ticket_def)

lemma sell_type_orders [simp]: "orders (fst (sell_type p w)) = orders w"
  by (simp add: sell_type_def update_ticket_type_def split: option.splits)

lemma sell_counter_orders [simp]: "orders (fst (sell_counter u p w)) = orders w"
  by (simp add: sell_counter_def)

lemma handlePaymentSuccess_orders:
  "orders (fst (handlePaymentSuccess C env now dto ord w)) \<in>
     {orders w, update_where (\<lambda>x. o_id x = wh_orderId dto) (paid_at now) (orders w)}"
proof -
  let ?g = "case findLeastLoadedGate (o_concertId ord) w of Some g \<Rightarrow> g_name g | None \<Rightarrow> []"
  let ?plans = "plan_items C env ?g (o_items ord) 0"
  let ?body = "\<lambda>tx.
     bindE (update_order (wh_orderId dto) (paid_at now)
              (upsert_payment now (te_paymentId env) PAY_SUCCESS (\<lambda>_. PAY_SUCCESS) dto tx)) (\<lambda>w1 _.
     bindE (forE (map (ticket_of_plan now ord) ?plans) create_ticket w1) (\<lambda>w2 _.
     bindE (forE (item_pairs ord) sell_type w2) (\<lambda>w3 _.
     forE (item_pairs ord) (sell_counter (o_userId ord)) w3)))"
  have body: "orders (fst (?body w)) \<in>
      {orders w, update_where (\<lambda>x. o_id x = wh_orderId dto) (paid_at now) (orders w)}"
    by (cases "update_order (wh_orderId dto) (paid_at now)
              (upsert_payment now (te_paymentId env) PAY_SUCCESS (\<lambda>_. PAY_SUCCESS) dto w)")
      (auto simp: update_order_def forE_orders bindE_def split: option.splits prod.splits sum.splits
        dest!: arg_cong [where f = "\<lambda>x. orders (fst x)"])
  obtain w1 r where tx: "transaction ?body w = (w1, r)" by (cases "transaction ?body w")
  have "orders w1 \<in> {orders w, update_where (\<lambda>x. o_id x = wh_orderId dto) (paid_at now) (orders w)}"
    using fst_transaction_cases [of ?body w] body tx by (metis fst_conv insertI1)
  then show ?thesis
    using tx by (cases r) (simp_all add: handlePaymentSuccess_def Let_def)
qed

lemma forE_orders_Inr:
  assumes "forE xs f w = (w', Inr ())" and "\<And>x w. orders (fst (f x w)) = orders w"
  shows "orders w' = orders w"
  using forE_orders [of f xs w, OF assms(2)] assms(1) by simp

lemma handlePaymentSuccess_orders_Inr:
  assumes "handlePaymentSuccess C env now dto ord w = (w', Inr ())"
  shows "orders w' = update_where (\<lambda>x. o_id x = wh_orderId dto) (paid_at now) (orders w)"
proof -
  let ?g = "case findLeastLoadedGate (o_concertId ord) w of Some g \<Rightarrow> g_name g | None \<Rightarrow> []"
  let ?ts = "map (ticket_of_plan now ord) (plan_items C env ?g (o_items ord) 0)"
  let ?u = "upsert_payment now (te_paymentId env) PAY_SUCCESS (\<lambda>_. PAY_SUCCESS) dto w"
  obtain w1 where tx: "bindE (update_order (wh_orderId dto) (paid_at now) ?u) (\<lambda>w1 _.
      bindE (forE ?ts create_ticket w1) (\<lambda>w2 _.
      bindE (forE (item_pairs ord) sell_type w2) (\<lambda>w3 _.
      forE (item_pairs ord) (sell_counter (o_userId ord)) w3))) = (w1, Inr ())"
    and w1: "orders w' = orders w1"
    using assms unfolding handlePaymentSuccess_def Let_def
    by (elim bindE_eq_InrE) (auto dest!: transaction_orders_cases)
  obtain a b c where a: "update_order (wh_orderId dto) (paid_at now) ?u = (a, Inr ())"
    and b: "forE ?ts create_ticket a = (b, Inr ())"
    and c: "forE (item_pairs ord) sell_type b = (c, Inr ())"
    and d: "forE (item_pairs ord) (sell_counter (o_userId ord)) c = (w1, Inr ())"
    using tx by (elim bindE_eq_InrE) auto
  have "orders w1 = orders a"
    using forE_orders_Inr [OF b] forE_orders_Inr [OF c] forE_orders_Inr [OF d] by simp
  moreover have "orders a = update_where (\<lambda>x. o_id x = wh_orderId dto) (paid_at now) (orders w)"
    using a by (auto simp: update_order_def split: option.splits)
  ultimately show ?thesis using w1 by simp
qed

lemma handlePaymentFailed_orders:
  "orders (handlePaymentFailed now i ord w) \<in>
     {orders w, update_where (\<lambda>x. o_id x = i) (failed_at now) (orders w)}"
  by (auto simp: handlePaymentFailed_def failed_at_def [abs_def] Let_def split: option.splits)

lemma webhook_orders:
  "orders (fst (handleMockWebhook C secret env now dto w)) = orders w \<or>
   (\<exists>ord f. find_order (wh_orderId dto) w = Some ord \<and> o_status ord = PENDING_PAYMENT \<and>
      f \<in> {paid_at now, failed_at now} \<and>
      orders (fst (handleMockWebhook C secret env now dto w)) =
        update_where (\<lambda>x. o_id x = wh_orderId dto) f (orders w))"
proof (cases "\<exists>ord. find_order (wh_orderId dto) w = Some ord \<and> o_status ord = PENDING_PAYMENT")
  case True
  then obtain ord where ord: "find_order (wh_orderId dto) w = Some ord" "o_status ord = PENDING_PAYMENT"
    by blast
  obtain w' r where success: "handlePaymentSuccess C env now dto ord w = (w', r)"
    by (cases "handlePaymentSuccess C env now dto ord w")
  have w': "orders w' \<in> {orders w, update_where (\<lambda>x. o_id x = wh_orderId dto) (paid_at now) (orders w)}"
    using handlePaymentSuccess_orders [of C env now dto ord w] success by simp
  have failed: "orders (handlePaymentFailed now (wh_orderId dto) ord w) \<in>
      {orders w, update_where (\<lambda>x. o_id x = wh_orderId dto) (failed_at now) (orders w)}"
    by (rule handlePaymentFailed_orders)
  show ?thesis
    using ord w' failed success
    by (cases r; cases "wh_result dto")
      (auto simp: handleMockWebhook_def handlePaymentTimeout_def)
next
  case False
  then show ?thesis
    by (auto simp: handleMockWebhook_def recordLateWebhook_def
        split: option.splits)
qed

lemma webhook_progress: "orders_progress w (fst (handleMockWebhook C secret env now dto w))"
  using webhook_orders [of C secret env now dto w]
proof
  assume "orders (fst (handleMockWebhook C secret env now dto w)) = orders w"
  then show ?thesis by (rule orders_progress_same)
next
  assume "\<exists>ord f. find_order (wh_orderId dto) w = Some ord \<and> o_status ord = PENDING_PAYMENT \<and>
      f \<in> {paid_at now, failed_at now} \<and>
      orders (fst (handleMockWebhook C secret env now dto w)) =
        update_where (\<lambda>x. o_id x = wh_orderId dto) f (orders w)"
  then show ?thesis
    by (auto intro!: orders_progress_update simp: paid_at_def failed_at_def)
qed


section \<open>Properties\<close>

definition demo_crypto :: crypto where
  "demo_crypto = \<lparr>sha256 = (\<lambda>x. ''h'' @ x), hmac256 = (\<lambda>k x. k @ x)\<rparr>"

definition demo_ticket_env :: "string \<Rightarrow> ticket_env" where
  "demo_ticket_env pre =
     \<lparr>te_ticketId = (\<lambda>n. pre @ show_nat n), te_rawToken = (\<lambda>n. ''r'' @ pre @ show_nat n),
      te_qrSecret = ''k'', te_paymentId = ''p2''\<rparr>"

definition demo_webhook :: "MockPaymentResult \<Rightarrow> mock_webhook_dto" where
  "demo_webhook res =
     \<lparr>wh_orderId = ''o1'', wh_providerTransactionId = ''tx'', wh_result = res, wh_amount = 200,
      wh_signature = ''s'' @ ''o1:tx:'' @ show_result res @ '':200''\<rparr>"

lemma demo_webhook_signed [simp]:
  "verifySignature demo_crypto ''s'' (webhook_payload (demo_webhook res)) (wh_signature (demo_webhook res))"
  by (cases res)
    (simp_all add: verifySignature_iff demo_webhook_def demo_crypto_def webhook_payload_def show_int_def show_nat.simps)

lemma demo_webhook_simps [simp]:
  "wh_orderId (demo_webhook res) = ''o1''" "wh_amount (demo_webhook res) = 200"
  "total_qty (o_items demo_order) = 2" "wh_result (demo_webhook res) = res"
  by (simp_all add: demo_webhook_def total_qty_def demo_order_def)

lemma demo_fresh [simp]: "fresh_tickets demo_crypto (demo_ticket_env pre) 2 []"
  by (simp add: fresh_tickets_def demo_ticket_env_def demo_crypto_def
      show_nat.simps upt_rec numeral_2_eq_2)

text \<open>
  C7: A signed SUCCESS webhook for a pending order issues one ticket per unit of every item:
  all of them at the gate of the concert with the fewest tickets, each with the SHA-256 of
  its raw token and the HMAC of its identifier, hash and gate; the order becomes PAID, the
  reserved quantities turn into sold ones, the reservation key goes, the stock stays as it
  is, and the confirmation e-mail is queued.
\<close>

theorem payment_success_issues_tickets:
  assumes "verifySignature C secret (webhook_payload dto) (wh_signature dto)"
    and "find_order (wh_orderId dto) w = Some ord" and "o_totalAmountInVnd ord = wh_amount dto"
    and "o_status ord = PENDING_PAYMENT" and "wh_result dto = RESULT_SUCCESS"
    and "types_exist (item_pairs ord) w"
    and "fresh_tickets C env (total_qty (o_items ord)) (tickets w)"
  shows "\<exists>w' new. handleMockWebhook C secret env now dto w =
      (w', Inr \<lparr>wr_orderId = o_id ord, wr_status = Some PAID\<rparr>) \<and>
    find_order (wh_orderId dto) w' = Some (paid_at now ord) \<and>
    tickets w' = tickets w @ new \<and> length new = total_qty (o_items ord) \<and>
    (\<forall>t \<in> set new. t_orderId t = o_id ord \<and> t_userId t = o_userId ord \<and> t_status t = ISSUED \<and>
       t_gateId t = Option.bind (findLeastLoadedGate (o_concertId ord) w) (\<lambda>g. gate_or_null (g_name g)) \<and>
       t_qrTokenHash t = sha256 C (t_qrRawToken t) \<and>
       t_qrSignature t = Some (recomputeSignature C (t_id t) (t_qrTokenHash t)
         (case t_gateId t of Some g \<Rightarrow> g | None \<Rightarrow> []) (te_qrSecret env))) \<and>
    ticketTypes w' = sell_types (item_pairs ord) (ticketTypes w) \<and>
    jobs w' = jobs w @ [OrderPaidEmailJob (wh_orderId dto) (o_userId ord)] \<and>
    redisdb w' (REDIS_KEY_RESERVATION (wh_orderId dto)) = None \<and>
    (\<forall>tt. redisdb w' (REDIS_KEY_STOCK tt) = redisdb w (REDIS_KEY_STOCK tt))"
proof -
  obtain w' where run: "handlePaymentSuccess C env now dto ord w = (w', Inr ())"
    and eff: "orders w' = update_where (\<lambda>x. o_id x = wh_orderId dto) (paid_at now) (orders w)"
      "tickets w' = tickets w @ issued_tickets C env now ord w"
      "ticketTypes w' = sell_types (item_pairs ord) (ticketTypes w)"
      "jobs w' = jobs w @ [OrderPaidEmailJob (wh_orderId dto) (o_userId ord)]"
      "redisdb w' (REDIS_KEY_RESERVATION (wh_orderId dto)) = None"
      "\<forall>tt. redisdb w' (REDIS_KEY_STOCK tt) = redisdb w (REDIS_KEY_STOCK tt)"
    using handlePaymentSuccess_effect [of dto w ord C env now] assms(2,6,7) by auto
  let ?g = "case findLeastLoadedGate (o_concertId ord) w of Some g \<Rightarrow> g_name g | None \<Rightarrow> []"
  have ticket: "t_orderId t = o_id ord \<and> t_userId t = o_userId ord \<and> t_status t = ISSUED \<and>
      t_gateId t = gate_or_null ?g \<and> t_qrTokenHash t = sha256 C (t_qrRawToken t) \<and>
      t_qrSignature t = Some (recomputeSignature C (t_id t) (t_qrTokenHash t)
         (case t_gateId t of Some g \<Rightarrow> g | None \<Rightarrow> []) (te_qrSecret env))"
    if "t \<in> set (issued_tickets C env now ord w)" for t
    using that plan_items_token [of _ C env ?g "o_items ord" 0]
    by (fastforce simp: issued_tickets_def ticket_of_plan_def gate_or_null_def)
  have gate: "gate_or_null ?g =
      Option.bind (findLeastLoadedGate (o_concertId ord) w) (\<lambda>g. gate_or_null (g_name g))"
    by (simp add: gate_or_null_def split: option.splits)
  have "length (issued_tickets C env now ord w) = total_qty (o_items ord)"
    by (simp add: issued_tickets_def)
  moreover have "find_order (wh_orderId dto) w' = Some (paid_at now ord)"
    using assms(2) eff(1) find_order_id [OF assms(2)]
    by (simp add: find_order_def find_row_update_where paid_at_def)
  ultimately show ?thesis
    using ticket gate eff run by (simp add: webhook_signed [OF assms(1-5)])
qed

theorem payment_success_issues_tickets_witness:
  "\<exists>w' new. handleMockWebhook demo_crypto ''s'' (demo_ticket_env ''t'') 1000 (demo_webhook RESULT_SUCCESS) demo_pending
     = (w', Inr \<lparr>wr_orderId = ''o1'', wr_status = Some PAID\<rparr>) \<and> tickets w' = new \<and> length new = 2"
  using payment_success_issues_tickets [of demo_crypto "''s''" "demo_webhook RESULT_SUCCESS" demo_pending
      demo_order "demo_ticket_env ''t''" 1000]
  by auto

text \<open>
  A webhook is processed at most once: whatever it carries, once the order is PAID a
  further webhook for it, with any transaction identifier, is acknowledged and changes
  nothing, so a replayed SUCCESS issues no second set of tickets.
\<close>

theorem webhook_replay_is_noop:
  assumes "handleMockWebhook C secret env now dto w = (w', Inr \<lparr>wr_orderId = i, wr_status = Some PAID\<rparr>)"
    and "verifySignature C secret (webhook_payload dto') (wh_signature dto')"
    and "wh_orderId dto' = wh_orderId dto" and "wh_amount dto' = wh_amount dto"
  shows "handleMockWebhook C secret env' now' dto' w' = (w', Inr \<lparr>wr_orderId = i, wr_status = Some PAID\<rparr>)"
proof -
  obtain ord where ord: "find_order (wh_orderId dto) w = Some ord" "o_totalAmountInVnd ord = wh_amount dto"
      "i = o_id ord"
    using assms(1) by (auto simp: handleMockWebhook_def bindE_def split: option.splits if_splits
        MockPaymentResult.splits prod.splits sum.splits)
  have "\<exists>ord'. find_order (wh_orderId dto) w' = Some ord' \<and> o_status ord' = PAID \<and>
      o_totalAmountInVnd ord' = o_totalAmountInVnd ord \<and> o_id ord' = o_id ord"
  proof (cases "o_status ord = PAID")
    case True
    then have "w' = w" using assms(1) ord by (simp add: handleMockWebhook_def split: if_splits)
    then show ?thesis using ord True by simp
  next
    case False
    have success: "o_status ord = PENDING_PAYMENT"
        "handlePaymentSuccess C env now dto ord w = (w', Inr ())"
      using assms(1) ord False
      by (auto simp: handleMockWebhook_def bindE_def split: if_splits MockPaymentResult.splits
          prod.splits sum.splits)
    have "orders w' = update_where (\<lambda>x. o_id x = wh_orderId dto) (paid_at now) (orders w)"
      using handlePaymentSuccess_orders_Inr [OF success(2)] .
    then show ?thesis
      using ord find_order_id [OF ord(1)]
      by (simp add: find_order_def find_row_update_where paid_at_def)
  qed
  then show ?thesis
    using assms(2-4) ord by (auto simp: handleMockWebhook_def)
qed


theorem webhook_replay_is_noop_witness:
  "\<exists>w'. handleMockWebhook demo_crypto ''s'' (demo_ticket_env ''t'') 1000 (demo_webhook RESULT_SUCCESS) demo_pending
       = (w', Inr \<lparr>wr_orderId = ''o1'', wr_status = Some PAID\<rparr>) \<and>
     handleMockWebhook demo_crypto ''s'' (demo_ticket_env ''u'') 2000 (demo_webhook RESULT_SUCCESS) w'
       = (w', Inr \<lparr>wr_orderId = ''o1'', wr_status = Some PAID\<rparr>)"
proof -
  let ?r = "handleMockWebhook demo_crypto ''s'' (demo_ticket_env ''t'') 1000 (demo_webhook RESULT_SUCCESS) demo_pending"
  have "case snd ?r of Inl e \<Rightarrow> False | Inr res \<Rightarrow> res = \<lparr>wr_orderId = ''o1'', wr_status = Some PAID\<rparr>"
    by code_simp
  then have first: "?r = (fst ?r, Inr \<lparr>wr_orderId = ''o1'', wr_status = Some PAID\<rparr>)"
    by (cases ?r) (auto split: sum.splits)
  have "verifySignature demo_crypto ''s'' (webhook_payload (demo_webhook RESULT_SUCCESS))
      (wh_signature (demo_webhook RESULT_SUCCESS))"
    by code_simp
  from webhook_replay_is_noop [OF first this refl refl] first show ?thesis by blast
qed

text \<open>
  A webhook that is not signed with the shared secret, that names an unknown order, or
  whose amount is not the amount of the order is refused, and nothing changes.
\<close>

theorem webhook_forgery_rejected:
  assumes "wh_signature dto \<noteq> hmac256 C secret (webhook_payload dto) \<or>
    (\<forall>ord. find_order (wh_orderId dto) w = Some ord \<longrightarrow> o_totalAmountInVnd ord \<noteq> wh_amount dto)"
  shows "\<exists>e. handleMockWebhook C secret env now dto w = (w, Inl e)"
  using assms by (cases "find_order (wh_orderId dto) w")
    (auto simp: handleMockWebhook_def verifySignature_iff)

theorem webhook_forgery_rejected_witness:
  "\<exists>e. handleMockWebhook demo_crypto ''s'' (demo_ticket_env ''t'') 1000
     ((demo_webhook RESULT_SUCCESS)\<lparr>wh_amount := 1\<rparr>) demo_pending = (demo_pending, Inl e)"
  by (rule webhook_forgery_rejected) simp

text \<open>
  A webhook that arrives after the order has expired, been cancelled, failed or been
  refunded issues no ticket and moves no inventory: at most a payment row is recorded.
\<close>

theorem late_webhook_issues_nothing:
  assumes "find_order (wh_orderId dto) w = Some ord" and "o_status ord \<noteq> PENDING_PAYMENT"
  shows "\<exists>ps r. handleMockWebhook C secret env now dto w = (w\<lparr>payments := ps\<rparr>, r) \<and>
     (o_status ord \<noteq> EXPIRED \<longrightarrow> ps = payments w)"
proof -
  have same: "\<exists>ps. w = w\<lparr>payments := ps\<rparr>" by (rule exI [of _ "payments w"]) simp
  obtain ps where "recordLateWebhook now (te_paymentId env) dto w = w\<lparr>payments := ps\<rparr>"
    using upsert_payment_payments_only unfolding recordLateWebhook_def by blast
  then show ?thesis
    using assms same by (auto simp: handleMockWebhook_def)
qed

theorem late_webhook_issues_nothing_witness:
  "\<exists>ps r. handleMockWebhook demo_crypto ''s'' (demo_ticket_env ''t'') 1000 (demo_webhook RESULT_SUCCESS)
     (demo_pending\<lparr>orders := [demo_order\<lparr>o_status := EXPIRED\<rparr>]\<rparr>) =
     (demo_pending\<lparr>orders := [demo_order\<lparr>o_status := EXPIRED\<rparr>], payments := ps\<rparr>, r)"
  using late_webhook_issues_nothing [of "demo_webhook RESULT_SUCCESS"
      "demo_pending\<lparr>orders := [demo_order\<lparr>o_status := EXPIRED\<rparr>]\<rparr>" "demo_order\<lparr>o_status := EXPIRED\<rparr>"
      demo_crypto "''s''" "demo_ticket_env ''t''" 1000]
  by (auto simp: find_order_def)

text \<open>
  A FAILED webhook for a pending order closes it as PAYMENT_FAILED and gives its reserved
  quantities back, where the reserved counts cover them; no ticket is issued.
\<close>

theorem payment_failure_releases_inventory:
  assumes "verifySignature C secret (webhook_payload dto) (wh_signature dto)"
    and "find_order (wh_orderId dto) w = Some ord" and "o_totalAmountInVnd ord = wh_amount dto"
    and "o_status ord = PENDING_PAYMENT" and "wh_result dto = RESULT_FAILED"
    and "\<And>t. t \<in> set (ticketTypes w) \<Longrightarrow> pairs_qty (tt_id t) (item_pairs ord) \<le> tt_reservedQty t"
    and "\<And>p. p \<in> set (item_pairs ord) \<Longrightarrow> 0 \<le> snd p"
  shows "\<exists>w'. handleMockWebhook C secret env now dto w =
      (w', Inr \<lparr>wr_orderId = o_id ord, wr_status = Some PAYMENT_FAILED\<rparr>) \<and>
    find_order (wh_orderId dto) w' = Some (failed_at now ord) \<and>
    ticketTypes w' = dec_types (item_pairs ord) (ticketTypes w) \<and> tickets w' = tickets w"
proof -
  let ?w' = "handlePaymentFailed now (wh_orderId dto) ord w"
  have eff: "orders ?w' = update_where (\<lambda>x. o_id x = wh_orderId dto) (failed_at now) (orders w)"
    "ticketTypes ?w' = dec_types (item_pairs ord) (ticketTypes w)" "tickets ?w' = tickets w"
    using handlePaymentFailed_effect [OF assms(2,4,6,7)] by auto
  have "find_order (wh_orderId dto) ?w' = Some (failed_at now ord)"
    using assms(2) eff(1) find_order_id [OF assms(2)]
    by (simp add: find_order_def find_row_update_where failed_at_def)
  then show ?thesis using assms(1-5) eff by (simp add: handleMockWebhook_def)
qed

theorem payment_failure_releases_inventory_witness:
  "\<exists>w'. handleMockWebhook demo_crypto ''s'' (demo_ticket_env ''t'') 1000 (demo_webhook RESULT_FAILED) demo_pending
     = (w', Inr \<lparr>wr_orderId = ''o1'', wr_status = Some PAYMENT_FAILED\<rparr>) \<and> tickets w' = []"
  using payment_failure_releases_inventory [of demo_crypto "''s''" "demo_webhook RESULT_FAILED" demo_pending
      demo_order "demo_ticket_env ''t''" 1000]
  by (auto simp: demo_type_def)

text \<open>
  C14: Two SUCCESS webhooks that both read the order while it was pending are both carried
  out, since the transaction does not look at the status again: the order gets two full
  sets of tickets and its quantities are sold twice.
\<close>

theorem concurrent_success_webhooks_double_issue:
  assumes "find_order (wh_orderId dto) w \<noteq> None" and "types_exist (item_pairs ord) w"
    and "fresh_tickets C env (total_qty (o_items ord)) (tickets w)"
    and "fresh_tickets C env' (total_qty (o_items ord)) (tickets w @ issued_tickets C env now ord w)"
  shows "\<exists>w1 w2. handlePaymentSuccess C env now dto ord w = (w1, Inr ()) \<and>
    handlePaymentSuccess C env' now' dto ord w1 = (w2, Inr ()) \<and>
    length (tickets w2) = length (tickets w) + 2 * total_qty (o_items ord) \<and>
    ticketTypes w2 = sell_types (item_pairs ord) (sell_types (item_pairs ord) (ticketTypes w))"
proof -
  obtain w1 where w1: "handlePaymentSuccess C env now dto ord w = (w1, Inr ())"
    "orders w1 = update_where (\<lambda>x. o_id x = wh_orderId dto) (paid_at now) (orders w)"
    "tickets w1 = tickets w @ issued_tickets C env now ord w"
    "ticketTypes w1 = sell_types (item_pairs ord) (ticketTypes w)"
    using handlePaymentSuccess_effect [OF assms(1-3)] by blast
  have len: "length (issued_tickets C e n ord v) = total_qty (o_items ord)" for e n v
    by (simp add: issued_tickets_def)
  have fresh: "fresh_tickets C env' (total_qty (o_items ord)) (tickets w1)"
    using assms(4) w1(3) by simp
  have "types_exist (item_pairs ord) w1"
    using assms(2) w1(4) by (simp add: types_exist_def find_ticket_type_def sell_types_def find_row_map)
  moreover have "find_order (wh_orderId dto) w1 \<noteq> None"
    using assms(1) w1(2) by (simp add: find_order_def find_row_update_where paid_at_def)
  ultimately obtain w2 where "handlePaymentSuccess C env' now' dto ord w1 = (w2, Inr ())"
    "tickets w2 = tickets w1 @ issued_tickets C env' now' ord w1"
    "ticketTypes w2 = sell_types (item_pairs ord) (ticketTypes w1)"
    using handlePaymentSuccess_effect [OF _ _ fresh, of dto now'] by blast
  with w1 len show ?thesis by auto
qed

theorem concurrent_success_webhooks_double_issue_witness:
  "\<exists>w1 w2. handlePaymentSuccess demo_crypto (demo_ticket_env ''t'') 1000 (demo_webhook RESULT_SUCCESS) demo_order demo_pending = (w1, Inr ()) \<and>
    handlePaymentSuccess demo_crypto (demo_ticket_env ''u'') 1001 (demo_webhook RESULT_SUCCESS) demo_order w1 = (w2, Inr ()) \<and>
    length (tickets w2) = 4"
proof -
  let ?ts = "issued_tickets demo_crypto (demo_ticket_env ''t'') 1000 demo_order demo_pending"
  have "\<exists>j. t_id t = te_ticketId (demo_ticket_env ''t'') j \<and>
          t_qrTokenHash t = sha256 demo_crypto (te_rawToken (demo_ticket_env ''t'') j)"
    if "t \<in> set ?ts" for t
    using that plan_items_token by (fastforce simp: issued_tickets_def ticket_of_plan_def)
  then have "fresh_tickets demo_crypto (demo_ticket_env ''u'') 2 ?ts"
    using demo_fresh [of "''u''"]
    by (fastforce simp: fresh_tickets_def demo_ticket_env_def demo_crypto_def)
  with concurrent_success_webhooks_double_issue [of "demo_webhook RESULT_SUCCESS" demo_pending demo_order
      demo_crypto "demo_ticket_env ''t''" "demo_ticket_env ''u''" 1000 1001]
  obtain w1 w2 where "handlePaymentSuccess demo_crypto (demo_ticket_env ''t'') 1000
      (demo_webhook RESULT_SUCCESS) demo_order demo_pending = (w1, Inr ())"
    "handlePaymentSuccess demo_crypto (demo_ticket_env ''u'') 1001
      (demo_webhook RESULT_SUCCESS) demo_order w1 = (w2, Inr ())" "length (tickets w2) = 4"
    by auto
  then show ?thesis by blast
qed

text \<open>
  New tickets go to a gate of the concert with the fewest issued or checked-in tickets;
  there is no gate exactly when the concert has none.
\<close>

theorem least_loaded_gate_is_minimal:
  "(case findLeastLoadedGate c w of
      None \<Rightarrow> gates_of c w = []
    | Some g \<Rightarrow> g \<in> set (gates_of c w) \<and>
        (\<forall>h \<in> set (gates_of c w). gate_count c (g_name g) w \<le> gate_count c (g_name h) w))"
proof (cases "findLeastLoadedGate c w")
  case None
  then show ?thesis by (simp add: findLeastLoadedGate_def split: list.splits)
next
  case (Some g)
  then show ?thesis using findLeastLoadedGate_min [OF Some] by simp
qed

definition demo_gates :: world where
  "demo_gates = demo_pending\<lparr>gates :=
     [\<lparr>g_id = ''g1'', g_name = ''A'', g_concertId = ''c1'', g_createdAt = 0\<rparr>,
      \<lparr>g_id = ''g2'', g_name = ''B'', g_concertId = ''c1'', g_createdAt = 0\<rparr>]\<rparr>"

theorem least_loaded_gate_is_minimal_witness:
  "findLeastLoadedGate ''c1'' demo_gates \<noteq> None"
  using least_loaded_gate_is_minimal [of "''c1''" demo_gates]
  by (auto simp: gates_of_def demo_gates_def split: option.splits)


end
