(* ===== verification/Payment_Cron.thy ===== *)
theory Payment_Cron
  imports Payment_Properties
begin

text \<open>
  \<open>payment-cron.service.ts\<close>: the job that runs every minute over at most 50 pending orders
  whose expiry has passed, asks the gateway for each and marks it paid, failed or expired.

  \<^item> The batch is read once, with its items; each order is then handled in turn.  The
    identifiers of the payment rows come from \<open>newId\<close>, indexed by the position in the batch.
\<close>

definition CRON_BATCH :: nat where
  "CRON_BATCH = 50"

definition is_stuck :: "time \<Rightarrow> order \<Rightarrow> bool" where
  "is_stuck now ord \<longleftrightarrow>
     o_status ord = PENDING_PAYMENT \<and>
     (case o_expiresAt ord of None \<Rightarrow> False | Some e \<Rightarrow> e < now)"

definition cron_payment :: "id \<Rightarrow> id \<Rightarrow> PaymentStatus \<Rightarrow> int \<Rightarrow> string \<Rightarrow> time \<Rightarrow> payment" where
  "cron_payment newId orderId st amount res now =
     \<lparr>p_id = newId, p_orderId = orderId, p_provider = MOCK, p_status = st, p_amount = amount,
      p_providerTransactionId = None, p_paymentUrl = None, p_rawWebhook = Some (RawCron res),
      p_receivedAt = Some now\<rparr>"

definition markOrderPaidFromCron :: "time \<Rightarrow> id \<Rightarrow> id \<Rightarrow> int \<Rightarrow> world \<Rightarrow> world" where
  "markOrderPaidFromCron now newId orderId amount w =
     (let w1 =
        (case find_order orderId w of
           None \<Rightarrow> w
         | Some latest \<Rightarrow>
             if o_status latest \<noteq> PENDING_PAYMENT then w
             else w\<lparr>payments := payments w @ [cron_payment newId orderId PAY_SUCCESS amount ''SUCCESS'' now],
                    orders := update_where (\<lambda>x. o_id x = orderId) (paid_at now) (orders w)\<rparr>)
      in w1\<lparr>jobs := jobs w1 @ [IssueTicketJob orderId]\<rparr>)"

text \<open>\<open>failed\<close>: the gateway answered FAILED (otherwise PENDING).\<close>

definition cron_closed :: "bool \<Rightarrow> time \<Rightarrow> order \<Rightarrow> order" where
  "cron_closed failed now x =
     x\<lparr>o_status := (if failed then PAYMENT_FAILED else EXPIRED), o_inventoryReleasedAt := Some now,
       o_releaseReason := Some (if failed then ''CRON_VERIFY_PAYMENT_FAILED'' else ''PAYMENT_VERIFY_TIMEOUT'')\<rparr>"

definition expireOrderAndReleaseInventory ::
  "time \<Rightarrow> id \<Rightarrow> order \<Rightarrow> bool \<Rightarrow> world \<Rightarrow> world" where
  "expireOrderAndReleaseInventory now newId ord failed w =
     (let w1 =
        (case find_order (o_id ord) w of
           None \<Rightarrow> w
         | Some latest \<Rightarrow>
             if o_status latest \<noteq> PENDING_PAYMENT then w
             else
               fold (release_guarded (o_userId ord)) (item_pairs ord)
                 (w\<lparr>orders := update_where (\<lambda>x. o_id x = o_id ord) (cron_closed failed now) (orders w),
                    payments := payments w @
                      [cron_payment newId (o_id ord) (if failed then PAY_FAILED else PAY_TIMEOUT)
                         (o_totalAmountInVnd ord) (if failed then ''FAILED'' else ''PENDING'') now]\<rparr>));
          w2 = release_items now (o_userId ord) (o_id ord) (item_pairs ord) w1
      in refresh_all now (o_concertId ord) (map fst (item_pairs ord)) w2)"

definition cron_handle ::
  "MockVerifyResult option \<Rightarrow> time \<Rightarrow> id \<Rightarrow> order \<Rightarrow> world \<Rightarrow> world" where
  "cron_handle configured now newId ord w =
     (case verifyTransaction configured (o_id ord) of
        VERIFY_SUCCESS \<Rightarrow> markOrderPaidFromCron now newId (o_id ord) (o_totalAmountInVnd ord) w
      | VERIFY_FAILED \<Rightarrow> expireOrderAndReleaseInventory now newId ord True w
      | VERIFY_PENDING \<Rightarrow> expireOrderAndReleaseInventory now newId ord False w)"

fun cron_loop ::
  "MockVerifyResult option \<Rightarrow> time \<Rightarrow> (nat \<Rightarrow> id) \<Rightarrow> nat \<Rightarrow> order list \<Rightarrow> world \<Rightarrow> world" where
  "cron_loop configured now newId n [] w = w"
| "cron_loop configured now newId n (ord # ords) w =
     cron_loop configured now newId (Suc n) ords (cron_handle configured now (newId n) ord w)"

definition verifyStuckPendingPayments ::
  "MockVerifyResult option \<Rightarrow> time \<Rightarrow> (nat \<Rightarrow> id) \<Rightarrow> world \<Rightarrow> world" where
  "verifyStuckPendingPayments configured now newId w =
     cron_loop configured now newId 0 (take CRON_BATCH (filter (is_stuck now) (orders w))) w"

section \<open>One order\<close>

text \<open>How the job leaves an order it handles, by the answer of the gateway.\<close>

definition cron_outcome :: "MockVerifyResult option \<Rightarrow> time \<Rightarrow> order \<Rightarrow> order" where
  "cron_outcome configured now x =
     (case verifyTransaction configured (o_id x) of
        VERIFY_SUCCESS \<Rightarrow> paid_at now x
      | VERIFY_FAILED \<Rightarrow> cron_closed True now x
      | VERIFY_PENDING \<Rightarrow> cron_closed False now x)"

lemma cron_outcome_simps [simp]:
  "o_id (cron_outcome configured now x) = o_id x"
  "o_status (cron_outcome configured now x) \<noteq> PENDING_PAYMENT"
  by (auto simp: cron_outcome_def paid_at_def cron_closed_def split: MockVerifyResult.splits)

lemma cron_handle_orders:
  assumes "find_order (o_id ord) w = Some latest" and "o_status latest = PENDING_PAYMENT"
  shows "orders (cron_handle configured now newId ord w) =
    update_where (\<lambda>x. o_id x = o_id ord) (cron_outcome configured now) (orders w)"
proof -
  have "update_where (\<lambda>x. o_id x = o_id ord) (cron_outcome configured now) (orders w) =
      update_where (\<lambda>x. o_id x = o_id ord)
        (case verifyTransaction configured (o_id ord) of
           VERIFY_SUCCESS \<Rightarrow> paid_at now | VERIFY_FAILED \<Rightarrow> cron_closed True now
         | VERIFY_PENDING \<Rightarrow> cron_closed False now) (orders w)"
    by (auto simp: update_where_def cron_outcome_def split: MockVerifyResult.splits)
  then show ?thesis
    using assms
    by (auto simp: cron_handle_def markOrderPaidFromCron_def expireOrderAndReleaseInventory_def Let_def
        split: MockVerifyResult.splits)
qed

lemma cron_loop_orders:
  assumes "unique_key o_id (orders w)" and "distinct (map o_id ords)"
    and "\<And>ord. ord \<in> set ords \<Longrightarrow> find_order (o_id ord) w = Some ord \<and> o_status ord = PENDING_PAYMENT"
  shows "orders (cron_loop configured now newId n ords w) =
    update_where (\<lambda>x. o_id x \<in> o_id ` set ords) (cron_outcome configured now) (orders w)"
  using assms
proof (induction ords arbitrary: w n)
  case Nil
  then show ?case by (simp add: update_where_None)
next
  case (Cons ord ords)
  let ?w = "cron_handle configured now (newId n) ord w"
  let ?f = "cron_outcome configured now"
  have eq: "orders ?w = update_where (\<lambda>x. o_id x = o_id ord) ?f (orders w)"
    using cron_handle_orders [of ord w ord] Cons.prems(3) by simp
  have "find_order (o_id x) ?w = Some x \<and> o_status x = PENDING_PAYMENT" if x: "x \<in> set ords" for x
  proof -
    have "o_id x \<noteq> o_id ord" using Cons.prems(2) x by (auto simp: rev_image_eqI)
    then show ?thesis
      using Cons.prems(3) [of x] x eq
      by (auto simp: find_order_def find_row_update_where dest: find_row_SomeD)
  qed
  then have "orders (cron_loop configured now newId (Suc n) ords ?w) =
      update_where (\<lambda>x. o_id x \<in> o_id ` set ords) ?f (orders ?w)"
    using Cons.prems(1,2) eq by (intro Cons.IH) auto
  moreover have "update_where (\<lambda>x. o_id x \<in> o_id ` set ords) ?f
        (update_where (\<lambda>x. o_id x = o_id ord) ?f (orders w)) =
      update_where (\<lambda>x. o_id x \<in> o_id ` set (ord # ords)) ?f (orders w)"
    using Cons.prems(2) by (auto simp: update_where_def)
  ultimately show ?case using eq by simp
qed

lemma stuck_batch:
  assumes "unique_key o_id (orders w)" and "ord \<in> set (take k (filter (is_stuck now) (orders w)))"
  shows "find_order (o_id ord) w = Some ord \<and> o_status ord = PENDING_PAYMENT \<and> is_stuck now ord"
  using assms find_row_unique [OF assms(1), of ord] set_take_subset [of k "filter (is_stuck now) (orders w)"]
  by (auto simp: find_order_def is_stuck_def)

lemma cron_orders:
  assumes "unique_key o_id (orders w)"
  shows "orders (verifyStuckPendingPayments configured now newId w) =
    update_where (\<lambda>x. o_id x \<in> o_id ` set (take CRON_BATCH (filter (is_stuck now) (orders w))))
      (cron_outcome configured now) (orders w)"
proof -
  have "distinct (map o_id (filter (is_stuck now) (orders w)))"
    using assms by (simp add: unique_key_def distinct_map_filter)
  then have "distinct (map o_id (take CRON_BATCH (filter (is_stuck now) (orders w))))"
    using distinct_take by (simp flip: take_map)
  then show ?thesis
    unfolding verifyStuckPendingPayments_def
  proof (rule cron_loop_orders [OF assms])
    fix ord
    assume "ord \<in> set (take CRON_BATCH (filter (is_stuck now) (orders w)))"
    from stuck_batch [OF assms this]
    show "find_order (o_id ord) w = Some ord \<and> o_status ord = PENDING_PAYMENT" by blast
  qed
qed

section \<open>Properties\<close>

text \<open>
  One run of the job settles a batch: every order that is not pending or not past its
  expiry is left as it is, a settled order becomes PAID, PAYMENT_FAILED or EXPIRED as the
  gateway answers, at most 50 orders change, and when no more than 50 were overdue none is
  left overdue.
\<close>

theorem cron_settles_overdue_orders:
  assumes "unique_key o_id (orders w)"
    and "w' = verifyStuckPendingPayments configured now newId w"
  shows "(\<forall>i ord. find_order i w = Some ord \<longrightarrow>
             find_order i w' = Some ord \<or>
             is_stuck now ord \<and> find_order i w' = Some (cron_outcome configured now ord)) \<and>
         card {i. find_order i w' \<noteq> find_order i w} \<le> CRON_BATCH \<and>
         (length (filter (is_stuck now) (orders w)) \<le> CRON_BATCH \<longrightarrow>
            filter (is_stuck now) (orders w') = [])"
proof -
  let ?batch = "take CRON_BATCH (filter (is_stuck now) (orders w))"
  let ?f = "cron_outcome configured now"
  have orders: "orders w' = update_where (\<lambda>x. o_id x \<in> o_id ` set ?batch) ?f (orders w)"
    using cron_orders [OF assms(1)] assms(2) by simp
  have find: "find_order i w' = map_option (\<lambda>x. if o_id x \<in> o_id ` set ?batch then ?f x else x) (find_order i w)" for i
    using orders by (simp add: find_order_def find_row_update_where)
  have batch: "is_stuck now ord" if "find_order i w = Some ord" "o_id ord \<in> o_id ` set ?batch" for i ord
  proof -
    note mem = that(2)
    obtain x where x: "x \<in> set ?batch" "o_id ord = o_id x" using mem by blast
    from stuck_batch [OF assms(1) x(1)]
    have stuck: "find_order (o_id x) w = Some x" "is_stuck now x" by blast+
    have "o_id x = i" using find_order_id [OF that(1)] x(2) by metis
    then have "x = ord" using stuck(1) that(1) by (metis option.inject)
    with stuck(2) show ?thesis by simp
  qed
  have "card {i. find_order i w' \<noteq> find_order i w} \<le> card (o_id ` set ?batch)"
  proof (rule card_mono)
    show "{i. find_order i w' \<noteq> find_order i w} \<subseteq> o_id ` set ?batch"
    proof
      fix i
      assume "i \<in> {i. find_order i w' \<noteq> find_order i w}"
      then obtain ord where ord: "find_order i w = Some ord" "o_id ord \<in> o_id ` set ?batch"
        unfolding find by (cases "find_order i w") (auto split: if_splits)
      then show "i \<in> o_id ` set ?batch" using find_order_id [OF ord(1)] by simp
    qed
  qed simp
  also have "\<dots> \<le> card (set ?batch)" by (rule card_image_le) simp
  also have "\<dots> \<le> length ?batch" by (rule card_length)
  also have "\<dots> \<le> CRON_BATCH" by simp
  finally have card: "card {i. find_order i w' \<noteq> find_order i w} \<le> CRON_BATCH" .
  have "filter (is_stuck now) (orders w') = []"
    if "length (filter (is_stuck now) (orders w)) \<le> CRON_BATCH"
  proof -
    have all: "?batch = filter (is_stuck now) (orders w)" using that by simp
    show ?thesis
      unfolding orders all
      by (auto simp: filter_empty_conv set_update_where is_stuck_def)
  qed
  then show ?thesis using find batch card by auto
qed

theorem cron_settles_overdue_orders_witness:
  "find_order ''o1'' (verifyStuckPendingPayments None 900001 (\<lambda>n. ''p'') demo_pending) =
     Some (cron_outcome None 900001 demo_order) \<and>
   filter (is_stuck 900001) (orders (verifyStuckPendingPayments None 900001 (\<lambda>n. ''p'') demo_pending)) = []"
proof -
  have uniq: "unique_key o_id (orders demo_pending)" by (simp add: unique_key_def)
  have stuck: "filter (is_stuck 900001) (orders demo_pending) = [demo_order]"
    by (simp add: is_stuck_def)
  have none: "filter (is_stuck 900001) (orders (verifyStuckPendingPayments None 900001 (\<lambda>n. ''p'') demo_pending)) = []"
    using cron_settles_overdue_orders [OF uniq refl, where now = 900001 and configured = None
        and newId = "\<lambda>n. ''p''"] stuck
    by (simp add: CRON_BATCH_def)
  moreover have "find_order ''o1'' (verifyStuckPendingPayments None 900001 (\<lambda>n. ''p'') demo_pending) \<noteq> Some demo_order"
  proof
    assume "find_order ''o1'' (verifyStuckPendingPayments None 900001 (\<lambda>n. ''p'') demo_pending) = Some demo_order"
    then have "demo_order \<in> set (orders (verifyStuckPendingPayments None 900001 (\<lambda>n. ''p'') demo_pending))"
      by (auto simp: find_order_def dest: find_row_SomeD)
    with none stuck show False by (auto simp: filter_empty_conv is_stuck_def)
  qed
  moreover have "find_order ''o1'' demo_pending = Some demo_order" by (simp add: find_order_def)
  ultimately show ?thesis
    using cron_settles_overdue_orders [where w = demo_pending and now = 900001 and configured = None
        and newId = "\<lambda>n. ''p''", OF uniq refl, THEN conjunct1, THEN spec [of _ "''o1''"],
        THEN spec [of _ demo_order]] by blast
qed

section \<open>The backlog\<close>

text \<open>The overdue orders, and the world after some runs of the job at one time.\<close>

definition backlog :: "time \<Rightarrow> world \<Rightarrow> order list" where
  "backlog now w = filter (is_stuck now) (orders w)"

primrec cron_runs ::
  "nat \<Rightarrow> MockVerifyResult option \<Rightarrow> time \<Rightarrow> (nat \<Rightarrow> id) \<Rightarrow> world \<Rightarrow> world" where
  "cron_runs 0 configured now newId w = w"
| "cron_runs (Suc k) configured now newId w =
     cron_runs k configured now newId (verifyStuckPendingPayments configured now newId w)"

text \<open>Settling a batch that is a prefix of the overdue rows leaves the rest of them.\<close>

lemma filter_settle_batch:
  assumes "unique_key key rows" and "\<And>x. key (f x) = key x" and "\<And>x. \<not> p (f x)"
  shows "filter p (update_where (\<lambda>x. key x \<in> key ` set (take n (filter p rows))) f rows) =
    drop n (filter p rows)"
  using assms(1)
proof (induction rows arbitrary: n)
  case Nil
  then show ?case by (simp add: update_where_def)
next
  case (Cons r rows)
  have uniq: "unique_key key rows" and new: "key r \<notin> key ` set rows"
    using Cons.prems by (simp_all add: unique_key_def)
  have ne: "key x \<noteq> key r" if "x \<in> set rows" for x using new that by (metis image_eqI)
  have away: "key r \<notin> key ` set (take m (filter p rows))" for m
    using new set_take_subset [of m "filter p rows"] by auto
  show ?case
  proof (cases "p r")
    case False
    have "\<not> p (if key r \<in> K then f r else r)" for K using False assms(3) by simp
    then show ?thesis using False Cons.IH [OF uniq] by (simp add: update_where_def)
  next
    case True
    show ?thesis
    proof (cases n)
      case 0
      then show ?thesis using True Cons.IH [OF uniq, of 0] by (simp add: update_where_def)
    next
      case (Suc m)
      have "update_where (\<lambda>x. key x \<in> insert (key r) K) f rows = update_where (\<lambda>x. key x \<in> K) f rows" for K
        unfolding update_where_def by (rule map_cong [OF refl]) (simp add: ne)
      then have rest: "filter p (update_where (\<lambda>x. key x \<in> insert (key r) (key ` set (take m (filter p rows)))) f rows) =
          drop m (filter p rows)"
        using Cons.IH [OF uniq, of m] by (simp only:)
      have "update_where P f (x # xs) = (if P x then f x else x) # update_where P f xs" for P x xs
        by (simp add: update_where_def)
      with rest show ?thesis using True Suc assms(3) by (simp only: filter.simps) simp
    qed
  qed
qed

lemma cron_backlog:
  assumes "unique_key o_id (orders w)"
  shows "backlog now (verifyStuckPendingPayments configured now newId w) = drop CRON_BATCH (backlog now w)"
    and "unique_key o_id (orders (verifyStuckPendingPayments configured now newId w))"
proof -
  have "\<not> is_stuck now (cron_outcome configured now x)" for x by (simp add: is_stuck_def)
  then show "backlog now (verifyStuckPendingPayments configured now newId w) = drop CRON_BATCH (backlog now w)"
    unfolding backlog_def cron_orders [OF assms]
    by (intro filter_settle_batch assms) simp_all
  show "unique_key o_id (orders (verifyStuckPendingPayments configured now newId w))"
    unfolding cron_orders [OF assms] using assms by simp
qed

text \<open>
  C15: Repeated runs of the job settle every overdue order: a run takes the first 50 off the backlog,
  so as many runs as there are batches leave nothing overdue.
\<close>

theorem cron_drains_backlog:
  assumes "unique_key o_id (orders w)"
  shows "backlog now (cron_runs k configured now newId w) = drop (k * CRON_BATCH) (backlog now w) \<and>
    backlog now (cron_runs (length (backlog now w) div CRON_BATCH + 1) configured now newId w) = []"
proof -
  have run: "backlog now (cron_runs k configured now newId w) = drop (k * CRON_BATCH) (backlog now w)" for k
    using assms
  proof (induction k arbitrary: w)
    case 0
    then show ?case by simp
  next
    case (Suc k)
    then show ?case using cron_backlog [OF Suc.prems] by (simp add: add.commute)
  qed
  have "length (backlog now w) \<le> (length (backlog now w) div CRON_BATCH + 1) * CRON_BATCH"
    using div_mult_mod_eq [of "length (backlog now w)" CRON_BATCH]
      mod_less_divisor [of CRON_BATCH "length (backlog now w)"]
    by (simp add: CRON_BATCH_def)
  then have "drop ((length (backlog now w) div CRON_BATCH + 1) * CRON_BATCH) (backlog now w) = []" by simp
  then show ?thesis unfolding run by blast
qed

theorem cron_drains_backlog_witness:
  "backlog 900001 (cron_runs 1 None 900001 (\<lambda>n. ''p'') demo_pending) = [] \<and>
   backlog 900001 demo_pending = [demo_order]"
proof -
  have "unique_key o_id (orders demo_pending)" by (simp add: unique_key_def)
  moreover have log: "backlog 900001 demo_pending = [demo_order]" by (simp add: backlog_def is_stuck_def)
  ultimately show ?thesis
    using cron_drains_backlog [of demo_pending 900001 1 None "\<lambda>n. ''p''"]
    by (simp only: log) (simp add: CRON_BATCH_def)
qed

end
