(* ===== verification/Ticket_Issue.thy ===== *)
theory Ticket_Issue
  imports Payment_Cron
begin

text \<open>
  \<open>ticket-issue.processor.ts\<close>: the worker of the ticket issue queue.  For a PAID order that has
  no ticket yet it sells the reserved quantity of every item and creates one ticket per unit,
  choosing the least loaded gate anew for each ticket.

  \<^item> Identifiers and raw tokens come from \<open>ticket_env\<close>, indexed by the position of the ticket
    in the order.
  \<^item> The worker is an \<open>at_most_once\<close> interface: an order is issued by at most one job of any
    sequence of jobs, retries included.
\<close>

section \<open>The processor\<close>

definition resolve_gate_name :: "id \<Rightarrow> world \<Rightarrow> string" where
  "resolve_gate_name concertId w =
     (case gates_of concertId w of
        [] \<Rightarrow> []
      | g # gs \<Rightarrow> g_name (least_loaded (\<lambda>n. gate_count concertId n w) g
                    (gate_count concertId (g_name g) w) (g # gs)))"

definition worker_ticket ::
  "crypto \<Rightarrow> ticket_env \<Rightarrow> time \<Rightarrow> order \<Rightarrow> order_item \<Rightarrow> nat \<Rightarrow> string \<Rightarrow> ticket" where
  "worker_ticket C env now ord item n gateName =
     (let token = generateQrToken C (te_rawToken env n) (te_ticketId env n) gateName (te_qrSecret env)
      in \<lparr>t_id = te_ticketId env n, t_orderId = o_id ord, t_orderItemId = oi_id item,
          t_concertId = o_concertId ord, t_ticketTypeId = oi_ticketTypeId item,
          t_userId = o_userId ord, t_gateId = gate_or_null gateName,
          t_qrRawToken = qt_rawToken token, t_qrTokenHash = qt_qrTokenHash token,
          t_qrSignature = Some (qt_qrSignature token), t_status = ISSUED,
          t_checkedInAt = None, t_createdAt = now\<rparr>)"

text \<open>The inner loop: \<open>n\<close> is the index of the next ticket, the last argument counts down.\<close>

fun issue_units ::
  "crypto \<Rightarrow> ticket_env \<Rightarrow> time \<Rightarrow> order \<Rightarrow> order_item \<Rightarrow> nat \<Rightarrow> nat \<Rightarrow> unit handler" where
  "issue_units C env now ord item n 0 w = (w, Inr ())"
| "issue_units C env now ord item n (Suc k) w =
     bindE (create_ticket
              (worker_ticket C env now ord item n (resolve_gate_name (o_concertId ord) w)) w)
       (\<lambda>w' _. issue_units C env now ord item (Suc n) k w')"

fun issue_items ::
  "crypto \<Rightarrow> ticket_env \<Rightarrow> time \<Rightarrow> order \<Rightarrow> order_item list \<Rightarrow> nat \<Rightarrow> unit handler" where
  "issue_items C env now ord [] n w = (w, Inr ())"
| "issue_items C env now ord (item # items) n w =
     bindE (sell_type (oi_ticketTypeId item, oi_quantity item) w) (\<lambda>w1 _.
     bindE (sell_counter (o_userId ord) (oi_ticketTypeId item, oi_quantity item) w1) (\<lambda>w2 _.
     bindE (issue_units C env now ord item n (nat (oi_quantity item)) w2) (\<lambda>w3 _.
     issue_items C env now ord items (n + nat (oi_quantity item)) w3)))"

datatype issue_result =
    SkippedStatus OrderStatus   \<comment> \<open>the order is not PAID\<close>
  | SkippedIssued nat           \<comment> \<open>tickets already issued\<close>
  | Issued nat                  \<comment> \<open>\<open>ticketCount\<close>\<close>

definition process_issue ::
  "crypto \<Rightarrow> ticket_env \<Rightarrow> time \<Rightarrow> id \<Rightarrow> issue_result handler" where
  "process_issue C env now orderId w =
     (case find_order orderId w of
        None \<Rightarrow> (w, Inl (PlainError ''order not found''))
      | Some ord \<Rightarrow>
          if o_status ord \<noteq> PAID then (w, Inr (SkippedStatus (o_status ord)))
          else if o_items ord = [] then (w, Inl (PlainError ''order has no order items''))
          else let existing = count_where (\<lambda>t. t_orderId t = orderId) (tickets w)
          in if existing > 0 then (w, Inr (SkippedIssued existing))
          else bindE (transaction (issue_items C env now ord (o_items ord) 0) w)
            (\<lambda>w' _. (w', Inr (Issued (length (tickets w') - length (tickets w))))))"

section \<open>Frame\<close>

lemma resolve_gate_name_eq:
  "resolve_gate_name c w = (case findLeastLoadedGate c w of Some g \<Rightarrow> g_name g | None \<Rightarrow> [])"
  by (simp add: resolve_gate_name_def findLeastLoadedGate_def split: list.splits)

text \<open>Every run of the inner loop appends tickets of the order, \<open>k\<close> of them when it returns.\<close>

lemma issue_units_appends:
  "\<exists>ts. fst (issue_units C env now ord item n k w) = w\<lparr>tickets := tickets w @ ts\<rparr> \<and>
     (\<forall>t \<in> set ts. t_orderId t = o_id ord) \<and>
     (snd (issue_units C env now ord item n k w) = Inr () \<longrightarrow> length ts = k)"
proof (induction k arbitrary: n w)
  case 0
  show ?case by (intro exI [of _ "[]"]) simp
next
  case (Suc k)
  let ?t = "worker_ticket C env now ord item n (resolve_gate_name (o_concertId ord) w)"
  let ?w = "w\<lparr>tickets := tickets w @ [?t]\<rparr>"
  have id: "t_orderId ?t = o_id ord" by (simp add: worker_ticket_def Let_def)
  show ?case
  proof (cases "create_ticket ?t w = (?w, Inr ())")
    case True
    from Suc [of "Suc n" ?w] obtain ts where
      "fst (issue_units C env now ord item (Suc n) k ?w) = ?w\<lparr>tickets := tickets ?w @ ts\<rparr>"
      "\<forall>t \<in> set ts. t_orderId t = o_id ord"
      "snd (issue_units C env now ord item (Suc n) k ?w) = Inr () \<longrightarrow> length ts = k" by blast
    with True id show ?thesis by (intro exI [of _ "?t # ts"]) auto
  next
    case False
    then show ?thesis by (intro exI [of _ "[]"]) (auto simp: create_ticket_def split: if_splits)
  qed
qed

lemma sell_type_tables:
  "tickets (fst (sell_type p w)) = tickets w" "orders (fst (sell_type p w)) = orders w"
  "gates (fst (sell_type p w)) = gates w"
  by (simp_all add: sell_type_def update_ticket_type_def split: option.split)

lemma issue_items_appends:
  "\<exists>ts. tickets (fst (issue_items C env now ord items n w)) = tickets w @ ts \<and>
     orders (fst (issue_items C env now ord items n w)) = orders w \<and>
     gates (fst (issue_items C env now ord items n w)) = gates w \<and>
     (\<forall>t \<in> set ts. t_orderId t = o_id ord) \<and>
     (snd (issue_items C env now ord items n w) = Inr () \<longrightarrow> length ts = total_qty items)"
proof (induction items arbitrary: n w)
  case Nil
  show ?case by (intro exI [of _ "[]"]) (simp add: total_qty_def)
next
  case (Cons item items)
  let ?p = "(oi_ticketTypeId item, oi_quantity item)" and ?k = "nat (oi_quantity item)"
  obtain w1 r1 where s1: "sell_type ?p w = (w1, r1)" by (cases "sell_type ?p w")
  have w1: "tickets w1 = tickets w" "orders w1 = orders w" "gates w1 = gates w"
    using sell_type_tables [of ?p w] s1 by simp_all
  show ?case
  proof (cases r1)
    case (Inl e)
    then show ?thesis using s1 w1 by (intro exI [of _ "[]"]) simp
  next
    case (Inr u)
    obtain cs where s2: "sell_counter (o_userId ord) ?p w1 = (w1\<lparr>counters := cs\<rparr>, Inr ())"
      using sell_counter_counters_only by blast
    let ?w2 = "w1\<lparr>counters := cs\<rparr>"
    obtain w3 r3 where s3: "issue_units C env now ord item n ?k ?w2 = (w3, r3)"
      by (cases "issue_units C env now ord item n ?k ?w2")
    from issue_units_appends [of C env now ord item n ?k ?w2] obtain ts where
      ts: "w3 = ?w2\<lparr>tickets := tickets w @ ts\<rparr>" "\<forall>t \<in> set ts. t_orderId t = o_id ord"
        "r3 = Inr () \<longrightarrow> length ts = ?k"
      using s3 w1 by auto
    show ?thesis
    proof (cases r3)
      case (Inl e)
      then show ?thesis using s1 s2 s3 Inr w1 ts by (intro exI [of _ ts]) simp
    next
      case (Inr v)
      from Cons.IH [of "n + ?k" w3] obtain us where
        "tickets (fst (issue_items C env now ord items (n + ?k) w3)) = tickets w3 @ us"
        "orders (fst (issue_items C env now ord items (n + ?k) w3)) = orders w3"
        "gates (fst (issue_items C env now ord items (n + ?k) w3)) = gates w3"
        "\<forall>t \<in> set us. t_orderId t = o_id ord"
        "snd (issue_items C env now ord items (n + ?k) w3) = Inr () \<longrightarrow> length us = total_qty items"
        by blast
      then show ?thesis
        using s1 s2 s3 \<open>r1 = Inr u\<close> Inr w1 ts
        by (intro exI [of _ "ts @ us"]) (auto simp: total_qty_def)
    qed
  qed
qed

text \<open>What a job does, whatever the state: the jobs that issue, and all others.\<close>

lemma process_issue_cases:
  obtains (idle) r where "process_issue C env now i w = (w, r)" "\<And>n. r \<noteq> Inr (Issued n)"
  | (issued) ord w' ts where "find_order i w = Some ord" "o_status ord = PAID" "o_items ord \<noteq> []"
      "\<And>t. t \<in> set (tickets w) \<Longrightarrow> t_orderId t \<noteq> i"
      "issue_items C env now ord (o_items ord) 0 w = (w', Inr ())"
      "process_issue C env now i w = (w', Inr (Issued (length ts)))"
      "tickets w' = tickets w @ ts" "orders w' = orders w" "gates w' = gates w"
      "\<And>t. t \<in> set ts \<Longrightarrow> t_orderId t = i" "length ts = total_qty (o_items ord)"
proof (cases "\<exists>ord. find_order i w = Some ord \<and> o_status ord = PAID \<and> o_items ord \<noteq> [] \<and>
    count_where (\<lambda>t. t_orderId t = i) (tickets w) = 0 \<and>
    snd (issue_items C env now ord (o_items ord) 0 w) = Inr ()")
  case True
  then obtain ord where ord: "find_order i w = Some ord" "o_status ord = PAID" "o_items ord \<noteq> []"
    and none: "count_where (\<lambda>t. t_orderId t = i) (tickets w) = 0"
    and ok: "snd (issue_items C env now ord (o_items ord) 0 w) = Inr ()" by blast
  let ?w' = "fst (issue_items C env now ord (o_items ord) 0 w)"
  obtain ts where ts: "tickets ?w' = tickets w @ ts" "orders ?w' = orders w" "gates ?w' = gates w"
    "\<forall>t \<in> set ts. t_orderId t = o_id ord" "length ts = total_qty (o_items ord)"
    using issue_items_appends [of C env now ord "o_items ord" 0 w] ok by blast
  have run: "issue_items C env now ord (o_items ord) 0 w = (?w', Inr ())"
    using ok by (cases "issue_items C env now ord (o_items ord) 0 w") simp
  have "process_issue C env now i w = (?w', Inr (Issued (length ts)))"
    using ord none transaction_Inr [where body = "issue_items C env now ord (o_items ord) 0", OF run] ts(1) by (simp add: process_issue_def)
  then show thesis
    using issued ord none run ts find_order_id [OF ord(1)]
    by (auto simp: count_where_def filter_empty_conv)
next
  case False
  have "\<exists>r. process_issue C env now i w = (w, r) \<and> (\<forall>n. r \<noteq> Inr (Issued n))"
    using False
    by (auto simp: process_issue_def Let_def bindE_def transaction_def
        split: option.splits prod.splits sum.splits)
  then show thesis using idle by blast
qed

section \<open>Effect of a job that issues\<close>

text \<open>The tickets made from an index on, each with the gate it was given.\<close>

definition worker_made :: "crypto \<Rightarrow> ticket_env \<Rightarrow> order \<Rightarrow> ticket \<Rightarrow> nat \<Rightarrow> bool" where
  "worker_made C env ord t j \<longleftrightarrow>
     t_id t = te_ticketId env j \<and> t_qrTokenHash t = sha256 C (te_rawToken env j) \<and>
     t_qrRawToken t = te_rawToken env j \<and>
     t_orderId t = o_id ord \<and> t_userId t = o_userId ord \<and> t_concertId t = o_concertId ord \<and>
     t_status t = ISSUED \<and>
     t_qrSignature t = Some (recomputeSignature C (t_id t) (t_qrTokenHash t)
       (case t_gateId t of Some g \<Rightarrow> g | None \<Rightarrow> []) (te_qrSecret env))"

lemma worker_ticket_made:
  "worker_made C env ord (worker_ticket C env now ord item n g) n"
  "t_ticketTypeId (worker_ticket C env now ord item n g) = oi_ticketTypeId item"
  "t_id (worker_ticket C env now ord item n g) = te_ticketId env n"
  "t_qrTokenHash (worker_ticket C env now ord item n g) = sha256 C (te_rawToken env n)"
  by (auto simp: worker_made_def worker_ticket_def Let_def gate_or_null_def)

text \<open>\<open>units_free\<close>: identifiers and hashes from \<open>n\<close> on for \<open>k\<close> tickets are unused.\<close>

definition units_free :: "crypto \<Rightarrow> ticket_env \<Rightarrow> nat \<Rightarrow> nat \<Rightarrow> ticket list \<Rightarrow> bool" where
  "units_free C env n k ts \<longleftrightarrow>
     inj_on (te_ticketId env) {n..<n + k} \<and> inj_on (\<lambda>j. sha256 C (te_rawToken env j)) {n..<n + k} \<and>
     (\<forall>t \<in> set ts. \<forall>j \<in> {n..<n + k}. t_id t \<noteq> te_ticketId env j \<and>
        t_qrTokenHash t \<noteq> sha256 C (te_rawToken env j))"

lemma units_free_fresh: "fresh_tickets C env n ts = units_free C env 0 n ts"
  by (simp add: fresh_tickets_def units_free_def distinct_map)

lemma units_free_Suc:
  assumes "units_free C env n (Suc k) ts" and "t_id t = te_ticketId env n"
    and "t_qrTokenHash t = sha256 C (te_rawToken env n)"
  shows "units_free C env (Suc n) k (ts @ [t])"
proof -
  let ?J = "{Suc n..<Suc n + k}"
  have ins: "{n..<n + Suc k} = insert n ?J" by auto
  have notin: "?J - {n} = ?J" by auto
  have "inj_on (te_ticketId env) ?J" "inj_on (\<lambda>j. sha256 C (te_rawToken env j)) ?J"
    and "te_ticketId env n \<notin> te_ticketId env ` ?J"
    and "sha256 C (te_rawToken env n) \<notin> (\<lambda>j. sha256 C (te_rawToken env j)) ` ?J"
    using assms(1) unfolding units_free_def ins inj_on_insert notin by blast+
  moreover have "\<forall>t \<in> set ts. \<forall>j \<in> ?J. t_id t \<noteq> te_ticketId env j \<and>
      t_qrTokenHash t \<noteq> sha256 C (te_rawToken env j)"
    using assms(1) unfolding units_free_def ins by blast
  ultimately show ?thesis
    unfolding units_free_def set_append using assms(2,3) by auto
qed

lemma issue_units_ok:
  assumes "units_free C env n (k + m) (tickets w)"
  shows "\<exists>ts. issue_units C env now ord item n k w = (w\<lparr>tickets := tickets w @ ts\<rparr>, Inr ()) \<and>
    length ts = k \<and> (\<forall>t \<in> set ts. t_ticketTypeId t = oi_ticketTypeId item) \<and>
    (\<forall>t \<in> set ts. \<exists>j. worker_made C env ord t j) \<and>
    units_free C env (n + k) m (tickets w @ ts)"
  using assms
proof (induction k arbitrary: n w)
  case 0
  then show ?case by (intro exI [of _ "[]"]) simp
next
  case (Suc k)
  let ?t = "worker_ticket C env now ord item n (resolve_gate_name (o_concertId ord) w)"
  let ?w = "w\<lparr>tickets := tickets w @ [?t]\<rparr>"
  have create: "create_ticket ?t w = (?w, Inr ())"
    using Suc.prems by (force simp: create_ticket_def units_free_def worker_ticket_made)
  have "units_free C env (Suc n) (k + m) (tickets ?w)"
    using units_free_Suc [of C env n "k + m" "tickets w" ?t] Suc.prems
    by (simp add: worker_ticket_made)
  from Suc.IH [OF this] obtain ts where
    ts: "issue_units C env now ord item (Suc n) k ?w = (?w\<lparr>tickets := tickets ?w @ ts\<rparr>, Inr ())"
      "length ts = k" "\<forall>t \<in> set ts. t_ticketTypeId t = oi_ticketTypeId item"
      "\<forall>t \<in> set ts. \<exists>j. worker_made C env ord t j"
      "units_free C env (Suc n + k) m (tickets ?w @ ts)" by blast
  then show ?case
    using create exI [of "worker_made C env ord ?t" n, OF worker_ticket_made(1)]
    by (intro exI [of _ "?t # ts"]) (auto simp: worker_ticket_made(2))
qed

lemma issue_items_ok:
  assumes "types_exist (map (\<lambda>i. (oi_ticketTypeId i, oi_quantity i)) items) w"
    and "units_free C env n (total_qty items) (tickets w)"
  shows "\<exists>w' ts. issue_items C env now ord items n w = (w', Inr ()) \<and>
    tickets w' = tickets w @ ts \<and> length ts = total_qty items \<and>
    (\<forall>t \<in> set ts. \<exists>j. worker_made C env ord t j) \<and>
    (\<forall>tt. int (count_where (\<lambda>t. t_ticketTypeId t = tt) ts) =
       sum_list (map (\<lambda>i. if oi_ticketTypeId i = tt then int (nat (oi_quantity i)) else 0) items)) \<and>
    ticketTypes w' = sell_types (map (\<lambda>i. (oi_ticketTypeId i, oi_quantity i)) items) (ticketTypes w) \<and>
    gates w' = gates w \<and> jobs w' = jobs w"
  using assms
proof (induction items arbitrary: n w)
  case Nil
  show ?case by (intro exI [of _ w] exI [of _ "[]"]) (simp add: total_qty_def)
next
  case (Cons item items)
  let ?p = "(oi_ticketTypeId item, oi_quantity item)" and ?k = "nat (oi_quantity item)"
  let ?ps = "map (\<lambda>i. (oi_ticketTypeId i, oi_quantity i)) items"
  let ?w1 = "w\<lparr>ticketTypes := sell_types [?p] (ticketTypes w)\<rparr>"
  have s1: "sell_type ?p w = (?w1, Inr ())"
    using Cons.prems(1) by (intro sell_type_eq) (simp add: types_exist_def)
  obtain cs where s2: "sell_counter (o_userId ord) ?p ?w1 = (?w1\<lparr>counters := cs\<rparr>, Inr ())"
    using sell_counter_counters_only by blast
  let ?w2 = "?w1\<lparr>counters := cs\<rparr>"
  have "units_free C env n (?k + total_qty items) (tickets ?w2)"
    using Cons.prems(2) by (simp add: total_qty_def)
  from issue_units_ok [OF this, of now ord item] obtain ts where
    ts: "issue_units C env now ord item n ?k ?w2 = (?w2\<lparr>tickets := tickets ?w2 @ ts\<rparr>, Inr ())"
      "length ts = ?k" "\<forall>t \<in> set ts. t_ticketTypeId t = oi_ticketTypeId item"
      "\<forall>t \<in> set ts. \<exists>j. worker_made C env ord t j"
      "units_free C env (n + ?k) (total_qty items) (tickets ?w2 @ ts)" by blast
  let ?w3 = "?w2\<lparr>tickets := tickets ?w2 @ ts\<rparr>"
  have "types_exist ?ps ?w3"
    using Cons.prems(1) types_exist_sell [of ?ps "[?p]" w]
    by (simp add: types_exist_def find_ticket_type_def)
  with Cons.IH [of ?w3 "n + ?k"] ts(5) obtain w' us where
    us: "issue_items C env now ord items (n + ?k) ?w3 = (w', Inr ())"
      "tickets w' = tickets ?w3 @ us" "length us = total_qty items"
      "\<forall>t \<in> set us. \<exists>j. worker_made C env ord t j"
      "\<forall>tt. int (count_where (\<lambda>t. t_ticketTypeId t = tt) us) =
         sum_list (map (\<lambda>i. if oi_ticketTypeId i = tt then int (nat (oi_quantity i)) else 0) items)"
      "ticketTypes w' = sell_types ?ps (ticketTypes ?w3)" "gates w' = gates ?w3" "jobs w' = jobs ?w3"
    by auto
  have count: "count_where (\<lambda>t. t_ticketTypeId t = tt) ts =
      (if oi_ticketTypeId item = tt then ?k else 0)" for tt
    using ts(2,3) by (simp add: count_where_def filter_True filter_False)
  show ?case
    using s1 s2 ts us
    by (intro exI [of _ w'] exI [of _ "ts @ us"])
      (auto simp: count total_qty_def sell_types_Cons)
qed


text \<open>One run of the job on an order that is to be issued.\<close>

lemma process_issue_ok:
  assumes "find_order i w = Some ord" and "o_status ord = PAID" and "o_items ord \<noteq> []"
    and "\<And>t. t \<in> set (tickets w) \<Longrightarrow> t_orderId t \<noteq> i"
    and "types_exist (item_pairs ord) w"
    and "fresh_tickets C env (total_qty (o_items ord)) (tickets w)"
  shows "\<exists>w' new. process_issue C env now i w = (w', Inr (Issued (total_qty (o_items ord)))) \<and>
    tickets w' = tickets w @ new \<and> length new = total_qty (o_items ord) \<and>
    (\<forall>t \<in> set new. \<exists>j. worker_made C env ord t j) \<and>
    (\<forall>tt. int (count_where (\<lambda>t. t_ticketTypeId t = tt) new) =
       sum_list (map (\<lambda>i. if oi_ticketTypeId i = tt then int (nat (oi_quantity i)) else 0) (o_items ord))) \<and>
    ticketTypes w' = sell_types (item_pairs ord) (ticketTypes w) \<and>
    orders w' = orders w \<and> gates w' = gates w \<and> jobs w' = jobs w"
proof -
  have none: "count_where (\<lambda>t. t_orderId t = i) (tickets w) = 0"
    using assms(4) by (simp add: count_where_def filter_empty_conv)
  obtain w' new where run: "issue_items C env now ord (o_items ord) 0 w = (w', Inr ())"
    and eff: "tickets w' = tickets w @ new" "length new = total_qty (o_items ord)"
      "\<forall>t \<in> set new. \<exists>j. worker_made C env ord t j"
      "\<forall>tt. int (count_where (\<lambda>t. t_ticketTypeId t = tt) new) =
         sum_list (map (\<lambda>i. if oi_ticketTypeId i = tt then int (nat (oi_quantity i)) else 0) (o_items ord))"
      "ticketTypes w' = sell_types (item_pairs ord) (ticketTypes w)"
      "gates w' = gates w" "jobs w' = jobs w"
    using issue_items_ok [of "o_items ord" w C env 0 now ord] assms(5,6)
    by (auto simp: item_pairs_def units_free_fresh)
  have "orders w' = orders w" using issue_items_appends [of C env now ord "o_items ord" 0 w] run by auto
  moreover have "process_issue C env now i w = (w', Inr (Issued (total_qty (o_items ord))))"
    using assms(1-3) none run eff(1,2) by (simp add: process_issue_def)
  ultimately show ?thesis using eff by auto
qed


section \<open>The worker as an interface\<close>

record issue_job =
  ij_env :: ticket_env
  ij_now :: time
  ij_orderId :: id

definition run_issue_job :: "crypto \<Rightarrow> issue_job \<Rightarrow> issue_result handler" where
  "run_issue_job C job = process_issue C (ij_env job) (ij_now job) (ij_orderId job)"

definition order_ticketed :: "id \<Rightarrow> world \<Rightarrow> bool" where
  "order_ticketed i w \<longleftrightarrow> (\<exists>t \<in> set (tickets w). t_orderId t = i)"

text \<open>What \<open>CreateOrderDto\<close> demands of an item: at least one ticket.\<close>

definition quantities_positive :: "world \<Rightarrow> bool" where
  "quantities_positive w \<longleftrightarrow> (\<forall>ord \<in> set (orders w). \<forall>item \<in> set (o_items ord). 1 \<le> oi_quantity item)"

definition job_issued :: "exn + issue_result \<Rightarrow> bool" where
  "job_issued r \<longleftrightarrow> (\<exists>n. r = Inr (Issued n))"

lemma total_qty_positive:
  assumes "quantities_positive w" and "find_order i w = Some ord" and "o_items ord \<noteq> []"
  shows "0 < total_qty (o_items ord)"
proof -
  obtain item items where items: "o_items ord = item # items" using assms(3) by (meson neq_Nil_conv)
  have "ord \<in> set (orders w)" using find_row_SomeD [of o_id i "orders w" ord] assms(2) by (simp add: find_order_def)
  moreover have "item \<in> set (o_items ord)" by (simp add: items)
  ultimately have "1 \<le> oi_quantity item" using assms(1) unfolding quantities_positive_def by blast
  then show ?thesis by (simp add: items total_qty_def)
qed

interpretation issue: at_most_once "run_issue_job C" "\<lambda>_. True" quantities_positive ij_orderId
    job_issued order_ticketed for C
proof unfold_locales
  fix w :: world and job :: issue_job and i :: id
  let ?run = "process_issue C (ij_env job) (ij_now job) (ij_orderId job) w"
  show "quantities_positive w \<Longrightarrow> quantities_positive (fst (run_issue_job C job w))"
    unfolding run_issue_job_def
    by (rule process_issue_cases [of C "ij_env job" "ij_now job" "ij_orderId job" w])
      (simp_all add: quantities_positive_def)
  show "job_issued (snd (run_issue_job C job w)) \<Longrightarrow> \<not> order_ticketed (ij_orderId job) w"
    unfolding run_issue_job_def
    by (rule process_issue_cases [of C "ij_env job" "ij_now job" "ij_orderId job" w])
      (auto simp: job_issued_def order_ticketed_def)
  show "order_ticketed i w \<Longrightarrow> order_ticketed i (fst (run_issue_job C job w))"
    unfolding run_issue_job_def
    by (rule process_issue_cases [of C "ij_env job" "ij_now job" "ij_orderId job" w])
      (auto simp: order_ticketed_def)
  assume inv: "quantities_positive w" and ok: "job_issued (snd (run_issue_job C job w))"
  show "order_ticketed (ij_orderId job) (fst (run_issue_job C job w))"
  proof (rule process_issue_cases [of C "ij_env job" "ij_now job" "ij_orderId job" w])
    fix r
    assume "?run = (w, r)" "\<And>n. r \<noteq> Inr (Issued n)"
    then show ?thesis using ok by (simp add: run_issue_job_def job_issued_def)
  next
    fix ord w' ts
    assume *: "find_order (ij_orderId job) w = Some ord" "o_items ord \<noteq> []"
      "?run = (w', Inr (Issued (length ts)))" "tickets w' = tickets w @ ts"
      "\<And>t. t \<in> set ts \<Longrightarrow> t_orderId t = ij_orderId job" "length ts = total_qty (o_items ord)"
    obtain t where "t \<in> set ts"
      using total_qty_positive [OF inv *(1,2)] *(6) by (cases ts) auto
    then show ?thesis using * by (auto simp: run_issue_job_def order_ticketed_def)
  qed
qed

section \<open>Spreading over the gates\<close>

definition gate_names :: "id \<Rightarrow> world \<Rightarrow> string set" where
  "gate_names c w = g_name ` set (gates_of c w)"

text \<open>Named gates whose loads differ by at most one.\<close>

definition gates_spread :: "id \<Rightarrow> world \<Rightarrow> bool" where
  "gates_spread c w \<longleftrightarrow>
     [] \<notin> gate_names c w \<and>
     (\<forall>a \<in> gate_names c w. \<forall>b \<in> gate_names c w. gate_count c a w \<le> Suc (gate_count c b w))"

lemma gates_spread_frame [simp]:
  "gates_spread c (w\<lparr>ticketTypes := x\<rparr>) = gates_spread c w"
  "gates_spread c (w\<lparr>counters := y\<rparr>) = gates_spread c w"
  "gates_spread c (w\<lparr>orders := z\<rparr>) = gates_spread c w"
  by (simp_all add: gates_spread_def gate_names_def gates_of_def gate_count_def)

lemma resolve_gate_name_least:
  assumes "gate_names c w \<noteq> {}"
  shows "resolve_gate_name c w \<in> gate_names c w"
    and "a \<in> gate_names c w \<Longrightarrow> gate_count c (resolve_gate_name c w) w \<le> gate_count c a w"
proof -
  obtain g where g: "findLeastLoadedGate c w = Some g"
    using assms by (cases "gates_of c w") (auto simp: gate_names_def findLeastLoadedGate_def)
  show "resolve_gate_name c w \<in> gate_names c w"
    and "a \<in> gate_names c w \<Longrightarrow> gate_count c (resolve_gate_name c w) w \<le> gate_count c a w"
    using findLeastLoadedGate_min [OF g] by (auto simp: resolve_gate_name_eq g gate_names_def)
qed

lemma spread_new_ticket:
  assumes "gates_spread c w"
  shows "gates_spread c (w\<lparr>tickets := tickets w @
    [worker_ticket C env now ord item n (resolve_gate_name (o_concertId ord) w)]\<rparr>)"
    (is "gates_spread c ?w'")
proof -
  let ?g = "resolve_gate_name c w"
  have names: "gate_names c ?w' = gate_names c w" by (simp add: gate_names_def gates_of_def)
  have count: "gate_count c a ?w' =
      gate_count c a w + (if o_concertId ord = c \<and> gate_or_null ?g = Some a then 1 else 0)" for a
    by (auto simp: gate_count_def worker_ticket_def Let_def)
  show ?thesis
  proof (cases "o_concertId ord = c \<and> gate_names c w \<noteq> {}")
    case True
    then have g: "gate_or_null ?g = Some ?g" "?g \<in> gate_names c w"
      using assms resolve_gate_name_least(1) [of c w] by (auto simp: gates_spread_def gate_or_null_def)
    have least: "gate_count c ?g w \<le> gate_count c a w" if "a \<in> gate_names c w" for a
      using that resolve_gate_name_least(2) True by blast
    have "gate_count c a ?w' \<le> Suc (gate_count c b ?w')"
      if ab: "a \<in> gate_names c w" "b \<in> gate_names c w" for a b
    proof (cases "a = ?g")
      case True
      then show ?thesis using least [OF ab(2)] by (simp add: count g)
    next
      case False
      have "gate_count c a w \<le> Suc (gate_count c b w)" using assms ab by (simp add: gates_spread_def)
      with False show ?thesis by (simp add: count g)
    qed
    then show ?thesis using assms by (simp add: gates_spread_def names)
  next
    case False
    then show ?thesis using assms by (auto simp: gates_spread_def names count)
  qed
qed

lemma keeps_spread_units: "keeps (gates_spread c) (issue_units C env now ord item n k)"
proof (rule keepsI)
  fix w
  show "gates_spread c w \<Longrightarrow> gates_spread c (fst (issue_units C env now ord item n k w))"
  proof (induction k arbitrary: n w)
    case 0
    then show ?case by simp
  next
    case (Suc k)
    show ?case
      using Suc.IH spread_new_ticket [OF Suc.prems] Suc.prems by (simp add: create_ticket_def)
  qed
qed

lemma keeps_spread_items: "keeps (gates_spread c) (issue_items C env now ord items n)"
proof (rule keepsI)
  fix w
  show "gates_spread c w \<Longrightarrow> gates_spread c (fst (issue_items C env now ord items n w))"
  proof (induction items arbitrary: n w)
    case Nil
    then show ?case by simp
  next
    case (Cons item items)
    let ?p = "(oi_ticketTypeId item, oi_quantity item)"
    have "gates_spread c (fst (sell_type ?p w))"
      using Cons.prems by (simp add: sell_type_def update_ticket_type_def split: option.split)
    moreover have "gates_spread c (fst (sell_counter (o_userId ord) ?p w1))" if "gates_spread c w1" for w1
      using that sell_counter_counters_only [of "o_userId ord" ?p w1] by auto
    moreover have "gates_spread c (fst (issue_items C env now ord items m w3))"
      if "gates_spread c w3" for m w3
      using that by (rule Cons.IH)
    moreover have "gates_spread c (fst (issue_units C env now ord item n m w2))"
      if "gates_spread c w2" for m w2
      using that by (rule keepsD [OF keeps_spread_units])
    ultimately show ?case
      by (simp add: keeps_bindE)
  qed
qed

lemma keeps_spread_issue: "keeps (gates_spread c) (process_issue C env now i)"
proof (rule keepsI)
  fix w
  assume spread: "gates_spread c w"
  show "gates_spread c (fst (process_issue C env now i w))"
  proof (rule process_issue_cases [of C env now i w])
    fix ord w' ts
    assume "issue_items C env now ord (o_items ord) 0 w = (w', Inr ())"
      "process_issue C env now i w = (w', Inr (Issued (length ts)))"
    then show ?thesis using keepsD [OF keeps_spread_items spread] by (metis fst_conv)
  qed (use spread in simp)
qed

interpretation spread: op_system "run_issue_job C" "\<lambda>_. True" "gates_spread c" for C c
  by unfold_locales (simp add: run_issue_job_def keepsD [OF keeps_spread_issue])

section \<open>Properties\<close>

text \<open>
  A job for a PAID order without tickets issues exactly the quantity of every item: the new
  tickets belong to the order, per ticket type as many as ordered, each with a hash and a
  signature that fit its own identifier and gate; the reserved quantity becomes sold.
\<close>

theorem issue_job_issues_order:
  assumes "find_order i w = Some ord" and "o_status ord = PAID" and "o_items ord \<noteq> []"
    and "\<And>t. t \<in> set (tickets w) \<Longrightarrow> t_orderId t \<noteq> i"
    and "types_exist (item_pairs ord) w"
    and "fresh_tickets C env (total_qty (o_items ord)) (tickets w)"
  shows "\<exists>w' new. process_issue C env now i w = (w', Inr (Issued (total_qty (o_items ord)))) \<and>
    tickets w' = tickets w @ new \<and> length new = total_qty (o_items ord) \<and>
    (\<forall>tt. int (count_where (\<lambda>t. t_ticketTypeId t = tt) new) =
       sum_list (map (\<lambda>i. if oi_ticketTypeId i = tt then int (nat (oi_quantity i)) else 0) (o_items ord))) \<and>
    (\<forall>t \<in> set new. t_orderId t = i \<and> t_userId t = o_userId ord \<and> t_status t = ISSUED \<and>
       t_qrTokenHash t = sha256 C (t_qrRawToken t) \<and>
       t_qrSignature t = Some (recomputeSignature C (t_id t) (t_qrTokenHash t)
         (case t_gateId t of Some g \<Rightarrow> g | None \<Rightarrow> []) (te_qrSecret env))) \<and>
    ticketTypes w' = sell_types (item_pairs ord) (ticketTypes w) \<and>
    orders w' = orders w \<and> jobs w' = jobs w"
proof -
  obtain w' new where run: "process_issue C env now i w = (w', Inr (Issued (total_qty (o_items ord))))"
    and eff: "tickets w' = tickets w @ new" "length new = total_qty (o_items ord)"
      "\<forall>t \<in> set new. \<exists>j. worker_made C env ord t j"
      "\<forall>tt. int (count_where (\<lambda>t. t_ticketTypeId t = tt) new) =
         sum_list (map (\<lambda>i. if oi_ticketTypeId i = tt then int (nat (oi_quantity i)) else 0) (o_items ord))"
      "ticketTypes w' = sell_types (item_pairs ord) (ticketTypes w)" "orders w' = orders w"
      "jobs w' = jobs w"
    using process_issue_ok [OF assms] by blast
  have "t_orderId t = i \<and> t_userId t = o_userId ord \<and> t_status t = ISSUED \<and>
       t_qrTokenHash t = sha256 C (t_qrRawToken t) \<and>
       t_qrSignature t = Some (recomputeSignature C (t_id t) (t_qrTokenHash t)
         (case t_gateId t of Some g \<Rightarrow> g | None \<Rightarrow> []) (te_qrSecret env))" if "t \<in> set new" for t
    using eff(3) that find_order_id [OF assms(1)] by (fastforce simp: worker_made_def)
  with run eff show ?thesis by blast
qed

definition demo_paid :: world where
  "demo_paid = demo_gates\<lparr>orders := [paid_at 1000 demo_order]\<rparr>"

lemma demo_paid_facts [simp]:
  "find_order ''o1'' demo_paid = Some (paid_at 1000 demo_order)" "tickets demo_paid = []"
  "types_exist (item_pairs (paid_at 1000 demo_order)) demo_paid"
  "o_items (paid_at 1000 demo_order) = o_items demo_order" "o_status (paid_at 1000 demo_order) = PAID"
proof -
  show "find_order ''o1'' demo_paid = Some (paid_at 1000 demo_order)" "tickets demo_paid = []"
    "o_items (paid_at 1000 demo_order) = o_items demo_order" "o_status (paid_at 1000 demo_order) = PAID"
    by (simp_all add: demo_paid_def demo_gates_def find_order_def paid_at_def)
  have "item_pairs (paid_at 1000 demo_order) = [(''vip'', 2)]"
    using demo_order_facts(1) by (simp add: item_pairs_def paid_at_def)
  moreover have "ticketTypes demo_paid = ticketTypes demo_pending"
    by (simp add: demo_paid_def demo_gates_def)
  ultimately show "types_exist (item_pairs (paid_at 1000 demo_order)) demo_paid"
    using demo_pending_exist(1) by (simp only: types_exist_def find_ticket_type_def)
qed

theorem issue_job_issues_order_witness:
  "\<exists>w' new. process_issue demo_crypto (demo_ticket_env ''t'') 2000 ''o1'' demo_paid = (w', Inr (Issued 2)) \<and>
     tickets w' = new \<and> length new = 2"
  using issue_job_issues_order [of "''o1''" demo_paid "paid_at 1000 demo_order" demo_crypto
      "demo_ticket_env ''t''" 2000]
  by auto

text \<open>
  However often the issue job of an order is delivered, in whatever order with other jobs and
  whatever each attempt finds, at most one delivery issues tickets.
\<close>

theorem issue_jobs_issue_once:
  assumes "quantities_positive w"
  shows "length (filter (\<lambda>(job, r). ij_orderId job = i \<and> job_issued r)
    (snd (run_ops (run_issue_job C) js w))) \<le> 1"
  using issue.at_most_one_success [OF assms] by simp

theorem issue_jobs_issue_once_witness:
  "length (filter (\<lambda>(job, r). ij_orderId job = ''o1'' \<and> job_issued r)
    (snd (run_ops (run_issue_job demo_crypto)
       [\<lparr>ij_env = demo_ticket_env ''t'', ij_now = 2000, ij_orderId = ''o1''\<rparr>,
        \<lparr>ij_env = demo_ticket_env ''u'', ij_now = 2001, ij_orderId = ''o1''\<rparr>] demo_paid))) \<le> 1"
proof (rule issue_jobs_issue_once)
  show "quantities_positive demo_paid"
    by (simp add: quantities_positive_def demo_paid_def demo_order_def paid_at_def)
qed

text \<open>
  The worker keeps the gates of every concert balanced: where the loads of its named gates
  differ by at most one, they still do after any sequence of issue jobs.
\<close>

theorem issue_jobs_keep_gates_spread:
  assumes "gates_spread c w"
  shows "gates_spread c (fst (run_ops (run_issue_job C) js w))"
  using spread.inv_run [OF assms] by simp

lemma demo_gates_spread: "gates_spread ''c1'' demo_gates"
  by (auto simp: gates_spread_def gate_names_def gates_of_def gate_count_def demo_gates_def)

theorem issue_jobs_keep_gates_spread_witness:
  "gates_spread ''c1'' (fst (run_ops (run_issue_job demo_crypto)
       [\<lparr>ij_env = demo_ticket_env ''t'', ij_now = 2000, ij_orderId = ''o1''\<rparr>] demo_paid))"
  by (rule issue_jobs_keep_gates_spread) (simp add: demo_paid_def demo_gates_spread)

end
