(* ===== verification/Checkin.thy ===== *)
theory Checkin
  imports Ticket_Issue
begin

text \<open>
  \<open>checkin.service.ts\<close>: the online check of a scanned ticket, the upload of the scans that a
  device made offline, and the log of every attempt.

  \<^item> The checks run in the order of the code: ticket, gate, signature, token hash, and then
    the conditional update that only changes an ISSUED ticket.
  \<^item> A log row refers to its ticket by a foreign key, and the pair of device and offline
    event is unique.  Staff and concert of a log row exist, as the caller is logged in and the
    concert is that of the ticket.  Message texts are the constructors of \<open>sync_message\<close>.
\<close>

record verify_ticket_dto =
  v_ticketId :: id
  v_token :: string
  v_deviceId :: string
  v_gateId :: "string option"

record verify_ticket_response =
  vr_success :: bool
  vr_ticketId :: id
  vr_concertId :: id
  vr_ticketTypeName :: string
  vr_status :: TicketStatus

record sync_checkin_record =
  s_ticketId :: id
  s_token :: string
  s_deviceId :: string
  s_gateId :: "string option"
  s_scannedAt :: time
  s_offlineEventId :: string

datatype sync_message =
    MsgCheckedIn | MsgNotFound | MsgWrongGate string | MsgInvalidQr | MsgConflict | MsgIdempotent

record sync_checkin_result =
  sr_ticketId :: id
  sr_offlineEventId :: string
  sr_success :: bool
  sr_status :: CheckinStatus
  sr_conflict :: bool
  sr_message :: sync_message

record sync_checkin_response =
  sy_total :: nat
  sy_success :: nat
  sy_failed :: nat
  sy_conflicts :: nat
  sy_results :: "sync_checkin_result list"

section \<open>The log\<close>

record checkin_params =
  lp_ticketId :: "id option"
  lp_staffId :: id
  lp_concertId :: "id option"
  lp_deviceId :: string
  lp_gate :: "string option"
  lp_offlineEventId :: "string option"
  lp_status :: CheckinStatus
  lp_reason :: "string option"
  lp_isOffline :: "bool option"
  lp_conflict :: "bool option"

definition is_true :: "bool option \<Rightarrow> bool" where
  "is_true b \<longleftrightarrow> (case b of None \<Rightarrow> False | Some x \<Rightarrow> x)"

definition log_row :: "time \<Rightarrow> checkin_params \<Rightarrow> checkin_log" where
  "log_row now params =
     \<lparr>l_ticketId = lp_ticketId params, l_staffId = lp_staffId params,
      l_concertId = lp_concertId params, l_deviceId = lp_deviceId params, l_gate = lp_gate params,
      l_offlineEventId = lp_offlineEventId params, l_status = lp_status params,
      l_reason = lp_reason params, l_isOffline = is_true (lp_isOffline params),
      l_conflict = is_true (lp_conflict params), l_scannedAt = now,
      l_syncedAt = (if is_true (lp_isOffline params) then None else Some now)\<rparr>"

definition event_key :: "checkin_log \<Rightarrow> string \<times> string option" where
  "event_key l = (l_deviceId l, l_offlineEventId l)"

definition find_event :: "string \<Rightarrow> string \<Rightarrow> world \<Rightarrow> checkin_log option" where
  "find_event deviceId offlineEventId w =
     find_row event_key (deviceId, Some offlineEventId) (checkinLogs w)"

definition logCheckinAttempt :: "time \<Rightarrow> checkin_params \<Rightarrow> unit handler" where
  "logCheckinAttempt now params w =
     (case lp_ticketId params of
        Some i \<Rightarrow> (if find_ticket i w = None then (w, Inl (ForeignKeyViolation ''CheckinLog''))
                 else (case lp_offlineEventId params of
                         Some ev \<Rightarrow>
                           (if find_event (lp_deviceId params) ev w \<noteq> None
                            then (w, Inl (UniqueViolation ''CheckinLog''))
                            else (w\<lparr>checkinLogs := checkinLogs w @ [log_row now params]\<rparr>, Inr ()))
                       | None \<Rightarrow> (w\<lparr>checkinLogs := checkinLogs w @ [log_row now params]\<rparr>, Inr ())))
      | None \<Rightarrow> (w\<lparr>checkinLogs := checkinLogs w @ [log_row now params]\<rparr>, Inr ()))"

section \<open>The checks on a ticket\<close>

definition hashToken :: "crypto \<Rightarrow> string \<Rightarrow> string" where
  "hashToken C token = sha256 C token"

text \<open>Both gates given and not empty, and different.\<close>

definition gate_mismatch :: "string option \<Rightarrow> string option \<Rightarrow> bool" where
  "gate_mismatch device tick \<longleftrightarrow>
     (case (device, tick) of (Some d, Some t) \<Rightarrow> d \<noteq> [] \<and> t \<noteq> [] \<and> d \<noteq> t | _ \<Rightarrow> False)"

definition or_empty :: "string option \<Rightarrow> string" where
  "or_empty s = (case s of None \<Rightarrow> [] | Some x \<Rightarrow> x)"

definition signature_mismatch :: "crypto \<Rightarrow> string \<Rightarrow> ticket \<Rightarrow> bool" where
  "signature_mismatch C qrSecret t \<longleftrightarrow>
     (case t_qrSignature t of
        None \<Rightarrow> False
      | Some sig \<Rightarrow> sig \<noteq> [] \<and>
          recomputeSignature C (t_id t) (t_qrTokenHash t) (or_empty (t_gateId t)) qrSecret \<noteq> sig)"

text \<open>\<open>updateMany\<close> on an ISSUED ticket, with the number of rows it changed.\<close>

definition admit_ticket :: "time \<Rightarrow> id \<Rightarrow> world \<Rightarrow> world \<times> nat" where
  "admit_ticket now i w =
     (w\<lparr>tickets := update_where (\<lambda>t. t_id t = i \<and> t_status t = ISSUED)
         (\<lambda>t. t\<lparr>t_status := CHECKED_IN, t_checkedInAt := Some now\<rparr>) (tickets w)\<rparr>,
      count_where (\<lambda>t. t_id t = i \<and> t_status t = ISSUED) (tickets w))"

fun ticket_status_name :: "TicketStatus \<Rightarrow> string" where
  "ticket_status_name ISSUED = ''ISSUED''"
| "ticket_status_name CHECKED_IN = ''CHECKED_IN''"
| "ticket_status_name TICKET_CANCELLED = ''CANCELLED''"
| "ticket_status_name TICKET_REFUNDED = ''REFUNDED''"

section \<open>Online check\<close>

definition verify_params ::
  "verify_ticket_dto \<Rightarrow> id \<Rightarrow> id option \<Rightarrow> CheckinStatus \<Rightarrow> string option \<Rightarrow> checkin_params" where
  "verify_params dto staffId concertId st reason =
     \<lparr>lp_ticketId = Some (v_ticketId dto), lp_staffId = staffId, lp_concertId = concertId,
      lp_deviceId = v_deviceId dto, lp_gate = v_gateId dto, lp_offlineEventId = None,
      lp_status = st, lp_reason = reason, lp_isOffline = None, lp_conflict = None\<rparr>"

definition verifyAndCheckin ::
  "crypto \<Rightarrow> string \<Rightarrow> time \<Rightarrow> verify_ticket_dto \<Rightarrow> id \<Rightarrow> verify_ticket_response handler" where
  "verifyAndCheckin C qrSecret now dto staffId w =
     (let tokenHash = hashToken C (v_token dto);
          refuse = (\<lambda>w st reason e.
            bindE (logCheckinAttempt now (verify_params dto staffId None st (Some reason)) w)
              (\<lambda>w' _. (w', Inl e)))
      in case find_ticket (v_ticketId dto) w of
           None \<Rightarrow> refuse w INVALID_TICKET (''Ticket '' @ v_ticketId dto @ '' not found'')
                     (NotFoundException ''ticket'')
         | Some t \<Rightarrow>
             if gate_mismatch (v_gateId dto) (t_gateId t)
             then refuse w GATE_MISMATCH
                    (''Gate mismatch: ticket assigned to '' @ or_empty (t_gateId t) @
                     '', device at '' @ or_empty (v_gateId dto))
                    (BadRequestException ''ticket of another gate'')
             else if signature_mismatch C qrSecret t
             then refuse w INVALID_TICKET ''HMAC signature mismatch'' (BadRequestException ''invalid QR'')
             else if t_qrTokenHash t \<noteq> tokenHash
             then refuse w INVALID_TICKET ''Token hash mismatch'' (BadRequestException ''invalid QR'')
             else let (w1, count) = admit_ticket now (v_ticketId dto) w in
               if count = 0
               then refuse w1 ALREADY_CHECKED_IN
                      (case find_ticket (v_ticketId dto) w1 of
                         Some cur \<Rightarrow> (if t_status cur = CHECKED_IN then ''Ticket already checked in''
                                      else ''Ticket status is '' @ ticket_status_name (t_status cur))
                       | None \<Rightarrow> ''Ticket status is undefined'')
                      (BadRequestException ''already checked in'')
               else bindE (logCheckinAttempt now
                             (verify_params dto staffId (Some (t_concertId t)) CHECKIN_SUCCESS None) w1)
                      (\<lambda>w2 _. (w2, Inr \<lparr>vr_success = True, vr_ticketId = t_id t,
                                       vr_concertId = t_concertId t,
                                       vr_ticketTypeName = ticket_type_name (t_ticketTypeId t) w,
                                       vr_status = CHECKED_IN\<rparr>)))"

section \<open>Offline records\<close>

definition sync_params ::
  "sync_checkin_record \<Rightarrow> id \<Rightarrow> id option \<Rightarrow> CheckinStatus \<Rightarrow> string option \<Rightarrow> bool option \<Rightarrow> checkin_params" where
  "sync_params rec staffId concertId st reason conflict =
     \<lparr>lp_ticketId = Some (s_ticketId rec), lp_staffId = staffId, lp_concertId = concertId,
      lp_deviceId = s_deviceId rec, lp_gate = s_gateId rec,
      lp_offlineEventId = Some (s_offlineEventId rec), lp_status = st, lp_reason = reason,
      lp_isOffline = Some True, lp_conflict = conflict\<rparr>"

definition sync_result ::
  "sync_checkin_record \<Rightarrow> bool \<Rightarrow> CheckinStatus \<Rightarrow> bool \<Rightarrow> sync_message \<Rightarrow> sync_checkin_result" where
  "sync_result rec ok st conflict msg =
     \<lparr>sr_ticketId = s_ticketId rec, sr_offlineEventId = s_offlineEventId rec, sr_success = ok,
      sr_status = st, sr_conflict = conflict, sr_message = msg\<rparr>"

definition processSyncRecord ::
  "crypto \<Rightarrow> string \<Rightarrow> time \<Rightarrow> id \<Rightarrow> sync_checkin_record \<Rightarrow> sync_checkin_result handler" where
  "processSyncRecord C qrSecret now staffId rec w =
     (let tokenHash = hashToken C (s_token rec);
          refuse = (\<lambda>st reason msg.
            bindE (logCheckinAttempt now (sync_params rec staffId None st (Some reason) None) w)
              (\<lambda>w' _. (w', Inr (sync_result rec False st False msg))))
      in case find_event (s_deviceId rec) (s_offlineEventId rec) w of
           Some l \<Rightarrow> (w, Inr (sync_result rec True (l_status l) (l_conflict l) MsgIdempotent))
         | None \<Rightarrow>
        (case find_ticket (s_ticketId rec) w of
           None \<Rightarrow> refuse INVALID_TICKET (''Ticket '' @ s_ticketId rec @ '' not found'') MsgNotFound
         | Some t \<Rightarrow>
             if gate_mismatch (s_gateId rec) (t_gateId t)
             then refuse GATE_MISMATCH
                    (''Offline gate mismatch: ticket assigned to '' @ or_empty (t_gateId t) @
                     '', device at '' @ or_empty (s_gateId rec))
                    (MsgWrongGate (or_empty (t_gateId t)))
             else if signature_mismatch C qrSecret t
             then refuse INVALID_TICKET ''HMAC signature mismatch'' MsgInvalidQr
             else if t_qrTokenHash t \<noteq> tokenHash
             then refuse INVALID_TICKET ''Token hash mismatch'' MsgInvalidQr
             else let (w1, count) = admit_ticket now (s_ticketId rec) w in
               if count = 0
               then bindE (logCheckinAttempt now
                             (sync_params rec staffId None REJECTED_CONFLICT
                                (Some ''Ticket already checked in via another device or gate'')
                                (Some True)) w1)
                      (\<lambda>w2 _. (w2, Inr (sync_result rec False REJECTED_CONFLICT True MsgConflict)))
               else bindE (logCheckinAttempt now
                             (sync_params rec staffId (Some (t_concertId t)) CHECKIN_SUCCESS None None) w1)
                      (\<lambda>w2 _. (w2, Inr (sync_result rec True CHECKIN_SUCCESS False MsgCheckedIn)))))"

text \<open>The loop over the records, with the counters and results so far.\<close>

fun sync_loop ::
  "crypto \<Rightarrow> string \<Rightarrow> time \<Rightarrow> id \<Rightarrow> sync_checkin_record list \<Rightarrow> sync_checkin_response \<Rightarrow>
   sync_checkin_response handler" where
  "sync_loop C qrSecret now staffId [] acc w = (w, Inr acc)"
| "sync_loop C qrSecret now staffId (rec # recs) acc w =
     bindE (processSyncRecord C qrSecret now staffId rec w) (\<lambda>w' res.
       let acc1 = acc\<lparr>sy_results := sy_results acc @ [res]\<rparr>;
           acc2 = (if sr_success res \<and> \<not> sr_conflict res then acc1\<lparr>sy_success := Suc (sy_success acc1)\<rparr>
                   else if sr_conflict res then acc1\<lparr>sy_conflicts := Suc (sy_conflicts acc1)\<rparr>
                   else acc1\<lparr>sy_failed := Suc (sy_failed acc1)\<rparr>)
       in sync_loop C qrSecret now staffId recs acc2 w')"

definition syncCheckin ::
  "crypto \<Rightarrow> string \<Rightarrow> time \<Rightarrow> sync_checkin_record list \<Rightarrow> id \<Rightarrow> sync_checkin_response handler" where
  "syncCheckin C qrSecret now recs staffId w =
     sync_loop C qrSecret now staffId recs
       \<lparr>sy_total = length recs, sy_success = 0, sy_failed = 0, sy_conflicts = 0, sy_results = []\<rparr> w"

end
