(* ===== verification/Checkin_Properties.thy ===== *)
theory Checkin_Properties
  imports Checkin
begin

text \<open>
  What the check-in service guarantees: which scans are admitted, that a ticket is admitted
  once however online checks and uploads interleave, what a repeated upload returns, and how a
  record of an unknown ticket stops a batch.
\<close>

section \<open>Log and tickets\<close>

lemma find_ticket_admit:
  "find_ticket j (fst (admit_ticket now i w)) = None \<longleftrightarrow> find_ticket j w = None"
  by (simp add: admit_ticket_def find_ticket_def find_row_update_where)

lemma find_event_admit [simp]:
  "find_event d ev (fst (admit_ticket now i w)) = find_event d ev w"
  by (simp add: admit_ticket_def find_event_def)

lemma log_row_simps [simp]:
  "l_status (log_row now p) = lp_status p" "l_ticketId (log_row now p) = lp_ticketId p"
  "event_key (log_row now p) = (lp_deviceId p, lp_offlineEventId p)"
  "l_conflict (log_row now p) = is_true (lp_conflict p)"
  by (simp_all add: log_row_def event_key_def)

lemma verify_params_simps [simp]:
  "lp_status (verify_params dto u c st rsn) = st"
  "lp_ticketId (verify_params dto u c st rsn) = Some (v_ticketId dto)"
  "lp_offlineEventId (verify_params dto u c st rsn) = None"
  by (simp_all add: verify_params_def)

lemma sync_params_simps [simp]:
  "lp_status (sync_params rec u c st rsn b) = st"
  "lp_ticketId (sync_params rec u c st rsn b) = Some (s_ticketId rec)"
  "lp_offlineEventId (sync_params rec u c st rsn b) = Some (s_offlineEventId rec)"
  "lp_deviceId (sync_params rec u c st rsn b) = s_deviceId rec"
  "lp_conflict (sync_params rec u c st rsn b) = b"
  by (simp_all add: sync_params_def)

lemma refused_not_Inr [simp]: "snd (bindE m (\<lambda>w' _. (w', Inl e))) \<noteq> Inr r"
  by (cases m; cases "snd m") auto

lemma log_ok:
  assumes "lp_ticketId p = Some i" and "find_ticket i w \<noteq> None"
    and "\<And>ev. lp_offlineEventId p = Some ev \<Longrightarrow> find_event (lp_deviceId p) ev w = None"
  shows "logCheckinAttempt now p w = (w\<lparr>checkinLogs := checkinLogs w @ [log_row now p]\<rparr>, Inr ())"
  using assms by (auto simp: logCheckinAttempt_def split: option.splits)

lemma log_cases:
  "logCheckinAttempt now p w = (w\<lparr>checkinLogs := checkinLogs w @ [log_row now p]\<rparr>, Inr ()) \<or>
   (\<exists>e. logCheckinAttempt now p w = (w, Inl e))"
  by (auto simp: logCheckinAttempt_def split: option.splits)

lemma admit_found:
  assumes "unique_key t_id (tickets w)" and "find_ticket i w = Some t"
  shows "snd (admit_ticket now i w) = (if t_status t = ISSUED then 1 else 0)"
    and "find_ticket i (fst (admit_ticket now i w)) =
      Some (if t_status t = ISSUED then t\<lparr>t_status := CHECKED_IN, t_checkedInAt := Some now\<rparr> else t)"
proof -
  have t: "t \<in> set (tickets w)" "t_id t = i"
    using find_row_SomeD [of t_id i "tickets w" t] assms(2) by (simp_all add: find_ticket_def)
  show "snd (admit_ticket now i w) = (if t_status t = ISSUED then 1 else 0)"
    using count_where_unique_key [OF assms(1) t(1), of "\<lambda>x. t_status x = ISSUED"] t(2)
    by (simp add: admit_ticket_def)
  show "find_ticket i (fst (admit_ticket now i w)) =
      Some (if t_status t = ISSUED then t\<lparr>t_status := CHECKED_IN, t_checkedInAt := Some now\<rparr> else t)"
    using assms(2) t(2) by (simp add: admit_ticket_def find_ticket_def find_row_update_where)
qed

text \<open>The four checks that a scan has to pass before the ticket is touched.\<close>

definition credentials_ok :: "crypto \<Rightarrow> string \<Rightarrow> string option \<Rightarrow> string \<Rightarrow> ticket \<Rightarrow> bool" where
  "credentials_ok C qrSecret device token t \<longleftrightarrow>
     \<not> gate_mismatch device (t_gateId t) \<and> \<not> signature_mismatch C qrSecret t \<and>
     t_qrTokenHash t = sha256 C token"

lemma verify_unknown:
  "find_ticket (v_ticketId dto) w = None \<Longrightarrow>
   verifyAndCheckin C qrSecret now dto staffId w = (w, Inl (ForeignKeyViolation ''CheckinLog''))"
  by (simp add: verifyAndCheckin_def logCheckinAttempt_def verify_params_def)

lemma verify_admits:
  assumes "unique_key t_id (tickets w)" and "find_ticket (v_ticketId dto) w = Some t"
    and "credentials_ok C qrSecret (v_gateId dto) (v_token dto) t" and "t_status t = ISSUED"
  shows "verifyAndCheckin C qrSecret now dto staffId w =
    ((fst (admit_ticket now (v_ticketId dto) w))\<lparr>checkinLogs := checkinLogs w @
       [log_row now (verify_params dto staffId (Some (t_concertId t)) CHECKIN_SUCCESS None)]\<rparr>,
     Inr \<lparr>vr_success = True, vr_ticketId = t_id t, vr_concertId = t_concertId t,
          vr_ticketTypeName = ticket_type_name (t_ticketTypeId t) w, vr_status = CHECKED_IN\<rparr>)"
proof -
  let ?p = "verify_params dto staffId (Some (t_concertId t)) CHECKIN_SUCCESS None"
  obtain w1 n where admit: "admit_ticket now (v_ticketId dto) w = (w1, n)"
    by (cases "admit_ticket now (v_ticketId dto) w")
  have n: "n = 1" and found: "find_ticket (v_ticketId dto) w1 \<noteq> None"
    using admit_found [OF assms(1,2), of now] assms(4) admit by simp_all
  have "logCheckinAttempt now ?p w1 = (w1\<lparr>checkinLogs := checkinLogs w1 @ [log_row now ?p]\<rparr>, Inr ())"
    using found by (intro log_ok) (simp_all add: verify_params_def)
  moreover have "checkinLogs w1 = checkinLogs w" using admit by (auto simp: admit_ticket_def)
  ultimately show ?thesis
    using assms(2,3) admit n
    by (simp add: verifyAndCheckin_def Let_def credentials_ok_def hashToken_def)
qed

lemma verify_used:
  assumes "unique_key t_id (tickets w)" and "find_ticket (v_ticketId dto) w = Some t"
    and "t_status t \<noteq> ISSUED"
  shows "\<exists>w' e. verifyAndCheckin C qrSecret now dto staffId w = (w', Inl e)"
  using assms admit_found [OF assms(1,2), of now]
  by (auto simp: verifyAndCheckin_def Let_def bindE_def split: prod.splits sum.splits)

lemma refuse_Inl: "\<exists>w' e. bindE m (\<lambda>w' _. (w', Inl x)) = (w', Inl e)"
  by (cases m; cases "snd m") auto

lemma verify_bad:
  assumes "find_ticket (v_ticketId dto) w = Some t"
    and "\<not> credentials_ok C qrSecret (v_gateId dto) (v_token dto) t"
  shows "\<exists>w' e. verifyAndCheckin C qrSecret now dto staffId w = (w', Inl e)"
  using assms by (auto simp: verifyAndCheckin_def credentials_ok_def hashToken_def Let_def refuse_Inl)

text \<open>A refused online check leaves the tickets alone.\<close>

lemma admit_zero: "snd (admit_ticket now i w) = 0 \<Longrightarrow> fst (admit_ticket now i w) = w"
proof -
  assume "snd (admit_ticket now i w) = 0"
  then have "\<And>t. t \<in> set (tickets w) \<Longrightarrow> \<not> (t_id t = i \<and> t_status t = ISSUED)"
    by (auto simp: admit_ticket_def count_where_def filter_empty_conv)
  then have "update_where (\<lambda>t. t_id t = i \<and> t_status t = ISSUED)
      (\<lambda>t. t\<lparr>t_status := CHECKED_IN, t_checkedInAt := Some now\<rparr>) (tickets w) = tickets w"
    by (rule update_where_None)
  then show ?thesis by (simp add: admit_ticket_def)
qed

text \<open>The three ways in which a scan, online or uploaded, acts on the state.\<close>

inductive scan_step :: "time \<Rightarrow> id \<Rightarrow> world \<Rightarrow> bool \<Rightarrow> world \<Rightarrow> bool" for now i where
  silent: "scan_step now i w False w"
| logged: "lp_status p \<noteq> CHECKIN_SUCCESS \<Longrightarrow>
     scan_step now i w False (w\<lparr>checkinLogs := checkinLogs w @ [log_row now p]\<rparr>)"
| admitted: "admit_ticket now i w = (w1, n) \<Longrightarrow> n \<noteq> 0 \<Longrightarrow> lp_status p = CHECKIN_SUCCESS \<Longrightarrow>
     lp_ticketId p = Some i \<Longrightarrow>
     scan_step now i w True (w1\<lparr>checkinLogs := checkinLogs w1 @ [log_row now p]\<rparr>)"

inductive_cases scan_stepE: "scan_step now i w b w'"

lemma scan_step_refuse:
  assumes "lp_status p \<noteq> CHECKIN_SUCCESS"
  shows "scan_step now i w False (fst (bindE (logCheckinAttempt now p w) (\<lambda>w' _. (w', r))))"
  using log_cases [of now p w] assms
  by (auto intro: scan_step.silent scan_step.logged)

lemma admit_log_found:
  assumes "admit_ticket now i w = (w1, n)" and "n \<noteq> 0" and "lp_ticketId p = Some i"
    and "\<And>ev. lp_offlineEventId p = Some ev \<Longrightarrow> find_event (lp_deviceId p) ev w = None"
  shows "logCheckinAttempt now p w1 = (w1\<lparr>checkinLogs := checkinLogs w1 @ [log_row now p]\<rparr>, Inr ())"
proof (rule log_ok [OF assms(3)])
  have "\<exists>t \<in> set (tickets w). t_id t = i"
    using assms(1,2) by (auto simp: admit_ticket_def count_where_def filter_empty_conv)
  then have "find_ticket i w \<noteq> None" by (auto simp: find_ticket_def find_row_None_iff)
  then show "find_ticket i w1 \<noteq> None"
    using find_ticket_admit [of i now i w] assms(1) by simp
  show "find_event (lp_deviceId p) ev w1 = None" if "lp_offlineEventId p = Some ev" for ev
    using assms(4) [OF that] find_event_admit [of "lp_deviceId p" ev now i w] assms(1) by simp
qed

lemma verify_scan_step:
  "scan_step now (v_ticketId dto) w (\<exists>r. snd (verifyAndCheckin C qrSecret now dto staffId w) = Inr r)
     (fst (verifyAndCheckin C qrSecret now dto staffId w))"
proof -
  let ?i = "v_ticketId dto"
  obtain w1 n where admit: "admit_ticket now ?i w = (w1, n)" by (cases "admit_ticket now ?i w")
  have w1: "w1 = w" if "n = 0" using admit_zero [of now ?i w] admit that by simp
  show ?thesis
  proof (cases "find_ticket ?i w")
    case None
    then show ?thesis by (simp add: verify_unknown scan_step.silent)
  next
    case (Some t)
    let ?p = "verify_params dto staffId (Some (t_concertId t)) CHECKIN_SUCCESS None"
    have "logCheckinAttempt now ?p w1 = (w1\<lparr>checkinLogs := checkinLogs w1 @ [log_row now ?p]\<rparr>, Inr ())"
      if "n \<noteq> 0"
      using admit that by (rule admit_log_found) simp_all
    moreover have "scan_step now ?i w True (w1\<lparr>checkinLogs := checkinLogs w1 @ [log_row now ?p]\<rparr>)"
      if "n \<noteq> 0"
      using admit that by (rule scan_step.admitted) simp_all
    ultimately show ?thesis
      using Some admit w1
      by (simp add: verifyAndCheckin_def Let_def scan_step_refuse)
  qed
qed


lemma refused_not_checked_in [simp]:
  "sr_message res \<noteq> MsgCheckedIn \<Longrightarrow>
   \<not> (\<exists>r. snd (bindE m (\<lambda>w' _. (w', Inr res))) = Inr r \<and> sr_message r = MsgCheckedIn)"
  by (cases m; cases "snd m") auto

lemma sync_result_simps [simp]:
  "sr_message (sync_result rec ok st c msg) = msg" "sr_status (sync_result rec ok st c msg) = st"
  "sr_success (sync_result rec ok st c msg) = ok" "sr_conflict (sync_result rec ok st c msg) = c"
  by (simp_all add: sync_result_def)

lemma sync_scan_step:
  "scan_step now (s_ticketId rec) w
     (\<exists>r. snd (processSyncRecord C qrSecret now staffId rec w) = Inr r \<and> sr_message r = MsgCheckedIn)
     (fst (processSyncRecord C qrSecret now staffId rec w))"
proof (cases "find_event (s_deviceId rec) (s_offlineEventId rec) w")
  case (Some l)
  then show ?thesis by (simp add: processSyncRecord_def scan_step.silent)
next
  case None
  let ?i = "s_ticketId rec"
  have refuse: "scan_step now ?i w
      (\<exists>r. snd (bindE (logCheckinAttempt now p w) (\<lambda>w' _. (w', Inr res))) = Inr r \<and> sr_message r = MsgCheckedIn)
      (fst (bindE (logCheckinAttempt now p w) (\<lambda>w' _. (w', Inr res))))"
    if "lp_status p \<noteq> CHECKIN_SUCCESS" "sr_message res \<noteq> MsgCheckedIn" for p res
    by (simp only: refused_not_checked_in [OF that(2)] scan_step_refuse [OF that(1)])
  obtain w1 n where admit: "admit_ticket now ?i w = (w1, n)" by (cases "admit_ticket now ?i w")
  have w1: "w1 = w" if "n = 0" using admit_zero [of now ?i w] admit that by simp
  show ?thesis
  proof (cases "find_ticket ?i w")
    case None
    then show ?thesis
      using \<open>find_event (s_deviceId rec) (s_offlineEventId rec) w = None\<close>
      by (simp add: processSyncRecord_def Let_def refuse scan_step_refuse)
  next
    case (Some t)
    let ?p = "sync_params rec staffId (Some (t_concertId t)) CHECKIN_SUCCESS None None"
    have "logCheckinAttempt now ?p w1 = (w1\<lparr>checkinLogs := checkinLogs w1 @ [log_row now ?p]\<rparr>, Inr ())"
      if "n \<noteq> 0"
      using admit that by (rule admit_log_found) (use None in simp_all)
    moreover have "scan_step now ?i w True (w1\<lparr>checkinLogs := checkinLogs w1 @ [log_row now ?p]\<rparr>)"
      if "n \<noteq> 0"
      using admit that by (rule scan_step.admitted) simp_all
    ultimately show ?thesis
      using None Some admit w1
      by (simp add: processSyncRecord_def Let_def refuse scan_step_refuse)
  qed
qed

section \<open>The check-in interface\<close>

datatype scan_op =
    Online time verify_ticket_dto id
  | Upload time sync_checkin_record id

datatype scan_reply =
    OnlineReply "exn + verify_ticket_response"
  | UploadReply "exn + sync_checkin_result"

fun run_scan :: "crypto \<Rightarrow> string \<Rightarrow> scan_op \<Rightarrow> world \<Rightarrow> world \<times> scan_reply" where
  "run_scan C qrSecret (Online now dto staffId) w =
     (let (w', r) = verifyAndCheckin C qrSecret now dto staffId w in (w', OnlineReply r))"
| "run_scan C qrSecret (Upload now rec staffId) w =
     (let (w', r) = processSyncRecord C qrSecret now staffId rec w in (w', UploadReply r))"

fun scan_ticket :: "scan_op \<Rightarrow> id" where
  "scan_ticket (Online now dto staffId) = v_ticketId dto"
| "scan_ticket (Upload now rec staffId) = s_ticketId rec"

fun scan_time :: "scan_op \<Rightarrow> time" where
  "scan_time (Online now dto staffId) = now"
| "scan_time (Upload now rec staffId) = now"

fun reply_admits :: "scan_reply \<Rightarrow> bool" where
  "reply_admits (OnlineReply (Inr _)) = True"
| "reply_admits (UploadReply (Inr r)) = (sr_message r = MsgCheckedIn)"
| "reply_admits _ = False"

fun_cases reply_admitsE: "reply_admits r"

definition not_issued :: "id \<Rightarrow> world \<Rightarrow> bool" where
  "not_issued i w \<longleftrightarrow> (\<forall>t \<in> set (tickets w). t_id t = i \<longrightarrow> t_status t \<noteq> ISSUED)"

text \<open>A ticket has at most one SUCCESS row, and none as long as it is ISSUED.\<close>

definition success_logs :: "id \<Rightarrow> world \<Rightarrow> nat" where
  "success_logs i w =
     count_where (\<lambda>l. l_ticketId l = Some i \<and> l_status l = CHECKIN_SUCCESS) (checkinLogs w)"

definition log_sound :: "world \<Rightarrow> bool" where
  "log_sound w \<longleftrightarrow> (\<forall>i. success_logs i w \<le> (if not_issued i w then 1 else 0))"

lemma run_scan_step:
  "scan_step (scan_time x) (scan_ticket x) w (reply_admits (snd (run_scan C qrSecret x w)))
     (fst (run_scan C qrSecret x w))"
proof (cases x)
  case (Online now dto staffId)
  have "reply_admits (OnlineReply r) = (\<exists>v. r = Inr v)" for r by (cases r) auto
  then show ?thesis
    using verify_scan_step [of now dto w C qrSecret staffId] Online by (simp add: split_def Let_def)
next
  case (Upload now rec staffId)
  have "reply_admits (UploadReply r) = (\<exists>v. r = Inr v \<and> sr_message v = MsgCheckedIn)" for r
    by (cases r) auto
  then show ?thesis
    using sync_scan_step [of now rec w C qrSecret staffId] Upload by (simp add: split_def Let_def)
qed

lemma admit_closed_iff:
  "not_issued k (fst (admit_ticket now i w)) \<longleftrightarrow> k = i \<or> not_issued k w"
proof -
  have "t_status (if t_id t = i \<and> t_status t = ISSUED
      then t\<lparr>t_status := CHECKED_IN, t_checkedInAt := Some now\<rparr> else t) \<noteq> ISSUED \<longleftrightarrow>
      t_id t = i \<or> t_status t \<noteq> ISSUED" for t
    by auto
  then show ?thesis
    by (auto simp: admit_ticket_def not_issued_def set_update_where)
qed

lemma admit_closes: "admit_ticket now i w = (w1, n) \<Longrightarrow> not_issued i w1"
  using admit_closed_iff [of i now i w] by simp

lemma admit_keeps_closed: "admit_ticket now i w = (w1, n) \<Longrightarrow> not_issued k w \<Longrightarrow> not_issued k w1"
  using admit_closed_iff [of k now i w] by simp

lemma admit_open:
  assumes "admit_ticket now i w = (w1, n)" and "n \<noteq> 0"
  shows "\<not> not_issued i w"
proof -
  have "filter (\<lambda>t. t_id t = i \<and> t_status t = ISSUED) (tickets w) \<noteq> []"
    using assms by (auto simp: admit_ticket_def count_where_def)
  then show ?thesis by (auto simp: not_issued_def filter_empty_conv)
qed

lemma not_issued_logs [simp]: "not_issued i (w\<lparr>checkinLogs := ls\<rparr>) = not_issued i w"
  by (simp add: not_issued_def)

lemma success_logs_append:
  "success_logs k (w\<lparr>checkinLogs := checkinLogs w @ [log_row now p]\<rparr>) =
     success_logs k w + (if lp_ticketId p = Some k \<and> lp_status p = CHECKIN_SUCCESS then 1 else 0)"
  by (simp add: success_logs_def)

lemma scan_step_closed: "scan_step now i w b w' \<Longrightarrow> not_issued k w \<Longrightarrow> not_issued k w'"
  by (elim scan_stepE) (auto dest: admit_keeps_closed)

lemma scan_step_opens: "scan_step now i w True w' \<Longrightarrow> \<not> not_issued i w \<and> not_issued i w'"
  by (elim scan_stepE) (auto dest: admit_closes admit_open)

lemma scan_step_log_sound:
  assumes "scan_step now i w b w'" and "log_sound w"
  shows "log_sound w'"
  using assms(1)
proof cases
  case silent
  then show ?thesis using assms(2) by simp
next
  case (logged p)
  then show ?thesis using assms(2) by (simp add: log_sound_def success_logs_append)
next
  case (admitted w1 n p)
  have same: "success_logs k w1 = success_logs k w" for k
    using admitted by (auto simp: success_logs_def admit_ticket_def)
  have "success_logs k w' \<le> (if not_issued k w' then 1 else 0)" for k
  proof (cases "k = i")
    case True
    have "\<not> not_issued i w" using admitted admit_open by blast
    then have "success_logs i w = 0" using assms(2) unfolding log_sound_def by (metis le_zero_eq)
    then show ?thesis
      using True admitted same admit_closes by (simp add: success_logs_append)
  next
    case False
    have "success_logs k w \<le> (if not_issued k w then 1 else 0)"
      using assms(2) unfolding log_sound_def by blast
    moreover have "not_issued k w \<Longrightarrow> not_issued k w1" using admitted admit_keeps_closed by blast
    ultimately show ?thesis
      using False admitted same by (simp add: success_logs_append split: if_splits)
  qed
  then show ?thesis unfolding log_sound_def by blast
qed

interpretation checkin: at_most_once "run_scan C qrSecret" "\<lambda>_. True" log_sound scan_ticket
    reply_admits not_issued for C qrSecret
proof unfold_locales
  fix w x k
  show "log_sound w \<Longrightarrow> log_sound (fst (run_scan C qrSecret x w))"
    using run_scan_step by (rule scan_step_log_sound)
  show "reply_admits (snd (run_scan C qrSecret x w)) \<Longrightarrow> \<not> not_issued (scan_ticket x) w"
    and "reply_admits (snd (run_scan C qrSecret x w)) \<Longrightarrow> not_issued (scan_ticket x) (fst (run_scan C qrSecret x w))"
    using run_scan_step [of x w C qrSecret] scan_step_opens by auto
  show "not_issued k w \<Longrightarrow> not_issued k (fst (run_scan C qrSecret x w))"
    using run_scan_step by (rule scan_step_closed)
qed


section \<open>Uploads\<close>

text \<open>A record that was answered is in the log, with the status and the conflict of the answer.\<close>

lemma find_event_logged:
  assumes "logCheckinAttempt now p w = (w', Inr ())" and "lp_offlineEventId p = Some ev"
    and "lp_ticketId p = Some i" and "find_event (lp_deviceId p) ev w = None"
  shows "find_event (lp_deviceId p) ev w' = Some (log_row now p)"
proof -
  have "w' = w\<lparr>checkinLogs := checkinLogs w @ [log_row now p]\<rparr>"
    using log_cases [of now p w] assms(1) by auto
  then show ?thesis using assms(2,4) by (simp add: find_event_def)
qed

lemma processed_record_logged:
  assumes "processSyncRecord C qrSecret now staffId rec w = (w', Inr res)"
  shows "\<exists>l. find_event (s_deviceId rec) (s_offlineEventId rec) w' = Some l \<and>
    l_status l = sr_status res \<and> l_conflict l = sr_conflict res"
proof (cases "find_event (s_deviceId rec) (s_offlineEventId rec) w")
  case (Some l)
  then show ?thesis using assms by (auto simp: processSyncRecord_def)
next
  case None
  have logged: "\<exists>l. find_event (s_deviceId rec) (s_offlineEventId rec) w' = Some l \<and>
      l_status l = sr_status res \<and> l_conflict l = sr_conflict res"
    if "bindE (logCheckinAttempt now (sync_params rec staffId c st rsn b) v)
          (\<lambda>w' _. (w', Inr (sync_result rec ok st (is_true b) msg))) = (w', Inr res)"
      "find_event (s_deviceId rec) (s_offlineEventId rec) v = None" for c st rsn b v ok msg
    using that(1) find_event_logged [of now "sync_params rec staffId c st rsn b" v w'] that(2)
    by (elim bindE_eq_InrE) auto
  have off: "\<not> is_true None" "is_true (Some True)" by (simp_all add: is_true_def)
  show ?thesis
  proof (cases "find_ticket (s_ticketId rec) w")
    case None
    then show ?thesis
      using assms \<open>find_event (s_deviceId rec) (s_offlineEventId rec) w = None\<close> logged [where b = None] off
      by (auto simp: processSyncRecord_def Let_def)
  next
    case (Some t)
    obtain w1 n where admit: "admit_ticket now (s_ticketId rec) w = (w1, n)"
      by (cases "admit_ticket now (s_ticketId rec) w")
    have "find_event (s_deviceId rec) (s_offlineEventId rec) w1 = None"
      using None find_event_admit [of "s_deviceId rec" "s_offlineEventId rec" now "s_ticketId rec" w]
      by (simp add: admit)
    with assms None Some admit off show ?thesis
      using logged [where b = None] logged [where b = "Some True"]
      by (auto simp: processSyncRecord_def Let_def split: if_splits)
  qed
qed

lemma sync_loop_counts:
  "sync_loop C qrSecret now staffId recs acc w = (w', Inr resp) \<Longrightarrow>
   sy_total resp = sy_total acc \<and>
   length (sy_results resp) = length (sy_results acc) + length recs \<and>
   sy_success resp + sy_failed resp + sy_conflicts resp =
     sy_success acc + sy_failed acc + sy_conflicts acc + length recs"
proof (induction recs arbitrary: acc w)
  case Nil
  then show ?case by simp
next
  case (Cons rec recs)
  obtain w1 res where rec: "processSyncRecord C qrSecret now staffId rec w = (w1, Inr res)"
    using Cons.prems by (auto elim: bindE_eq_InrE)
  show ?case
    using Cons.prems Cons.IH [of _ w1] rec by (auto simp: Let_def split: if_splits)
qed

section \<open>Properties\<close>

text \<open>
  C6: A ticket is admitted at most once: in every sequence of online checks and uploaded offline
  records, from any number of devices, at most one call per ticket admits it, and the log ends
  with at most one SUCCESS row for it.
\<close>

theorem ticket_admitted_at_most_once:
  assumes "log_sound w"
  shows "length (filter (\<lambda>(x, r). scan_ticket x = i \<and> reply_admits r)
            (snd (run_ops (run_scan C qrSecret) xs w))) \<le> 1 \<and>
         success_logs i (fst (run_ops (run_scan C qrSecret) xs w)) \<le> 1"
proof -
  have "log_sound (fst (run_ops (run_scan C qrSecret) xs w))"
    using checkin.inv_run [OF assms] by simp
  then have "success_logs i (fst (run_ops (run_scan C qrSecret) xs w)) \<le>
      (if not_issued i (fst (run_ops (run_scan C qrSecret) xs w)) then 1 else 0)"
    unfolding log_sound_def by blast
  then have "success_logs i (fst (run_ops (run_scan C qrSecret) xs w)) \<le> 1"
    by (simp split: if_splits)
  then show ?thesis using checkin.at_most_one_success [OF assms] by simp
qed

definition demo_ticket :: ticket where
  "demo_ticket =
     \<lparr>t_id = ''t0'', t_orderId = ''o1'', t_orderItemId = ''i1'', t_concertId = ''c1'',
      t_ticketTypeId = ''vip'', t_userId = ''alice'', t_gateId = Some ''A'', t_qrRawToken = ''r'',
      t_qrTokenHash = ''hr'', t_qrSignature = Some ''kt0:hr:A'', t_status = ISSUED,
      t_checkedInAt = None, t_createdAt = 0\<rparr>"

definition demo_door :: world where
  "demo_door = empty_world\<lparr>tickets := [demo_ticket]\<rparr>"

definition demo_scan :: "string option \<Rightarrow> verify_ticket_dto" where
  "demo_scan g = \<lparr>v_ticketId = ''t0'', v_token = ''r'', v_deviceId = ''d1'', v_gateId = g\<rparr>"

definition demo_record :: "id \<Rightarrow> string \<Rightarrow> sync_checkin_record" where
  "demo_record i ev =
     \<lparr>s_ticketId = i, s_token = ''r'', s_deviceId = ''d2'', s_gateId = None, s_scannedAt = 0,
      s_offlineEventId = ev\<rparr>"

lemma demo_door_facts [simp]:
  "find_ticket ''t0'' demo_door = Some demo_ticket" "unique_key t_id (tickets demo_door)"
  "find_ticket ''t9'' demo_door = None" "find_event d ev demo_door = None"
  "checkinLogs demo_door = []" "tickets demo_door = [demo_ticket]"
  by (simp_all add: demo_door_def find_ticket_def demo_ticket_def unique_key_def find_event_def
      empty_world_def)

lemma demo_credentials [simp]:
  "credentials_ok demo_crypto ''k'' (Some ''A'') ''r'' demo_ticket"
  "\<not> credentials_ok demo_crypto ''k'' (Some ''B'') ''r'' demo_ticket"
  by (simp_all add: credentials_ok_def demo_ticket_def demo_crypto_def gate_mismatch_def or_empty_def
      signature_mismatch_def recomputeSignature_def)

lemma demo_door_sound: "log_sound demo_door"
  by (simp add: log_sound_def success_logs_def)

theorem ticket_admitted_at_most_once_witness:
  "length (filter (\<lambda>(x, r). scan_ticket x = ''t0'' \<and> reply_admits r)
     (snd (run_ops (run_scan demo_crypto ''k'')
        [Online 5 (demo_scan (Some ''A'')) ''s1'', Upload 6 (demo_record ''t0'' ''e1'') ''s2'',
         Online 7 (demo_scan None) ''s1''] demo_door))) \<le> 1"
  using ticket_admitted_at_most_once [OF demo_door_sound] by blast

text \<open>
  C25: The online check admits exactly the scans that deserve it: the ticket exists and is ISSUED,
  the device stands at its gate (or names none), the stored signature fits the ticket and the
  token hashes to the stored hash.  Then the ticket becomes CHECKED_IN now and a SUCCESS row is
  written; in every other case an error is returned and the tickets stay as they are.
\<close>

theorem verify_admits_exactly_valid_scans:
  assumes "unique_key t_id (tickets w)"
  shows "case verifyAndCheckin C qrSecret now dto staffId w of
      (w', Inr r) \<Rightarrow> \<exists>t. find_ticket (v_ticketId dto) w = Some t \<and>
          credentials_ok C qrSecret (v_gateId dto) (v_token dto) t \<and> t_status t = ISSUED \<and>
          vr_ticketId r = v_ticketId dto \<and>
          find_ticket (v_ticketId dto) w' = Some (t\<lparr>t_status := CHECKED_IN, t_checkedInAt := Some now\<rparr>) \<and>
          success_logs (v_ticketId dto) w' = Suc (success_logs (v_ticketId dto) w)
    | (w', Inl e) \<Rightarrow> tickets w' = tickets w \<and>
          (\<nexists>t. find_ticket (v_ticketId dto) w = Some t \<and>
             credentials_ok C qrSecret (v_gateId dto) (v_token dto) t \<and> t_status t = ISSUED)"
proof (cases "\<exists>t. find_ticket (v_ticketId dto) w = Some t \<and>
    credentials_ok C qrSecret (v_gateId dto) (v_token dto) t \<and> t_status t = ISSUED")
  case True
  then obtain t where t: "find_ticket (v_ticketId dto) w = Some t"
    "credentials_ok C qrSecret (v_gateId dto) (v_token dto) t" "t_status t = ISSUED" by blast
  have "t_id t = v_ticketId dto"
    using find_row_SomeD [of t_id "v_ticketId dto" "tickets w" t] t(1) by (simp add: find_ticket_def)
  moreover have "find_ticket (v_ticketId dto) (w'\<lparr>checkinLogs := ls\<rparr>) = find_ticket (v_ticketId dto) w'" for w' ls
    by (simp add: find_ticket_def)
  ultimately show ?thesis
    using t admit_found(2) [OF assms t(1), of now]
    by (simp add: verify_admits [OF assms t] success_logs_def)
next
  case False
  let ?r = "verifyAndCheckin C qrSecret now dto staffId w"
  have "\<exists>w' e. ?r = (w', Inl e)"
  proof (cases "find_ticket (v_ticketId dto) w")
    case None
    then show ?thesis by (simp add: verify_unknown)
  next
    case (Some t)
    then show ?thesis using False verify_bad [OF Some] verify_used [OF assms Some] by blast
  qed
  then have "\<nexists>r. snd ?r = Inr r" by auto
  moreover have "tickets (fst ?r) = tickets w" if "\<nexists>r. snd ?r = Inr r"
    using verify_scan_step [of now dto w C qrSecret staffId] that
    by (auto elim: scan_stepE)
  ultimately show ?thesis using False
    by (cases ?r; cases "snd ?r") auto
qed

theorem verify_admits_exactly_valid_scans_witness:
  "(\<exists>r. snd (verifyAndCheckin demo_crypto ''k'' 5 (demo_scan (Some ''A'')) ''s1'' demo_door) = Inr r) \<and>
   (\<exists>e. snd (verifyAndCheckin demo_crypto ''k'' 5 (demo_scan (Some ''B'')) ''s1'' demo_door) = Inl e)"
proof
  let ?a = "verifyAndCheckin demo_crypto ''k'' 5 (demo_scan (Some ''A'')) ''s1'' demo_door"
  let ?b = "verifyAndCheckin demo_crypto ''k'' 5 (demo_scan (Some ''B'')) ''s1'' demo_door"
  have issued: "t_status demo_ticket = ISSUED" by (simp add: demo_ticket_def)
  show "\<exists>r. snd ?a = Inr r"
    using verify_admits_exactly_valid_scans [OF demo_door_facts(2), where C = demo_crypto and
        qrSecret = "''k''" and now = 5 and dto = "demo_scan (Some ''A'')" and staffId = "''s1''"] issued
    by (cases ?a; cases "snd ?a") (auto simp: demo_scan_def)
  show "\<exists>e. snd ?b = Inl e"
    using verify_admits_exactly_valid_scans [OF demo_door_facts(2), where C = demo_crypto and
        qrSecret = "''k''" and now = 5 and dto = "demo_scan (Some ''B'')" and staffId = "''s1''"]
    by (cases ?b; cases "snd ?b") (auto simp: demo_scan_def)
qed

text \<open>
  An uploaded record can be sent again safely: once it was answered, a second upload of the
  same device and event changes nothing and reports the logged status.  It reports success even
  when the first answer was a rejection.
\<close>

theorem sync_record_idempotent:
  assumes "processSyncRecord C qrSecret now staffId rec w = (w', Inr res)"
    and "s_deviceId rec' = s_deviceId rec" and "s_offlineEventId rec' = s_offlineEventId rec"
  shows "processSyncRecord C qrSecret now' staffId' rec' w' =
    (w', Inr (sync_result rec' True (sr_status res) (sr_conflict res) MsgIdempotent))"
proof -
  obtain l where "find_event (s_deviceId rec') (s_offlineEventId rec') w' = Some l"
    "l_status l = sr_status res" "l_conflict l = sr_conflict res"
    using processed_record_logged [OF assms(1)] assms(2,3) by auto
  then show ?thesis by (simp add: processSyncRecord_def)
qed

lemma demo_record_processed:
  "\<exists>w' res. processSyncRecord demo_crypto ''k'' 5 ''s1'' (demo_record ''t0'' ''e1'') demo_door = (w', Inr res)"
proof -
  let ?r = "processSyncRecord demo_crypto ''k'' 5 ''s1'' (demo_record ''t0'' ''e1'') demo_door"
  have "\<exists>res. snd ?r = Inr res"
    by (simp add: processSyncRecord_def demo_record_def demo_door_def find_event_def find_ticket_def
        empty_world_def demo_ticket_def gate_mismatch_def signature_mismatch_def recomputeSignature_def
        demo_crypto_def or_empty_def hashToken_def admit_ticket_def logCheckinAttempt_def sync_params_def)
  then show ?thesis by (cases ?r) auto
qed

theorem sync_record_idempotent_witness:
  "\<exists>w' res. processSyncRecord demo_crypto ''k'' 5 ''s1'' (demo_record ''t0'' ''e1'') demo_door = (w', Inr res) \<and>
     processSyncRecord demo_crypto ''k'' 6 ''s1'' (demo_record ''t0'' ''e1'') w' =
       (w', Inr (sync_result (demo_record ''t0'' ''e1'') True (sr_status res) (sr_conflict res) MsgIdempotent))"
  using demo_record_processed sync_record_idempotent [OF _ refl refl] by blast

text \<open>
  The answer to a batch accounts for every record: one result per record in the order of the
  batch, and the three counters add up to their number.
\<close>

theorem sync_batch_counts_add_up:
  assumes "syncCheckin C qrSecret now recs staffId w = (w', Inr resp)"
  shows "sy_total resp = length recs \<and> length (sy_results resp) = length recs \<and>
    sy_success resp + sy_failed resp + sy_conflicts resp = length recs"
  using sync_loop_counts [OF assms [unfolded syncCheckin_def]] by simp

theorem sync_batch_counts_add_up_witness:
  "\<exists>w' resp. syncCheckin demo_crypto ''k'' 5 [demo_record ''t0'' ''e1''] ''s1'' demo_door = (w', Inr resp) \<and>
     sy_success resp + sy_failed resp + sy_conflicts resp = 1"
proof -
  obtain w' resp where run:
    "syncCheckin demo_crypto ''k'' 5 [demo_record ''t0'' ''e1''] ''s1'' demo_door = (w', Inr resp)"
    using demo_record_processed by (auto simp: syncCheckin_def Let_def)
  from sync_batch_counts_add_up [OF run] run show ?thesis by auto
qed

text \<open>
  A record of an unknown ticket cannot even be logged: the foreign key of the log refuses its
  row.  The online check then fails with that database error instead of not found, and a batch
  stops there: the records before it are applied, those after it are dropped, and the caller
  gets an error instead of results.
\<close>

theorem unknown_ticket_stops_batch:
  assumes "find_ticket (s_ticketId rec) w1 = None"
    and "find_event (s_deviceId rec) (s_offlineEventId rec) w1 = None"
    and "syncCheckin C qrSecret now recs1 staffId w = (w1, Inr resp)"
  shows "syncCheckin C qrSecret now (recs1 @ rec # recs2) staffId w =
      (w1, Inl (ForeignKeyViolation ''CheckinLog'')) \<and>
    (v_ticketId dto = s_ticketId rec \<longrightarrow>
      verifyAndCheckin C qrSecret now dto staffId w1 = (w1, Inl (ForeignKeyViolation ''CheckinLog'')))"
proof -
  have poison: "processSyncRecord C qrSecret now staffId rec w1 = (w1, Inl (ForeignKeyViolation ''CheckinLog''))"
    using assms(1,2) by (simp add: processSyncRecord_def Let_def logCheckinAttempt_def)
  have "sync_loop C qrSecret now staffId recs1 acc v = (w1, Inr r) \<Longrightarrow>
      sync_loop C qrSecret now staffId (recs1 @ rec # recs2) acc' v = (w1, Inl (ForeignKeyViolation ''CheckinLog''))"
    for acc acc' v r
  proof (induction recs1 arbitrary: acc acc' v)
    case Nil
    then show ?case using poison by simp
  next
    case (Cons x xs)
    then obtain v' res where x: "processSyncRecord C qrSecret now staffId x v = (v', Inr res)"
      by (auto elim: bindE_eq_InrE)
    with Cons.prems obtain acc2 where "sync_loop C qrSecret now staffId xs acc2 v' = (w1, Inr r)"
      by (auto simp: Let_def)
    from Cons.IH [OF this] x show ?case by (simp add: Let_def)
  qed
  then show ?thesis
    using assms(1,3) verify_unknown [of dto w1] unfolding syncCheckin_def by auto
qed

theorem unknown_ticket_stops_batch_witness:
  "syncCheckin demo_crypto ''k'' 5 ([] @ demo_record ''t9'' ''e1'' # [demo_record ''t0'' ''e2'']) ''s1'' demo_door =
     (demo_door, Inl (ForeignKeyViolation ''CheckinLog''))"
  by (rule unknown_ticket_stops_batch [THEN conjunct1]) (simp_all add: demo_record_def syncCheckin_def)


lemma demo_issue_columns:
  "map (\<lambda>t. (t_id t, t_qrRawToken t, t_gateId t, t_orderId t))
     (tickets (fst (process_issue demo_crypto (demo_ticket_env ''t'') 2000 ''o1'' demo_paid))) =
   [(''t0'', ''rt0'', Some ''A'', ''o1''), (''t1'', ''rt1'', Some ''B'', ''o1'')]"
  by code_simp


end
