(* ===== verification/Gate_Service.thy ===== *)
theory Gate_Service
  imports Checkin_Properties
begin

text \<open>
  \<open>gate.service.ts\<close>: the gates of a concert, their listing with ticket counts, creation,
  renaming and removal, and the rebalancing of issued tickets over the gates.

  \<^item> A ticket stores the name of its gate, so renaming and removal rewrite tickets and sign
    them anew.  The code selects those tickets by the gate name alone, of whatever concert.
  \<^item> Names are ordered as strings; tickets of the same creation time are in table order.
    The user table is the argument \<open>emailOf\<close>; the notifications of a rebalancing are part of
    its result, as a failed mail is only logged.
\<close>

record gate_response =
  gr_id :: id
  gr_name :: string
  gr_concertId :: id
  gr_ticketCount :: nat
  gr_createdAt :: time

definition gate_key :: "gate \<Rightarrow> id \<times> string" where
  "gate_key g = (g_concertId g, g_name g)"

definition find_gate :: "id \<Rightarrow> world \<Rightarrow> gate option" where
  "find_gate i w = find_row g_id i (gates w)"

definition find_gate_named :: "id \<Rightarrow> string \<Rightarrow> world \<Rightarrow> gate option" where
  "find_gate_named concertId name w = find_row gate_key (concertId, name) (gates w)"

definition sorted_gates :: "(gate \<Rightarrow> bool) \<Rightarrow> world \<Rightarrow> gate list" where
  "sorted_gates p w = sort_key g_name (filter p (gates w))"

definition tickets_at :: "id \<Rightarrow> string \<Rightarrow> world \<Rightarrow> nat" where
  "tickets_at concertId name w =
     count_where (\<lambda>t. t_concertId t = concertId \<and> t_gateId t = Some name) (tickets w)"

definition tickets_named :: "string \<Rightarrow> world \<Rightarrow> ticket list" where
  "tickets_named name w = filter (\<lambda>t. t_gateId t = Some name) (tickets w)"

definition gate_list :: "id \<Rightarrow> world \<Rightarrow> gate_response list" where
  "gate_list concertId w =
     map (\<lambda>g. \<lparr>gr_id = g_id g, gr_name = g_name g, gr_concertId = g_concertId g,
               gr_ticketCount = tickets_at concertId (g_name g) w, gr_createdAt = g_createdAt g\<rparr>)
       (sorted_gates (\<lambda>g. g_concertId g = concertId) w)"

section \<open>Creation\<close>

definition insert_gate :: "gate \<Rightarrow> unit handler" where
  "insert_gate g w =
     (if find_concert (g_concertId g) w = None then (w, Inl (ForeignKeyViolation ''Gate''))
      else if find_gate (g_id g) w \<noteq> None \<or> find_gate_named (g_concertId g) (g_name g) w \<noteq> None
      then (w, Inl (UniqueViolation ''Gate''))
      else (w\<lparr>gates := gates w @ [g]\<rparr>, Inr ()))"

definition gate_create :: "time \<Rightarrow> id \<Rightarrow> id \<Rightarrow> string \<Rightarrow> gate_response handler" where
  "gate_create now newId concertId name w =
     (if find_gate_named concertId name w \<noteq> None then (w, Inl (ConflictException ''gate exists''))
      else let g = \<lparr>g_id = newId, g_name = name, g_concertId = concertId, g_createdAt = now\<rparr>
        in bindE (insert_gate g w) (\<lambda>w' _.
             (w', Inr \<lparr>gr_id = g_id g, gr_name = g_name g, gr_concertId = g_concertId g,
                      gr_ticketCount = 0, gr_createdAt = g_createdAt g\<rparr>)))"

section \<open>Moving tickets to a gate name\<close>

definition retarget :: "crypto \<Rightarrow> string \<Rightarrow> string \<Rightarrow> ticket \<Rightarrow> ticket \<Rightarrow> ticket" where
  "retarget C qrSecret name t x =
     x\<lparr>t_gateId := Some name,
       t_qrSignature := Some (signature_of C qrSecret (t_id t) (t_qrTokenHash t) name)\<rparr>"

definition update_ticket :: "id \<Rightarrow> (ticket \<Rightarrow> ticket) \<Rightarrow> unit handler" where
  "update_ticket i f w =
     (case find_ticket i w of
        None \<Rightarrow> (w, Inl (RecordNotFound ''Ticket''))
      | Some _ \<Rightarrow> (w\<lparr>tickets := update_where (\<lambda>t. t_id t = i) f (tickets w)\<rparr>, Inr ()))"

definition move_tickets :: "crypto \<Rightarrow> string \<Rightarrow> string \<Rightarrow> ticket list \<Rightarrow> unit handler" where
  "move_tickets C qrSecret name targets =
     transaction (forE targets (\<lambda>t. update_ticket (t_id t) (retarget C qrSecret name t)))"

section \<open>Renaming\<close>

definition update_gate :: "id \<Rightarrow> string option \<Rightarrow> gate handler" where
  "update_gate i name w =
     (case find_gate i w of
        None \<Rightarrow> (w, Inl (RecordNotFound ''Gate''))
      | Some g \<Rightarrow>
          let n = (case name of None \<Rightarrow> g_name g | Some n \<Rightarrow> n) in
          if n \<noteq> g_name g \<and> find_gate_named (g_concertId g) n w \<noteq> None
          then (w, Inl (UniqueViolation ''Gate''))
          else (w\<lparr>gates := update_where (\<lambda>x. g_id x = i) (\<lambda>x. x\<lparr>g_name := n\<rparr>) (gates w)\<rparr>,
                Inr (g\<lparr>g_name := n\<rparr>)))"

definition renames :: "string option \<Rightarrow> string \<Rightarrow> bool" where
  "renames name oldName \<longleftrightarrow> (case name of None \<Rightarrow> False | Some n \<Rightarrow> n \<noteq> [] \<and> n \<noteq> oldName)"

definition gate_update ::
  "crypto \<Rightarrow> string \<Rightarrow> id \<Rightarrow> string option \<Rightarrow> gate_response handler" where
  "gate_update C qrSecret gateId name w =
     (case find_gate gateId w of
        None \<Rightarrow> (w, Inl (NotFoundException ''gate''))
      | Some g \<Rightarrow>
          if renames name (g_name g) \<and> find_gate_named (g_concertId g) (the name) w \<noteq> None
          then (w, Inl (ConflictException ''gate exists''))
          else bindE (update_gate gateId name w) (\<lambda>w1 upd.
            bindE (if renames name (g_name g) \<and> tickets_named (g_name g) w1 \<noteq> []
                   then move_tickets C qrSecret (the name) (tickets_named (g_name g) w1) w1
                   else (w1, Inr ())) (\<lambda>w2 _.
              (w2, Inr \<lparr>gr_id = g_id upd, gr_name = g_name upd, gr_concertId = g_concertId upd,
                       gr_ticketCount = length (tickets_named (g_name upd) w2),
                       gr_createdAt = g_createdAt upd\<rparr>))))"

section \<open>Removal\<close>

definition delete_gate :: "id \<Rightarrow> unit handler" where
  "delete_gate i w =
     (case find_gate i w of
        None \<Rightarrow> (w, Inl (RecordNotFound ''Gate''))
      | Some _ \<Rightarrow> (w\<lparr>gates := delete_where (\<lambda>g. g_id g = i) (gates w)\<rparr>, Inr ()))"

definition gate_remove :: "crypto \<Rightarrow> string \<Rightarrow> id \<Rightarrow> unit handler" where
  "gate_remove C qrSecret gateId w =
     (case find_gate gateId w of
        None \<Rightarrow> (w, Inl (NotFoundException ''gate''))
      | Some g \<Rightarrow>
          bindE (if tickets_named (g_name g) w \<noteq> []
                 then (case sorted_gates (\<lambda>x. g_concertId x = g_concertId g \<and> g_id x \<noteq> gateId) w of
                         [] \<Rightarrow> (w, Inl (BadRequestException ''last gate with tickets''))
                       | h # _ \<Rightarrow> move_tickets C qrSecret (g_name h) (tickets_named (g_name g) w) w)
                 else (w, Inr ()))
            (\<lambda>w1 _. delete_gate gateId w1))"

section \<open>Rebalancing\<close>

record gate_move =
  gm_id :: id
  gm_userId :: id
  gm_oldGateName :: string
  gm_newGateName :: string

record gate_mail =
  ma_to :: string
  ma_concertTitle :: string
  ma_tickets :: "(id \<times> string \<times> string) list" \<comment> \<open>ticket, raw token, gate\<close>

record rebalance_response =
  rb_totalTicketsUpdated :: nat
  rb_gates :: "(id \<times> string \<times> nat) list"
  rb_mails :: "gate_mail list"

definition rebalance_tickets :: "id \<Rightarrow> world \<Rightarrow> ticket list" where
  "rebalance_tickets concertId w =
     sort_key t_createdAt (filter (\<lambda>t. t_concertId t = concertId \<and> t_status t = ISSUED) (tickets w))"

text \<open>The round robin: \<open>i\<close> is the index of the next ticket.\<close>

fun plan_moves :: "gate list \<Rightarrow> nat \<Rightarrow> ticket list \<Rightarrow> world \<Rightarrow> gate_move list" where
  "plan_moves gs i [] w = []"
| "plan_moves gs i (t # ts) w =
     (let newGate = gs ! (i mod length gs);
          current = find_ticket (t_id t) w
      in if Option.bind current t_gateId = Some (g_name newGate) then plan_moves gs (Suc i) ts w
         else \<lparr>gm_id = t_id t,
               gm_userId = (case current of None \<Rightarrow> t_userId t | Some c \<Rightarrow> t_userId c),
               gm_oldGateName = or_empty (Option.bind current t_gateId),
               gm_newGateName = g_name newGate\<rparr> # plan_moves gs (Suc i) ts w)"

definition apply_move :: "crypto \<Rightarrow> string \<Rightarrow> gate_move \<Rightarrow> unit handler" where
  "apply_move C qrSecret m w =
     (case find_ticket (gm_id m) w of
        None \<Rightarrow> (w, Inr ())
      | Some t \<Rightarrow> update_ticket (gm_id m) (retarget C qrSecret (gm_newGateName m) t) w)"

text \<open>The users in the order in which their tickets first appear.\<close>

definition rebalance_mails ::
  "(id \<Rightarrow> string option) \<Rightarrow> string \<Rightarrow> gate_move list \<Rightarrow> world \<Rightarrow> gate_mail list" where
  "rebalance_mails emailOf title moves w =
     (let moved = filter (\<lambda>t. t_id t \<in> gm_id ` set moves) (tickets w)
      in concat (map (\<lambda>u. case (if u \<in> gm_userId ` set moves then emailOf u else None) of
                   None \<Rightarrow> []
                 | Some email \<Rightarrow>
                     [\<lparr>ma_to = email, ma_concertTitle = title,
                       ma_tickets = map (\<lambda>t. (t_id t, t_qrRawToken t, or_empty (t_gateId t)))
                         (filter (\<lambda>t. t_userId t = u) moved)\<rparr>])
           (rev (remdups (rev (map t_userId moved))))))"

definition gate_rebalance ::
  "crypto \<Rightarrow> string \<Rightarrow> (id \<Rightarrow> string option) \<Rightarrow> id \<Rightarrow> rebalance_response handler" where
  "gate_rebalance C qrSecret emailOf concertId w =
     (case find_concert concertId w of
        None \<Rightarrow> (w, Inl (NotFoundException ''concert''))
      | Some con \<Rightarrow>
          let gs = sorted_gates (\<lambda>g. g_concertId g = concertId) w;
              ts = rebalance_tickets concertId w
          in if gs = [] then (w, Inl (BadRequestException ''no gates''))
             else if ts = []
             then (w, Inr \<lparr>rb_totalTicketsUpdated = 0, rb_gates = map (\<lambda>g. (g_id g, g_name g, 0)) gs,
                          rb_mails = []\<rparr>)
             else let moves = plan_moves gs 0 ts w in
               bindE (forE moves (apply_move C qrSecret) w) (\<lambda>w' _.
                 (w', Inr \<lparr>rb_totalTicketsUpdated = length moves,
                          rb_gates = map (\<lambda>g. (g_id g, g_name g, tickets_at concertId (g_name g) w')) gs,
                          rb_mails = rebalance_mails emailOf (c_title con) moves w'\<rparr>)))"

section \<open>What moving tickets does\<close>

lemma find_ticket_frame [simp]:
  "find_ticket i (w\<lparr>gates := gs\<rparr>) = find_ticket i w"
  "find_ticket i (w\<lparr>checkinLogs := ls\<rparr>) = find_ticket i w"
  by (simp_all add: find_ticket_def)

lemma retarget_simps [simp]:
  "t_id (retarget C k n t x) = t_id x" "t_status (retarget C k n t x) = t_status x"
  "t_concertId (retarget C k n t x) = t_concertId x" "t_gateId (retarget C k n t x) = Some n"
  "t_qrTokenHash (retarget C k n t x) = t_qrTokenHash x"
  "t_createdAt (retarget C k n t x) = t_createdAt x"
  by (simp_all add: retarget_def)

text \<open>The ticket signature that the check at the door accepts.\<close>

definition signed_ticket :: "crypto \<Rightarrow> string \<Rightarrow> ticket \<Rightarrow> bool" where
  "signed_ticket C qrSecret t \<longleftrightarrow>
     t_qrSignature t = Some (recomputeSignature C (t_id t) (t_qrTokenHash t) (or_empty (t_gateId t)) qrSecret)"

lemma signed_retarget [simp]: "signed_ticket C k (retarget C k n t t)"
  by (simp add: signed_ticket_def retarget_def signature_of_def recomputeSignature_def or_empty_def)

lemma signed_no_mismatch: "signed_ticket C k t \<Longrightarrow> \<not> signature_mismatch C k t"
  by (simp add: signed_ticket_def signature_mismatch_def)

lemma move_loop:
  assumes "unique_key t_id (tickets w)" and "distinct (map t_id ts)"
    and "\<And>t. t \<in> set ts \<Longrightarrow> find_ticket (t_id t) w = Some t"
  shows "forE ts (\<lambda>t. update_ticket (t_id t) (retarget C k name t)) w =
    (w\<lparr>tickets := map (\<lambda>x. if x \<in> set ts then retarget C k name x x else x) (tickets w)\<rparr>, Inr ())"
  using assms
proof (induction ts arbitrary: w)
  case Nil
  then show ?case by simp
next
  case (Cons t ts)
  let ?f = "retarget C k name t"
  let ?w = "w\<lparr>tickets := update_where (\<lambda>x. t_id x = t_id t) ?f (tickets w)\<rparr>"
  have t: "find_ticket (t_id t) w = Some t" using Cons.prems(3) by simp
  have only: "x = t" if "x \<in> set (tickets w)" "t_id x = t_id t" for x
    using find_row_unique [OF Cons.prems(1) that(1)] t that(2) by (simp add: find_ticket_def)
  have other: "t_id x \<noteq> t_id t" if "x \<in> set ts" for x
    using Cons.prems(2) that by (auto simp: image_iff)
  have "find_ticket (t_id x) ?w = Some x" if "x \<in> set ts" for x
    using Cons.prems(3) [of x] that other [OF that]
    by (simp add: find_ticket_def find_row_update_where)
  then have "forE ts (\<lambda>t. update_ticket (t_id t) (retarget C k name t)) ?w =
      (?w\<lparr>tickets := map (\<lambda>x. if x \<in> set ts then retarget C k name x x else x) (tickets ?w)\<rparr>, Inr ())"
    using Cons.prems(1,2) by (intro Cons.IH) simp_all
  moreover have "map (\<lambda>x. if x \<in> set ts then retarget C k name x x else x) (tickets ?w) =
      map (\<lambda>x. if x \<in> set (t # ts) then retarget C k name x x else x) (tickets w)"
  proof -
    have "(let y = (if t_id x = t_id t then ?f x else x) in if y \<in> set ts then retarget C k name y y else y) =
        (if x \<in> set (t # ts) then retarget C k name x x else x)" if "x \<in> set (tickets w)" for x
    proof (cases "t_id x = t_id t")
      case True
      then have "x = t" using only that by blast
      moreover have "?f t \<notin> set ts" using other by force
      ultimately show ?thesis by simp
    next
      case False
      then show ?thesis by auto
    qed
    then show ?thesis by (simp add: update_where_def comp_def Let_def)
  qed
  moreover have "update_ticket (t_id t) ?f w = (?w, Inr ())" using t by (simp add: update_ticket_def)
  ultimately show ?case by simp
qed

lemma move_tickets_named:
  assumes "unique_key t_id (tickets w)"
  shows "move_tickets C k name (tickets_named old w) w =
    (w\<lparr>tickets := map (\<lambda>x. if t_gateId x = Some old then retarget C k name x x else x) (tickets w)\<rparr>, Inr ())"
proof -
  have "distinct (map t_id (tickets_named old w))"
    using assms by (simp add: tickets_named_def unique_key_def distinct_map_filter)
  moreover have "find_ticket (t_id t) w = Some t" if "t \<in> set (tickets_named old w)" for t
    using find_row_unique [OF assms, of t] that by (simp add: tickets_named_def find_ticket_def)
  ultimately have "forE (tickets_named old w) (\<lambda>t. update_ticket (t_id t) (retarget C k name t)) w =
      (w\<lparr>tickets := map (\<lambda>x. if x \<in> set (tickets_named old w) then retarget C k name x x else x) (tickets w)\<rparr>, Inr ())"
    by (intro move_loop [OF assms]) auto
  moreover have "map (\<lambda>x. if x \<in> set (tickets_named old w) then retarget C k name x x else x) (tickets w) =
      map (\<lambda>x. if t_gateId x = Some old then retarget C k name x x else x) (tickets w)"
    by (auto simp: tickets_named_def)
  ultimately show ?thesis by (simp add: move_tickets_def)
qed

section \<open>What rebalancing does\<close>

definition moved_ticket :: "crypto \<Rightarrow> string \<Rightarrow> gate_move list \<Rightarrow> ticket \<Rightarrow> ticket" where
  "moved_ticket C k moves x =
     (case find_row gm_id (t_id x) moves of
        None \<Rightarrow> x | Some m \<Rightarrow> retarget C k (gm_newGateName m) x x)"

lemma moved_ticket_simps [simp]:
  "t_id (moved_ticket C k ms x) = t_id x" "t_status (moved_ticket C k ms x) = t_status x"
  "t_concertId (moved_ticket C k ms x) = t_concertId x"
  by (simp_all add: moved_ticket_def split: option.splits)

lemma find_row_map_same:
  "(\<And>r. key (f r) = key r) \<Longrightarrow> find_row key k (map f rows) = map_option f (find_row key k rows)"
  by (induction rows) auto

lemma apply_moves:
  assumes "unique_key t_id (tickets w)" and "distinct (map gm_id moves)"
  shows "forE moves (apply_move C k) w =
    (w\<lparr>tickets := map (moved_ticket C k moves) (tickets w)\<rparr>, Inr ())"
  using assms
proof (induction moves arbitrary: w)
  case Nil
  have "moved_ticket C k [] = (\<lambda>x. x)" by (auto simp: moved_ticket_def)
  then show ?case by simp
next
  case (Cons m moves)
  let ?g = "\<lambda>x. if t_id x = gm_id m then retarget C k (gm_newGateName m) x x else x"
  let ?w = "w\<lparr>tickets := map ?g (tickets w)\<rparr>"
  have step: "apply_move C k m w = (?w, Inr ())"
  proof (cases "find_ticket (gm_id m) w")
    case None
    then have "map ?g (tickets w) = tickets w"
      by (intro map_idI) (auto simp: find_ticket_def find_row_None_iff)
    then show ?thesis using None by (simp add: apply_move_def)
  next
    case (Some t)
    have "x = t" if "x \<in> set (tickets w)" "t_id x = gm_id m" for x
      using find_row_unique [OF Cons.prems(1) that(1)] Some that(2) by (simp add: find_ticket_def)
    then have "update_where (\<lambda>x. t_id x = gm_id m) (retarget C k (gm_newGateName m) t) (tickets w) =
        map ?g (tickets w)"
      unfolding update_where_def by (intro map_cong) auto
    then show ?thesis using Some by (simp add: apply_move_def update_ticket_def)
  qed
  have ids: "t_id (?g x) = t_id x" for x by simp
  have "unique_key t_id (map ?g (tickets w))"
    using Cons.prems(1) by (simp add: unique_key_def comp_def ids cong: map_cong)
  then have "forE moves (apply_move C k) ?w =
      (?w\<lparr>tickets := map (moved_ticket C k moves) (tickets ?w)\<rparr>, Inr ())"
    using Cons.prems(2) by (intro Cons.IH) simp_all
  moreover have "moved_ticket C k moves (?g x) = moved_ticket C k (m # moves) x" for x
  proof (cases "t_id x = gm_id m")
    case True
    then have "find_row gm_id (t_id x) moves = None"
      using Cons.prems(2) by (simp add: find_row_None_image)
    then show ?thesis using True by (simp add: moved_ticket_def)
  qed (simp add: moved_ticket_def)
  ultimately show ?case using step by (simp add: comp_def)
qed

lemma plan_moves_ids:
  "set (map gm_id (plan_moves gs i ts w)) \<subseteq> set (map t_id ts)"
  "distinct (map t_id ts) \<Longrightarrow> distinct (map gm_id (plan_moves gs i ts w))"
proof (induction ts arbitrary: i)
  case Nil
  { case 1 then show ?case by simp }
  { case 2 then show ?case by simp }
next
  case (Cons t ts)
  { case 1 then show ?case using Cons.IH(1) [of "Suc i"] by (auto simp: Let_def) }
  { case 2
    then have "t_id t \<notin> set (map gm_id (plan_moves gs (Suc i) ts w))"
      using Cons.IH(1) [of "Suc i"] by auto
    then show ?case using 2 Cons.IH(2) [of "Suc i"] by (simp add: Let_def) }
qed

lemma plan_moves_find:
  assumes "distinct (map t_id ts)" and "\<And>t. t \<in> set ts \<Longrightarrow> find_ticket (t_id t) w = Some t"
    and "k < length ts"
  shows "map_option gm_newGateName (find_row gm_id (t_id (ts ! k)) (plan_moves gs i ts w)) =
    (let name = g_name (gs ! ((i + k) mod length gs))
     in if t_gateId (ts ! k) = Some name then None else Some name)"
  using assms
proof (induction ts arbitrary: i k)
  case Nil
  then show ?case by simp
next
  case (Cons t ts)
  have fresh: "find_row gm_id (t_id t) (plan_moves gs (Suc i) ts w) = None"
    using Cons.prems(1) plan_moves_ids(1) [of gs "Suc i" ts w]
    by (auto simp: find_row_None_image)
  show ?case
  proof (cases k)
    case 0
    then show ?thesis using Cons.prems(2) fresh by (simp add: Let_def)
  next
    case (Suc j)
    then have "t_id (ts ! j) \<noteq> t_id t" using Cons.prems(1,3)
      by (metis Suc_less_eq distinct.simps(2) image_eqI length_Cons list.simps(9) list.set_map nth_mem)
    then have "find_row gm_id (t_id ((t # ts) ! k)) (plan_moves gs i (t # ts) w) =
        find_row gm_id (t_id (ts ! j)) (plan_moves gs (Suc i) ts w)"
      using Suc by (auto simp: Let_def)
    then show ?thesis
      using Cons.IH [of j "Suc i"] Cons.prems Suc by simp
  qed
qed

text \<open>Round robin is fair: the shares of two gates differ by at most one.\<close>

lemma round_robin_share:
  fixes a n N :: nat
  assumes "a < n"
  shows "card {k. k < N \<and> k mod n = a} = N div n + (if a < N mod n then 1 else 0)"
proof (induction N)
  case 0
  then show ?case by simp
next
  case (Suc N)
  have "{k. k < Suc N \<and> k mod n = a} =
      (if N mod n = a then insert N {k. k < N \<and> k mod n = a} else {k. k < N \<and> k mod n = a})"
    by (auto simp: less_Suc_eq)
  then have "card {k. k < Suc N \<and> k mod n = a} =
      card {k. k < N \<and> k mod n = a} + (if N mod n = a then 1 else 0)"
    by simp
  moreover have "N mod n < n" using assms by simp
  ultimately show ?case
    using Suc assms by (auto simp: div_Suc mod_Suc split: if_splits)
qed

lemma round_robin_fair:
  fixes a b n N :: nat
  shows "a < n \<Longrightarrow> b < n \<Longrightarrow> card {k. k < N \<and> k mod n = a} \<le> Suc (card {k. k < N \<and> k mod n = b})"
  using round_robin_share [of a n N] round_robin_share [of b n N] by simp

definition issued_at :: "id \<Rightarrow> string \<Rightarrow> world \<Rightarrow> nat" where
  "issued_at c name w =
     count_where (\<lambda>t. t_concertId t = c \<and> t_status t = ISSUED \<and> t_gateId t = Some name) (tickets w)"

lemma set_sorted_gates: "set (sorted_gates (\<lambda>g. g_concertId g = c) w) = set (gates_of c w)"
  by (simp add: sorted_gates_def gates_of_def)

lemma sorted_gates_distinct:
  assumes "unique_key gate_key (gates w)"
  shows "distinct (map g_name (sorted_gates (\<lambda>g. g_concertId g = c) w))"
proof -
  let ?gs = "filter (\<lambda>g. g_concertId g = c) (gates w)"
  have "distinct (map gate_key ?gs)" using assms by (simp add: unique_key_def distinct_map_filter)
  moreover have "map gate_key ?gs = map (Pair c) (map g_name ?gs)" by (auto simp: gate_key_def)
  ultimately have "distinct (map g_name ?gs)" by (metis distinct_map)
  then show ?thesis
    by (simp add: sorted_gates_def distinct_map)
qed

lemma distinct_rebalance_ids:
  "unique_key t_id (tickets w) \<Longrightarrow> distinct (map t_id (rebalance_tickets c w))"
  by (auto simp: rebalance_tickets_def unique_key_def distinct_map intro: inj_on_subset)

lemma rebalance_closed_form:
  assumes "gate_rebalance C k emailOf c w = (w', Inr res)" and "unique_key t_id (tickets w)"
  shows "w' = w\<lparr>tickets := map (moved_ticket C k
            (plan_moves (sorted_gates (\<lambda>g. g_concertId g = c) w) 0 (rebalance_tickets c w) w)) (tickets w)\<rparr> \<and>
    sorted_gates (\<lambda>g. g_concertId g = c) w \<noteq> [] \<and>
    rb_totalTicketsUpdated res =
      length (plan_moves (sorted_gates (\<lambda>g. g_concertId g = c) w) 0 (rebalance_tickets c w) w)"
proof -
  let ?gs = "sorted_gates (\<lambda>g. g_concertId g = c) w" and ?ts = "rebalance_tickets c w"
  let ?ms = "plan_moves ?gs 0 ?ts w"
  have "distinct (map t_id ?ts)"
    using assms(2) by (rule distinct_rebalance_ids)
  then have run: "forE ?ms (apply_move C k) w = (w\<lparr>tickets := map (moved_ticket C k ?ms) (tickets w)\<rparr>, Inr ())"
    by (intro apply_moves [OF assms(2)] plan_moves_ids(2))
  obtain con where con: "find_concert c w = Some con" "?gs \<noteq> []"
    using assms(1) by (auto simp: gate_rebalance_def Let_def split: option.splits if_splits)
  show ?thesis
  proof (cases "?ts = []")
    case True
    have id: "moved_ticket C k [] = (\<lambda>x. x)" by (auto simp: moved_ticket_def)
    have "w' = w" "rb_totalTicketsUpdated res = 0"
      using assms(1) con True by (auto simp: gate_rebalance_def)
    then show ?thesis using True con by (simp add: id)
  next
    case False
    then show ?thesis using assms(1) con run by (auto simp: gate_rebalance_def Let_def)
  qed
qed

lemma rebalanced_ticket:
  assumes "unique_key t_id (tickets w)" and "k < length (rebalance_tickets c w)"
    and "gs = sorted_gates (\<lambda>g. g_concertId g = c) w"
  shows "t_gateId (moved_ticket C s (plan_moves gs 0 (rebalance_tickets c w) w) (rebalance_tickets c w ! k)) =
    Some (g_name (gs ! (k mod length gs)))"
proof -
  let ?ts = "rebalance_tickets c w"
  have "distinct (map t_id ?ts)"
    using assms(1) by (rule distinct_rebalance_ids)
  moreover have "find_ticket (t_id t) w = Some t" if "t \<in> set ?ts" for t
    using find_row_unique [OF assms(1), of t] that by (simp add: rebalance_tickets_def find_ticket_def)
  ultimately have "map_option gm_newGateName (find_row gm_id (t_id (?ts ! k)) (plan_moves gs 0 ?ts w)) =
    (let name = g_name (gs ! ((0 + k) mod length gs))
     in if t_gateId (?ts ! k) = Some name then None else Some name)"
    using assms(2) by (intro plan_moves_find)
  then show ?thesis
    by (auto simp: moved_ticket_def Let_def split: option.splits if_splits)
qed

lemma issued_at_rebalanced:
  assumes "gate_rebalance C s emailOf c w = (w', Inr res)" and "unique_key t_id (tickets w)"
    and "unique_key gate_key (gates w)" and "gs = sorted_gates (\<lambda>g. g_concertId g = c) w" and "j < length gs"
  shows "issued_at c (g_name (gs ! j)) w' =
    card {k. k < length (rebalance_tickets c w) \<and> k mod length gs = j}"
proof -
  let ?ts = "rebalance_tickets c w"
  let ?F = "moved_ticket C s (plan_moves gs 0 ?ts w)"
  let ?at = "\<lambda>t. t_gateId (?F t) = Some (g_name (gs ! j))"
  have w': "w' = w\<lparr>tickets := map ?F (tickets w)\<rparr>"
    using rebalance_closed_form [OF assms(1,2)] assms(4) by simp
  have "issued_at c (g_name (gs ! j)) w' =
      length (filter ?at (filter (\<lambda>t. t_concertId t = c \<and> t_status t = ISSUED) (tickets w)))"
    by (simp add: issued_at_def w' count_where_def filter_map comp_def)
  also have "\<dots> = length (filter ?at ?ts)"
    by (simp add: rebalance_tickets_def filter_sort)
  also have "\<dots> = card {k. k < length ?ts \<and> ?at (?ts ! k)}"
    by (rule length_filter_conv_card)
  also have "{k. k < length ?ts \<and> ?at (?ts ! k)} = {k. k < length ?ts \<and> k mod length gs = j}"
  proof -
    have "distinct (map g_name gs)" using sorted_gates_distinct [OF assms(3)] assms(4) by simp
    then have "g_name (gs ! a) = g_name (gs ! j) \<longleftrightarrow> a = j" if "a < length gs" for a
      using that assms(5) by (simp add: distinct_conv_nth) metis
    moreover have "k mod length gs < length gs" for k using assms(5) by (intro mod_less_divisor) auto
    ultimately show ?thesis
      using rebalanced_ticket [OF assms(2) _ assms(4), of _ C s] by auto
  qed
  finally show ?thesis .
qed

end
