(* ===== verification/Gate_Properties.thy ===== *)
theory Gate_Properties
  imports Gate_Service
begin

text \<open>
  What the gate service guarantees: a rebalancing spreads the issued tickets evenly, every
  operation leaves every ticket with a signature that the door accepts and keeps gate names
  unique within a concert; and what renaming or removing a gate does to tickets of other
  concerts.
\<close>

section \<open>The gate interface\<close>

datatype gate_op =
    GateCreate time id id string
  | GateUpdate id "string option"
  | GateRemove id
  | GateRebalance "id \<Rightarrow> string option" id

fun run_gate :: "crypto \<Rightarrow> string \<Rightarrow> gate_op \<Rightarrow> world \<Rightarrow> world \<times> (exn + unit)" where
  "run_gate C k (GateCreate now newId c name) w =
     (let (w', r) = gate_create now newId c name w in (w', map_sum id (\<lambda>_. ()) r))"
| "run_gate C k (GateUpdate i name) w =
     (let (w', r) = gate_update C k i name w in (w', map_sum id (\<lambda>_. ()) r))"
| "run_gate C k (GateRemove i) w = gate_remove C k i w"
| "run_gate C k (GateRebalance emailOf c) w =
     (let (w', r) = gate_rebalance C k emailOf c w in (w', map_sum id (\<lambda>_. ()) r))"

definition gates_sound :: "crypto \<Rightarrow> string \<Rightarrow> world \<Rightarrow> bool" where
  "gates_sound C k w \<longleftrightarrow>
     unique_key t_id (tickets w) \<and> unique_key g_id (gates w) \<and> unique_key gate_key (gates w) \<and>
     (\<forall>t \<in> set (tickets w). signed_ticket C k t)"

lemma gates_sound_moved:
  assumes "gates_sound C k w" and "\<And>t. t_id (f t) = t_id t"
    and "\<And>t. t \<in> set (tickets w) \<Longrightarrow> signed_ticket C k (f t)"
  shows "gates_sound C k (w\<lparr>tickets := map f (tickets w)\<rparr>)"
  using assms by (simp add: gates_sound_def unique_key_def comp_def)

lemma gates_sound_move_tickets:
  assumes "gates_sound C k w"
  shows "gates_sound C k (fst (move_tickets C k name (tickets_named old w) w))"
proof -
  have "unique_key t_id (tickets w)" using assms by (simp add: gates_sound_def)
  moreover have "gates_sound C k (w\<lparr>tickets :=
      map (\<lambda>x. if t_gateId x = Some old then retarget C k name x x else x) (tickets w)\<rparr>)"
    using assms by (intro gates_sound_moved) (auto simp: gates_sound_def)
  ultimately show ?thesis by (simp add: move_tickets_named)
qed

lemma keeps_sound_update_gate: "keeps (gates_sound C k) (update_gate i name)"
proof (rule keepsI)
  fix w
  assume sound: "gates_sound C k w"
  show "gates_sound C k (fst (update_gate i name w))"
  proof (cases "find_gate i w")
    case None
    then show ?thesis using sound by (simp add: update_gate_def)
  next
    case (Some g)
    let ?n = "case name of None \<Rightarrow> g_name g | Some n \<Rightarrow> n"
    let ?f = "\<lambda>x. x\<lparr>g_name := ?n\<rparr>"
    have uniq: "unique_key g_id (gates w)" "unique_key gate_key (gates w)"
      using sound by (simp_all add: gates_sound_def)
    have g: "g \<in> set (gates w)" "g_id g = i" "find_row g_id i (gates w) = Some g"
      using find_row_SomeD [of g_id i "gates w" g] Some by (simp_all add: find_gate_def)
    show ?thesis
    proof (cases "?n \<noteq> g_name g \<and> find_gate_named (g_concertId g) ?n w \<noteq> None")
      case True
      then show ?thesis using Some sound by (simp add: update_gate_def Let_def)
    next
      case False
      have "g_id x = i" if "x \<in> set (gates w)" "gate_key x = gate_key (?f g)" for x
      proof (cases "?n = g_name g")
        case True
        then have "gate_key x = gate_key g" using that(2) by (simp add: gate_key_def)
        then show ?thesis
          using unique_key_inject [OF uniq(2) that(1) g(1)] g(2) by blast
      next
        case False
        then have "find_gate_named (g_concertId g) ?n w = None"
          using \<open>\<not> (?n \<noteq> g_name g \<and> find_gate_named (g_concertId g) ?n w \<noteq> None)\<close> by simp
        then show ?thesis
          using that by (auto simp: find_gate_named_def find_row_None_iff gate_key_def)
      qed
      then have "unique_key gate_key (update_where (\<lambda>x. g_id x = i) ?f (gates w))"
        by (rule unique_key_update_one [OF uniq g(3)])
      moreover have "unique_key g_id (update_where (\<lambda>x. g_id x = i) ?f (gates w))"
        using uniq(1) by simp
      ultimately show ?thesis
        using Some False sound by (simp add: update_gate_def Let_def gates_sound_def)
    qed
  qed
qed

lemma keeps_sound_create: "keeps (gates_sound C k) (gate_create now newId c name)"
  by (rule keepsI)
    (auto simp: gate_create_def insert_gate_def Let_def gates_sound_def unique_key_snoc
      find_gate_named_def find_gate_def gate_key_def)

lemma keeps_sound_update: "keeps (gates_sound C k) (gate_update C k i name)"
proof (rule keepsI)
  fix w
  assume sound: "gates_sound C k w"
  have upd: "gates_sound C k (fst (update_gate i name w))"
    using keepsD [OF keeps_sound_update_gate sound] .
  let ?tail = "\<lambda>g w1 upd. bindE (if renames name (g_name g) \<and> tickets_named (g_name g) w1 \<noteq> []
                   then move_tickets C k (the name) (tickets_named (g_name g) w1) w1
                   else (w1, Inr ())) (\<lambda>w2 _.
              (w2, Inr \<lparr>gr_id = g_id upd, gr_name = g_name upd, gr_concertId = g_concertId upd,
                       gr_ticketCount = length (tickets_named (g_name upd) w2),
                       gr_createdAt = g_createdAt upd\<rparr>))"
  have "gates_sound C k (fst (bindE (update_gate i name w) (?tail g)))" for g :: gate
  proof (rule keeps_bindE [where P = "gates_sound C k", OF upd])
    fix w1 u
    assume "gates_sound C k w1"
    then show "gates_sound C k (fst (?tail g w1 u))"
      by (intro keeps_bindE [where P = "gates_sound C k"]) (auto intro: gates_sound_move_tickets)
  qed
  then show "gates_sound C k (fst (gate_update C k i name w))"
    using sound by (simp add: gate_update_def split: option.split)
qed

lemma keeps_sound_delete: "keeps (gates_sound C k) (delete_gate i)"
  by (rule keepsI)
    (auto simp: delete_gate_def gates_sound_def delete_where_def unique_key_def distinct_map_filter
      split: option.split)

lemma keeps_sound_remove: "keeps (gates_sound C k) (gate_remove C k i)"
proof (rule keepsI)
  fix w
  assume sound: "gates_sound C k w"
  let ?head = "\<lambda>g. if tickets_named (g_name g) w \<noteq> []
                 then (case sorted_gates (\<lambda>x. g_concertId x = g_concertId g \<and> g_id x \<noteq> i) w of
                         [] \<Rightarrow> (w, Inl (BadRequestException ''last gate with tickets''))
                       | h # _ \<Rightarrow> move_tickets C k (g_name h) (tickets_named (g_name g) w) w)
                 else (w, Inr ())"
  have "gates_sound C k (fst (?head g))" for g :: gate
    using sound by (auto intro: gates_sound_move_tickets split: list.split)
  then have "gates_sound C k (fst (bindE (?head g) (\<lambda>w1 _. delete_gate i w1)))" for g :: gate
    by (rule keeps_bindE [where P = "gates_sound C k"]) (rule keepsD [OF keeps_sound_delete])
  then show "gates_sound C k (fst (gate_remove C k i w))"
    using sound by (simp add: gate_remove_def split: option.split)
qed

lemma keeps_sound_rebalance: "keeps (gates_sound C k) (gate_rebalance C k emailOf c)"
proof (rule keepsI)
  fix w
  assume sound: "gates_sound C k w"
  have uniq: "unique_key t_id (tickets w)" using sound by (simp add: gates_sound_def)
  obtain w' r where run: "gate_rebalance C k emailOf c w = (w', r)" by (cases "gate_rebalance C k emailOf c w")
  show "gates_sound C k (fst (gate_rebalance C k emailOf c w))"
  proof (cases r)
    case (Inl e)
    have "forE (plan_moves gs 0 (rebalance_tickets c w) w) (apply_move C k) w =
        (w\<lparr>tickets := map (moved_ticket C k (plan_moves gs 0 (rebalance_tickets c w) w)) (tickets w)\<rparr>, Inr ())" for gs
      by (intro apply_moves [OF uniq] plan_moves_ids(2) distinct_rebalance_ids [OF uniq])
    then have "w' = w"
      using run Inl by (auto simp: gate_rebalance_def Let_def split: option.splits if_splits)
    then show ?thesis using run sound by simp
  next
    case (Inr res)
    have "signed_ticket C k (moved_ticket C k ms t)" if "t \<in> set (tickets w)" for ms t
      using sound that by (auto simp: moved_ticket_def gates_sound_def split: option.split)
    then show ?thesis
      using rebalance_closed_form [OF run [unfolded Inr] uniq] run sound
      by (simp add: gates_sound_moved)
  qed
qed

interpretation gate: op_system "run_gate C k" "\<lambda>_. True" "gates_sound C k" for C k
proof unfold_locales
  fix w x
  assume "gates_sound C k w"
  then show "gates_sound C k (fst (run_gate C k x w))"
    using keepsD [OF keeps_sound_create] keepsD [OF keeps_sound_update] keepsD [OF keeps_sound_remove]
      keepsD [OF keeps_sound_rebalance]
    by (cases x) (simp_all add: split_def Let_def)
qed

section \<open>Properties\<close>

text \<open>
  After a rebalancing the issued tickets of the concert are spread over its gates with loads
  that differ by at most one, every one of them stands at a gate of the concert, and every
  ticket is either untouched or was an issued ticket of the concert, moved to a gate of the
  concert and signed for it.
\<close>

theorem rebalance_spreads_issued_tickets:
  assumes "gate_rebalance C s emailOf c w = (w', Inr res)" and "unique_key t_id (tickets w)"
    and "unique_key gate_key (gates w)"
  shows "(\<forall>a \<in> gate_names c w. \<forall>b \<in> gate_names c w. issued_at c a w' \<le> Suc (issued_at c b w')) \<and>
    (\<forall>t \<in> set (tickets w'). t_concertId t = c \<and> t_status t = ISSUED \<longrightarrow>
       (\<exists>a \<in> gate_names c w. t_gateId t = Some a)) \<and>
    (\<forall>t \<in> set (tickets w). \<exists>t'. find_ticket (t_id t) w' = Some t' \<and>
       (t' = t \<or> t_concertId t = c \<and> t_status t = ISSUED \<and>
          (\<exists>a \<in> gate_names c w. t' = retarget C s a t t)))"
proof -
  define gs where "gs = sorted_gates (\<lambda>g. g_concertId g = c) w"
  let ?ts = "rebalance_tickets c w"
  let ?ms = "plan_moves gs 0 ?ts w"
  let ?F = "moved_ticket C s ?ms"
  have w': "w' = w\<lparr>tickets := map ?F (tickets w)\<rparr>" and gs: "gs \<noteq> []"
    using rebalance_closed_form [OF assms(1,2)] by (simp_all add: gs_def)
  have names: "gate_names c w = g_name ` set gs"
    by (simp add: gate_names_def gs_def set_sorted_gates)
  have mod: "k mod length gs < length gs" for k using gs by simp
  have name: "g_name (gs ! (k mod length gs)) \<in> gate_names c w" for k
    using nth_mem [OF mod] by (simp add: names)
  have fair: "issued_at c a w' \<le> Suc (issued_at c b w')"
    if ab: "a \<in> gate_names c w" "b \<in> gate_names c w" for a b
  proof -
    obtain i j where ij: "i < length gs" "a = g_name (gs ! i)" "j < length gs" "b = g_name (gs ! j)"
      using ab by (auto simp: names in_set_conv_nth)
    then show ?thesis
      using issued_at_rebalanced [OF assms gs_def ij(1)] issued_at_rebalanced [OF assms gs_def ij(3)]
        round_robin_fair [OF ij(1,3), of "length ?ts"] by simp
  qed
  have index: "\<exists>k < length ?ts. ?ts ! k = t"
    if "t \<in> set (tickets w)" "t_concertId t = c" "t_status t = ISSUED" for t
  proof -
    have "t \<in> set ?ts" using that by (simp add: rebalance_tickets_def)
    then show ?thesis unfolding in_set_conv_nth by blast
  qed
  have placed: "\<exists>a \<in> gate_names c w. t_gateId (?F t) = Some a"
    if t: "t \<in> set (tickets w)" "t_concertId t = c" "t_status t = ISSUED" for t
    using index [OF t] rebalanced_ticket [OF assms(2) _ gs_def, of _ C s] name by blast
  have moved: "?F t = t \<or> t_concertId t = c \<and> t_status t = ISSUED \<and> (\<exists>a \<in> gate_names c w. ?F t = retarget C s a t t)"
    if t: "t \<in> set (tickets w)" for t
  proof (cases "find_row gm_id (t_id t) ?ms")
    case None
    then show ?thesis by (simp add: moved_ticket_def)
  next
    case (Some m)
    then have "m \<in> set ?ms \<and> gm_id m = t_id t" by (rule find_row_SomeD)
    then have "t_id t \<in> gm_id ` set ?ms" by (metis image_eqI)
    then have "t_id t \<in> set (map t_id ?ts)"
      using plan_moves_ids(1) [of gs 0 ?ts w] by auto
    then obtain u where u: "u \<in> set ?ts" "t_id u = t_id t" by auto
    then have "u \<in> set (tickets w)" "t_concertId u = c" "t_status u = ISSUED"
      by (simp_all add: rebalance_tickets_def)
    moreover have "u = t"
      using unique_key_inject [OF assms(2) \<open>u \<in> set (tickets w)\<close> t] u(2) by blast
    ultimately show ?thesis
      using placed [OF t] Some by (auto simp: moved_ticket_def)
  qed
  have "find_ticket (t_id t) w' = Some (?F t)" if "t \<in> set (tickets w)" for t
    using find_row_unique [OF assms(2) that]
    by (simp add: w' find_ticket_def find_row_map_same)
  moreover have "\<exists>a \<in> gate_names c w. t_gateId t = Some a"
    if "t \<in> set (tickets w')" "t_concertId t = c" "t_status t = ISSUED" for t
  proof -
    obtain u where "u \<in> set (tickets w)" "t = ?F u" using \<open>t \<in> set (tickets w')\<close> by (auto simp: w')
    then show ?thesis using placed [of u] that(2,3) by simp
  qed
  ultimately show ?thesis using fair moved by blast
qed

definition demo_concert :: "id \<Rightarrow> concert" where
  "demo_concert i =
     \<lparr>c_id = i, c_organizerId = ''org'', c_title = ''T'', c_slug = i, c_description = None,
      c_artistBio = None, c_venue = ''V'', c_startsAt = 0, c_saleStartsAt = None, c_saleEndsAt = None,
      c_status = SALE_OPEN, c_seatMapUrl = None, c_coverImageUrl = None, c_reminderJobId = None,
      c_createdAt = 0, c_updatedAt = 0\<rparr>"

definition gate_row :: "id \<Rightarrow> string \<Rightarrow> id \<Rightarrow> gate" where
  "gate_row i n c = \<lparr>g_id = i, g_name = n, g_concertId = c, g_createdAt = 0\<rparr>"

definition signed_demo :: "id \<Rightarrow> id \<Rightarrow> string \<Rightarrow> ticket" where
  "signed_demo i c n = demo_ticket\<lparr>t_id := i, t_concertId := c, t_gateId := Some n, t_qrTokenHash := i,
     t_qrSignature := Some (''k'' @ i @ '':'' @ i @ '':'' @ n)\<rparr>"

text \<open>Two concerts, each with a gate called A; all tickets of both stand at a gate A.\<close>

definition demo_two :: world where
  "demo_two = empty_world\<lparr>concerts := [demo_concert ''c1'', demo_concert ''c2''],
     gates := [gate_row ''g1'' ''A'' ''c1'', gate_row ''g2'' ''B'' ''c1'', gate_row ''g3'' ''A'' ''c2''],
     tickets := [signed_demo ''t1'' ''c1'' ''A'', signed_demo ''t2'' ''c1'' ''A'', signed_demo ''t3'' ''c2'' ''A'']\<rparr>"

lemma demo_two_sound [simp]: "gates_sound demo_crypto ''k'' demo_two"
  by (simp add: gates_sound_def demo_two_def unique_key_def gate_row_def gate_key_def signed_demo_def
      signed_ticket_def demo_crypto_def recomputeSignature_def or_empty_def)

lemma demo_two_unique [simp]:
  "unique_key t_id (tickets demo_two)" "unique_key gate_key (gates demo_two)"
  using demo_two_sound unfolding gates_sound_def by blast+

lemma demo_two_rebalances:
  "case gate_rebalance demo_crypto ''k'' (\<lambda>u. Some u) ''c1'' demo_two of
     (w', Inr res) \<Rightarrow> map t_gateId (tickets w') = [Some ''A'', Some ''B'', Some ''A''] \<and>
       rb_totalTicketsUpdated res = 1
   | (w', Inl e) \<Rightarrow> False"
  by code_simp

theorem rebalance_spreads_issued_tickets_witness:
  "\<exists>w' res. gate_rebalance demo_crypto ''k'' (\<lambda>u. Some u) ''c1'' demo_two = (w', Inr res) \<and>
     (\<forall>a \<in> gate_names ''c1'' demo_two. \<forall>b \<in> gate_names ''c1'' demo_two.
        issued_at ''c1'' a w' \<le> Suc (issued_at ''c1'' b w'))"
proof -
  obtain w' res where run: "gate_rebalance demo_crypto ''k'' (\<lambda>u. Some u) ''c1'' demo_two = (w', Inr res)"
    using demo_two_rebalances by (auto split: prod.splits sum.splits)
  from rebalance_spreads_issued_tickets [OF run demo_two_unique] run show ?thesis by blast
qed

text \<open>
  C35: Whatever sequence of gate operations runs (creation, renaming, removal, rebalancing, whether
  they succeed or fail), every ticket keeps a signature that fits its current gate, so none is
  rejected at the door as tampered with, and no concert has two gates of one name.
\<close>

theorem gate_operations_keep_tickets_valid:
  assumes "gates_sound C k w"
  shows "(\<forall>t \<in> set (tickets (fst (run_ops (run_gate C k) xs w))). \<not> signature_mismatch C k t) \<and>
    unique_key gate_key (gates (fst (run_ops (run_gate C k) xs w)))"
proof -
  have "gates_sound C k (fst (run_ops (run_gate C k) xs w))" using gate.inv_run [OF assms] by simp
  then show ?thesis by (simp add: gates_sound_def signed_no_mismatch)
qed

theorem gate_operations_keep_tickets_valid_witness:
  "unique_key gate_key (gates (fst (run_ops (run_gate demo_crypto ''k'')
     [GateUpdate ''g1'' (Some ''C''), GateRebalance (\<lambda>u. None) ''c1'', GateRemove ''g1'',
      GateCreate 7 ''g9'' ''c1'' ''A''] demo_two)))"
  using gate_operations_keep_tickets_valid [OF demo_two_sound] by blast

text \<open>
  Renaming a gate moves every ticket that names the old gate, of whatever concert, to the new
  name: the select has no concert.  So a ticket of another concert whose gate happens to have
  the same name is sent to a gate that its own concert may not have.
\<close>

theorem rename_moves_tickets_of_all_concerts:
  assumes "unique_key t_id (tickets w)" and "find_gate i w = Some g"
    and "n \<noteq> []" and "n \<noteq> g_name g" and "find_gate_named (g_concertId g) n w = None"
  shows "\<exists>w' r. gate_update C k i (Some n) w = (w', Inr r) \<and>
    gates w' = update_where (\<lambda>x. g_id x = i) (\<lambda>x. x\<lparr>g_name := n\<rparr>) (gates w) \<and>
    tickets w' = map (\<lambda>t. if t_gateId t = Some (g_name g) then retarget C k n t t else t) (tickets w)"
proof -
  let ?w1 = "w\<lparr>gates := update_where (\<lambda>x. g_id x = i) (\<lambda>x. x\<lparr>g_name := n\<rparr>) (gates w)\<rparr>"
  have upd: "update_gate i (Some n) w = (?w1, Inr (g\<lparr>g_name := n\<rparr>))"
    using assms(2,5) by (simp add: update_gate_def Let_def)
  have renames: "renames (Some n) (g_name g)" using assms(3,4) by (simp add: renames_def)
  show ?thesis
  proof (cases "tickets_named (g_name g) ?w1 = []")
    case True
    then have "map (\<lambda>t. if t_gateId t = Some (g_name g) then retarget C k n t t else t) (tickets w) = tickets w"
      by (intro map_idI) (auto simp: tickets_named_def filter_empty_conv)
    then show ?thesis using assms(2,5) upd True renames by (simp add: gate_update_def)
  next
    case False
    have "move_tickets C k n (tickets_named (g_name g) ?w1) ?w1 =
        (?w1\<lparr>tickets := map (\<lambda>t. if t_gateId t = Some (g_name g) then retarget C k n t t else t) (tickets ?w1)\<rparr>, Inr ())"
      using assms(1) by (intro move_tickets_named) simp
    then show ?thesis using assms(2,5) upd False renames by (simp add: gate_update_def)
  qed
qed

theorem rename_moves_tickets_of_all_concerts_witness:
  "\<exists>w' r. gate_update demo_crypto ''k'' ''g1'' (Some ''C'') demo_two = (w', Inr r) \<and>
     map t_gateId (tickets w') = [Some ''C'', Some ''C'', Some ''C''] \<and>
     ''C'' \<notin> gate_names ''c2'' w'"
proof -
  have "find_gate ''g1'' demo_two = Some (gate_row ''g1'' ''A'' ''c1'')"
    by (simp add: find_gate_def demo_two_def gate_row_def)
  moreover have "find_gate_named ''c1'' ''C'' demo_two = None"
    by (simp add: find_gate_named_def demo_two_def gate_row_def gate_key_def)
  ultimately obtain w' r where "gate_update demo_crypto ''k'' ''g1'' (Some ''C'') demo_two = (w', Inr r)"
    "gates w' = update_where (\<lambda>x. g_id x = ''g1'') (\<lambda>x. x\<lparr>g_name := ''C''\<rparr>) (gates demo_two)"
    "tickets w' = map (\<lambda>t. if t_gateId t = Some ''A'' then retarget demo_crypto ''k'' ''C'' t t else t) (tickets demo_two)"
    using rename_moves_tickets_of_all_concerts [OF demo_two_unique(1), of "''g1''"
        "gate_row ''g1'' ''A'' ''c1''" "''C''" demo_crypto "''k''"] by (auto simp: gate_row_def)
  then show ?thesis
    by (auto simp: demo_two_def gate_row_def signed_demo_def gate_names_def gates_of_def)
qed

text \<open>
  Removing a gate with tickets moves them, again those of every concert that has a gate of this
  name, to the first other gate of the removed gate's concert by name; it is refused when there
  is no other gate.
\<close>

theorem remove_gate_moves_tickets:
  assumes "unique_key t_id (tickets w)" and "find_gate i w = Some g" and "tickets_named (g_name g) w \<noteq> []"
  shows "case sorted_gates (\<lambda>x. g_concertId x = g_concertId g \<and> g_id x \<noteq> i) w of
      [] \<Rightarrow> \<exists>e. gate_remove C k i w = (w, Inl e)
    | h # _ \<Rightarrow> gate_remove C k i w =
        (w\<lparr>tickets := map (\<lambda>t. if t_gateId t = Some (g_name g) then retarget C k (g_name h) t t else t) (tickets w),
           gates := delete_where (\<lambda>x. g_id x = i) (gates w)\<rparr>, Inr ())"
proof -
  have "find_gate i (w\<lparr>tickets := ts\<rparr>) = Some g" for ts using assms(2) by (simp add: find_gate_def)
  then show ?thesis
    using assms(2,3) move_tickets_named [OF assms(1), of C k _ "g_name g"]
    by (auto simp: gate_remove_def delete_gate_def split: list.split)
qed

theorem remove_gate_moves_tickets_witness:
  "\<exists>w'. gate_remove demo_crypto ''k'' ''g1'' demo_two = (w', Inr ()) \<and>
     map t_gateId (tickets w') = [Some ''B'', Some ''B'', Some ''B'']"
proof -
  have g: "find_gate ''g1'' demo_two = Some (gate_row ''g1'' ''A'' ''c1'')"
    by (simp add: find_gate_def demo_two_def gate_row_def)
  have others: "sorted_gates (\<lambda>x. g_concertId x = ''c1'' \<and> g_id x \<noteq> ''g1'') demo_two = [gate_row ''g2'' ''B'' ''c1'']"
    by (simp add: sorted_gates_def demo_two_def gate_row_def)
  have "gate_remove demo_crypto ''k'' ''g1'' demo_two =
      (demo_two\<lparr>tickets := map (\<lambda>t. if t_gateId t = Some ''A'' then retarget demo_crypto ''k'' ''B'' t t else t) (tickets demo_two),
         gates := delete_where (\<lambda>x. g_id x = ''g1'') (gates demo_two)\<rparr>, Inr ())"
    using remove_gate_moves_tickets [OF demo_two_unique(1) g, of demo_crypto "''k''"] others
    by (simp add: gate_row_def tickets_named_def demo_two_def signed_demo_def)
  then show ?thesis by (simp add: demo_two_def signed_demo_def)
qed

end
