(* ===== verification/Ticket_Type_Service.thy ===== *)
theory Ticket_Type_Service
  imports Gate_Properties
begin

text \<open>
  \<open>ticket-type.service.ts\<close>: the ticket types of a concert as the organizer manages them, the
  stock counter kept beside them in Redis, and the public listing of what is on sale.

  \<^item> Ticket types are listed by falling price; types of one price are in table order.
  \<^item> A response is the row with its computed availability.  \<open>now\<close> is the clock of the call;
    the identifier of a new row is an argument.
\<close>

record ticket_type_response =
  tr_row :: ticket_type
  tr_availableQty :: int

record ticket_type_list_response =
  tl_data :: "ticket_type_response list"
  tl_total :: nat

record create_ticket_type_dto =
  ct_name :: string
  ct_price :: int
  ct_totalQty :: int
  ct_maxPerUser :: int
  ct_saleStartsAt :: time
  ct_saleEndsAt :: "time option"
  ct_status :: "TicketTypeStatus option"

text \<open>Every field may be absent; \<open>saleEndsAt\<close> may also be present and null.\<close>

record update_ticket_type_dto =
  ut_name :: "string option"
  ut_price :: "int option"
  ut_totalQty :: "int option"
  ut_soldQty :: "int option"
  ut_reservedQty :: "int option"
  ut_maxPerUser :: "int option"
  ut_saleStartsAt :: "time option"
  ut_saleEndsAt :: "time option option"
  ut_status :: "TicketTypeStatus option"

definition SaleWindowValid :: "time option \<Rightarrow> time option \<Rightarrow> bool" where
  "SaleWindowValid startsAt endsAt \<longleftrightarrow>
     (case (startsAt, endsAt) of (Some s, Some e) \<Rightarrow> e > s | _ \<Rightarrow> True)"

definition tt_toResponse :: "ticket_type \<Rightarrow> ticket_type_response" where
  "tt_toResponse tt = \<lparr>tr_row = tt, tr_availableQty = available_qty tt\<rparr>"

definition checkConcertOwnership :: "id \<Rightarrow> id \<Rightarrow> Role \<Rightarrow> world \<Rightarrow> exn + concert" where
  "checkConcertOwnership concertId userId userRole w =
     (case find_concert concertId w of
        None \<Rightarrow> Inl (NotFoundException ''concert'')
      | Some c \<Rightarrow>
          if userRole \<noteq> ADMIN \<and> c_organizerId c \<noteq> userId
          then Inl (ForbiddenException ''not the organizer'') else Inr c)"

definition tt_key :: "ticket_type \<Rightarrow> id \<times> string" where
  "tt_key tt = (tt_concertId tt, tt_name tt)"

definition find_type_named :: "id \<Rightarrow> string \<Rightarrow> world \<Rightarrow> ticket_type option" where
  "find_type_named concertId name w = find_row tt_key (concertId, name) (ticketTypes w)"

definition by_price :: "(ticket_type \<Rightarrow> bool) \<Rightarrow> world \<Rightarrow> ticket_type_list_response" where
  "by_price p w =
     (let rows = sort_key (\<lambda>tt. - tt_price tt) (filter p (ticketTypes w))
      in \<lparr>tl_data = map tt_toResponse rows, tl_total = length rows\<rparr>)"

definition tt_findAll ::
  "id \<Rightarrow> id \<Rightarrow> Role \<Rightarrow> TicketTypeStatus option \<Rightarrow> world \<Rightarrow> exn + ticket_type_list_response" where
  "tt_findAll concertId userId userRole status w =
     (case checkConcertOwnership concertId userId userRole w of
        Inl e \<Rightarrow> Inl e
      | Inr _ \<Rightarrow>
          Inr (by_price (\<lambda>tt. tt_concertId tt = concertId \<and>
                 (case status of None \<Rightarrow> True | Some s \<Rightarrow> tt_status tt = s)) w))"

definition tt_findOne :: "id \<Rightarrow> id \<Rightarrow> Role \<Rightarrow> world \<Rightarrow> exn + ticket_type_response" where
  "tt_findOne i userId userRole w =
     (case find_ticket_type i w of
        None \<Rightarrow> Inl (NotFoundException ''ticket type'')
      | Some tt \<Rightarrow>
          (case checkConcertOwnership (tt_concertId tt) userId userRole w of
             Inl e \<Rightarrow> Inl e
           | Inr _ \<Rightarrow> Inr (tt_toResponse tt)))"

section \<open>Creation\<close>

definition insert_type :: "ticket_type \<Rightarrow> unit handler" where
  "insert_type tt w =
     (if find_ticket_type (tt_id tt) w \<noteq> None \<or> find_type_named (tt_concertId tt) (tt_name tt) w \<noteq> None
      then (w, Inl (UniqueViolation ''TicketType''))
      else (w\<lparr>ticketTypes := ticketTypes w @ [tt]\<rparr>, Inr ()))"

definition tt_create ::
  "time \<Rightarrow> id \<Rightarrow> id \<Rightarrow> create_ticket_type_dto \<Rightarrow> id \<Rightarrow> Role \<Rightarrow> ticket_type_response handler" where
  "tt_create now newId concertId dto userId userRole w =
     (case checkConcertOwnership concertId userId userRole w of
        Inl e \<Rightarrow> (w, Inl e)
      | Inr c \<Rightarrow>
          if find_type_named concertId (ct_name dto) w \<noteq> None
          then (w, Inl (ConflictException ''ticket type exists''))
          else if c_status c = COMPLETED \<or> c_status c = CONCERT_CANCELLED
          then (w, Inl (BadRequestException ''concert completed or cancelled''))
          else let tt = \<lparr>tt_id = newId, tt_concertId = concertId, tt_name = ct_name dto,
                         tt_price = ct_price dto, tt_totalQty = ct_totalQty dto, tt_soldQty = 0,
                         tt_reservedQty = 0, tt_maxPerUser = ct_maxPerUser dto,
                         tt_saleStartsAt = ct_saleStartsAt dto, tt_saleEndsAt = ct_saleEndsAt dto,
                         tt_status = (case ct_status dto of None \<Rightarrow> ACTIVE | Some s \<Rightarrow> s)\<rparr>
            in bindE (insert_type tt w) (\<lambda>w1 _.
                 (invalidateCache (Some concertId)
                    (w1\<lparr>redisdb := seedStock now (tt_id tt) (tt_totalQty tt) (redisdb w1)\<rparr>),
                  Inr (tt_toResponse tt))))"

section \<open>Update\<close>

definition set_if :: "'a option \<Rightarrow> 'a \<Rightarrow> 'a" where
  "set_if new old = (case new of None \<Rightarrow> old | Some x \<Rightarrow> x)"

definition apply_update :: "update_ticket_type_dto \<Rightarrow> ticket_type \<Rightarrow> ticket_type" where
  "apply_update dto tt =
     tt\<lparr>tt_name := set_if (ut_name dto) (tt_name tt), tt_price := set_if (ut_price dto) (tt_price tt),
        tt_totalQty := set_if (ut_totalQty dto) (tt_totalQty tt),
        tt_soldQty := set_if (ut_soldQty dto) (tt_soldQty tt),
        tt_reservedQty := set_if (ut_reservedQty dto) (tt_reservedQty tt),
        tt_maxPerUser := set_if (ut_maxPerUser dto) (tt_maxPerUser tt),
        tt_saleStartsAt := set_if (ut_saleStartsAt dto) (tt_saleStartsAt tt),
        tt_saleEndsAt := set_if (ut_saleEndsAt dto) (tt_saleEndsAt tt),
        tt_status := set_if (ut_status dto) (tt_status tt)\<rparr>"

definition touches_inventory :: "update_ticket_type_dto \<Rightarrow> bool" where
  "touches_inventory dto \<longleftrightarrow>
     ut_totalQty dto \<noteq> None \<or> ut_soldQty dto \<noteq> None \<or> ut_reservedQty dto \<noteq> None"

text \<open>The check that a new total covers what is sold and reserved.\<close>

definition total_too_small :: "update_ticket_type_dto \<Rightarrow> ticket_type \<Rightarrow> bool" where
  "total_too_small dto tt \<longleftrightarrow>
     (case ut_totalQty dto of
        None \<Rightarrow> False
      | Some qty \<Rightarrow>
          qty < set_if (ut_soldQty dto) (tt_soldQty tt) + set_if (ut_reservedQty dto) (tt_reservedQty tt))"

definition tt_update ::
  "time \<Rightarrow> id \<Rightarrow> update_ticket_type_dto \<Rightarrow> id \<Rightarrow> Role \<Rightarrow> ticket_type_response handler" where
  "tt_update now i dto userId userRole w =
     (case find_ticket_type i w of
        None \<Rightarrow> (w, Inl (NotFoundException ''ticket type''))
      | Some existing \<Rightarrow>
        (case checkConcertOwnership (tt_concertId existing) userId userRole w of
           Inl e \<Rightarrow> (w, Inl e)
         | Inr _ \<Rightarrow>
             if (case ut_name dto of None \<Rightarrow> False
                 | Some n \<Rightarrow> n \<noteq> tt_name existing \<and> find_type_named (tt_concertId existing) n w \<noteq> None)
             then (w, Inl (ConflictException ''ticket type exists''))
             else if total_too_small dto existing
             then (w, Inl (BadRequestException ''total below sold and reserved''))
             else if (ut_soldQty dto \<noteq> None \<or> ut_reservedQty dto \<noteq> None) \<and> userRole \<noteq> ADMIN
             then (w, Inl (ForbiddenException ''only admin adjusts quantities''))
             else bindE (update_ticket_type i (apply_update dto) w) (\<lambda>w1 _.
               let tt = apply_update dto existing;
                   w2 = (if touches_inventory dto
                         then w1\<lparr>redisdb := seedStock now i (available_qty tt) (redisdb w1)\<rparr> else w1)
               in if available_qty tt = 0 \<and> tt_status tt \<noteq> SOLD_OUT
                  then bindE (update_ticket_type i (\<lambda>x. x\<lparr>tt_status := SOLD_OUT\<rparr>) w2) (\<lambda>w3 _.
                         (invalidateCache (Some (tt_concertId existing)) w3,
                          Inr (tt_toResponse (tt\<lparr>tt_status := SOLD_OUT\<rparr>))))
                  else (invalidateCache (Some (tt_concertId existing)) w2, Inr (tt_toResponse tt)))))"

section \<open>Removal\<close>

text \<open>Items, tickets and counters refer to a ticket type with \<open>ON DELETE RESTRICT\<close>.\<close>

definition type_referenced :: "id \<Rightarrow> world \<Rightarrow> bool" where
  "type_referenced i w \<longleftrightarrow>
     (\<exists>ord \<in> set (orders w). \<exists>item \<in> set (o_items ord). oi_ticketTypeId item = i) \<or>
     (\<exists>t \<in> set (tickets w). t_ticketTypeId t = i) \<or>
     (\<exists>c \<in> set (counters w). uc_ticketTypeId c = i)"

definition delete_type :: "id \<Rightarrow> unit handler" where
  "delete_type i w =
     (if find_ticket_type i w = None then (w, Inl (RecordNotFound ''TicketType''))
      else if type_referenced i w then (w, Inl (ForeignKeyViolation ''TicketType''))
      else (w\<lparr>ticketTypes := delete_where (\<lambda>tt. tt_id tt = i) (ticketTypes w)\<rparr>, Inr ()))"

definition tt_remove :: "id \<Rightarrow> id \<Rightarrow> Role \<Rightarrow> string handler" where
  "tt_remove i userId userRole w =
     (case find_ticket_type i w of
        None \<Rightarrow> (w, Inl (NotFoundException ''ticket type''))
      | Some tt \<Rightarrow>
        (case checkConcertOwnership (tt_concertId tt) userId userRole w of
           Inl e \<Rightarrow> (w, Inl e)
         | Inr _ \<Rightarrow>
             if tt_soldQty tt > 0 \<or> tt_reservedQty tt > 0
             then (w, Inl (BadRequestException ''sold or reserved tickets''))
             else bindE (delete_type i w) (\<lambda>w1 _.
               (invalidateCache (Some (tt_concertId tt))
                  (w1\<lparr>redisdb := redis_del (REDIS_KEY_STOCK i) (redisdb w1)\<rparr>),
                Inr (''Ticket type '' @ tt_name tt @ '' deleted successfully'')))))"

section \<open>Public listing\<close>

definition on_sale :: "time \<Rightarrow> id \<Rightarrow> ticket_type \<Rightarrow> bool" where
  "on_sale now concertId tt \<longleftrightarrow>
     tt_concertId tt = concertId \<and> tt_status tt = ACTIVE \<and> tt_saleStartsAt tt \<le> now \<and>
     (case tt_saleEndsAt tt of None \<Rightarrow> True | Some e \<Rightarrow> e > now)"

definition tt_findAvailable :: "time \<Rightarrow> id \<Rightarrow> world \<Rightarrow> exn + ticket_type_list_response" where
  "tt_findAvailable now concertId w =
     (case find_concert concertId w of
        None \<Rightarrow> Inl (NotFoundException ''concert'')
      | Some c \<Rightarrow>
          if c_status c \<noteq> PUBLISHED \<and> c_status c \<noteq> SALE_OPEN then Inr \<lparr>tl_data = [], tl_total = 0\<rparr>
          else Inr (by_price (on_sale now concertId) w))"

section \<open>Effects\<close>

lemma invalidateCache_tables [simp]:
  "ticketTypes (invalidateCache c w) = ticketTypes w" "orders (invalidateCache c w) = orders w"
  "find_ticket_type i (invalidateCache c w) = find_ticket_type i w"
  by (simp_all add: invalidateCache_def find_ticket_type_def split: option.split)

lemma invalidateCache_stock [simp]:
  "redisdb (invalidateCache c w) (REDIS_KEY_STOCK i) = redisdb w (REDIS_KEY_STOCK i)"
  by (auto simp: invalidateCache_def redis_del_def key_defs split: option.split)

lemma seedStock_own [simp]:
  "seedStock now i n r (REDIS_KEY_STOCK i) = Some (RInt (max 0 n), None)"
  by (simp add: seedStock_def redis_set_def)

text \<open>How an update that goes through leaves the row.\<close>

definition updated_type :: "update_ticket_type_dto \<Rightarrow> ticket_type \<Rightarrow> ticket_type" where
  "updated_type dto tt =
     (let new = apply_update dto tt
      in if available_qty new = 0 then new\<lparr>tt_status := SOLD_OUT\<rparr> else new)"

lemma apply_update_id [simp]: "tt_id (apply_update dto tt) = tt_id tt"
  by (simp add: apply_update_def)

lemma tt_update_success:
  assumes "tt_update now i dto userId userRole w = (w', Inr r)"
  shows "\<exists>tt. find_ticket_type i w = Some tt \<and>
    find_ticket_type i w' = Some (updated_type dto tt) \<and> tr_row r = updated_type dto tt \<and>
    \<not> total_too_small dto tt \<and>
    ((ut_soldQty dto \<noteq> None \<or> ut_reservedQty dto \<noteq> None) \<longrightarrow> userRole = ADMIN) \<and>
    redisdb w' (REDIS_KEY_STOCK i) =
      (if touches_inventory dto then Some (RInt (max 0 (available_qty (apply_update dto tt))), None)
       else redisdb w (REDIS_KEY_STOCK i))"
proof -
  obtain tt where tt: "find_ticket_type i w = Some tt"
    using assms by (auto simp: tt_update_def split: option.splits)
  have id: "tt_id tt = i"
    using find_row_SomeD [of tt_id i "ticketTypes w" tt] tt by (simp add: find_ticket_type_def)
  let ?f = "apply_update dto"
  let ?w1 = "w\<lparr>ticketTypes := update_where (\<lambda>x. tt_id x = i) ?f (ticketTypes w)\<rparr>"
  have upd: "update_ticket_type i ?f w = (?w1, Inr ())" using tt by (simp add: update_ticket_type_def)
  have row: "find_row tt_id i (ticketTypes w) = Some tt" using tt by (simp add: find_ticket_type_def)
  have find: "find_row tt_id i (update_where (\<lambda>x. tt_id x = i) f rows) = map_option f (find_row tt_id i rows)"
    if "\<And>x. tt_id (f x) = tt_id x" for f rows
    using that by (cases "find_row tt_id i rows") (auto simp: find_row_update_where dest: find_row_SomeD)
  show ?thesis
    using assms row
    by (auto simp: tt_update_def Let_def updated_type_def tt_toResponse_def update_ticket_type_def
        find_ticket_type_def find split: sum.splits if_splits)
qed

section \<open>Properties\<close>

definition demo_types :: world where
  "demo_types = empty_world\<lparr>concerts := [demo_concert ''c1''],
     ticketTypes := [(demo_type ''vip'' 3)\<lparr>tt_concertId := ''c1'', tt_soldQty := 1\<rparr>,
                     (demo_type ''std'' 9)\<lparr>tt_concertId := ''c1'', tt_price := 10\<rparr>]\<rparr>"

definition no_change :: update_ticket_type_dto where
  "no_change = \<lparr>ut_name = None, ut_price = None, ut_totalQty = None, ut_soldQty = None,
     ut_reservedQty = None, ut_maxPerUser = None, ut_saleStartsAt = None, ut_saleEndsAt = None,
     ut_status = None\<rparr>"

text \<open>
  An update that is accepted applies exactly the given fields, has checked a new total against
  what is sold and reserved, lets only an administrator touch the quantities, marks the type
  SOLD_OUT when nothing is left, and resets the Redis stock to what the new row has available
  whenever a quantity was given.
\<close>

theorem ticket_type_update_effect:
  assumes "tt_update now i dto userId userRole w = (w', Inr r)"
  shows "\<exists>tt. find_ticket_type i w = Some tt \<and>
    find_ticket_type i w' = Some (updated_type dto tt) \<and> tr_row r = updated_type dto tt \<and>
    (\<forall>n. ut_totalQty dto = Some n \<longrightarrow> 0 \<le> available_qty (apply_update dto tt)) \<and>
    (available_qty (apply_update dto tt) = 0 \<longrightarrow> tt_status (updated_type dto tt) = SOLD_OUT) \<and>
    ((ut_soldQty dto \<noteq> None \<or> ut_reservedQty dto \<noteq> None) \<longrightarrow> userRole = ADMIN) \<and>
    redisdb w' (REDIS_KEY_STOCK i) =
      (if touches_inventory dto then Some (RInt (max 0 (available_qty (apply_update dto tt))), None)
       else redisdb w (REDIS_KEY_STOCK i))"
proof -
  have "0 \<le> available_qty (apply_update dto tt)"
    if "\<not> total_too_small dto tt" "ut_totalQty dto = Some n" for tt n
    using that by (simp add: total_too_small_def available_qty_def apply_update_def set_if_def
        split: option.splits)
  moreover have "tt_status (updated_type dto tt) = SOLD_OUT"
    if "available_qty (apply_update dto tt) = 0" for tt
    using that by (simp add: updated_type_def Let_def)
  ultimately show ?thesis using tt_update_success [OF assms] by blast
qed

lemma demo_type_updates:
  "\<exists>w' r. tt_update 5 ''vip'' (no_change\<lparr>ut_totalQty := Some 1\<rparr>) ''org'' ORGANIZER demo_types = (w', Inr r)"
  by (simp add: tt_update_def demo_types_def find_ticket_type_def demo_type_def checkConcertOwnership_def
      find_concert_def demo_concert_def no_change_def total_too_small_def set_if_def apply_update_def
      update_ticket_type_def touches_inventory_def Let_def)

theorem ticket_type_update_effect_witness:
  "\<exists>w' r tt. tt_update 5 ''vip'' (no_change\<lparr>ut_totalQty := Some 1\<rparr>) ''org'' ORGANIZER demo_types = (w', Inr r) \<and>
     find_ticket_type ''vip'' w' = Some (updated_type (no_change\<lparr>ut_totalQty := Some 1\<rparr>) tt)"
  using demo_type_updates ticket_type_update_effect by meson

text \<open>
  An administrator who sets only the sold quantity is not checked against the total: the update
  goes through with any value, and the type is then sold beyond its total.
\<close>

theorem sold_adjustment_unchecked:
  assumes "find_ticket_type i w = Some tt" and "find_concert (tt_concertId tt) w \<noteq> None"
  shows "\<exists>w' r tt'. tt_update now i (no_change\<lparr>ut_soldQty := Some (tt_totalQty tt + 1)\<rparr>) userId ADMIN w = (w', Inr r) \<and>
    find_ticket_type i w' = Some tt' \<and> tt_totalQty tt' < tt_soldQty tt'"
proof -
  let ?dto = "no_change\<lparr>ut_soldQty := Some (tt_totalQty tt + 1)\<rparr>"
  have "\<exists>w' r. tt_update now i ?dto userId ADMIN w = (w', Inr r)"
    using assms by (auto simp: tt_update_def checkConcertOwnership_def no_change_def total_too_small_def
        update_ticket_type_def Let_def find_ticket_type_def find_row_update_where apply_update_def)
  then obtain w' r where run: "tt_update now i ?dto userId ADMIN w = (w', Inr r)" by blast
  then have "find_ticket_type i w' = Some (updated_type ?dto tt)"
    using tt_update_success [OF run] assms(1) by auto
  moreover have "tt_totalQty (updated_type ?dto tt) < tt_soldQty (updated_type ?dto tt)"
    by (simp add: updated_type_def Let_def apply_update_def set_if_def no_change_def)
  ultimately show ?thesis using run by blast
qed

theorem sold_adjustment_unchecked_witness:
  "\<exists>w' r tt'. tt_update 5 ''vip'' (no_change\<lparr>ut_soldQty := Some 4\<rparr>) ''root'' ADMIN demo_types = (w', Inr r) \<and>
    find_ticket_type ''vip'' w' = Some tt' \<and> tt_totalQty tt' < tt_soldQty tt'"
  using sold_adjustment_unchecked [of "''vip''" demo_types
      "(demo_type ''vip'' 3)\<lparr>tt_concertId := ''c1'', tt_soldQty := 1\<rparr>" 5 "''root''"]
  by (simp add: demo_types_def find_ticket_type_def demo_type_def find_concert_def demo_concert_def)

text \<open>
  A type that was marked SOLD_OUT stays so: raising its total brings the stock back, in the
  database and in Redis, but unless the status is set by hand it is not listed as on sale.
\<close>

theorem sold_out_not_reopened:
  assumes "tt_update now i dto userId userRole w = (w', Inr r)" and "ut_status dto = None"
    and "find_ticket_type i w = Some tt" and "tt_status tt = SOLD_OUT"
  shows "\<exists>tt'. find_ticket_type i w' = Some tt' \<and> available_qty tt' = available_qty (apply_update dto tt) \<and>
    tt_status tt' = SOLD_OUT \<and> (\<forall>later c. \<not> on_sale later c tt')"
proof -
  have "find_ticket_type i w' = Some (updated_type dto tt)"
    using tt_update_success [OF assms(1)] assms(3) by auto
  moreover have "tt_status (updated_type dto tt) = SOLD_OUT"
    using assms(2,4) by (simp add: updated_type_def Let_def apply_update_def set_if_def)
  moreover have "available_qty (updated_type dto tt) = available_qty (apply_update dto tt)"
    by (simp add: updated_type_def Let_def available_qty_def)
  ultimately show ?thesis by (simp add: on_sale_def)
qed

theorem sold_out_not_reopened_witness:
  "\<exists>w' r tt'. tt_update 5 ''vip'' (no_change\<lparr>ut_totalQty := Some 9\<rparr>) ''org'' ORGANIZER
      (demo_types\<lparr>ticketTypes := [(demo_type ''vip'' 3)\<lparr>tt_concertId := ''c1'', tt_status := SOLD_OUT\<rparr>]\<rparr>) = (w', Inr r) \<and>
    find_ticket_type ''vip'' w' = Some tt' \<and> tt_status tt' = SOLD_OUT"
proof -
  let ?tt = "(demo_type ''vip'' 3)\<lparr>tt_concertId := ''c1'', tt_status := SOLD_OUT\<rparr>"
  let ?w = "demo_types\<lparr>ticketTypes := [?tt]\<rparr>"
  have "\<exists>w' r. tt_update 5 ''vip'' (no_change\<lparr>ut_totalQty := Some 9\<rparr>) ''org'' ORGANIZER ?w = (w', Inr r)"
    by (simp add: tt_update_def demo_types_def find_ticket_type_def demo_type_def checkConcertOwnership_def
        find_concert_def demo_concert_def no_change_def total_too_small_def set_if_def apply_update_def
        update_ticket_type_def touches_inventory_def Let_def available_qty_def)
  then obtain w' r where run:
    "tt_update 5 ''vip'' (no_change\<lparr>ut_totalQty := Some 9\<rparr>) ''org'' ORGANIZER ?w = (w', Inr r)" by blast
  have "find_ticket_type ''vip'' ?w = Some ?tt" by (simp add: find_ticket_type_def demo_type_def)
  from sold_out_not_reopened [OF run _ this] run show ?thesis by (auto simp: no_change_def)
qed

text \<open>
  The public listing and the check of an order agree: every listed type can be ordered, and
  every type that can be ordered is listed, except in the very millisecond in which its sale
  ends.  The list is sorted by falling price.
\<close>

theorem listed_types_are_orderable:
  assumes "unique_key tt_id (ticketTypes w)" and "tt_findAvailable now c w = Inr res"
  shows "(\<forall>r \<in> set (tl_data res). validateTicketType now c (tt_id (tr_row r)) w =
        Inr (tt_maxPerUser (tr_row r), tt_price (tr_row r))) \<and>
    (\<forall>i tt mp. find_ticket_type i w = Some tt \<and> validateTicketType now c i w = Inr mp \<and>
        tt_saleEndsAt tt \<noteq> Some now \<longrightarrow> tt_toResponse tt \<in> set (tl_data res)) \<and>
    sorted (map (\<lambda>r. - tt_price (tr_row r)) (tl_data res)) \<and> tl_total res = length (tl_data res)"
proof -
  obtain con where con: "find_concert c w = Some con"
    using assms(2) by (auto simp: tt_findAvailable_def split: option.splits)
  show ?thesis
  proof (cases "c_status con \<noteq> PUBLISHED \<and> c_status con \<noteq> SALE_OPEN")
    case True
    then show ?thesis using assms(2) con by (auto simp: tt_findAvailable_def validateTicketType_def)
  next
    case False
    let ?rows = "sort_key (\<lambda>tt. - tt_price tt) (filter (on_sale now c) (ticketTypes w))"
    have res: "res = \<lparr>tl_data = map tt_toResponse ?rows, tl_total = length ?rows\<rparr>"
      using assms(2) con False by (auto simp: tt_findAvailable_def by_price_def Let_def)
    have rows: "tt \<in> set ?rows \<longleftrightarrow> tt \<in> set (ticketTypes w) \<and> on_sale now c tt" for tt by auto
    have "validateTicketType now c (tt_id tt) w = Inr (tt_maxPerUser tt, tt_price tt)" if "tt \<in> set ?rows" for tt
    proof -
      have "find_ticket_type (tt_id tt) w = Some tt"
        using find_row_unique [OF assms(1)] that rows by (simp add: find_ticket_type_def)
      then show ?thesis
        using that rows con False by (auto simp: validateTicketType_def on_sale_def split: option.splits)
    qed
    moreover have "tt \<in> set ?rows"
      if "find_ticket_type i w = Some tt" "validateTicketType now c i w = Inr mp" "tt_saleEndsAt tt \<noteq> Some now" for i tt mp
    proof -
      have "tt \<in> set (ticketTypes w)"
        using find_row_SomeD [of tt_id i "ticketTypes w" tt] that(1) by (simp add: find_ticket_type_def)
      then show ?thesis
        using that con by (auto simp: validateTicketType_def on_sale_def rows split: if_splits option.splits)
    qed
    moreover have "sorted (map (\<lambda>r. - tt_price (tr_row r)) (map tt_toResponse ?rows))"
      using sorted_sort_key [of "\<lambda>tt. - tt_price tt"] by (simp add: comp_def tt_toResponse_def)
    ultimately show ?thesis by (auto simp: res tt_toResponse_def)
  qed
qed

theorem listed_types_are_orderable_witness:
  "\<exists>res. tt_findAvailable 5 ''c1'' demo_types = Inr res \<and>
     sorted (map (\<lambda>r. - tt_price (tr_row r)) (tl_data res)) \<and> tl_total res = length (tl_data res)"
proof -
  have "unique_key tt_id (ticketTypes demo_types)"
    by (simp add: unique_key_def demo_types_def demo_type_def)
  moreover obtain res where "tt_findAvailable 5 ''c1'' demo_types = Inr res"
    by (simp add: tt_findAvailable_def find_concert_def demo_types_def demo_concert_def)
  ultimately show ?thesis using listed_types_are_orderable by blast
qed

text \<open>
  A type is removed only when nothing of it is sold or reserved and no order item, ticket or
  counter refers to it; its row and its Redis stock are then gone.  One cancelled order is
  enough to make the removal fail with a database error, as its item stays.
\<close>

theorem ticket_type_removal:
  "case tt_remove i userId userRole w of
     (w', Inr msg) \<Rightarrow> find_ticket_type i w' = None \<and> redisdb w' (REDIS_KEY_STOCK i) = None \<and>
        \<not> type_referenced i w \<and> (\<exists>tt. find_ticket_type i w = Some tt \<and> tt_soldQty tt \<le> 0 \<and> tt_reservedQty tt \<le> 0)
   | (w', Inl e) \<Rightarrow> w' = w \<and>
        (find_ticket_type i w \<noteq> None \<and> userRole = ADMIN \<longrightarrow>
           (\<exists>tt. find_ticket_type i w = Some tt \<and>
             (0 < tt_soldQty tt \<or> 0 < tt_reservedQty tt \<or> type_referenced i w \<or> find_concert (tt_concertId tt) w = None)))"
proof -
  have gone: "find_row tt_id i (delete_where (\<lambda>tt. tt_id tt = i) rows) = None" for rows
    by (auto simp: find_row_None_iff delete_where_def)
  show ?thesis
    by (auto simp: tt_remove_def delete_type_def checkConcertOwnership_def find_ticket_type_def gone
        redis_del_def split: option.splits sum.splits if_splits)
qed

theorem ticket_type_removal_witness:
  "snd (tt_remove ''std'' ''org'' ORGANIZER demo_types) = Inr (''Ticket type '' @ tt_name (demo_type ''std'' 9) @ '' deleted successfully'') \<and>
   find_ticket_type ''std'' (fst (tt_remove ''std'' ''org'' ORGANIZER demo_types)) = None"
proof -
  have run: "snd (tt_remove ''std'' ''org'' ORGANIZER demo_types) =
      Inr (''Ticket type '' @ tt_name (demo_type ''std'' 9) @ '' deleted successfully'')"
    by (simp add: tt_remove_def demo_types_def find_ticket_type_def demo_type_def checkConcertOwnership_def
        find_concert_def demo_concert_def delete_type_def type_referenced_def empty_world_def)
  then show ?thesis
    using ticket_type_removal [where w = demo_types and i = "''std''" and userId = "''org''" and
        userRole = ORGANIZER]
    by (cases "tt_remove ''std'' ''org'' ORGANIZER demo_types") simp
qed

end
