(* ===== verification/Idempotency.thy ===== *)
theory Idempotency
  imports Ticket_Type_Service
begin

text \<open>
  Idempotency keys: \<open>idempotency.service.ts\<close> (used by the payment service),
  \<open>idempotency.interceptor.ts\<close> (used by the order controller), and \<open>createPayment\<close> of
  \<open>payment.service.ts\<close>.  Both keep a record under \<open>idem:{user}:{key}\<close> for 15 minutes.

  \<^item> A request body is a JSON value; numbers are integers, keys are sorted by their
    characters.  A response body is kept as its JSON text, where the empty text stands for a
    body that JavaScript takes as false.
  \<^item> The keys of this family hold nothing but these records.
  \<^item> The service is related to an abstract state machine with the states absent, processing,
    completed and failed.
\<close>

section \<open>JSON\<close>

datatype json =
    JNull | JUndefined | JBool bool | JNum int | JStr string
  | JArr "json list" | JObj "(string \<times> json) list"

text \<open>\<open>None\<close> is \<open>undefined\<close>; an undefined element stays in its array.\<close>

function (sequential) normalizePayload :: "json \<Rightarrow> json option" where
  "normalizePayload JNull = None"
| "normalizePayload JUndefined = None"
| "normalizePayload (JArr vs) =
     Some (JArr (map (\<lambda>v. case normalizePayload v of None \<Rightarrow> JUndefined | Some n \<Rightarrow> n) vs))"
| "normalizePayload (JObj kvs) =
     Some (JObj (concat (map (\<lambda>kv. case normalizePayload (snd kv) of None \<Rightarrow> [] | Some n \<Rightarrow> [(fst kv, n)])
       (sort_key fst kvs))))"
| "normalizePayload v = Some v"
  by pat_completeness auto

lemma size_member_obj: "kv \<in> set kvs \<Longrightarrow> size (snd kv) < Suc (size_list (size_prod (\<lambda>_. 0) size) kvs)"
proof (induction kvs)
  case Nil
  then show ?case by simp
next
  case (Cons x kvs)
  then show ?case by (cases x) auto
qed

termination normalizePayload
proof (relation "measure size")
  fix vs :: "json list" and v
  show "v \<in> set vs \<Longrightarrow> (v, JArr vs) \<in> measure size"
    using size_list_estimation' [of v vs "size v" size] by simp
next
  fix kvs :: "(string \<times> json) list" and kv
  show "kv \<in> set (sort_key fst kvs) \<Longrightarrow> (snd kv, JObj kvs) \<in> measure size"
    using size_member_obj [of kv kvs] by simp
qed simp

definition hex_digit :: "nat \<Rightarrow> char" where
  "hex_digit n = ''0123456789abcdef'' ! n"

definition escape_char :: "char \<Rightarrow> string" where
  "escape_char c =
     (let n = (of_char c :: nat)
      in if n = 34 then [CHR 0x5C, CHR 0x22]
         else if n = 92 then [CHR 0x5C, CHR 0x5C]
         else if n = 8 then CHR 0x5C # ''b'' else if n = 9 then CHR 0x5C # ''t''
         else if n = 10 then CHR 0x5C # ''n'' else if n = 12 then CHR 0x5C # ''f''
         else if n = 13 then CHR 0x5C # ''r''
         else if n < 32 then CHR 0x5C # ''u00'' @ [hex_digit (n div 16), hex_digit (n mod 16)]
         else [c])"

definition quote :: "string \<Rightarrow> string" where
  "quote s = [CHR 0x22] @ concat (map escape_char s) @ [CHR 0x22]"

text \<open>\<open>JSON.stringify\<close>; an undefined array element is written as \<open>null\<close>.\<close>

fun stringify :: "json \<Rightarrow> string" where
  "stringify JNull = ''null''"
| "stringify JUndefined = ''null''"
| "stringify (JBool b) = (if b then ''true'' else ''false'')"
| "stringify (JNum n) = show_int n"
| "stringify (JStr s) = quote s"
| "stringify (JArr vs) = ''['' @ join_char (CHR '','') (map stringify vs) @ '']''"
| "stringify (JObj kvs) =
     ''{'' @ join_char (CHR '','') (map (\<lambda>(k, v). quote k @ '':'' @ stringify v) kvs) @ ''}''"

text \<open>A payload that normalizes to \<open>undefined\<close> has no text: the hash function throws.\<close>

definition hashRequest :: "crypto \<Rightarrow> json \<Rightarrow> exn + string" where
  "hashRequest C payload =
     (case normalizePayload payload of
        None \<Rightarrow> Inl (PlainError ''data argument must be a string'')
      | Some v \<Rightarrow> Inr (sha256 C (stringify v)))"

section \<open>The service\<close>

definition IDEM_TTL_SECONDS :: int where
  "IDEM_TTL_SECONDS = 15 * 60"

definition buildKey :: "id \<Rightarrow> string \<Rightarrow> string" where
  "buildKey userId idempotencyKey = ''idem:'' @ userId @ '':'' @ idempotencyKey"

definition idem_read :: "time \<Rightarrow> string \<Rightarrow> redis \<Rightarrow> idempotency_record option" where
  "idem_read now k r = (case redis_get now k r of Some (RIdem rec) \<Rightarrow> Some rec | _ \<Rightarrow> None)"

definition idem_write :: "time \<Rightarrow> string \<Rightarrow> idempotency_record \<Rightarrow> world \<Rightarrow> world" where
  "idem_write now k rec w = w\<lparr>redisdb := redis_set now k (RIdem rec) (Some IDEM_TTL_SECONDS) (redisdb w)\<rparr>"

text \<open>\<open>SET .. EX .. NX\<close>, whose reply the code does not look at.\<close>

definition idem_write_nx :: "time \<Rightarrow> string \<Rightarrow> idempotency_record \<Rightarrow> world \<Rightarrow> world" where
  "idem_write_nx now k rec w = (if redis_exists now k (redisdb w) then w else idem_write now k rec w)"

datatype idem_start = ShouldProcess | CachedResponse "string option"

definition idem_start ::
  "time \<Rightarrow> id \<Rightarrow> string \<Rightarrow> string \<Rightarrow> idem_start handler" where
  "idem_start now userId idempotencyKey requestHash w =
     (let redisKey = buildKey userId idempotencyKey
      in case idem_read now redisKey (redisdb w) of
           None \<Rightarrow>
             (idem_write_nx now redisKey
                \<lparr>ir_status = IDEM_PROCESSING, ir_requestHash = requestHash, ir_responseBody = None\<rparr> w,
              Inr ShouldProcess)
         | Some parsed \<Rightarrow>
             if ir_requestHash parsed \<noteq> requestHash
             then (w, Inl (ConflictException ''key used for another request''))
             else (case ir_status parsed of
                     IDEM_PROCESSING \<Rightarrow> (w, Inl (ConflictException ''request in progress''))
                   | IDEM_COMPLETED \<Rightarrow> (w, Inr (CachedResponse (ir_responseBody parsed)))
                   | IDEM_FAILED \<Rightarrow> (w, Inl (ConflictException ''previous request failed''))))"

definition idem_complete :: "time \<Rightarrow> id \<Rightarrow> string \<Rightarrow> string \<Rightarrow> string \<Rightarrow> world \<Rightarrow> world" where
  "idem_complete now userId idempotencyKey requestHash responseBody w =
     idem_write now (buildKey userId idempotencyKey)
       \<lparr>ir_status = IDEM_COMPLETED, ir_requestHash = requestHash, ir_responseBody = Some responseBody\<rparr> w"

definition idem_fail :: "time \<Rightarrow> id \<Rightarrow> string \<Rightarrow> string \<Rightarrow> world \<Rightarrow> world" where
  "idem_fail now userId idempotencyKey requestHash w =
     idem_write now (buildKey userId idempotencyKey)
       \<lparr>ir_status = IDEM_FAILED, ir_requestHash = requestHash, ir_responseBody = None\<rparr> w"

section \<open>Payment with an idempotency key\<close>

definition payment_response_body :: "id \<Rightarrow> string \<Rightarrow> string" where
  "payment_response_body orderId paymentUrl =
     stringify (JObj [(''orderId'', JStr orderId), (''paymentUrl'', JStr paymentUrl),
       (''reused'', JBool False)])"

definition createPayment ::
  "crypto \<Rightarrow> payment_env \<Rightarrow> time \<Rightarrow> id \<Rightarrow> string \<Rightarrow> id \<Rightarrow> string option handler" where
  "createPayment C env now userId idempotencyKey orderId w =
     (case hashRequest C (JObj [(''orderId'', JStr orderId)]) of
        Inl e \<Rightarrow> (w, Inl e)
      | Inr requestHash \<Rightarrow>
          bindE (idem_start now userId idempotencyKey requestHash w) (\<lambda>w1 idem.
            case idem of
              CachedResponse body \<Rightarrow> (w1, Inr body)
            | ShouldProcess \<Rightarrow>
                (case createPaymentUrl env orderId userId w1 of
                   (w2, Inl e) \<Rightarrow> (idem_fail now userId idempotencyKey requestHash w2, Inl e)
                 | (w2, Inr (paymentUrl, _)) \<Rightarrow>
                     let body = payment_response_body orderId paymentUrl
                     in (idem_complete now userId idempotencyKey requestHash body w2, Inr (Some body)))))"

section \<open>The interceptor\<close>

record http_request =
  hq_idempotencyKey :: "string option"
  hq_userId :: "id option"
  hq_method :: string
  hq_body :: json

definition request_key :: "http_request \<Rightarrow> string" where
  "request_key req =
     buildKey (case hq_userId req of Some u \<Rightarrow> u | None \<Rightarrow> ''anonymous'') (or_empty (hq_idempotencyKey req))"

text \<open>The answer from the stored record: a conflict, a cached body, or nothing.\<close>

definition intercept_lookup :: "string \<Rightarrow> idempotency_record option \<Rightarrow> exn + string option" where
  "intercept_lookup requestHash stored =
     (case stored of
        None \<Rightarrow> Inr None
      | Some rec \<Rightarrow>
          if ir_status rec = IDEM_PROCESSING then Inl (ConflictException ''request in progress'')
          else if ir_requestHash rec \<noteq> [] \<and> ir_requestHash rec \<noteq> requestHash
          then Inl (ConflictException ''key used for another request'')
          else if ir_status rec = IDEM_COMPLETED \<and> or_empty (ir_responseBody rec) \<noteq> []
          then Inr (ir_responseBody rec) else Inr None)"

text \<open>Register, run the handler, and record its result; \<open>later\<close> is when it answers.\<close>

definition intercept_run :: "time \<Rightarrow> time \<Rightarrow> string \<Rightarrow> string \<Rightarrow> string handler \<Rightarrow> string handler" where
  "intercept_run now later redisKey requestHash h w =
     (case h (idem_write now redisKey
                \<lparr>ir_status = IDEM_PROCESSING, ir_requestHash = requestHash, ir_responseBody = None\<rparr> w) of
        (w', Inr body) \<Rightarrow>
          (idem_write later redisKey
             \<lparr>ir_status = IDEM_COMPLETED, ir_requestHash = requestHash, ir_responseBody = Some body\<rparr> w',
           Inr body)
      | (w', Inl e) \<Rightarrow> (w'\<lparr>redisdb := redis_del redisKey (redisdb w')\<rparr>, Inl e))"

definition intercept :: "crypto \<Rightarrow> time \<Rightarrow> time \<Rightarrow> http_request \<Rightarrow> string handler \<Rightarrow> string handler" where
  "intercept C now later req h w =
     (if or_empty (hq_idempotencyKey req) = []
      then (w, Inl (BadRequestException ''missing Idempotency-Key''))
      else if hq_method req \<noteq> ''POST'' then h w
      else case hashRequest C (hq_body req) of
        Inl e \<Rightarrow> (w, Inl e)
      | Inr requestHash \<Rightarrow>
          (case intercept_lookup requestHash (idem_read now (request_key req) (redisdb w)) of
             Inl e \<Rightarrow> (w, Inl e)
           | Inr (Some body) \<Rightarrow> (w, Inr body)
           | Inr None \<Rightarrow> intercept_run now later (request_key req) requestHash h w))"

section \<open>Facts\<close>

lemma idem_read_write [simp]:
  "idem_read now' k' (redisdb (idem_write now k rec w)) =
     (if k' = k then (if now' \<le> now + IDEM_TTL_SECONDS * 1000 then Some rec else None)
      else idem_read now' k' (redisdb w))"
  by (simp add: idem_read_def idem_write_def alive_def)

lemma idem_write_tables [simp]:
  "orders (idem_write now k rec w) = orders w" "payments (idem_write now k rec w) = payments w"
  by (simp_all add: idem_write_def)

lemma buildKey_inject:
  "colon_free u \<Longrightarrow> colon_free u' \<Longrightarrow> buildKey u k = buildKey u' k' \<longleftrightarrow> u = u' \<and> k = k'"
  by (simp add: buildKey_def colon_free_def append_sep_inject)

text \<open>The keyspace holds only records under the key: a missing record is a missing key.\<close>

definition idem_typed :: "time \<Rightarrow> string \<Rightarrow> world \<Rightarrow> bool" where
  "idem_typed now k w \<longleftrightarrow>
     (idem_read now k (redisdb w) = None \<longrightarrow> \<not> redis_exists now k (redisdb w))"

lemma idem_typed_write [simp]: "idem_typed now k (idem_write now' k rec w)"
  by (auto simp: idem_typed_def idem_read_def idem_write_def redis_get_def redis_live_def redis_set_def
      redis_exists_def alive_def split: if_splits)

section \<open>Normal forms\<close>

definition defined_member :: "string \<times> json \<Rightarrow> bool" where
  "defined_member kv \<longleftrightarrow> normalizePayload (snd kv) \<noteq> None"

lemma sort_key_unique_keys:
  assumes "distinct (map fst xs)" and "distinct (map fst ys)" and "set xs = set ys"
  shows "sort_key fst xs = sort_key fst (ys :: (string \<times> 'v) list)"
proof (rule map_sorted_distinct_set_unique [where f = fst])
  show "inj_on fst (set (sort_key fst xs) \<union> set (sort_key fst ys))"
    using assms by (simp add: distinct_map)
  show "distinct (map fst (sort_key fst xs))" "distinct (map fst (sort_key fst ys))"
    using assms by (simp_all add: distinct_map)
qed (simp_all add: assms(3))

lemma normalize_members:
  "concat (map (\<lambda>kv. case normalizePayload (snd kv) of None \<Rightarrow> [] | Some n \<Rightarrow> [(fst kv, n)]) kvs) =
   map (\<lambda>kv. (fst kv, the (normalizePayload (snd kv)))) (filter defined_member kvs)"
  by (induction kvs) (auto simp: defined_member_def)

lemma normalize_object:
  "normalizePayload (JObj kvs) =
     Some (JObj (map (\<lambda>kv. (fst kv, the (normalizePayload (snd kv)))) (sort_key fst (filter defined_member kvs))))"
  by (simp only: normalizePayload.simps normalize_members filter_sort)

section \<open>The abstract machine\<close>

datatype idem_state =
    Absent | Processing string | Completed string "string option" | Failed string

fun idem_abs :: "idempotency_record option \<Rightarrow> idem_state" where
  "idem_abs None = Absent"
| "idem_abs (Some rec) =
     (case ir_status rec of
        IDEM_PROCESSING \<Rightarrow> Processing (ir_requestHash rec)
      | IDEM_COMPLETED \<Rightarrow> Completed (ir_requestHash rec) (ir_responseBody rec)
      | IDEM_FAILED \<Rightarrow> Failed (ir_requestHash rec))"

fun machine_start :: "string \<Rightarrow> idem_state \<Rightarrow> idem_state \<times> (exn + idem_start)" where
  "machine_start h Absent = (Processing h, Inr ShouldProcess)"
| "machine_start h (Processing h') =
     (Processing h', Inl (ConflictException (if h' = h then ''request in progress'' else ''key used for another request'')))"
| "machine_start h (Completed h' b) =
     (Completed h' b, if h' = h then Inr (CachedResponse b) else Inl (ConflictException ''key used for another request''))"
| "machine_start h (Failed h') =
     (Failed h', Inl (ConflictException (if h' = h then ''previous request failed'' else ''key used for another request'')))"

abbreviation idem_state_of :: "time \<Rightarrow> string \<Rightarrow> world \<Rightarrow> idem_state" where
  "idem_state_of now k w \<equiv> idem_abs (idem_read now k (redisdb w))"

lemma idem_start_cases:
  assumes "idem_typed now (buildKey u k) w"
  shows "idem_start now u k h w =
    (if idem_read now (buildKey u k) (redisdb w) = None
     then idem_write now (buildKey u k) \<lparr>ir_status = IDEM_PROCESSING, ir_requestHash = h, ir_responseBody = None\<rparr> w
     else w, snd (machine_start h (idem_state_of now (buildKey u k) w)))"
  using assms
  by (auto simp: idem_start_def Let_def idem_typed_def idem_write_nx_def split: option.split IdemStatus.split)

section \<open>Properties\<close>

text \<open>
  The hash of a request depends only on its defined members: not on the order of the keys of
  the object, nor on members that are null or undefined.
\<close>

theorem request_hash_canonical:
  assumes "distinct (map fst kvs)" and "distinct (map fst kvs')"
    and "set (filter defined_member kvs) = set (filter defined_member kvs')"
  shows "hashRequest C (JObj kvs) = hashRequest C (JObj kvs')"
proof -
  have "sort_key fst (filter defined_member kvs) = sort_key fst (filter defined_member kvs')"
    using assms by (intro sort_key_unique_keys) (simp_all add: distinct_map_filter)
  then show ?thesis unfolding hashRequest_def normalize_object by simp
qed

theorem request_hash_canonical_witness:
  "hashRequest demo_crypto (JObj [(''b'', JNum 1), (''a'', JStr ''x''), (''n'', JNull)]) =
   hashRequest demo_crypto (JObj [(''a'', JStr ''x''), (''b'', JNum 1)])"
  by (rule request_hash_canonical) (auto simp: defined_member_def)


definition demo_payer :: world where
  "demo_payer = empty_world\<lparr>orders := [demo_order]\<rparr>"

lemma demo_payer_facts [simp]:
  "idem_read now k (redisdb demo_payer) = None" "idem_typed now k demo_payer"
  "find_order ''o1'' demo_payer = Some demo_order" "payments_of ''o1'' demo_payer = []"
  by (simp_all add: demo_payer_def empty_world_def idem_read_def idem_typed_def redis_get_def
      redis_live_def redis_exists_def find_order_def payments_of_def)


lemma hash_payment: "\<exists>h. hashRequest C (JObj [(''orderId'', JStr i)]) = Inr h"
  by (simp add: hashRequest_def)

text \<open>
  An idempotency key of a payment is used once.  Within 15 minutes of the first call a second
  call with the same key and order changes nothing: it gets the first answer again, or a
  conflict when the first call failed, whatever the gateway would now say; with another order
  it is refused.
\<close>

theorem payment_key_is_single_use:
  assumes "idem_typed now (buildKey u k) w" and "idem_read now (buildKey u k) (redisdb w) = None"
    and "createPayment C env now u k i w = (w1, r)" and "now' \<le> now + 900000"
  shows "createPayment C env' now' u k i w1 =
      (w1, case r of Inr body \<Rightarrow> Inr body | Inl e \<Rightarrow> Inl (ConflictException ''previous request failed'')) \<and>
    (hashRequest C (JObj [(''orderId'', JStr j)]) \<noteq> hashRequest C (JObj [(''orderId'', JStr i)]) \<longrightarrow>
      createPayment C env' now' u k j w1 = (w1, Inl (ConflictException ''key used for another request'')))"
proof -
  obtain h where h: "hashRequest C (JObj [(''orderId'', JStr i)]) = Inr h" using hash_payment by blast
  obtain h' where h': "hashRequest C (JObj [(''orderId'', JStr j)]) = Inr h'" using hash_payment by blast
  let ?key = "buildKey u k"
  have start: "idem_start now u k h w =
      (idem_write now ?key \<lparr>ir_status = IDEM_PROCESSING, ir_requestHash = h, ir_responseBody = None\<rparr> w, Inr ShouldProcess)"
    using assms(2) by (simp add: idem_start_cases [OF assms(1)])
  let ?w = "idem_write now ?key \<lparr>ir_status = IDEM_PROCESSING, ir_requestHash = h, ir_responseBody = None\<rparr> w"
  obtain w2 r2 where url: "createPaymentUrl env i u ?w = (w2, r2)" by (cases "createPaymentUrl env i u ?w")
  have ttl: "now' \<le> now + IDEM_TTL_SECONDS * 1000" using assms(4) by (simp add: IDEM_TTL_SECONDS_def)
  have stored: "idem_read now' ?key (redisdb w1) =
      Some (case r of
          Inr body \<Rightarrow> \<lparr>ir_status = IDEM_COMPLETED, ir_requestHash = h, ir_responseBody = body\<rparr>
        | Inl e \<Rightarrow> \<lparr>ir_status = IDEM_FAILED, ir_requestHash = h, ir_responseBody = None\<rparr>)"
    using assms(3) h start url ttl
    by (cases r2) (auto simp: createPayment_def Let_def idem_complete_def idem_fail_def)
  have "createPayment C env' now' u k i w1 =
      (w1, case r of Inr body \<Rightarrow> Inr body | Inl e \<Rightarrow> Inl (ConflictException ''previous request failed''))"
    by (cases r) (simp_all add: createPayment_def h idem_start_def stored)
  moreover have "createPayment C env' now' u k j w1 = (w1, Inl (ConflictException ''key used for another request''))"
    if "h \<noteq> h'"
    using that by (cases r) (simp_all add: createPayment_def h' idem_start_def stored)
  ultimately show ?thesis by (auto simp: h h')
qed

theorem payment_key_is_single_use_witness:
  "createPayment demo_crypto demo_env 7 ''alice'' ''k1'' ''o1''
     (fst (createPayment demo_crypto demo_env 5 ''alice'' ''k1'' ''o1'' demo_payer)) =
   (fst (createPayment demo_crypto demo_env 5 ''alice'' ''k1'' ''o1'' demo_payer),
    case snd (createPayment demo_crypto demo_env 5 ''alice'' ''k1'' ''o1'' demo_payer) of
      Inr body \<Rightarrow> Inr body | Inl e \<Rightarrow> Inl (ConflictException ''previous request failed''))"
  by (rule payment_key_is_single_use [where now = 5 and w = demo_payer, THEN conjunct1]) simp_all

text \<open>
  The answer of a payment says \<open>reused: false\<close> even when it hands out the URL of an earlier
  request.
\<close>

theorem payment_reuse_not_reported:
  assumes "idem_typed now (buildKey u k) w" and "idem_read now (buildKey u k) (redisdb w) = None"
    and "snd (createPaymentUrl env i u w) = Inr (url, True)"
  shows "snd (createPayment C env now u k i w) = Inr (Some (payment_response_body i url))"
proof -
  obtain h where h: "hashRequest C (JObj [(''orderId'', JStr i)]) = Inr h" using hash_payment by blast
  let ?w = "idem_write now (buildKey u k) \<lparr>ir_status = IDEM_PROCESSING, ir_requestHash = h, ir_responseBody = None\<rparr> w"
  have "snd (createPaymentUrl env i u ?w) = snd (createPaymentUrl env i u w)"
    by (cases "pe_refusal env")
      (simp_all add: createPaymentUrl_def find_order_def payments_of_def request_payment_url_def
        breaker_execute_def Let_def split: option.split)
  then show ?thesis
    using assms(2,3) h
    by (cases "createPaymentUrl env i u ?w")
      (simp add: createPayment_def idem_start_cases [OF assms(1)] Let_def)
qed

theorem payment_reuse_not_reported_witness:
  "\<exists>w url. snd (createPaymentUrl demo_env ''o1'' ''alice'' w) = Inr (url, True) \<and>
     snd (createPayment demo_crypto demo_env 5 ''alice'' ''k1'' ''o1'' w) =
       Inr (Some (payment_response_body ''o1'' url))"
proof -
  let ?w = "fst (createPaymentUrl demo_env ''o1'' ''alice'' demo_payer)"
  have "snd (createPaymentUrl demo_env ''o1'' ''alice'' ?w) =
      Inr (gateway_createPaymentUrl ''http://pay'' ''o1'' 200, True)"
    by code_simp
  moreover have "redisdb ?w = redisdb demo_payer" by simp
  then have "idem_typed 5 k ?w" "idem_read 5 k (redisdb ?w) = None" for k
    using demo_payer_facts(1,2) [of 5 k] by (simp_all add: idem_typed_def)
  ultimately show ?thesis using payment_reuse_not_reported [of 5 "''alice''" "''k1''" ?w] by blast
qed

text \<open>
  A POST that succeeded is replayed from its record: for 15 minutes a POST of the same user
  with the same key and the same body gets the same answer without running the handler, and one
  with another body is refused.  A POST that failed leaves no record, so a retry runs.
\<close>

theorem interceptor_replays_success:
  assumes "hashRequest C (hq_body req) = Inr h" and "hq_method req = ''POST''"
    and "or_empty (hq_idempotencyKey req) \<noteq> []"
    and "idem_read now (request_key req) (redisdb w) = None"
    and "intercept C now later req handle w = (w1, r)" and "now' \<le> later + 900000"
  shows "case r of
      Inr body \<Rightarrow> (body \<noteq> [] \<longrightarrow> intercept C now' later' req handle' w1 = (w1, Inr body)) \<and>
        (\<forall>b h'. h \<noteq> [] \<and> hashRequest C b = Inr h' \<and> h' \<noteq> h \<longrightarrow>
           intercept C now' later' (req\<lparr>hq_body := b\<rparr>) handle' w1 =
             (w1, Inl (ConflictException ''key used for another request'')))
    | Inl e \<Rightarrow> intercept C now' later' req handle' w1 =
        intercept_run now' later' (request_key req) h handle' w1"
proof -
  have run: "intercept_run now later (request_key req) h handle w = (w1, r)"
    using assms(1-5) by (simp add: intercept_def intercept_lookup_def)
  have key: "request_key (req\<lparr>hq_body := b\<rparr>) = request_key req" for b by (simp add: request_key_def)
  have ttl: "now' \<le> later + IDEM_TTL_SECONDS * 1000" using assms(6) by (simp add: IDEM_TTL_SECONDS_def)
  show ?thesis
  proof (cases r)
    case (Inr body)
    then have "idem_read now' (request_key req) (redisdb w1) =
        Some \<lparr>ir_status = IDEM_COMPLETED, ir_requestHash = h, ir_responseBody = Some body\<rparr>"
      using run ttl by (auto simp: intercept_run_def split: prod.splits sum.splits)
    then show ?thesis
      using Inr assms(1-3) by (auto simp: intercept_def intercept_lookup_def or_empty_def key)
  next
    case (Inl e)
    then have "idem_read now' (request_key req) (redisdb w1) = None"
      using run by (auto simp: intercept_run_def idem_read_def split: prod.splits sum.splits)
    then show ?thesis using Inl assms(1-3) by (simp add: intercept_def intercept_lookup_def)
  qed
qed

definition demo_request :: http_request where
  "demo_request = \<lparr>hq_idempotencyKey = Some ''k1'', hq_userId = Some ''alice'', hq_method = ''POST'',
     hq_body = JObj [(''concertId'', JStr ''c1'')]\<rparr>"

theorem interceptor_replays_success_witness:
  "intercept demo_crypto 9 9 demo_request (\<lambda>w. (w, Inr ''other''))
     (fst (intercept demo_crypto 5 6 demo_request (\<lambda>w. (w, Inr ''made'')) demo_payer)) =
   (fst (intercept demo_crypto 5 6 demo_request (\<lambda>w. (w, Inr ''made'')) demo_payer), Inr ''made'')"
proof -
  obtain h where h: "hashRequest demo_crypto (hq_body demo_request) = Inr h"
    by (auto simp: demo_request_def hashRequest_def)
  have req: "hq_method demo_request = ''POST''" "or_empty (hq_idempotencyKey demo_request) \<noteq> []"
    by (simp_all add: demo_request_def or_empty_def)
  obtain w1 where run: "intercept demo_crypto 5 6 demo_request (\<lambda>w. (w, Inr ''made'')) demo_payer = (w1, Inr ''made'')"
    using h req by (auto simp: intercept_def intercept_lookup_def intercept_run_def)
  from interceptor_replays_success [OF h req demo_payer_facts(1) run, of 9 9 "\<lambda>w. (w, Inr ''other'')"] run
  show ?thesis by simp
qed

end
