(* ===== verification/Rate_Limit.thy ===== *)
theory Rate_Limit
  imports Idempotency
begin

text \<open>
  Rate limiting: the script \<open>token-bucket.lua\<close>, \<open>rate-limit.service.ts\<close>, the key names of
  \<open>rate-limit.keys.ts\<close>, and the guard of \<open>rate-limit.guard.ts\<close>.

  \<^item> A bucket is the hash with the fields tokens and lastRefill.  Amounts are rational
    numbers, where Lua has doubles.  Loading the script, and the fallback from EVALSHA to EVAL,
    do not change what is run.
  \<^item> The properties state what a bucket admits when no request is denied, and that a denied
    request credits the elapsed time without moving lastRefill, so that it is credited again.
\<close>

section \<open>The script\<close>

definition clamp :: "rat \<Rightarrow> rat \<Rightarrow> rat \<Rightarrow> rat" where
  "clamp val min_val max_val =
     (if val < min_val then min_val else if val > max_val then max_val else val)"

definition refill :: "rat \<Rightarrow> rat \<Rightarrow> rat \<Rightarrow> rat \<Rightarrow> rat \<Rightarrow> rat" where
  "refill tokens last_refill now max_capacity refill_rate =
     (let elapsed = (if now - last_refill < 0 then 0 else now - last_refill)
      in clamp (tokens + elapsed * refill_rate) 0 max_capacity)"

record bucket_limits =
  bl_capacity :: rat
  bl_refillRate :: rat
  bl_tokensNeeded :: rat

record bucket_step =
  bs_allowed :: bool
  bs_remaining :: rat
  bs_lastRefill :: rat
  bs_retryAfter :: int

text \<open>One bucket: its fields if it exists, and what the script makes of them.\<close>

definition take_tokens :: "bucket_limits \<Rightarrow> rat \<Rightarrow> (rat \<times> rat) option \<Rightarrow> bucket_step" where
  "take_tokens lmt now bucket =
     (case bucket of
        None \<Rightarrow> \<lparr>bs_allowed = True, bs_remaining = bl_capacity lmt - bl_tokensNeeded lmt,
                bs_lastRefill = now, bs_retryAfter = 0\<rparr>
      | Some (tokens, last_refill) \<Rightarrow>
          let refilled = refill tokens last_refill now (bl_capacity lmt) (bl_refillRate lmt)
          in if refilled \<ge> bl_tokensNeeded lmt
             then \<lparr>bs_allowed = True, bs_remaining = refilled - bl_tokensNeeded lmt,
                   bs_lastRefill = now, bs_retryAfter = 0\<rparr>
             else let retry = \<lceil>(bl_tokensNeeded lmt - refilled) / bl_refillRate lmt\<rceil>
                  in \<lparr>bs_allowed = False, bs_remaining = refilled, bs_lastRefill = last_refill,
                      bs_retryAfter = (if retry < 1 then 1 else retry)\<rparr>)"

definition get_or_init_bucket :: "string \<Rightarrow> redis \<Rightarrow> (rat \<times> rat) option" where
  "get_or_init_bucket k r =
     (case r k of Some (RBucket tokens last_refill, _) \<Rightarrow> Some (tokens, last_refill) | _ \<Rightarrow> None)"

definition save_bucket :: "string \<Rightarrow> bucket_step \<Rightarrow> redis \<Rightarrow> redis" where
  "save_bucket k s r = r(k \<mapsto> (RBucket (bs_remaining s) (bs_lastRefill s), None))"

datatype bucket_type = BUCKET_USER | BUCKET_IP | BUCKET_BOTH

record token_bucket_result =
  tb_allowed :: bool
  tb_remaining :: rat
  tb_retryAfter :: int
  tb_bucketType :: bucket_type
  tb_key :: string

definition token_bucket_lua ::
  "string \<Rightarrow> string \<Rightarrow> bucket_limits \<Rightarrow> rat \<Rightarrow> redis \<Rightarrow> redis \<times> token_bucket_result" where
  "token_bucket_lua bucket_key ip_key lmt now r =
     (let user = take_tokens lmt now (get_or_init_bucket bucket_key r);
          r1 = save_bucket bucket_key user r
      in if \<not> bs_allowed user
         then (r1, \<lparr>tb_allowed = False, tb_remaining = 0, tb_retryAfter = bs_retryAfter user,
                    tb_bucketType = BUCKET_USER, tb_key = bucket_key\<rparr>)
         else let ip = take_tokens lmt now (get_or_init_bucket ip_key r1);
                  r2 = save_bucket ip_key ip r1
           in if \<not> bs_allowed ip
              then (r2, \<lparr>tb_allowed = False, tb_remaining = 0, tb_retryAfter = bs_retryAfter ip,
                         tb_bucketType = BUCKET_IP, tb_key = ip_key\<rparr>)
              else (r2, \<lparr>tb_allowed = True, tb_remaining = bs_remaining user, tb_retryAfter = 0,
                         tb_bucketType = BUCKET_BOTH, tb_key = bucket_key\<rparr>))"

section \<open>The service\<close>

definition REDIS_KEY_RATE_LIMIT_USER :: "id \<Rightarrow> string \<Rightarrow> string" where
  "REDIS_KEY_RATE_LIMIT_USER userId route = ''rate-limit:user:'' @ userId @ '':'' @ route"

definition REDIS_KEY_RATE_LIMIT_IP :: "string \<Rightarrow> string \<Rightarrow> string" where
  "REDIS_KEY_RATE_LIMIT_IP ip route = ''rate-limit:ip:'' @ ip @ '':'' @ route"

datatype RateLimitRoute =
  CONCERT_LIST | CONCERT_DETAIL | ORDER_RESERVE | AUTH_LOGIN | CHECKIN_VERIFY | CHECKIN_SYNC

fun route_name :: "RateLimitRoute \<Rightarrow> string" where
  "route_name CONCERT_LIST = ''CONCERT_LIST''"
| "route_name CONCERT_DETAIL = ''CONCERT_DETAIL''"
| "route_name ORDER_RESERVE = ''ORDER_RESERVE''"
| "route_name AUTH_LOGIN = ''AUTH_LOGIN''"
| "route_name CHECKIN_VERIFY = ''CHECKIN_VERIFY''"
| "route_name CHECKIN_SYNC = ''CHECKIN_SYNC''"

fun RATE_LIMIT_DEFAULTS :: "RateLimitRoute \<Rightarrow> bucket_limits" where
  "RATE_LIMIT_DEFAULTS CONCERT_LIST = \<lparr>bl_capacity = 60, bl_refillRate = 1, bl_tokensNeeded = 1\<rparr>"
| "RATE_LIMIT_DEFAULTS CONCERT_DETAIL = \<lparr>bl_capacity = 120, bl_refillRate = 2, bl_tokensNeeded = 1\<rparr>"
| "RATE_LIMIT_DEFAULTS ORDER_RESERVE = \<lparr>bl_capacity = 5, bl_refillRate = 5 / 60, bl_tokensNeeded = 1\<rparr>"
| "RATE_LIMIT_DEFAULTS AUTH_LOGIN = \<lparr>bl_capacity = 10, bl_refillRate = 10 / 60, bl_tokensNeeded = 1\<rparr>"
| "RATE_LIMIT_DEFAULTS CHECKIN_VERIFY = \<lparr>bl_capacity = 30, bl_refillRate = 30 / 60, bl_tokensNeeded = 1\<rparr>"
| "RATE_LIMIT_DEFAULTS CHECKIN_SYNC = \<lparr>bl_capacity = 10, bl_refillRate = 10 / 60, bl_tokensNeeded = 1\<rparr>"

definition checkAndConsume ::
  "time \<Rightarrow> id option \<Rightarrow> string \<Rightarrow> string \<Rightarrow> bucket_limits \<Rightarrow> redis \<Rightarrow> redis \<times> token_bucket_result" where
  "checkAndConsume nowMs userId ip route lmt r =
     (let now = nowMs div 1000;
          userKey = (if or_empty userId \<noteq> [] then ''rate-limit:user:'' @ or_empty userId @ '':'' @ route
                     else ''__none__'');
          ipKey = ''rate-limit:ip:'' @ ip @ '':'' @ route
      in token_bucket_lua userKey ipKey lmt (of_int now) r)"

definition checkRoute ::
  "time \<Rightarrow> id option \<Rightarrow> string \<Rightarrow> RateLimitRoute \<Rightarrow> redis \<Rightarrow> redis \<times> token_bucket_result" where
  "checkRoute nowMs userId ip route r =
     checkAndConsume nowMs userId ip (route_name route) (RATE_LIMIT_DEFAULTS route) r"

section \<open>The guard\<close>

record rate_limit_config =
  rc_route :: string
  rc_capacity :: rat
  rc_refillRate :: rat
  rc_tokensPerRequest :: "rat option"

datatype forwarded_for = NoHeader | OneHeader string | ManyHeaders "string list"

record client_request =
  cr_userId :: "id option"
  cr_forwardedFor :: forwarded_for
  cr_ip :: "string option"
  cr_remoteAddress :: "string option"

definition extractIp :: "client_request \<Rightarrow> string" where
  "extractIp req =
     (case cr_forwardedFor req of
        OneHeader h \<Rightarrow> trim (hd (split_char (CHR '','') h))
      | ManyHeaders (h # _) \<Rightarrow> trim (hd (split_char (CHR '','') h))
      | _ \<Rightarrow> (case cr_ip req of
                Some ip \<Rightarrow> ip
              | None \<Rightarrow> (case cr_remoteAddress req of Some a \<Rightarrow> a | None \<Rightarrow> ''unknown'')))"

record rate_headers =
  rh_remaining :: rat
  rh_limit :: rat
  rh_retryAfter :: "int option"

text \<open>The headers that are set, if any, and the decision.\<close>

definition canActivate ::
  "bool \<Rightarrow> time \<Rightarrow> rate_limit_config option \<Rightarrow> client_request \<Rightarrow>
   world \<Rightarrow> (world, bool) outcome \<times> rate_headers option" where
  "canActivate disabled nowMs config req w =
     (case config of
        None \<Rightarrow> ((w, Inr True), None)
      | Some cfg \<Rightarrow>
          if disabled then ((w, Inr True), None)
          else let lmt = \<lparr>bl_capacity = rc_capacity cfg, bl_refillRate = rc_refillRate cfg,
                          bl_tokensNeeded = (case rc_tokensPerRequest cfg of None \<Rightarrow> 1 | Some n \<Rightarrow> n)\<rparr>;
                   (r, result) = checkAndConsume nowMs (cr_userId req) (extractIp req) (rc_route cfg) lmt (redisdb w);
                   w' = w\<lparr>redisdb := r\<rparr>;
                   headers = \<lparr>rh_remaining = tb_remaining result, rh_limit = rc_capacity cfg,
                              rh_retryAfter = (if tb_allowed result then None else Some (tb_retryAfter result))\<rparr>
            in if tb_allowed result then ((w', Inr True), Some headers)
               else ((w', Inl (TooManyRequestsException ''too many requests'')), Some headers))"

section \<open>One bucket\<close>

definition limits_ok :: "bucket_limits \<Rightarrow> bool" where
  "limits_ok lmt \<longleftrightarrow> 0 < bl_refillRate lmt \<and> 0 \<le> bl_tokensNeeded lmt \<and> bl_tokensNeeded lmt \<le> bl_capacity lmt"

definition bucket_ok :: "bucket_limits \<Rightarrow> (rat \<times> rat) option \<Rightarrow> bool" where
  "bucket_ok lmt b \<longleftrightarrow> (case b of None \<Rightarrow> True | Some (tokens, _) \<Rightarrow> 0 \<le> tokens \<and> tokens \<le> bl_capacity lmt)"

definition bucket_after :: "bucket_step \<Rightarrow> (rat \<times> rat) option" where
  "bucket_after s = Some (bs_remaining s, bs_lastRefill s)"

lemma clamp_bounds: "lo \<le> hi \<Longrightarrow> lo \<le> clamp v lo hi \<and> clamp v lo hi \<le> hi"
  by (auto simp: clamp_def)

lemma take_tokens_ok:
  assumes "limits_ok lmt" and "bucket_ok lmt b"
  shows "bucket_ok lmt (bucket_after (take_tokens lmt now b))"
    and "\<not> bs_allowed (take_tokens lmt now b) \<Longrightarrow> 1 \<le> bs_retryAfter (take_tokens lmt now b)"
proof -
  have cap: "0 \<le> bl_capacity lmt" using assms(1) by (simp add: limits_ok_def)
  then have "0 \<le> refill t l now (bl_capacity lmt) (bl_refillRate lmt) \<and>
      refill t l now (bl_capacity lmt) (bl_refillRate lmt) \<le> bl_capacity lmt" for t l
    unfolding refill_def Let_def by (rule clamp_bounds)
  moreover from this have "refill t l now (bl_capacity lmt) (bl_refillRate lmt) - bl_tokensNeeded lmt \<le> bl_capacity lmt" for t l
    using assms(1) by (simp add: limits_ok_def diff_le_eq add_increasing2)
  ultimately show "bucket_ok lmt (bucket_after (take_tokens lmt now b))"
    using assms
    by (auto simp: bucket_ok_def bucket_after_def take_tokens_def Let_def limits_ok_def
        split: option.splits intro: order_trans)
  show "\<not> bs_allowed (take_tokens lmt now b) \<Longrightarrow> 1 \<le> bs_retryAfter (take_tokens lmt now b)"
    by (auto simp: take_tokens_def Let_def split: option.splits if_splits)
qed

lemma get_save [simp]:
  "get_or_init_bucket k (save_bucket k' s r) = (if k = k' then bucket_after s else get_or_init_bucket k r)"
  by (simp add: get_or_init_bucket_def save_bucket_def bucket_after_def)

lemma refill_upper:
  "0 \<le> tokens \<Longrightarrow> 0 \<le> rate \<Longrightarrow> l0 \<le> now \<Longrightarrow> refill tokens l0 now cap rate \<le> tokens + (now - l0) * rate"
  by (auto simp: refill_def clamp_def Let_def)

lemma take_allowed:
  assumes "limits_ok lmt" and "bucket_ok lmt (Some (tokens, l0))" and "l0 \<le> now"
    and "bs_allowed (take_tokens lmt now (Some (tokens, l0)))"
  shows "bs_lastRefill (take_tokens lmt now (Some (tokens, l0))) = now \<and>
    bs_remaining (take_tokens lmt now (Some (tokens, l0))) + bl_tokensNeeded lmt
      \<le> tokens + (now - l0) * bl_refillRate lmt"
proof -
  have "refill tokens l0 now (bl_capacity lmt) (bl_refillRate lmt) \<le> tokens + (now - l0) * bl_refillRate lmt"
    using assms(1-3) by (intro refill_upper) (simp_all add: limits_ok_def bucket_ok_def)
  then show ?thesis using assms(4) by (auto simp: take_tokens_def Let_def split: if_splits)
qed

lemma token_bucket_ok:
  assumes "limits_ok lmt" and "\<forall>k. bucket_ok lmt (get_or_init_bucket k r)"
  shows "(\<forall>k. bucket_ok lmt (get_or_init_bucket k (fst (token_bucket_lua k1 k2 lmt t r)))) \<and>
    (\<not> tb_allowed (snd (token_bucket_lua k1 k2 lmt t r)) \<longrightarrow> 1 \<le> tb_retryAfter (snd (token_bucket_lua k1 k2 lmt t r)))"
proof -
  let ?user = "take_tokens lmt t (get_or_init_bucket k1 r)"
  let ?r1 = "save_bucket k1 ?user r"
  let ?ip = "take_tokens lmt t (get_or_init_bucket k2 ?r1)"
  have ok1: "bucket_ok lmt (get_or_init_bucket k1 r)" using assms(2) by blast
  have r1: "bucket_ok lmt (get_or_init_bucket k ?r1)" for k
    unfolding get_save using assms(2) take_tokens_ok(1) [OF assms(1) ok1] by simp
  have r2: "bucket_ok lmt (get_or_init_bucket k (save_bucket k2 ?ip ?r1))" for k
    unfolding get_save [of k k2] using r1 take_tokens_ok(1) [OF assms(1) r1] by (simp del: get_save)
  show ?thesis
    using r1 r2 take_tokens_ok(2) [OF assms(1) ok1] take_tokens_ok(2) [OF assms(1) r1]
    by (simp add: token_bucket_lua_def Let_def del: get_save)
qed

lemma canActivate_headers:
  "\<exists>w' r hs. canActivate False nowMs (Some cfg) req w = ((w', r), Some hs)"
  by (simp add: canActivate_def Let_def split: prod.split)

section \<open>A user's bucket over many calls\<close>

definition user_call ::
  "id \<Rightarrow> string \<Rightarrow> bucket_limits \<Rightarrow> time \<times> string \<Rightarrow> redis \<Rightarrow> redis \<times> token_bucket_result" where
  "user_call u route lmt call r = checkAndConsume (fst call) (Some u) (snd call) route lmt r"

definition user_key :: "id \<Rightarrow> string \<Rightarrow> string" where
  "user_key u route = ''rate-limit:user:'' @ u @ '':'' @ route"

lemma user_call_bucket:
  assumes "u \<noteq> []" and "tb_allowed (snd (user_call u route lmt (t, ip) r))"
  shows "bs_allowed (take_tokens lmt (of_int (t div 1000)) (get_or_init_bucket (user_key u route) r)) \<and>
    get_or_init_bucket (user_key u route) (fst (user_call u route lmt (t, ip) r)) =
      bucket_after (take_tokens lmt (of_int (t div 1000)) (get_or_init_bucket (user_key u route) r))"
  using assms
  by (auto simp: user_call_def checkAndConsume_def token_bucket_lua_def user_key_def or_empty_def Let_def
      split: if_splits)

lemma user_calls_bound:
  assumes "u \<noteq> []" and "limits_ok lmt"
  shows "get_or_init_bucket (user_key u route) r = Some (tokens, of_int s) \<Longrightarrow>
    bucket_ok lmt (Some (tokens, of_int s :: rat)) \<Longrightarrow>
    sorted (s # map (\<lambda>c. fst c div 1000) calls) \<Longrightarrow>
    (\<forall>x \<in> set (snd (run_ops (user_call u route lmt) calls r)). tb_allowed (snd x)) \<Longrightarrow>
    of_nat (length calls) * bl_tokensNeeded lmt
      \<le> tokens + of_int (last (s # map (\<lambda>c. fst c div 1000) calls) - s) * bl_refillRate lmt"
proof (induction calls arbitrary: r tokens s)
  case Nil
  then show ?case by (simp add: bucket_ok_def)
next
  case (Cons c calls)
  obtain t ip where c: "c = (t, ip)" by (cases c)
  let ?n = "t div 1000" and ?b = "Some (tokens, of_int s :: rat)"
  let ?st = "take_tokens lmt (of_int ?n) ?b"
  obtain r' res where call: "user_call u route lmt (t, ip) r = (r', res)"
    by (cases "user_call u route lmt (t, ip) r")
  have allowed: "tb_allowed res"
    and rest: "\<forall>x \<in> set (snd (run_ops (user_call u route lmt) calls r')). tb_allowed (snd x)"
    using Cons.prems(4) c call by (auto simp: split_def Let_def)
  have st: "bs_allowed ?st" "get_or_init_bucket (user_key u route) r' = bucket_after ?st"
    using user_call_bucket [OF assms(1), of route lmt t ip r] call allowed Cons.prems(1) by simp_all
  have le: "(of_int s :: rat) \<le> of_int ?n" using Cons.prems(3) c by simp
  have took: "bs_lastRefill ?st = of_int ?n"
    "bs_remaining ?st + bl_tokensNeeded lmt \<le> tokens + (of_int ?n - of_int s) * bl_refillRate lmt"
    using take_allowed [OF assms(2) Cons.prems(2) le st(1)] by blast+
  have "of_nat (length calls) * bl_tokensNeeded lmt
      \<le> bs_remaining ?st + of_int (last (?n # map (\<lambda>c. fst c div 1000) calls) - ?n) * bl_refillRate lmt"
  proof (rule Cons.IH [OF _ _ _ rest])
    show "get_or_init_bucket (user_key u route) r' = Some (bs_remaining ?st, of_int ?n)"
      using st(2) took(1) by (simp add: bucket_after_def)
    show "bucket_ok lmt (Some (bs_remaining ?st, of_int ?n))"
      using take_tokens_ok(1) [OF assms(2) Cons.prems(2), of "of_int ?n"] by (simp add: bucket_ok_def bucket_after_def)
    show "sorted (?n # map (\<lambda>c. fst c div 1000) calls)" using Cons.prems(3) c by simp
  qed
  with took(2) show ?case using c by (simp add: algebra_simps)
qed

section \<open>Properties\<close>

text \<open>
  C37: A user who is never denied stays within the limit of the route: over any span of calls, from
  any addresses, the tokens spent are at most the capacity plus the refill rate times the
  seconds between the first and the last call.
\<close>

theorem rate_limit_admission_bound:
  assumes "u \<noteq> []" and "limits_ok lmt" and "get_or_init_bucket (user_key u route) r = None"
    and "sorted (map (\<lambda>c. fst c div 1000) (c # calls))"
    and "\<forall>x \<in> set (snd (run_ops (user_call u route lmt) (c # calls) r)). tb_allowed (snd x)"
  shows "of_nat (length (c # calls)) * bl_tokensNeeded lmt
    \<le> bl_capacity lmt + of_int (last (map (\<lambda>c. fst c div 1000) (c # calls)) - fst c div 1000) * bl_refillRate lmt"
proof -
  obtain t ip where c: "c = (t, ip)" by (cases c)
  obtain r' res where call: "user_call u route lmt (t, ip) r = (r', res)"
    by (cases "user_call u route lmt (t, ip) r")
  have allowed: "tb_allowed res"
    and rest: "\<forall>x \<in> set (snd (run_ops (user_call u route lmt) calls r')). tb_allowed (snd x)"
    using assms(5) c call by (auto simp: split_def Let_def)
  have "get_or_init_bucket (user_key u route) r' =
      Some (bl_capacity lmt - bl_tokensNeeded lmt, of_int (t div 1000))"
    using user_call_bucket [OF assms(1), of route lmt t ip r] call allowed assms(3)
    by (simp add: take_tokens_def bucket_after_def)
  from user_calls_bound [OF assms(1,2) this _ _ rest]
  have "of_nat (length calls) * bl_tokensNeeded lmt
      \<le> bl_capacity lmt - bl_tokensNeeded lmt +
        of_int (last (t div 1000 # map (\<lambda>c. fst c div 1000) calls) - t div 1000) * bl_refillRate lmt"
    using assms(2,4) c by (simp add: bucket_ok_def limits_ok_def)
  then show ?thesis using c by (simp add: algebra_simps)
qed

theorem rate_limit_admission_bound_witness:
  "(3 :: rat) * 1 \<le> 5 + of_int (last (map (\<lambda>c. fst c div 1000) [(0, ''ip''), (900, ''ip''), (2000, ''ip'')]) - 0 div 1000) * (5 / 60)"
  using rate_limit_admission_bound [of "''alice''" "RATE_LIMIT_DEFAULTS ORDER_RESERVE" "''r''" "\<lambda>_. None"
      "(0, ''ip'')" "[(900, ''ip''), (2000, ''ip'')]"]
  by (simp add: limits_ok_def get_or_init_bucket_def user_call_def checkAndConsume_def token_bucket_lua_def
      take_tokens_def refill_def clamp_def save_bucket_def or_empty_def Let_def)

text \<open>
  A denied request is credited twice: it stores the refilled tokens but leaves lastRefill as it
  was, so the next request adds the same seconds again.  A client that polls while it is denied
  is admitted before the refill rate allows it.
\<close>

theorem denied_request_credited_twice:
  assumes "\<not> bs_allowed (take_tokens lmt now1 (Some (tokens, l0)))"
    and "0 \<le> tokens" and "limits_ok lmt" and "l0 \<le> now1" and "now1 \<le> now2"
  shows "bucket_after (take_tokens lmt now1 (Some (tokens, l0))) =
      Some (tokens + (now1 - l0) * bl_refillRate lmt, l0) \<and>
    bs_allowed (take_tokens lmt now2 (bucket_after (take_tokens lmt now1 (Some (tokens, l0))))) =
      (bl_tokensNeeded lmt \<le> tokens + ((now1 - l0) + (now2 - l0)) * bl_refillRate lmt)"
proof -
  let ?v = "tokens + (now1 - l0) * bl_refillRate lmt"
  have nonneg: "0 \<le> ?v" using assms by (simp add: limits_ok_def)
  have low: "refill tokens l0 now1 (bl_capacity lmt) (bl_refillRate lmt) < bl_tokensNeeded lmt"
    using assms(1) by (simp add: take_tokens_def Let_def split: if_splits)
  then have v: "refill tokens l0 now1 (bl_capacity lmt) (bl_refillRate lmt) = ?v"
    using nonneg assms(3,4) by (auto simp: refill_def clamp_def Let_def limits_ok_def split: if_splits)
  have after: "bucket_after (take_tokens lmt now1 (Some (tokens, l0))) = Some (?v, l0)"
    using low v by (simp add: take_tokens_def bucket_after_def Let_def)
  have "0 \<le> ?v + (now2 - l0) * bl_refillRate lmt"
    using nonneg assms(3-5) by (simp add: limits_ok_def)
  then have "bs_allowed (take_tokens lmt now2 (Some (?v, l0))) =
      (bl_tokensNeeded lmt \<le> ?v + (now2 - l0) * bl_refillRate lmt)"
    using assms(3-5) by (auto simp: take_tokens_def refill_def clamp_def Let_def limits_ok_def)
  then show ?thesis using after by (simp add: algebra_simps)
qed

text \<open>From an empty bucket at second 0, polls after 1 to 5 seconds: the fifth is admitted, where
  the rate of five a minute allows one after twelve seconds.\<close>

theorem denied_request_credited_twice_witness:
  "let lmt = RATE_LIMIT_DEFAULTS ORDER_RESERVE;
       b1 = bucket_after (take_tokens lmt 1 (Some (0, 0)));
       b2 = bucket_after (take_tokens lmt 2 b1);
       b3 = bucket_after (take_tokens lmt 3 b2);
       b4 = bucket_after (take_tokens lmt 4 b3)
   in b1 = Some (1 / 12, 0) \<and> bs_retryAfter (take_tokens lmt 1 (Some (0, 0))) = 11 \<and>
      bs_allowed (take_tokens lmt 5 b4) \<and> \<not> bs_allowed (take_tokens lmt 5 (Some (0, 0)))"
proof -
  have "bucket_after (take_tokens (RATE_LIMIT_DEFAULTS ORDER_RESERVE) 1 (Some (0, 0))) = Some (1 / 12, 0)"
    using denied_request_credited_twice [of "RATE_LIMIT_DEFAULTS ORDER_RESERVE" 1 0 0 2]
    by (simp add: take_tokens_def refill_def clamp_def limits_ok_def Let_def)
  moreover have "bs_retryAfter (take_tokens (RATE_LIMIT_DEFAULTS ORDER_RESERVE) 1 (Some (0, 0))) = 11"
    by (simp add: take_tokens_def refill_def clamp_def Let_def)
  moreover have "bucket_after (take_tokens (RATE_LIMIT_DEFAULTS ORDER_RESERVE) 2 (Some (1 / 12, 0))) = Some (1 / 4, 0)"
    by (simp add: take_tokens_def refill_def clamp_def bucket_after_def Let_def)
  moreover have "bucket_after (take_tokens (RATE_LIMIT_DEFAULTS ORDER_RESERVE) 3 (Some (1 / 4, 0))) = Some (1 / 2, 0)"
    by (simp add: take_tokens_def refill_def clamp_def bucket_after_def Let_def)
  moreover have "bucket_after (take_tokens (RATE_LIMIT_DEFAULTS ORDER_RESERVE) 4 (Some (1 / 2, 0))) = Some (5 / 6, 0)"
    by (simp add: take_tokens_def refill_def clamp_def bucket_after_def Let_def)
  moreover have "bs_allowed (take_tokens (RATE_LIMIT_DEFAULTS ORDER_RESERVE) 5 (Some (5 / 6, 0)))"
    by (simp add: take_tokens_def refill_def clamp_def Let_def)
  moreover have "\<not> bs_allowed (take_tokens (RATE_LIMIT_DEFAULTS ORDER_RESERVE) 5 (Some (0, 0)))"
    by (simp add: take_tokens_def refill_def clamp_def Let_def)
  ultimately show ?thesis by (simp only: Let_def simp_thms)
qed

text \<open>
  All anonymous requests share one bucket, whatever their address and route: the placeholder
  key is stored like any other.  Once it is empty every anonymous client is denied, although
  its own address has never been seen.
\<close>

theorem anonymous_requests_share_one_bucket:
  assumes "get_or_init_bucket ''__none__'' r = Some (tokens, l0)"
    and "refill tokens l0 (of_int (nowMs div 1000)) (bl_capacity lmt) (bl_refillRate lmt) < bl_tokensNeeded lmt"
    and "userId = None \<or> userId = Some ''''"
  shows "\<not> tb_allowed (snd (checkAndConsume nowMs userId ip route lmt r)) \<and>
    tb_bucketType (snd (checkAndConsume nowMs userId ip route lmt r)) = BUCKET_USER"
  using assms
  by (auto simp: checkAndConsume_def token_bucket_lua_def take_tokens_def or_empty_def Let_def)

theorem anonymous_requests_share_one_bucket_witness:
  "\<not> tb_allowed (snd (checkRoute 0 None ''10.0.0.9'' CHECKIN_VERIFY
     (\<lambda>k. if k = ''__none__'' then Some (RBucket 0 0, None) else None)))"
  unfolding checkRoute_def
  by (rule anonymous_requests_share_one_bucket [of _ 0 0, THEN conjunct1])
    (simp_all add: get_or_init_bucket_def refill_def clamp_def)

text \<open>
  The guard lets a request through exactly when neither bucket denies it; a denied one gets the
  error 429 with a Retry-After of at least one second.  It touches nothing but the two buckets,
  whose tokens stay between zero and the capacity.
\<close>

theorem guard_outcome:
  assumes "limits_ok lmt"
    and "lmt = \<lparr>bl_capacity = rc_capacity cfg, bl_refillRate = rc_refillRate cfg,
                bl_tokensNeeded = (case rc_tokensPerRequest cfg of None \<Rightarrow> 1 | Some n \<Rightarrow> n)\<rparr>"
    and "\<forall>k. bucket_ok lmt (get_or_init_bucket k (redisdb w))"
    and "canActivate False nowMs (Some cfg) req w = ((w', r), Some hs)"
  shows "(r = Inr True \<and> rh_retryAfter hs = None \<or>
      r = Inl (TooManyRequestsException ''too many requests'') \<and> (\<exists>n \<ge> 1. rh_retryAfter hs = Some n)) \<and>
    (\<forall>k. bucket_ok lmt (get_or_init_bucket k (redisdb w'))) \<and> w' = w\<lparr>redisdb := redisdb w'\<rparr>"
proof -
  obtain rd res where run: "checkAndConsume nowMs (cr_userId req) (extractIp req) (rc_route cfg) lmt (redisdb w) = (rd, res)"
    by (cases "checkAndConsume nowMs (cr_userId req) (extractIp req) (rc_route cfg) lmt (redisdb w)")
  have lua: "(\<forall>k. bucket_ok lmt (get_or_init_bucket k rd)) \<and> (\<not> tb_allowed res \<longrightarrow> 1 \<le> tb_retryAfter res)"
    if "token_bucket_lua k1 k2 lmt t (redisdb w) = (rd, res)" for k1 k2 t
    using token_bucket_ok [OF assms(1,3), of k1 k2 t] that by simp
  have "(\<forall>k. bucket_ok lmt (get_or_init_bucket k rd)) \<and> (\<not> tb_allowed res \<longrightarrow> 1 \<le> tb_retryAfter res)"
    using run unfolding checkAndConsume_def Let_def by (rule lua)
  then show ?thesis
    using assms(4) run by (auto simp: canActivate_def assms(2) [symmetric] Let_def split: if_splits)
qed

theorem guard_outcome_witness:
  "\<exists>w' r hs. canActivate False 0
      (Some \<lparr>rc_route = ''/orders'', rc_capacity = 5, rc_refillRate = 5 / 60, rc_tokensPerRequest = None\<rparr>)
      \<lparr>cr_userId = Some ''alice'', cr_forwardedFor = OneHeader ''10.0.0.1, 10.0.0.2'', cr_ip = None,
        cr_remoteAddress = None\<rparr> empty_world = ((w', r), Some hs) \<and>
    (r = Inr True \<and> rh_retryAfter hs = None \<or>
     r = Inl (TooManyRequestsException ''too many requests'') \<and> (\<exists>n \<ge> 1. rh_retryAfter hs = Some n))"
proof -
  let ?cfg = "\<lparr>rc_route = ''/orders'', rc_capacity = 5, rc_refillRate = 5 / 60, rc_tokensPerRequest = None\<rparr>"
  let ?req = "\<lparr>cr_userId = Some ''alice'', cr_forwardedFor = OneHeader ''10.0.0.1, 10.0.0.2'', cr_ip = None,
        cr_remoteAddress = None\<rparr>"
  let ?lmt = "\<lparr>bl_capacity = 5, bl_refillRate = 5 / 60, bl_tokensNeeded = 1\<rparr>"
  obtain w' r hs where run: "canActivate False 0 (Some ?cfg) ?req empty_world = ((w', r), Some hs)"
    using canActivate_headers by blast
  have "limits_ok ?lmt" by (simp add: limits_ok_def)
  moreover have "\<forall>k. bucket_ok ?lmt (get_or_init_bucket k (redisdb empty_world))"
    by (simp add: bucket_ok_def get_or_init_bucket_def empty_world_def)
  ultimately show ?thesis using guard_outcome [OF _ _ _ run, of ?lmt] run by auto
qed

end
