(* ===== verification/Sale_Machine.thy ===== *)
theory Sale_Machine
  imports Rate_Limit
begin

text \<open>
  What the shop as a whole promises of a sale, without tables, Redis or queues: an order is
  placed, then closed or paid, and once paid its tickets are issued, all at once and only
  once.  \<open>Shop_System\<close> shows that every handler of the backend takes steps of this machine.
\<close>

section \<open>The machine\<close>

record sale =
  s_status :: OrderStatus
  s_due :: nat     \<comment> \<open>tickets ordered\<close>
  s_issued :: nat  \<comment> \<open>tickets that exist\<close>

type_synonym sales = "id \<Rightarrow> sale option"

definition new_sale :: "nat \<Rightarrow> sale" where
  "new_sale n = \<lparr>s_status = PENDING_PAYMENT, s_due = n, s_issued = 0\<rparr>"

text \<open>\<open>sale_paid\<close> is the payment found by the periodic check, which leaves the tickets to the
  issue job; \<open>sale_sold\<close> is the payment reported by the webhook, which issues at once.\<close>

inductive sale_step :: "sales \<Rightarrow> sales \<Rightarrow> bool" where
  sale_placed: "m i = None \<Longrightarrow> sale_step m (m(i \<mapsto> new_sale n))"
| sale_closed: "m i = Some s \<Longrightarrow> s_status s = PENDING_PAYMENT \<Longrightarrow> st \<notin> {PENDING_PAYMENT, PAID} \<Longrightarrow>
     sale_step m (m(i \<mapsto> s\<lparr>s_status := st\<rparr>))"
| sale_paid: "m i = Some s \<Longrightarrow> s_status s = PENDING_PAYMENT \<Longrightarrow>
     sale_step m (m(i \<mapsto> s\<lparr>s_status := PAID\<rparr>))"
| sale_sold: "m i = Some s \<Longrightarrow> s_status s = PENDING_PAYMENT \<Longrightarrow>
     sale_step m (m(i \<mapsto> s\<lparr>s_status := PAID, s_issued := s_issued s + s_due s\<rparr>))"
| sale_issued: "m i = Some s \<Longrightarrow> s_status s = PAID \<Longrightarrow> s_issued s = 0 \<Longrightarrow>
     sale_step m (m(i \<mapsto> s\<lparr>s_issued := s_due s\<rparr>))"

inductive_cases sale_stepE: "sale_step m m'"

abbreviation sale_steps :: "sales \<Rightarrow> sales \<Rightarrow> bool" where
  "sale_steps \<equiv> sale_step\<^sup>*\<^sup>*"

section \<open>Its invariant\<close>

text \<open>No ticket before payment; afterwards none or all.\<close>

definition sale_ok :: "sale \<Rightarrow> bool" where
  "sale_ok s \<longleftrightarrow> s_issued s = 0 \<or> s_status s = PAID \<and> s_issued s = s_due s"

definition sales_ok :: "sales \<Rightarrow> bool" where
  "sales_ok m \<longleftrightarrow> (\<forall>i s. m i = Some s \<longrightarrow> sale_ok s)"

lemma sales_okD: "sales_ok m \<Longrightarrow> m i = Some s \<Longrightarrow> sale_ok s"
  by (simp add: sales_ok_def)

lemma sales_ok_update: "sales_ok m \<Longrightarrow> sale_ok s \<Longrightarrow> sales_ok (m(i \<mapsto> s))"
  by (simp add: sales_ok_def)

lemma sale_step_ok:
  assumes "sale_step m m'" and "sales_ok m"
  shows "sales_ok m'"
  using assms
proof (induction rule: sale_step.induct)
  case (sale_placed m i n)
  then show ?case by (intro sales_ok_update) (auto simp: sale_ok_def new_sale_def)
next
  case (sale_closed m i s st)
  then show ?case using sales_okD [of m i s] by (intro sales_ok_update) (auto simp: sale_ok_def)
next
  case (sale_paid m i s)
  then show ?case using sales_okD [of m i s] by (intro sales_ok_update) (auto simp: sale_ok_def)
next
  case (sale_sold m i s)
  then show ?case using sales_okD [of m i s] by (intro sales_ok_update) (auto simp: sale_ok_def)
next
  case (sale_issued m i s)
  then show ?case by (intro sales_ok_update) (auto simp: sale_ok_def)
qed

lemma sale_steps_ok: "sale_steps m m' \<Longrightarrow> sales_ok m \<Longrightarrow> sales_ok m'"
  by (induction rule: rtranclp_induct) (auto dest: sale_step_ok)

text \<open>Along steps a sale stays, keeps its size, moves only forward, and loses no ticket.\<close>

definition sale_later :: "sale \<Rightarrow> sale \<Rightarrow> bool" where
  "sale_later s s' \<longleftrightarrow> s_status s \<le> s_status s' \<and> s_due s' = s_due s \<and> s_issued s \<le> s_issued s'"

lemma sale_later_refl [simp]: "sale_later s s"
  by (simp add: sale_later_def)

lemma sale_later_trans: "sale_later s t \<Longrightarrow> sale_later t u \<Longrightarrow> sale_later s u"
  by (auto simp: sale_later_def)

lemma sale_step_later:
  "sale_step m m' \<Longrightarrow> m i = Some s \<Longrightarrow> \<exists>s'. m' i = Some s' \<and> sale_later s s'"
  by (induction rule: sale_step.induct) (auto simp: sale_later_def less_eq_OrderStatus_def)

lemma sale_steps_later:
  "sale_steps m m' \<Longrightarrow> m i = Some s \<Longrightarrow> \<exists>s'. m' i = Some s' \<and> sale_later s s'"
proof (induction rule: rtranclp_induct)
  case base
  then show ?case by auto
next
  case (step m1 m2)
  then show ?case using sale_step_later sale_later_trans by blast
qed

end
