(* ===== verification/Sale_Refinement.thy ===== *)
theory Sale_Refinement
  imports Sale_Machine Gate_Properties Ticket_Type_Service Idempotency Checkin_Properties
begin

text \<open>
  The composition: one step of the shop is one call of a handler of any component, on the
  shared database.

  \<^item> Order handlers, the payment webhook, the periodic check, the issue job, the door, the gates,
    the ticket types and the payments interleave freely, a call at a time.
  \<^item> Every call takes steps of the sale machine, so its invariant holds for the tables: no ticket
    without a paid order, no second set of tickets, no settled order that changes again.
\<close>

section \<open>The sales in the tables\<close>

definition sale_tables :: "world \<Rightarrow> order list \<times> id list" where
  "sale_tables w = (orders w, map t_orderId (tickets w))"

definition sales_of :: "order list \<times> id list \<Rightarrow> sales" where
  "sales_of T i =
     map_option (\<lambda>ord. \<lparr>s_status = o_status ord, s_due = total_qty (o_items ord),
                       s_issued = count_list (snd T) i\<rparr>)
       (find_row o_id i (fst T))"

lemma sale_tables_simps [simp]:
  "sale_tables (w\<lparr>concerts := a\<rparr>) = sale_tables w" "sale_tables (w\<lparr>ticketTypes := b\<rparr>) = sale_tables w"
  "sale_tables (w\<lparr>counters := c\<rparr>) = sale_tables w" "sale_tables (w\<lparr>payments := d\<rparr>) = sale_tables w"
  "sale_tables (w\<lparr>gates := e\<rparr>) = sale_tables w" "sale_tables (w\<lparr>checkinLogs := f\<rparr>) = sale_tables w"
  "sale_tables (w\<lparr>redisdb := g\<rparr>) = sale_tables w" "sale_tables (w\<lparr>jobs := h\<rparr>) = sale_tables w"
  "sale_tables (w\<lparr>broadcasts := k\<rparr>) = sale_tables w"
  "sale_tables (w\<lparr>orders := os\<rparr>) = (os, snd (sale_tables w))"
  by (simp_all add: sale_tables_def)

lemma fst_sale_tables [simp]: "fst (sale_tables w) = orders w"
  by (simp add: sale_tables_def)

abbreviation same_sales :: "order list \<times> id list \<Rightarrow> world \<Rightarrow> bool" where
  "same_sales T w \<equiv> sale_tables w = T"

lemma keeps_same_sales: "(\<And>w. sale_tables (fst (h w)) = sale_tables w) \<Longrightarrow> keeps (same_sales T) h"
  by (simp add: keeps_def)

lemma same_salesD: "(\<And>T. keeps (same_sales T) h) \<Longrightarrow> sale_tables (fst (h w)) = sale_tables w"
  by (simp add: keeps_def)

section \<open>Operations that leave the sales alone\<close>

lemma sales_release_items [simp]: "sale_tables (release_items now u i ps w) = sale_tables w"
  by (simp add: release_items_def)

lemma sales_refresh_all [simp]: "sale_tables (refresh_all now c tts w) = sale_tables w"
  by (simp add: sale_tables_def)

lemma sales_invalidateCache [simp]: "sale_tables (invalidateCache c w) = sale_tables w"
  by (simp add: invalidateCache_def split: option.split)

lemma sales_update_ticket_type [simp]: "sale_tables (fst (update_ticket_type i f w)) = sale_tables w"
  by (simp add: update_ticket_type_def split: option.split)

lemma sales_update_counter [simp]: "sale_tables (fst (update_counter u i f w)) = sale_tables w"
  by (simp add: update_counter_def split: option.split)

lemma sales_upsert_counter [simp]: "sale_tables (upsert_counter n f w) = sale_tables w"
  using upsert_counter_counters_only [of n f w] by auto

lemma sales_upsert_payment [simp]: "sale_tables (upsert_payment now i s f dto w) = sale_tables w"
  using upsert_payment_payments_only [of now i s f dto w] by auto

lemma sales_createPaymentUrl [simp]: "sale_tables (fst (createPaymentUrl env i u w)) = sale_tables w"
  by (simp add: sale_tables_def)

lemma sales_decs [simp]:
  "sale_tables (fst (dec_type p w)) = sale_tables w" "sale_tables (fst (dec_counter u p w)) = sale_tables w"
  "sale_tables (fst (sell_type p w)) = sale_tables w" "sale_tables (fst (sell_counter u p w)) = sale_tables w"
  by (simp_all add: dec_type_def dec_counter_def sell_type_def sell_counter_def)

lemma sales_promise_all:
  "(\<And>h w. h \<in> set hs \<Longrightarrow> sale_tables (fst (h w)) = sale_tables w) \<Longrightarrow>
   sale_tables (fst (promise_all hs w)) = sale_tables w"
  by (rule same_salesD, rule keeps_promise_all, rule keeps_same_sales) simp

lemma sales_forE:
  "(\<And>x w. sale_tables (fst (f x w)) = sale_tables w) \<Longrightarrow> sale_tables (fst (forE xs f w)) = sale_tables w"
  by (rule same_salesD, rule keeps_forE, rule keeps_same_sales) simp

lemma sales_transaction:
  "sale_tables (fst (h w)) = sale_tables w \<Longrightarrow> sale_tables (fst (transaction h w)) = sale_tables w"
  using fst_transaction_cases [of h w] by metis

lemma sales_bindE:
  "sale_tables (fst m) = T \<Longrightarrow> (\<And>w x. m = (w, Inr x) \<Longrightarrow> sale_tables w = T \<Longrightarrow> sale_tables (fst (f w x)) = T) \<Longrightarrow>
   sale_tables (fst (bindE m f)) = T"
  by (rule keeps_bindE [where P = "same_sales T"])

lemma sales_all_decs [simp]:
  "sale_tables (fst (promise_all (map dec_type ps) w)) = sale_tables w"
  "sale_tables (fst (promise_all (map (dec_counter u) qs) w)) = sale_tables w"
  "sale_tables (fst (promise_all (map dec_type ps @ map (dec_counter u) qs) w)) = sale_tables w"
  "sale_tables (fst (forE ps sell_type w)) = sale_tables w"
  "sale_tables (fst (forE ps (sell_counter u) w)) = sale_tables w"
  by (rule sales_promise_all sales_forE; auto)+

subsection \<open>Ticket types\<close>

lemma sales_tt_create: "sale_tables (fst (tt_create now n c dto u r w)) = sale_tables w"
  by (auto simp: tt_create_def insert_type_def Let_def intro!: sales_bindE split: sum.split)

lemma sales_tt_update: "sale_tables (fst (tt_update now i dto u r w)) = sale_tables w"
  by (auto simp: tt_update_def Let_def intro!: sales_bindE split: sum.split option.split)

lemma sales_tt_remove: "sale_tables (fst (tt_remove i u r w)) = sale_tables w"
  by (auto simp: tt_remove_def delete_type_def intro!: sales_bindE split: sum.split option.split)

subsection \<open>Payments, the door and the gates\<close>

text \<open>These leave ticket types and queues alone as well.\<close>

definition desk_tables :: "world \<Rightarrow> (order list \<times> id list) \<times> ticket_type list \<times> job list" where
  "desk_tables w = (sale_tables w, ticketTypes w, jobs w)"

lemma desk_tables_simps [simp]:
  "desk_tables (w\<lparr>gates := e\<rparr>) = desk_tables w" "desk_tables (w\<lparr>checkinLogs := f\<rparr>) = desk_tables w"
  "desk_tables (w\<lparr>redisdb := g\<rparr>) = desk_tables w" "desk_tables (w\<lparr>payments := d\<rparr>) = desk_tables w"
  by (simp_all add: desk_tables_def)

lemma desk_createPaymentUrl [simp]: "desk_tables (fst (createPaymentUrl env i u w)) = desk_tables w"
  by (simp add: desk_tables_def)

lemma keeps_same_desk: "(\<And>w. desk_tables (fst (h w)) = desk_tables w) \<Longrightarrow> keeps (\<lambda>w. desk_tables w = T) h"
  by (simp add: keeps_def)

lemma same_deskD: "(\<And>T. keeps (\<lambda>w. desk_tables w = T) h) \<Longrightarrow> desk_tables (fst (h w)) = desk_tables w"
  by (simp add: keeps_def)

lemma desk_forE:
  "(\<And>x w. desk_tables (fst (f x w)) = desk_tables w) \<Longrightarrow> desk_tables (fst (forE xs f w)) = desk_tables w"
  by (rule same_deskD, rule keeps_forE, rule keeps_same_desk) simp

lemma desk_transaction:
  "desk_tables (fst (h w)) = desk_tables w \<Longrightarrow> desk_tables (fst (transaction h w)) = desk_tables w"
  using fst_transaction_cases [of h w] by metis

lemma desk_bindE:
  "desk_tables (fst m) = T \<Longrightarrow> (\<And>w x. m = (w, Inr x) \<Longrightarrow> desk_tables w = T \<Longrightarrow> desk_tables (fst (f w x)) = T) \<Longrightarrow>
   desk_tables (fst (bindE m f)) = T"
  by (rule keeps_bindE [where P = "\<lambda>w. desk_tables w = T"])

lemma desk_createPayment: "desk_tables (fst (createPayment C env now u k i w)) = desk_tables w"
proof -
  have start: "desk_tables (fst (idem_start now u k h w)) = desk_tables w" for h
    by (auto simp: idem_start_def idem_write_nx_def idem_write_def Let_def split: option.split IdemStatus.split)
  have "desk_tables w2 = desk_tables w1" if "createPaymentUrl env i u w1 = (w2, r)" for w1 w2 r
    using desk_createPaymentUrl [of env i u w1] that by simp
  then show ?thesis
    using start
    by (auto simp: createPayment_def idem_fail_def idem_complete_def idem_write_def Let_def
        intro!: desk_bindE split: sum.split idem_start.split prod.split)
qed

lemma desk_update_tickets:
  assumes "\<And>t. t_orderId (f t) = t_orderId t"
  shows "desk_tables (w\<lparr>tickets := update_where p f (tickets w)\<rparr>) = desk_tables w"
  using assms by (simp add: desk_tables_def sale_tables_def update_where_def comp_def if_distrib cong: if_cong)

lemma desk_scan:
  assumes "scan_step now i w b w'"
  shows "desk_tables w' = desk_tables w"
  using assms
proof (cases rule: scan_step.cases)
  case (admitted w1 n p)
  then have "w1 = fst (admit_ticket now i w)" by simp
  then show ?thesis using admitted by (simp add: admit_ticket_def desk_update_tickets)
qed auto

lemma desk_run_scan: "desk_tables (fst (run_scan C k x w)) = desk_tables w"
  using desk_scan [OF run_scan_step] .

lemma desk_retarget:
  "desk_tables (fst (update_ticket i (retarget C k name t) w)) = desk_tables w"
  by (simp add: update_ticket_def retarget_def desk_update_tickets split: option.split)

lemma desk_move_tickets [simp]: "desk_tables (fst (move_tickets C k name ts w)) = desk_tables w"
  unfolding move_tickets_def by (intro desk_transaction desk_forE desk_retarget)

lemma desk_delete_gate [simp]: "desk_tables (fst (delete_gate i w)) = desk_tables w"
  by (simp add: delete_gate_def split: option.split)

lemma desk_update_gate [simp]: "desk_tables (fst (update_gate i name w)) = desk_tables w"
  by (simp add: update_gate_def Let_def split: option.split)

lemma desk_gate_create [simp]: "desk_tables (fst (gate_create now newId c name w)) = desk_tables w"
  by (simp add: gate_create_def insert_gate_def Let_def)

lemma desk_gate_update [simp]: "desk_tables (fst (gate_update C k i name w)) = desk_tables w"
  by (auto simp: gate_update_def intro!: desk_bindE split: option.split)

lemma desk_gate_remove [simp]: "desk_tables (fst (gate_remove C k i w)) = desk_tables w"
  by (auto simp: gate_remove_def intro!: desk_bindE split: option.split list.split)

lemma desk_gate_rebalance [simp]: "desk_tables (fst (gate_rebalance C k m c w)) = desk_tables w"
  by (auto simp: gate_rebalance_def Let_def apply_move_def desk_retarget
      intro!: desk_bindE desk_forE split: option.split)

lemma desk_run_gate: "desk_tables (fst (run_gate C k x w)) = desk_tables w"
proof (cases x)
  case (GateCreate now newId c name)
  then show ?thesis
    using desk_gate_create [of now newId c name w] by (simp add: split_def Let_def)
next
  case (GateUpdate i name)
  then show ?thesis using desk_gate_update [of C k i name w] by (simp add: split_def Let_def)
next
  case (GateRemove i)
  then show ?thesis by simp
next
  case (GateRebalance m c)
  then show ?thesis using desk_gate_rebalance [of C k m c w] by (simp add: split_def Let_def)
qed

lemma desk_calls:
  "desk_tables (fst (createPayment C env now u i k w)) = desk_tables w"
  "desk_tables (fst (run_scan C k x w)) = desk_tables w"
  "desk_tables (fst (run_gate C k y w)) = desk_tables w"
  by (simp_all add: desk_createPayment desk_run_scan desk_run_gate)

lemma sales_desk:
  "sale_tables (fst (createPayment C env now u i k w)) = sale_tables w"
  "sale_tables (fst (run_scan C k x w)) = sale_tables w"
  "sale_tables (fst (run_gate C k y w)) = sale_tables w"
  using desk_calls by (simp_all add: desk_tables_def)

lemma types_desk:
  "ticketTypes (fst (createPayment C env now u i k w)) = ticketTypes w"
  "ticketTypes (fst (run_scan C k x w)) = ticketTypes w"
  "ticketTypes (fst (run_gate C k y w)) = ticketTypes w"
  using desk_calls by (simp_all add: desk_tables_def)

lemma jobs_desk:
  "jobs (fst (createPayment C env now u i k w)) = jobs w"
  "jobs (fst (run_scan C k x w)) = jobs w" "jobs (fst (run_gate C k y w)) = jobs w"
  using desk_calls by (simp_all add: desk_tables_def)

section \<open>Operations that move one sale\<close>

text \<open>An order that is not there yet.\<close>

definition order_placed :: "order \<Rightarrow> order list \<times> id list \<Rightarrow> world \<Rightarrow> bool" where
  "order_placed ord T w \<longleftrightarrow> sale_tables w = T \<or> sale_tables w = (fst T @ [ord], snd T)"

lemma order_placed_frame:
  "sale_tables w' = sale_tables w \<Longrightarrow> order_placed ord T w \<Longrightarrow> order_placed ord T w'"
  by (simp add: order_placed_def)

lemma order_placed_delete:
  assumes "o_id ord \<notin> o_id ` set (fst T)" and "order_placed ord T w"
  shows "order_placed ord T (fst (delete_order (o_id ord) w))"
proof -
  have "delete_where (\<lambda>r. o_id r = o_id ord) (fst T) = fst T"
    unfolding delete_where_def filter_id_conv using assms(1) by (metis image_eqI)
  then show ?thesis
    using assms(2)
    by (cases T) (auto simp: order_placed_def delete_order_def delete_where_def sale_tables_def
        split: option.split)
qed

lemma createOrder_places:
  assumes "find_order (oe_orderId env) w = None"
    and "collect_meta now (do_concertId dto) (do_items dto) w = Inr ms"
  shows "order_placed (new_order env t0 now (do_concertId dto) u ms) (sale_tables w)
    (fst (createOrder env t0 now dto u w))"
proof -
  let ?ord = "new_order env t0 now (do_concertId dto) u ms"
  let ?P = "order_placed ?ord (sale_tables w)"
  have fresh: "o_id ?ord \<notin> o_id ` set (fst (sale_tables w))" and id: "o_id ?ord = oe_orderId env"
    using assms(1) by (simp_all add: find_order_def find_row_None_image new_order_def)
  note delete = order_placed_delete [OF fresh, unfolded id]
  have frame: "?P w2" if "sale_tables w2 = sale_tables w1" "?P w1" for w1 w2
    using that by (rule order_placed_frame)
  have seed: "sale_tables (seed_counters now u ms w) = sale_tables w"
    using seed_counters_redis_only [of now u ms w] by auto
  have reserve: "sale_tables (fst (reserve_stage now u i ttl ms w1)) = sale_tables w1" for i ttl w1
    using reserve_stage_redis_only [of now u i ttl ms w1] by auto
  have persist: "?P (fst (persist_stage env t0 now (do_concertId dto) u ms w1))"
    if "sale_tables w1 = sale_tables w" for w1
    using that by (auto simp: persist_stage_def Let_def order_placed_def sale_tables_def)
  have sync: "sale_tables (fst (sync_inventory env u ms w1)) = sale_tables w1" for w1
    unfolding sync_inventory_def
    by (auto intro!: sales_transaction sales_forE simp: inventory_row_def Let_def)
  have inventory: "?P (fst (inventory_stage env now u ms w1))" if "?P w1" for w1
  proof -
    obtain w2 r where w2: "sync_inventory env u ms w1 = (w2, r)" by (cases "sync_inventory env u ms w1")
    then have "?P w2" using frame [OF _ that] sync [of w1] by simp
    then have "?P (release_items now u (oe_orderId env) (meta_pairs ms) w2)"
      using frame by simp
    from delete [OF this] \<open>?P w2\<close> w2 show ?thesis
      by (cases r) (simp_all add: inventory_stage_def)
  qed
  have payment: "?P (fst (payment_stage env now u ms w1))" if "?P w1" for w1
  proof -
    obtain w2 r where w2: "createPaymentUrl (oe_payment env) (oe_orderId env) u w1 = (w2, r)"
      by (cases "createPaymentUrl (oe_payment env) (oe_orderId env) u w1")
    then have P2: "?P w2"
      using frame [OF _ that] sales_createPaymentUrl [of "oe_payment env" "oe_orderId env" u w1] by simp
    let ?decs = "promise_all (map dec_type (meta_pairs ms) @ map (dec_counter u) (meta_pairs ms))"
    have "?P (fst (?decs (release_items now u (oe_orderId env) (meta_pairs ms) w2)))"
      using frame [OF _ P2] by simp
    then have "?P (fst (bindE (?decs (release_items now u (oe_orderId env) (meta_pairs ms) w2))
        (\<lambda>w3 _. bindE (delete_order (oe_orderId env) w3) (\<lambda>w4 _. (w4, Inl e)))))" for e
      by (rule keeps_bindE [where P = ?P]) (rule keeps_bindE [where P = ?P]; simp add: delete)
    then show ?thesis
      using w2 P2 by (cases r) (auto simp: payment_stage_def Let_def)
  qed
  obtain w1 r where w1: "reserve_stage now u (oe_orderId env) (getReservationTtl env) ms
      (seed_counters now u ms w) = (w1, r)"
    by (cases "reserve_stage now u (oe_orderId env) (getReservationTtl env) ms (seed_counters now u ms w)")
  then have same: "sale_tables w1 = sale_tables w"
    using reserve [of "oe_orderId env" "getReservationTtl env" "seed_counters now u ms w"] seed by simp
  show ?thesis
  proof (cases r)
    case (Inl e)
    then show ?thesis using w1 same by (simp add: createOrder_def assms(2) order_placed_def)
  next
    case (Inr x)
    then show ?thesis
      using w1 by (auto simp: createOrder_def assms(2) Let_def
          intro!: keeps_bindE [where P = ?P] persist [OF same] intro: inventory payment frame)
  qed
qed

text \<open>A pending order that is settled, its tickets as before.\<close>

definition order_settled :: "id \<Rightarrow> (order \<Rightarrow> order) \<Rightarrow> world \<Rightarrow> world \<Rightarrow> bool" where
  "order_settled i f w w' \<longleftrightarrow>
     (\<exists>ord. find_order i w = Some ord \<and> o_status ord = PENDING_PAYMENT) \<and>
     sale_tables w' = (update_where (\<lambda>x. o_id x = i) f (orders w), snd (sale_tables w))"

lemma order_settled_frame:
  "sale_tables w2 = sale_tables w1 \<Longrightarrow> order_settled i f w w1 \<Longrightarrow> order_settled i f w w2"
  by (simp add: order_settled_def)

lemma update_order_settles:
  assumes "sale_tables w1 = sale_tables w" and "find_order i w = Some ord" "o_status ord = PENDING_PAYMENT"
  shows "\<exists>w2. update_order i f w1 = (w2, Inr ()) \<and> order_settled i f w w2"
proof -
  have "orders w1 = orders w" using assms(1) by (simp add: sale_tables_def)
  then show ?thesis
    using assms by (simp add: update_order_def find_order_def order_settled_def)
qed

lemma cancelOrder_settles:
  "sale_tables (fst (cancelOrder now i u w)) = sale_tables w \<or>
   order_settled i (cancelled_by now) w (fst (cancelOrder now i u w))"
proof (cases "\<exists>ord. find_order i w = Some ord \<and> o_userId ord = u \<and> o_status ord = PENDING_PAYMENT")
  case False
  then show ?thesis by (auto simp: cancelOrder_def split: option.split)
next
  case True
  then obtain ord where ord: "find_order i w = Some ord" "o_userId ord = u" "o_status ord = PENDING_PAYMENT"
    by blast
  obtain w1 r where w1: "promise_all (map dec_type (item_pairs ord) @ map (dec_counter u) (item_pairs ord))
      (release_items now u i (item_pairs ord) w) = (w1, r)"
    by (cases "promise_all (map dec_type (item_pairs ord) @ map (dec_counter u) (item_pairs ord))
      (release_items now u i (item_pairs ord) w)")
  then have same: "sale_tables w1 = sale_tables w"
    using sales_all_decs(3) [of "item_pairs ord" u "item_pairs ord" "release_items now u i (item_pairs ord) w"]
    by simp
  obtain w2 where w2: "update_order i (cancelled_by now) w1 = (w2, Inr ())"
      and settled: "order_settled i (cancelled_by now) w w2"
    using update_order_settles [OF same ord(1,3)] by blast
  show ?thesis
    using ord w1 w2 same settled
    by (cases r) (auto simp: cancelOrder_def cancelled_by_def [abs_def] Let_def intro: order_settled_frame
        split: option.split)
qed

lemma expireOrder_settles:
  "sale_tables (fst (expireOrder now i w)) = sale_tables w \<or>
   order_settled i (expired_by now) w (fst (expireOrder now i w))"
proof (cases "\<exists>ord. find_order i w = Some ord \<and> o_status ord = PENDING_PAYMENT \<and>
    \<not> (case o_expiresAt ord of None \<Rightarrow> False | Some e \<Rightarrow> e > now)")
  case False
  then show ?thesis by (auto simp: expireOrder_def split: option.split)
next
  case True
  then obtain ord where ord: "find_order i w = Some ord" "o_status ord = PENDING_PAYMENT"
      "\<not> (case o_expiresAt ord of None \<Rightarrow> False | Some e \<Rightarrow> e > now)"
    by blast
  let ?rel = "release_items now (o_userId ord) (o_id ord) (item_pairs ord) w"
  obtain w1 r1 where w1: "promise_all (map (dec_counter (o_userId ord)) (item_pairs ord)) ?rel = (w1, r1)"
    by (cases "promise_all (map (dec_counter (o_userId ord)) (item_pairs ord)) ?rel")
  obtain w2 r2 where w2: "promise_all (map dec_type (item_pairs ord)) w1 = (w2, r2)"
    by (cases "promise_all (map dec_type (item_pairs ord)) w1")
  have same1: "sale_tables w1 = sale_tables w"
    using sales_all_decs(2) [of "o_userId ord" "item_pairs ord" ?rel] w1 by simp
  then have same2: "sale_tables w2 = sale_tables w"
    using sales_all_decs(1) [of "item_pairs ord" w1] w2 by simp
  obtain w3 where w3: "update_order i (expired_by now) w2 = (w3, Inr ())"
      and settled: "order_settled i (expired_by now) w w3"
    using update_order_settles [OF same2 ord(1,2)] by blast
  show ?thesis
    using ord w1 w2 w3 same1 same2 settled
    by (cases r1; cases r2) (auto simp: expireOrder_def expired_by_def [abs_def] intro: order_settled_frame)
qed

text \<open>The webhook of a pending order pays and issues, closes it, or records an attempt.\<close>

definition order_sold :: "id \<Rightarrow> time \<Rightarrow> world \<Rightarrow> world \<Rightarrow> bool" where
  "order_sold i now w w' \<longleftrightarrow>
     (\<exists>ord. find_order i w = Some ord \<and> o_status ord = PENDING_PAYMENT \<and>
        sale_tables w' = (update_where (\<lambda>x. o_id x = i) (paid_at now) (orders w),
          snd (sale_tables w) @ replicate (total_qty (o_items ord)) i))"

lemma forE_create_ticket_Inr:
  "forE ts create_ticket w = (w', Inr ()) \<Longrightarrow> w' = w\<lparr>tickets := tickets w @ ts\<rparr>"
proof (induction ts arbitrary: w)
  case Nil
  then show ?case by simp
next
  case (Cons t ts)
  from Cons.prems obtain w1 where c: "create_ticket t w = (w1, Inr ())"
      and rest: "forE ts create_ticket w1 = (w', Inr ())"
    by (auto elim: bindE_eq_InrE)
  from c have "w1 = w\<lparr>tickets := tickets w @ [t]\<rparr>" by (simp add: create_ticket_def split: if_splits)
  with Cons.IH [OF rest] show ?case by simp
qed

lemma handlePaymentSuccess_sells:
  assumes "find_order (wh_orderId dto) w = Some ord" and "o_status ord = PENDING_PAYMENT"
  shows "sale_tables (fst (handlePaymentSuccess C env now dto ord w)) = sale_tables w \<or>
    order_sold (wh_orderId dto) now w (fst (handlePaymentSuccess C env now dto ord w))"
proof -
  let ?g = "case findLeastLoadedGate (o_concertId ord) w of Some g \<Rightarrow> g_name g | None \<Rightarrow> []"
  let ?ts = "map (ticket_of_plan now ord) (plan_items C env ?g (o_items ord) 0)"
  let ?u = "upsert_payment now (te_paymentId env) PAY_SUCCESS (\<lambda>_. PAY_SUCCESS) dto w"
  let ?body = "\<lambda>tx. bindE (update_order (wh_orderId dto) (paid_at now)
              (upsert_payment now (te_paymentId env) PAY_SUCCESS (\<lambda>_. PAY_SUCCESS) dto tx)) (\<lambda>w1 _.
      bindE (forE ?ts create_ticket w1) (\<lambda>w2 _.
      bindE (forE (item_pairs ord) sell_type w2) (\<lambda>w3 _.
      forE (item_pairs ord) (sell_counter (o_userId ord)) w3)))"
  have id: "o_id ord = wh_orderId dto" using find_order_id [OF assms(1)] .
  have sold: "order_sold (wh_orderId dto) now w w'" if "?body w = (w', Inr ())" for w'
  proof -
    obtain w1 w2 w3 where w1: "update_order (wh_orderId dto) (paid_at now) ?u = (w1, Inr ())"
      and w2: "forE ?ts create_ticket w1 = (w2, Inr ())"
      and w3: "forE (item_pairs ord) sell_type w2 = (w3, Inr ())"
      and w': "forE (item_pairs ord) (sell_counter (o_userId ord)) w3 = (w', Inr ())"
      using \<open>?body w = (w', Inr ())\<close> by (elim bindE_eq_InrE) auto
    have "sale_tables w' = sale_tables w2"
      using sales_all_decs(4) [of "item_pairs ord" w2] sales_all_decs(5) [of "item_pairs ord" "o_userId ord" w3]
        w3 w' by simp
    moreover have "w2 = w1\<lparr>tickets := tickets w1 @ ?ts\<rparr>" using forE_create_ticket_Inr [OF w2] .
    moreover have "w1 = ?u\<lparr>orders := update_where (\<lambda>x. o_id x = wh_orderId dto) (paid_at now) (orders ?u)\<rparr>"
      using w1 by (auto simp: update_order_def split: option.splits)
    moreover have "map t_orderId ?ts = replicate (total_qty (o_items ord)) (wh_orderId dto)"
      by (simp add: comp_def ticket_of_plan_def id map_replicate_const)
    ultimately show ?thesis
      using assms by (auto simp: order_sold_def sale_tables_def)
  qed
  obtain w1 r where tx: "transaction ?body w = (w1, r)" by (cases "transaction ?body w")
  show ?thesis
  proof (cases r)
    case (Inl e)
    then have "w1 = w" using tx by (auto simp: transaction_def split: prod.splits sum.splits)
    then show ?thesis using tx Inl by (simp add: handlePaymentSuccess_def Let_def)
  next
    case (Inr x)
    then have "?body w = (w1, Inr ())" using tx by (auto simp: transaction_def split: prod.splits sum.splits)
    from sold [OF this] show ?thesis
      using tx Inr by (simp add: handlePaymentSuccess_def Let_def order_sold_def)
  qed
qed

lemma handlePaymentFailed_settles:
  assumes "find_order i w = Some ord" and "o_status ord = PENDING_PAYMENT"
  shows "order_settled i (failed_at now) w (handlePaymentFailed now i ord w)"
  using assms
  by (simp add: handlePaymentFailed_def order_settled_def failed_at_def [abs_def] Let_def sale_tables_def)

lemma webhook_sale:
  "sale_tables (fst (handleMockWebhook C k env now dto w)) = sale_tables w \<or>
   order_settled (wh_orderId dto) (failed_at now) w (fst (handleMockWebhook C k env now dto w)) \<or>
   order_sold (wh_orderId dto) now w (fst (handleMockWebhook C k env now dto w))"
proof (cases "\<exists>ord. find_order (wh_orderId dto) w = Some ord \<and> o_status ord = PENDING_PAYMENT")
  case False
  then show ?thesis
    by (auto simp: handleMockWebhook_def recordLateWebhook_def split: option.split)
next
  case True
  then obtain ord where ord: "find_order (wh_orderId dto) w = Some ord" "o_status ord = PENDING_PAYMENT"
    by blast
  obtain w' r where w': "handlePaymentSuccess C env now dto ord w = (w', r)"
    by (cases "handlePaymentSuccess C env now dto ord w")
  show ?thesis
    using ord w' handlePaymentSuccess_sells [OF ord, of C env now] handlePaymentFailed_settles [OF ord]
    by (cases "wh_result dto"; cases r)
      (auto simp: handleMockWebhook_def handlePaymentTimeout_def split: option.split)
qed

lemma cron_handle_settles:
  "sale_tables (cron_handle configured now newId ord w) = sale_tables w \<or>
   order_settled (o_id ord) (cron_outcome configured now) w (cron_handle configured now newId ord w)"
proof (cases "\<exists>latest. find_order (o_id ord) w = Some latest \<and> o_status latest = PENDING_PAYMENT")
  case False
  then have "sale_tables (cron_handle configured now newId ord w) = sale_tables w"
    by (auto simp: cron_handle_def markOrderPaidFromCron_def expireOrderAndReleaseInventory_def Let_def
        split: MockVerifyResult.split option.split)
  then show ?thesis by blast
next
  case True
  then obtain latest where latest: "find_order (o_id ord) w = Some latest" "o_status latest = PENDING_PAYMENT"
    by blast
  have "tickets (cron_handle configured now newId ord w) = tickets w"
    by (auto simp: cron_handle_def markOrderPaidFromCron_def expireOrderAndReleaseInventory_def Let_def
        split: MockVerifyResult.split option.split)
  then show ?thesis
    using latest cron_handle_orders [OF latest, of configured now newId]
    by (simp add: order_settled_def sale_tables_def)
qed

text \<open>The issue job gives a paid order without tickets all of them.\<close>

definition order_issued :: "id \<Rightarrow> world \<Rightarrow> world \<Rightarrow> bool" where
  "order_issued i w w' \<longleftrightarrow>
     (\<exists>ord. find_order i w = Some ord \<and> o_status ord = PAID \<and> i \<notin> t_orderId ` set (tickets w) \<and>
        sale_tables w' = (orders w, snd (sale_tables w) @ replicate (total_qty (o_items ord)) i))"

lemma process_issue_tables:
  "sale_tables (fst (process_issue C env now i w)) = sale_tables w \<or>
   order_issued i w (fst (process_issue C env now i w))"
proof (cases "\<exists>ord. find_order i w = Some ord \<and> o_status ord = PAID \<and> o_items ord \<noteq> [] \<and>
    count_where (\<lambda>t. t_orderId t = i) (tickets w) = 0")
  case False
  then show ?thesis by (auto simp: process_issue_def Let_def split: option.split)
next
  case True
  then obtain ord where ord: "find_order i w = Some ord" "o_status ord = PAID" "o_items ord \<noteq> []"
      "count_where (\<lambda>t. t_orderId t = i) (tickets w) = 0"
    by blast
  obtain w1 r where w1: "issue_items C env now ord (o_items ord) 0 w = (w1, r)"
    by (cases "issue_items C env now ord (o_items ord) 0 w")
  obtain ts where ts: "tickets w1 = tickets w @ ts" "orders w1 = orders w"
      "\<And>t. t \<in> set ts \<Longrightarrow> t_orderId t = o_id ord" "r = Inr () \<Longrightarrow> length ts = total_qty (o_items ord)"
    using issue_items_appends [of C env now ord "o_items ord" 0 w] w1 by auto
  have "map t_orderId ts = replicate (length ts) i"
    using ts(3) find_order_id [OF ord(1)] by (simp add: map_replicate_const [symmetric] cong: map_cong)
  moreover have "i \<notin> t_orderId ` set (tickets w)"
    using ord(4) by (auto simp: count_where_def filter_empty_conv)
  ultimately show ?thesis
    using ord w1 ts
    by (cases r) (auto simp: process_issue_def order_issued_def sale_tables_def transaction_def)
qed

section \<open>Each of them is a step of the machine\<close>

abbreviation sales :: "world \<Rightarrow> sales" where
  "sales w \<equiv> sales_of (sale_tables w)"

lemma sales_Some:
  "sales w i = Some s \<longleftrightarrow>
     (\<exists>ord. find_order i w = Some ord \<and>
        s = \<lparr>s_status = o_status ord, s_due = total_qty (o_items ord),
             s_issued = count_list (map t_orderId (tickets w)) i\<rparr>)"
  unfolding sales_of_def sale_tables_def find_order_def by (auto simp: map_option_case split: option.splits)

text \<open>No orphaned ticket, and one row per order.\<close>

definition sale_tables_ok :: "world \<Rightarrow> bool" where
  "sale_tables_ok w \<longleftrightarrow>
     unique_key o_id (orders w) \<and> t_orderId ` set (tickets w) \<subseteq> o_id ` set (orders w)"

lemma sale_tables_okE: "sale_tables_ok w \<longleftrightarrow>
    unique_key o_id (fst (sale_tables w)) \<and> set (snd (sale_tables w)) \<subseteq> o_id ` set (fst (sale_tables w))"
  by (simp add: sale_tables_ok_def sale_tables_def)

lemma sale_tables_ok_cong: "sale_tables w' = sale_tables w \<Longrightarrow> sale_tables_ok w' = sale_tables_ok w"
  by (simp add: sale_tables_okE)

lemma placed_sale:
  assumes "order_placed ord (sale_tables w) w'" and "find_order (o_id ord) w = None"
    and "o_status ord = PENDING_PAYMENT" and "sale_tables_ok w"
  shows "sale_steps (sales w) (sales w') \<and> sale_tables_ok w'"
proof (cases "sale_tables w' = sale_tables w")
  case True
  then show ?thesis using assms(4) by (simp add: sale_tables_ok_cong [OF True])
next
  case False
  then have "sale_tables w' = (fst (sale_tables w) @ [ord], snd (sale_tables w))"
    using assms(1) by (simp only: order_placed_def simp_thms)
  then have w': "sale_tables w' = (orders w @ [ord], map t_orderId (tickets w))"
    by (simp add: sale_tables_def)
  have fresh: "o_id ord \<notin> o_id ` set (orders w)"
    using assms(2) by (simp add: find_order_def find_row_None_image)
  then have none: "o_id ord \<notin> set (map t_orderId (tickets w))"
    using assms(4) by (auto simp: sale_tables_ok_def)
  have "sales w' = (sales w)(o_id ord \<mapsto> new_sale (total_qty (o_items ord)))"
    using assms(2,3) count_notin [OF none] unfolding w'
    by (intro ext) (auto simp: sales_of_def sale_tables_def new_sale_def find_order_def split: option.split)
  moreover have "sale_step (sales w) ((sales w)(o_id ord \<mapsto> new_sale (total_qty (o_items ord))))"
    using assms(2) by (intro sale_placed) (simp add: sales_of_def find_order_def)
  moreover have "sale_tables_ok w'"
    unfolding sale_tables_okE w' using fresh assms(4) by (auto simp: sale_tables_ok_def unique_key_def)
  ultimately show ?thesis by simp
qed

lemma update_where_ids:
  assumes "\<And>x. o_id (f x) = o_id x"
  shows "map o_id (update_where p f rows) = map o_id rows"
  using assms by (simp add: update_where_def comp_def if_distrib cong: if_cong)

lemma update_where_ok:
  assumes "sale_tables_ok w" and "sale_tables w' = (update_where p f (orders w), ts)"
    and "\<And>x. o_id (f x) = o_id x" and "set ts \<subseteq> o_id ` set (orders w)"
  shows "sale_tables_ok w'"
  using assms(1,2,4) update_where_ids [of f p "orders w", OF assms(3)]
  unfolding sale_tables_okE unique_key_def by (metis fst_conv fst_sale_tables list.set_map snd_conv)

lemma sales_update:
  assumes "sale_tables w' = (update_where (\<lambda>x. o_id x = i) f (orders w), map t_orderId (tickets w) @ replicate n i)"
    and "find_order i w = Some ord" and "\<And>x. o_id (f x) = o_id x" and "o_items (f ord) = o_items ord"
  shows "sales w' = (sales w)(i \<mapsto> (the (sales w i))
    \<lparr>s_status := o_status (f ord), s_issued := s_issued (the (sales w i)) + n\<rparr>)"
proof (rule ext)
  fix j
  have "count_list (map t_orderId (tickets w) @ replicate n i) j =
      count_list (map t_orderId (tickets w)) j + (if j = i then n else 0)"
    by (induction n) auto
  moreover have "o_id a = k" if "find_row o_id k (orders w) = Some a" for a k
    using find_row_SomeD [OF that] by simp
  ultimately show "sales w' j = ((sales w)(i \<mapsto> (the (sales w i))
      \<lparr>s_status := o_status (f ord), s_issued := s_issued (the (sales w i)) + n\<rparr>)) j"
    using assms
    by (cases "j = i"; cases "find_row o_id j (orders w)")
      (auto simp: sales_of_def sale_tables_def find_order_def find_row_update_where)
qed

lemma found_owner: "find_order i w = Some ord \<Longrightarrow> i \<in> o_id ` set (orders w)"
  by (auto simp: find_order_def dest: find_row_SomeD)

lemma settled_sale:
  assumes "order_settled i f w w'" and "sale_tables_ok w"
    and "\<And>x. o_id (f x) = o_id x" and "\<And>x. o_items (f x) = o_items x"
    and "\<And>x. o_status (f x) \<noteq> PENDING_PAYMENT"
  shows "sale_steps (sales w) (sales w') \<and> sale_tables_ok w'"
proof -
  obtain ord where ord: "find_order i w = Some ord" "o_status ord = PENDING_PAYMENT"
      and w': "sale_tables w' = (update_where (\<lambda>x. o_id x = i) f (orders w), map t_orderId (tickets w))"
    using assms(1) by (auto simp: order_settled_def sale_tables_def)
  obtain s where s: "sales w i = Some s" "s_status s = PENDING_PAYMENT"
    using ord by (auto simp: sales_Some)
  have "sales w' = (sales w)(i \<mapsto> s\<lparr>s_status := o_status (f ord)\<rparr>)"
    using sales_update [of w' i f w 0 ord] w' ord(1) assms(3,4) s(1) by simp
  moreover have "sale_step (sales w) ((sales w)(i \<mapsto> s\<lparr>s_status := o_status (f ord)\<rparr>))"
  proof (cases "o_status (f ord) = PAID")
    case True
    then show ?thesis using sale_paid [of "sales w" i s] s by simp
  next
    case False
    then show ?thesis using sale_closed [of "sales w" i s "o_status (f ord)"] s assms(5) by simp
  qed
  moreover have "sale_tables_ok w'"
    using assms(2) by (intro update_where_ok [OF assms(2) w' assms(3)]) (simp add: sale_tables_ok_def)
  ultimately show ?thesis by simp
qed

lemma sold_sale:
  assumes "order_sold i now w w'" and "sale_tables_ok w"
  shows "sale_steps (sales w) (sales w') \<and> sale_tables_ok w'"
proof -
  obtain ord where ord: "find_order i w = Some ord" "o_status ord = PENDING_PAYMENT"
      and w': "sale_tables w' = (update_where (\<lambda>x. o_id x = i) (paid_at now) (orders w),
        map t_orderId (tickets w) @ replicate (total_qty (o_items ord)) i)"
    using assms(1) by (auto simp: order_sold_def sale_tables_def)
  obtain s where s: "sales w i = Some s" "s_status s = PENDING_PAYMENT" "s_due s = total_qty (o_items ord)"
    using ord by (auto simp: sales_Some)
  have "sales w' = (sales w)(i \<mapsto> s\<lparr>s_status := PAID, s_issued := s_issued s + s_due s\<rparr>)"
    using sales_update [OF w' ord(1)] s by (simp add: paid_at_def)
  moreover have "sale_tables_ok w'"
    using assms(2) found_owner [OF ord(1)]
    by (intro update_where_ok [OF assms(2) w']) (auto simp: sale_tables_ok_def paid_at_def)
  ultimately show ?thesis using sale_sold [of "sales w" i s] s by simp
qed

lemma issued_sale:
  assumes "order_issued i w w'" and "sale_tables_ok w"
  shows "sale_steps (sales w) (sales w') \<and> sale_tables_ok w'"
proof -
  obtain ord where ord: "find_order i w = Some ord" "o_status ord = PAID"
      and none: "i \<notin> t_orderId ` set (tickets w)"
      and w': "sale_tables w' = (update_where (\<lambda>x. o_id x = i) (\<lambda>x. x) (orders w),
        map t_orderId (tickets w) @ replicate (total_qty (o_items ord)) i)"
    using assms(1) by (auto simp: order_issued_def sale_tables_def update_where_def)
  have "count_list (map t_orderId (tickets w)) i = 0" using none by (intro count_notin) simp
  then have "sales w i = Some \<lparr>s_status = PAID, s_due = total_qty (o_items ord), s_issued = 0\<rparr>"
    using ord by (simp only: sales_Some) simp
  then have "\<exists>s. sales w i = Some s \<and> s_status s = PAID \<and> s_due s = total_qty (o_items ord) \<and> s_issued s = 0"
    by simp
  then obtain s where s: "sales w i = Some s" "s_status s = PAID" "s_due s = total_qty (o_items ord)"
      "s_issued s = 0"
    by blast
  have paid: "s\<lparr>s_status := PAID, s_issued := n\<rparr> = s\<lparr>s_issued := n\<rparr>" for n
    using s(2) by (cases s) simp
  have "sales w' = (sales w)(i \<mapsto> s\<lparr>s_status := PAID, s_issued := s_due s\<rparr>)"
    using sales_update [OF w' ord(1)] s ord(2) by simp
  then have "sales w' = (sales w)(i \<mapsto> s\<lparr>s_issued := s_due s\<rparr>)" unfolding paid .
  moreover have "sale_tables_ok w'"
    using assms(2) found_owner [OF ord(1)]
    by (intro update_where_ok [OF assms(2) w']) (auto simp: sale_tables_ok_def)
  ultimately show ?thesis using sale_issued [of "sales w" i s] s by simp
qed

end
