(* ===== verification/Shop_System.thy ===== *)
theory Shop_System
  imports Sale_Refinement
begin

text \<open>
  Runs of the whole shop: calls of all handlers in any order on one database, and what holds
  after every run that starts without orders.
\<close>

section \<open>Calls\<close>

record shop =
  sh_crypto :: crypto
  sh_webhookSecret :: string
  sh_qrSecret :: string

datatype shop_call =
    CreateOrder order_env time time create_order_dto id
  | CancelOrder time id id
  | ExpireOrder time id
  | PaymentWebhook ticket_env time mock_webhook_dto
  | PaymentCheck "MockVerifyResult option" time "nat \<Rightarrow> id"
  | IssueTickets ticket_env time id
  | CreatePayment payment_env time id string id
  | Door scan_op
  | Gates gate_op
  | CreateType time id id create_ticket_type_dto id Role
  | UpdateType time id update_ticket_type_dto id Role
  | RemoveType id id Role

fun run_call :: "shop \<Rightarrow> shop_call \<Rightarrow> world \<Rightarrow> world" where
  "run_call S (CreateOrder env t0 now dto u) w = fst (createOrder env t0 now dto u w)"
| "run_call S (CancelOrder now i u) w = fst (cancelOrder now i u w)"
| "run_call S (ExpireOrder now i) w = fst (expireOrder now i w)"
| "run_call S (PaymentWebhook env now dto) w =
     fst (handleMockWebhook (sh_crypto S) (sh_webhookSecret S) env now dto w)"
| "run_call S (PaymentCheck configured now newId) w = verifyStuckPendingPayments configured now newId w"
| "run_call S (IssueTickets env now i) w = fst (process_issue (sh_crypto S) env now i w)"
| "run_call S (CreatePayment env now u k i) w = fst (createPayment (sh_crypto S) env now u k i w)"
| "run_call S (Door x) w = fst (run_scan (sh_crypto S) (sh_qrSecret S) x w)"
| "run_call S (Gates x) w = fst (run_gate (sh_crypto S) (sh_qrSecret S) x w)"
| "run_call S (CreateType now newId c dto u r) w = fst (tt_create now newId c dto u r w)"
| "run_call S (UpdateType now i dto u r) w = fst (tt_update now i dto u r w)"
| "run_call S (RemoveType i u r) w = fst (tt_remove i u r w)"

text \<open>The validators of the request bodies, which run before the handlers.\<close>

definition valid_create_order_dto :: "create_order_dto \<Rightarrow> bool" where
  "valid_create_order_dto dto \<longleftrightarrow>
     do_concertId dto \<noteq> [] \<and>
     (\<forall>d \<in> set (do_items dto). di_ticketTypeId d \<noteq> [] \<and> 1 \<le> di_quantity d)"

definition valid_create_type_dto :: "create_ticket_type_dto \<Rightarrow> bool" where
  "valid_create_type_dto dto \<longleftrightarrow>
     ct_name dto \<noteq> [] \<and> 0 \<le> ct_price dto \<and> 1 \<le> ct_totalQty dto \<and> 1 \<le> ct_maxPerUser dto"

text \<open>A call arrives validated, and a new order gets an identifier that no order has.\<close>

fun valid_call :: "shop_call \<Rightarrow> world \<Rightarrow> bool" where
  "valid_call (CreateOrder env t0 now dto u) w =
     (valid_create_order_dto dto \<and> find_order (oe_orderId env) w = None)"
| "valid_call (CreateType now newId c dto u r) w = valid_create_type_dto dto"
| "valid_call _ w = True"

inductive shop_reaches :: "shop \<Rightarrow> (shop_call \<Rightarrow> bool) \<Rightarrow> world \<Rightarrow> world \<Rightarrow> bool" for S p w where
  shop_start: "shop_reaches S p w w"
| shop_call: "shop_reaches S p w w1 \<Longrightarrow> p x \<Longrightarrow> valid_call x w1 \<Longrightarrow> shop_reaches S p w (run_call S x w1)"

lemma shop_reaches_inv:
  assumes "shop_reaches S p w w'" and "P w"
    and "\<And>x w. P w \<Longrightarrow> p x \<Longrightarrow> valid_call x w \<Longrightarrow> P (run_call S x w)"
  shows "P w'"
  using assms(1) by induction (simp_all add: assms(2,3))

text \<open>An update of a ticket type that sets its quantities by hand is not routine.\<close>

fun routine_call :: "shop_call \<Rightarrow> bool" where
  "routine_call (UpdateType now i dto u r) = (\<not> touches_inventory dto)"
| "routine_call _ = True"

section \<open>Sales\<close>

lemma cron_loop_sale:
  "sale_tables_ok w \<Longrightarrow>
   sale_steps (sales w) (sales (cron_loop configured now newId n ords w)) \<and>
   sale_tables_ok (cron_loop configured now newId n ords w)"
proof (induction ords arbitrary: n w)
  case Nil
  then show ?case by simp
next
  case (Cons ord ords)
  let ?w1 = "cron_handle configured now (newId n) ord w"
  have "sale_steps (sales w) (sales ?w1) \<and> sale_tables_ok ?w1"
    using cron_handle_settles [of configured now "newId n" ord w]
  proof
    assume same: "sale_tables ?w1 = sale_tables w"
    then show ?thesis using Cons.prems sale_tables_ok_cong [OF same] by simp
  next
    assume "order_settled (o_id ord) (cron_outcome configured now) w ?w1"
    from settled_sale [OF this Cons.prems] show ?thesis
      by (simp add: cron_outcome_def paid_at_def cron_closed_def split: MockVerifyResult.split)
  qed
  with Cons.IH [of ?w1 "Suc n"] show ?case by auto
qed

lemma same_sale:
  assumes "sale_tables w' = sale_tables w" and "sale_tables_ok w"
  shows "sale_steps (sales w) (sales w') \<and> sale_tables_ok w'"
  using assms(2) sale_tables_ok_cong [OF assms(1)] by (simp add: assms(1))

lemma createOrder_sale:
  assumes "find_order (oe_orderId env) w = None" and "sale_tables_ok w"
  shows "sale_steps (sales w) (sales (fst (createOrder env t0 now dto u w))) \<and>
    sale_tables_ok (fst (createOrder env t0 now dto u w))"
proof (cases "collect_meta now (do_concertId dto) (do_items dto) w")
  case (Inl e)
  then show ?thesis using assms(2) by (simp add: createOrder_def)
next
  case (Inr ms)
  show ?thesis
    using createOrder_places [OF assms(1) Inr, of t0 u]
    by (rule placed_sale) (simp_all add: assms new_order_def)
qed

lemma settled_orders:
  "o_id (cancelled_by now x) = o_id x" "o_items (cancelled_by now x) = o_items x"
  "o_status (cancelled_by now x) = ORDER_CANCELLED"
  "o_id (expired_by now x) = o_id x" "o_items (expired_by now x) = o_items x"
  "o_status (expired_by now x) = EXPIRED"
  "o_id (failed_at now x) = o_id x" "o_items (failed_at now x) = o_items x"
  "o_status (failed_at now x) = PAYMENT_FAILED"
  by (simp_all add: cancelled_by_def expired_by_def failed_at_def)

lemma shop_call_sale:
  assumes "sale_tables_ok w" and "valid_call x w"
  shows "sale_steps (sales w) (sales (run_call S x w)) \<and> sale_tables_ok (run_call S x w)"
proof (cases x)
  case (CreateOrder env t0 now dto u)
  then show ?thesis using createOrder_sale assms by simp
next
  case (CancelOrder now i u)
  then show ?thesis
    using cancelOrder_settles [of now i u w] same_sale [OF _ assms(1)] settled_sale [OF _ assms(1)]
    by (auto simp: settled_orders)
next
  case (ExpireOrder now i)
  then show ?thesis
    using expireOrder_settles [of now i w] same_sale [OF _ assms(1)] settled_sale [OF _ assms(1)]
    by (auto simp: settled_orders)
next
  case (PaymentWebhook env now dto)
  then show ?thesis
    using webhook_sale [of "sh_crypto S" "sh_webhookSecret S" env now dto w] same_sale [OF _ assms(1)]
      settled_sale [OF _ assms(1)] sold_sale [OF _ assms(1)]
    by (auto simp: settled_orders)
next
  case (PaymentCheck configured now newId)
  then show ?thesis using cron_loop_sale [OF assms(1)] by (simp add: verifyStuckPendingPayments_def)
next
  case (IssueTickets env now i)
  then show ?thesis
    using process_issue_tables [of "sh_crypto S" env now i w] same_sale [OF _ assms(1)]
      issued_sale [OF _ assms(1)]
    by auto
qed (use same_sale [OF _ assms(1)] in \<open>simp_all add: sales_desk
       sales_tt_create sales_tt_update sales_tt_remove\<close>)

text \<open>
  C2: The refinement: whatever handler is called, with whatever data, the sales in the tables move by
  steps of the sale machine, and no ticket is left without its order.
\<close>

theorem shop_calls_refine_sale_machine:
  assumes "sale_tables_ok w" and "valid_call x w"
  shows "sale_steps (sales w) (sales (run_call S x w)) \<and> sale_tables_ok (run_call S x w)"
  using assms by (rule shop_call_sale)

text \<open>An opening shop: ticket types may be on sale, nothing is ordered.\<close>

definition no_sales :: "world \<Rightarrow> bool" where
  "no_sales w \<longleftrightarrow> orders w = [] \<and> tickets w = []"

lemma no_sales_ok: "no_sales w \<Longrightarrow> sale_tables_ok w \<and> sales_ok (sales w)"
  by (simp add: no_sales_def sale_tables_ok_def sales_ok_def sales_of_def unique_key_def)

lemma shop_run_sales:
  assumes "shop_reaches S p w w'" and "sale_tables_ok w"
  shows "sale_steps (sales w) (sales w') \<and> sale_tables_ok w'"
  using assms
proof (induction rule: shop_reaches.induct)
  case shop_start
  then show ?case by simp
next
  case (shop_call w1 x)
  then show ?case
    using shop_call_sale [of w1 x S] by (meson rtranclp_trans)
qed

lemma shop_run_ok:
  assumes "shop_reaches S p w w'" and "no_sales w"
  shows "sale_tables_ok w' \<and> sales_ok (sales w')"
  using shop_run_sales [OF assms(1)] no_sales_ok [OF assms(2)] sale_steps_ok by blast

lemma count_orders_tickets:
  "count_list (map t_orderId ts) i = count_where (\<lambda>t. t_orderId t = i) ts"
  by (induction ts) (simp_all add: count_where_def)

lemma ticket_counted:
  assumes "t \<in> set ts"
  shows "0 < count_where (\<lambda>x. t_orderId x = t_orderId t) ts"
  using assms by (auto simp: count_where_def filter_empty_conv)

text \<open>
  C1: Tickets exist for paid orders only, and a paid order has none yet or exactly as many as were
  ordered: this holds after every run of the shop, so no interleaving of webhooks, repeated
  webhooks, periodic checks and issue jobs issues a set twice or half of one.
\<close>

theorem tickets_follow_payment:
  assumes "shop_reaches S p w w'" and "no_sales w"
  shows "(\<forall>t \<in> set (tickets w'). \<exists>ord. find_order (t_orderId t) w' = Some ord \<and> o_status ord = PAID) \<and>
    (\<forall>i ord. find_order i w' = Some ord \<longrightarrow>
       count_where (\<lambda>t. t_orderId t = i) (tickets w') \<in>
         (if o_status ord = PAID then {0, total_qty (o_items ord)} else {0}))"
proof -
  have ok: "sale_tables_ok w'" "sales_ok (sales w')" using shop_run_ok [OF assms] by blast+
  have counts: "count_where (\<lambda>t. t_orderId t = i) (tickets w') \<in>
      (if o_status ord = PAID then {0, total_qty (o_items ord)} else {0})"
    if "find_order i w' = Some ord" for i ord
    using sales_okD [OF ok(2), of i] that
    by (auto simp: sales_Some sale_ok_def count_orders_tickets split: if_splits)
  have "\<exists>ord. find_order (t_orderId t) w' = Some ord \<and> o_status ord = PAID" if "t \<in> set (tickets w')" for t
  proof -
    have "t_orderId t \<in> o_id ` set (orders w')" using ok(1) that by (auto simp: sale_tables_ok_def)
    then obtain ord where "find_order (t_orderId t) w' = Some ord"
      by (cases "find_order (t_orderId t) w'") (auto simp: find_order_def find_row_None_image)
    with counts [OF this] ticket_counted [OF that] show ?thesis by (auto split: if_splits)
  qed
  with counts show ?thesis by blast
qed

text \<open>
  C8: A settled order stays as it is: along every run an order keeps its size, leaves
  \<open>PENDING_PAYMENT\<close> at most once and never returns to it, and loses no ticket.
\<close>

theorem settled_orders_are_final:
  assumes "shop_reaches S p w w'" and "sale_tables_ok w" and "find_order i w = Some ord"
  shows "\<exists>ord'. find_order i w' = Some ord' \<and> o_status ord \<le> o_status ord' \<and>
    total_qty (o_items ord') = total_qty (o_items ord) \<and>
    count_where (\<lambda>t. t_orderId t = i) (tickets w) \<le> count_where (\<lambda>t. t_orderId t = i) (tickets w')"
proof -
  have "sale_steps (sales w) (sales w')" using shop_run_sales [OF assms(1,2)] by blast
  moreover have "sales w i = Some \<lparr>s_status = o_status ord, s_due = total_qty (o_items ord),
      s_issued = count_where (\<lambda>t. t_orderId t = i) (tickets w)\<rparr>"
    using assms(3) by (simp add: sales_Some count_orders_tickets)
  ultimately show ?thesis
    using sale_steps_later by (fastforce simp: sales_Some sale_later_def count_orders_tickets)
qed

section \<open>A run\<close>

fun run_calls :: "shop \<Rightarrow> shop_call list \<Rightarrow> world \<Rightarrow> world" where
  "run_calls S [] w = w"
| "run_calls S (x # xs) w = run_calls S xs (run_call S x w)"

fun valid_calls :: "shop \<Rightarrow> (shop_call \<Rightarrow> bool) \<Rightarrow> shop_call list \<Rightarrow> world \<Rightarrow> bool" where
  "valid_calls S p [] w = True"
| "valid_calls S p (x # xs) w = (p x \<and> valid_call x w \<and> valid_calls S p xs (run_call S x w))"

lemma valid_calls_reach:
  "shop_reaches S p w w1 \<Longrightarrow> valid_calls S p xs w1 \<Longrightarrow> shop_reaches S p w (run_calls S xs w1)"
  by (induction xs arbitrary: w1) (auto intro: shop_reaches.shop_call)

text \<open>Two tickets are ordered, their payment is found by the periodic check.\<close>

definition demo_keys :: shop where
  "demo_keys = \<lparr>sh_crypto = demo_crypto, sh_webhookSecret = ''s'', sh_qrSecret = ''k''\<rparr>"

definition demo_calls :: "shop_call list" where
  "demo_calls =
     [CreateOrder (demo_order_env None False) 1000 1000 (demo_dto [(''vip'', 2)]) ''alice'',
      PaymentCheck (Some VERIFY_SUCCESS) 901001 (\<lambda>n. ''p9'')]"

definition demo_end :: world where
  "demo_end = run_calls demo_keys demo_calls demo_shop"

lemma demo_run: "shop_reaches demo_keys routine_call demo_shop demo_end"
  unfolding demo_end_def by (rule valid_calls_reach [OF shop_start]) code_simp

lemma demo_shop_opening: "no_sales demo_shop" "types_bounded demo_shop" "quantities_positive demo_shop"
  by code_simp+

lemma demo_end_facts:
  "map o_status (orders demo_end) = [PAID]" "tickets demo_end = []"
  "IssueTicketJob ''o1'' \<in> set (jobs demo_end)"
  "(case find_order ''o1'' demo_end of None \<Rightarrow> False | Some ord \<Rightarrow>
      o_status ord = PAID \<and> total_qty (o_items ord) = 2 \<and> types_exist (item_pairs ord) demo_end)"
  by code_simp+

theorem shop_calls_refine_sale_machine_witness:
  "sale_steps (sales demo_shop) (sales (run_call demo_keys (hd demo_calls) demo_shop)) \<and>
   map_option s_due (sales (run_call demo_keys (hd demo_calls) demo_shop) ''o1'') = Some 2"
proof -
  have "valid_call (hd demo_calls) demo_shop" by code_simp
  moreover have "map_option s_due (sales (run_call demo_keys (hd demo_calls) demo_shop) ''o1'') = Some 2"
    by code_simp
  ultimately show ?thesis
    using shop_calls_refine_sale_machine [of demo_shop "hd demo_calls" demo_keys]
      no_sales_ok [OF demo_shop_opening(1)] by blast
qed

definition demo_issued :: world where
  "demo_issued = run_call demo_keys (IssueTickets (demo_ticket_env ''t'') 901002 ''o1'') demo_end"

theorem tickets_follow_payment_witness:
  "tickets demo_issued \<noteq> [] \<and>
   (\<exists>ord. find_order (t_orderId (hd (tickets demo_issued))) demo_issued = Some ord \<and> o_status ord = PAID)"
proof -
  have "shop_reaches demo_keys routine_call demo_shop demo_issued"
    unfolding demo_issued_def by (rule shop_reaches.shop_call [OF demo_run]) simp_all
  moreover have "tickets demo_issued \<noteq> []" by code_simp
  ultimately show ?thesis
    using tickets_follow_payment [OF _ demo_shop_opening(1), of demo_keys routine_call demo_issued] by simp
qed

theorem settled_orders_are_final_witness:
  "\<exists>ord'. find_order ''o1'' (run_call demo_keys (CancelOrder 901002 ''o1'' ''alice'') demo_end) = Some ord' \<and>
     o_status ord' = PAID"
proof -
  obtain ord where ord: "find_order ''o1'' demo_end = Some ord" "o_status ord = PAID"
    using demo_end_facts(4) by (auto split: option.splits)
  have step: "shop_reaches demo_keys routine_call demo_end
      (run_call demo_keys (CancelOrder 901002 ''o1'' ''alice'') demo_end)"
    by (rule shop_reaches.shop_call [OF shop_start]) simp_all
  have "sale_tables_ok demo_end" using shop_run_ok [OF demo_run demo_shop_opening(1)] by blast
  from settled_orders_are_final [OF step this ord(1)] ord(2) show ?thesis
    unfolding less_eq_OrderStatus_def by auto
qed

end
