(* ===== verification/Shop_Inventory.thy ===== *)
theory Shop_Inventory
  imports Shop_System
begin

text \<open>
  The inventory of the whole shop: every handler of every component keeps what is sold and
  reserved of a ticket type within its total, so it stays there through every run.
\<close>

section \<open>Quantities\<close>

text \<open>Every quantity of an order is positive, so that releasing one never adds to a count.\<close>

lemma quantities_pairs:
  assumes "quantities_positive w" and "ord \<in> set (orders w)" and "p \<in> set (item_pairs ord)"
  shows "0 \<le> snd p"
  using assms by (force simp: quantities_positive_def item_pairs_def)

lemma quantities_update:
  assumes "quantities_positive w" and "orders w' = update_where q f (orders w)"
    and "\<And>x. o_items (f x) = o_items x"
  shows "quantities_positive w'"
  using assms by (auto simp: quantities_positive_def set_update_where)

lemma quantities_same: "sale_tables w' = sale_tables w \<Longrightarrow> quantities_positive w \<Longrightarrow> quantities_positive w'"
  by (simp add: quantities_positive_def sale_tables_def)

lemma quantities_settled:
  "order_settled i f w w' \<Longrightarrow> (\<And>x. o_items (f x) = o_items x) \<Longrightarrow> quantities_positive w \<Longrightarrow>
   quantities_positive w'"
  by (rule quantities_update [where f = f and q = "\<lambda>x. o_id x = i"])
    (simp_all add: order_settled_def sale_tables_def)

lemma quantities_create:
  assumes "quantities_positive w" and "find_order (oe_orderId env) w = None"
    and "\<And>d. d \<in> set (do_items dto) \<Longrightarrow> 1 \<le> di_quantity d"
  shows "quantities_positive (fst (createOrder env t0 now dto u w))"
proof (cases "collect_meta now (do_concertId dto) (do_items dto) w")
  case (Inl e)
  then show ?thesis using assms(1) by (simp add: createOrder_def)
next
  case (Inr ms)
  have "1 \<le> m_quantity m" if "m \<in> set ms" for m
  proof -
    have "(m_ticketTypeId m, m_quantity m) \<in> set (map (\<lambda>d. (di_ticketTypeId d, di_quantity d)) (do_items dto))"
      using that unfolding collect_meta_map [OF Inr, symmetric] by force
    then show ?thesis using assms(3) by auto
  qed
  then have "1 \<le> oi_quantity item" if "item \<in> set (new_items env ms)" for item
    using that by (auto simp: new_items_def dest: set_zip_rightD)
  then show ?thesis
    using createOrder_places [OF assms(2) Inr, of t0 u] assms(1)
    by (auto simp: order_placed_def quantities_positive_def sale_tables_def new_order_def)
qed

lemma cron_loop_quantities:
  "quantities_positive w \<Longrightarrow> quantities_positive (cron_loop configured now newId n ords w)"
proof (induction ords arbitrary: n w)
  case Nil
  then show ?case by simp
next
  case (Cons ord ords)
  have "quantities_positive (cron_handle configured now (newId n) ord w)"
    using cron_handle_settles [of configured now "newId n" ord w] Cons.prems
    by (auto intro: quantities_same quantities_settled
        simp: cron_outcome_def paid_at_def cron_closed_def split: MockVerifyResult.split)
  with Cons.IH show ?case by simp
qed

lemma shop_call_quantities:
  assumes "quantities_positive w" and "valid_call x w"
  shows "quantities_positive (run_call S x w)"
proof (cases x)
  case (CreateOrder env t0 now dto u)
  then show ?thesis using quantities_create assms by (simp add: valid_create_order_dto_def)
next
  case (CancelOrder now i u)
  then show ?thesis
    using cancelOrder_settles [of now i u w] quantities_same [OF _ assms(1)] quantities_settled [OF _ _ assms(1)]
    by (auto simp: settled_orders)
next
  case (ExpireOrder now i)
  then show ?thesis
    using expireOrder_settles [of now i w] quantities_same [OF _ assms(1)] quantities_settled [OF _ _ assms(1)]
    by (auto simp: settled_orders)
next
  case (PaymentWebhook env now dto)
  have "quantities_positive w'" if "order_sold i t w w'" for i t w'
    using that by (intro quantities_update [OF assms(1), where f = "paid_at t" and q = "\<lambda>x. o_id x = i"])
      (auto simp: order_sold_def sale_tables_def paid_at_def)
  then show ?thesis
    using PaymentWebhook webhook_sale [of "sh_crypto S" "sh_webhookSecret S" env now dto w]
      quantities_same [OF _ assms(1)] quantities_settled [OF _ _ assms(1)]
    by (auto simp: settled_orders)
next
  case (PaymentCheck configured now newId)
  then show ?thesis using cron_loop_quantities [OF assms(1)] by (simp add: verifyStuckPendingPayments_def)
next
  case (IssueTickets env now i)
  have "orders (fst (process_issue (sh_crypto S) env now i w)) = orders w"
    using process_issue_tables [of "sh_crypto S" env now i w] by (auto simp: order_issued_def sale_tables_def)
  then show ?thesis using IssueTickets assms(1) by (simp add: quantities_positive_def)
qed (use quantities_same [OF _ assms(1)] in \<open>simp_all add: sales_desk
       sales_tt_create sales_tt_update sales_tt_remove\<close>)

section \<open>The bound\<close>

lemma keeps_types_bounded_sell_type: "keeps types_bounded (sell_type p)"
  by (rule keepsI)
    (auto simp: sell_type_def update_ticket_type_def types_bounded_def set_update_where split: option.splits)

lemma keeps_types_bounded_sell_counter: "keeps types_bounded (sell_counter u p)"
  by (rule keepsI) (auto simp: sell_counter_def upsert_counter_def split: option.splits)

lemma keeps_types_bounded_create_ticket: "keeps types_bounded (create_ticket t)"
  by (rule keepsI) (simp add: create_ticket_def types_bounded_def)

lemma types_bounded_upsert_payment [simp]:
  "types_bounded (upsert_payment now i s f dto w) = types_bounded w"
  by (simp add: types_bounded_def)

lemma types_bounded_tickets [simp]: "types_bounded (w\<lparr>tickets := ts\<rparr>) = types_bounded w"
  by (simp add: types_bounded_def)

lemma types_bounded_success:
  assumes "types_bounded w"
  shows "types_bounded (fst (handlePaymentSuccess C env now dto ord w))"
proof -
  have upd: "types_bounded w1 \<Longrightarrow> types_bounded (fst (update_order j f w1))" for w1 j f
    by (simp add: update_order_def split: option.splits)
  let ?body = "\<lambda>ts tx. bindE (update_order (wh_orderId dto) (paid_at now)
              (upsert_payment now (te_paymentId env) PAY_SUCCESS (\<lambda>_. PAY_SUCCESS) dto tx)) (\<lambda>w1 _.
      bindE (forE ts create_ticket w1) (\<lambda>w2 _.
      bindE (forE (item_pairs ord) sell_type w2) (\<lambda>w3 _.
      forE (item_pairs ord) (sell_counter (o_userId ord)) w3)))"
  note keeps = keepsD [OF keeps_forE [OF keeps_types_bounded_create_ticket]]
    keepsD [OF keeps_forE [OF keeps_types_bounded_sell_type]]
    keepsD [OF keeps_forE [OF keeps_types_bounded_sell_counter]]
  have "keeps types_bounded (?body ts)" for ts
    by (rule keepsI) (auto intro!: keeps_bindE [where P = types_bounded] upd keeps)
  from keepsD [OF keeps_transaction [OF this] assms] show ?thesis
    by (auto simp: handlePaymentSuccess_def Let_def intro!: keeps_bindE [where P = types_bounded])
qed

lemma types_bounded_release_guarded:
  assumes "types_bounded w" and "0 \<le> snd p"
  shows "types_bounded (release_guarded u p w)"
  using assms by (auto simp: release_guarded_def types_bounded_def set_update_where)

lemma types_bounded_releases:
  "types_bounded w \<Longrightarrow> (\<And>p. p \<in> set ps \<Longrightarrow> 0 \<le> snd p) \<Longrightarrow> types_bounded (fold (release_guarded u) ps w)"
  by (induction ps arbitrary: w) (simp_all add: types_bounded_release_guarded)

lemma types_bounded_webhook:
  assumes "types_bounded w" and "quantities_positive w"
  shows "types_bounded (fst (handleMockWebhook C k env now dto w))"
proof (cases "find_order (wh_orderId dto) w")
  case None
  then show ?thesis using assms(1) by (simp add: handleMockWebhook_def)
next
  case (Some ord)
  then have "ord \<in> set (orders w)" by (auto simp: find_order_def dest: find_row_SomeD)
  note nonneg = quantities_pairs [OF assms(2) this]
  have failed: "types_bounded (handlePaymentFailed now (wh_orderId dto) ord w)"
    using assms(1) nonneg
    by (auto simp: handlePaymentFailed_def Let_def intro!: types_bounded_releases split: option.split)
  have success: "types_bounded (fst (bindE (handlePaymentSuccess C env now dto ord w) (\<lambda>w' _. (w', Inr r))))" for r
    by (rule keeps_bindE [where P = types_bounded]) (simp_all add: types_bounded_success assms(1))
  show ?thesis
    using Some assms(1) failed success
    by (auto simp: handleMockWebhook_def recordLateWebhook_def handlePaymentTimeout_def
        split: MockPaymentResult.split)
qed

lemma types_bounded_cron_handle:
  assumes "types_bounded w" and "\<And>p. p \<in> set (item_pairs ord) \<Longrightarrow> 0 \<le> snd p"
  shows "types_bounded (cron_handle configured now newId ord w)"
proof -
  have "types_bounded (expireOrderAndReleaseInventory now newId ord failed w)" for failed
    using assms
    by (auto simp: expireOrderAndReleaseInventory_def Let_def intro!: types_bounded_releases split: option.split)
  moreover have "types_bounded (markOrderPaidFromCron now newId i a w)" for i a
    using assms(1) by (auto simp: markOrderPaidFromCron_def Let_def types_bounded_def split: option.split)
  ultimately show ?thesis by (simp add: cron_handle_def split: MockVerifyResult.split)
qed

lemma types_bounded_cron_loop:
  "types_bounded w \<Longrightarrow> (\<And>ord p. ord \<in> set ords \<Longrightarrow> p \<in> set (item_pairs ord) \<Longrightarrow> 0 \<le> snd p) \<Longrightarrow>
   types_bounded (cron_loop configured now newId n ords w)"
proof (induction ords arbitrary: n w)
  case Nil
  then show ?case by simp
next
  case (Cons ord ords)
  have "types_bounded (cron_handle configured now (newId n) ord w)"
    using Cons.prems by (intro types_bounded_cron_handle) auto
  moreover have "0 \<le> snd p" if "x \<in> set ords" "p \<in> set (item_pairs x)" for x p
    using Cons.prems(2) [of x p] that by simp
  ultimately show ?case using Cons.IH by simp
qed

lemma keeps_types_bounded_issue_units: "keeps types_bounded (issue_units C env now ord item n k)"
  by (rule keepsI) (metis issue_units_appends types_bounded_tickets)

lemma keeps_types_bounded_issue_items: "keeps types_bounded (issue_items C env now ord items n)"
proof (induction items arbitrary: n)
  case Nil
  then show ?case by (simp add: keeps_def)
next
  case (Cons item items)
  show ?case
    by (rule keepsI)
      (auto intro!: keeps_bindE [where P = types_bounded] keepsD [OF keeps_types_bounded_sell_type]
        keepsD [OF keeps_types_bounded_sell_counter] keepsD [OF keeps_types_bounded_issue_units]
        keepsD [OF Cons.IH])
qed

lemma types_bounded_issue:
  assumes "types_bounded w"
  shows "types_bounded (fst (process_issue C env now i w))"
  using assms keepsD [OF keeps_transaction [OF keeps_types_bounded_issue_items] assms]
  by (auto simp: process_issue_def Let_def intro!: keeps_bindE [where P = types_bounded] split: option.split)

lemma types_bounded_tt_create:
  assumes "types_bounded w" and "0 \<le> ct_totalQty dto"
  shows "types_bounded (fst (tt_create now newId c dto u r w))"
  using assms
  by (auto simp: tt_create_def insert_type_def Let_def bindE_def types_bounded_def split: sum.split)

lemma types_bounded_tt_remove:
  "types_bounded w \<Longrightarrow> types_bounded (fst (tt_remove i u r w))"
  by (auto simp: tt_remove_def delete_type_def delete_where_def bindE_def types_bounded_def
      split: sum.split option.split)

lemma types_bounded_update_type:
  assumes "types_bounded w" and "\<And>tt. tt_soldQty (f tt) = tt_soldQty tt \<and>
    tt_reservedQty (f tt) = tt_reservedQty tt \<and> tt_totalQty (f tt) = tt_totalQty tt"
  shows "types_bounded (fst (update_ticket_type i f w))"
  using assms by (auto simp: update_ticket_type_def types_bounded_def set_update_where split: option.split)

lemma types_bounded_tt_update:
  assumes "types_bounded w" and "\<not> touches_inventory dto"
  shows "types_bounded (fst (tt_update now i dto u r w))"
proof -
  have upd: "types_bounded (fst (update_ticket_type i (apply_update dto) w))"
    using assms(2) by (intro types_bounded_update_type assms(1))
      (simp add: apply_update_def touches_inventory_def set_if_def)
  show ?thesis
    using assms
    by (auto simp: tt_update_def Let_def intro!: keeps_bindE [where P = types_bounded] upd
        types_bounded_update_type split: sum.split option.split)
qed

lemma shop_call_bounded:
  assumes "types_bounded w" and "quantities_positive w" and "valid_call x w" and "routine_call x"
  shows "types_bounded (run_call S x w)"
proof (cases x)
  case (CreateOrder env t0 now dto u)
  then show ?thesis
    using assms(3) by (auto simp: valid_create_order_dto_def intro!: createOrder_types_bounded [OF assms(1)])
next
  case (CancelOrder now i u)
  then show ?thesis using cancelOrder_types_bounded [OF assms(1) quantities_pairs [OF assms(2)]] by simp
next
  case (ExpireOrder now i)
  then show ?thesis using expireOrder_types_bounded [OF assms(1) quantities_pairs [OF assms(2)]] by simp
next
  case (PaymentCheck configured now newId)
  then show ?thesis
    using quantities_pairs [OF assms(2)]
    by (auto simp: verifyStuckPendingPayments_def intro!: types_bounded_cron_loop assms(1)
        dest!: in_set_takeD)
next
  case (CreateType now newId c dto u r)
  then show ?thesis
    using assms(3) by (auto simp: valid_create_type_dto_def intro!: types_bounded_tt_create assms(1))
next
  case (CreatePayment env now u k i)
  then show ?thesis using types_bounded_cong [OF types_desk(1)] assms(1) by simp
next
  case (Door x')
  then show ?thesis using types_bounded_cong [OF types_desk(2)] assms(1) by simp
next
  case (Gates x')
  then show ?thesis using types_bounded_cong [OF types_desk(3)] assms(1) by simp
qed (use assms in \<open>simp_all add: types_bounded_webhook types_bounded_issue types_bounded_tt_update
       types_bounded_tt_remove\<close>)



end
