(* ===== verification/Shop_Issue.thy ===== *)
theory Shop_Issue
  imports Shop_System
begin

text \<open>
  What becomes of a paid order: the queue keeps every job, and every order that is paid without
  getting its tickets at once has its issue job there, so it can still be issued.
\<close>

section \<open>The queue\<close>

text \<open>The queue is only appended to: no handler removes a job.\<close>

definition queued :: "job set \<Rightarrow> world \<Rightarrow> bool" where
  "queued J w \<longleftrightarrow> J \<subseteq> set (jobs w)"

lemma queued_frame [simp]:
  "queued J (w\<lparr>orders := a\<rparr>) = queued J w" "queued J (w\<lparr>ticketTypes := b\<rparr>) = queued J w"
  "queued J (w\<lparr>tickets := c\<rparr>) = queued J w" "queued J (w\<lparr>redisdb := d\<rparr>) = queued J w"
  "queued J (release_items now u i ps w) = queued J w" "queued J (refresh_all now k tts w) = queued J w"
  "queued J (invalidateCache l w) = queued J w" "queued J (upsert_payment now i' st f dto w) = queued J w"
  by (simp_all add: queued_def)

lemma queued_append [simp]: "queued J v \<Longrightarrow> queued J (w\<lparr>jobs := jobs v @ js\<rparr>)"
  by (auto simp: queued_def)

lemma queued_cong: "jobs w' = jobs w \<Longrightarrow> queued J w' = queued J w"
  by (simp add: queued_def)

lemma keeps_queued: "(\<And>w. jobs (fst (h w)) = jobs w) \<Longrightarrow> keeps (queued J) h"
  by (simp add: keeps_def queued_def)

lemma jobs_rows [simp]:
  "jobs (fst (update_order i f w)) = jobs w" "jobs (fst (delete_order i w)) = jobs w"
  "jobs (fst (update_ticket_type i g w)) = jobs w" "jobs (fst (update_counter u i h w)) = jobs w"
  "jobs (upsert_counter n k w) = jobs w" "jobs (fst (create_ticket t w)) = jobs w"
  by (simp_all add: update_order_def delete_order_def update_ticket_type_def update_counter_def
      upsert_counter_def create_ticket_def split: option.split)

lemma queued_rows [simp]:
  "queued J (fst (update_order i f w)) = queued J w" "queued J (fst (delete_order i w)) = queued J w"
  "queued J (fst (update_ticket_type i g w)) = queued J w" "queued J (upsert_counter n k w) = queued J w"
  by (rule queued_cong; simp)+

lemma keeps_queued_rows:
  "keeps (queued J) (dec_type p)" "keeps (queued J) (dec_counter u p)"
  "keeps (queued J) (sell_type p)" "keeps (queued J) (sell_counter u p)"
  "keeps (queued J) (create_ticket t)" "keeps (queued J) (update_order i f)"
  "keeps (queued J) (delete_order i)" "keeps (queued J) (inventory_row u m)"
  by (rule keeps_queued; simp add: dec_type_def dec_counter_def sell_type_def sell_counter_def
      inventory_row_def Let_def)+

lemma keeps_queued_loops:
  "keeps (queued J) (promise_all (map dec_type ps @ map (dec_counter u) qs))"
  "keeps (queued J) (promise_all (map dec_type ps))" "keeps (queued J) (promise_all (map (dec_counter u) qs))"
  "keeps (queued J) (forE ts create_ticket)" "keeps (queued J) (forE ps sell_type)"
  "keeps (queued J) (forE qs (sell_counter u))" "keeps (queued J) (forE ms (inventory_row u))"
  by (auto intro!: keeps_promise_all keeps_forE keeps_queued_rows)

lemma keeps_queued_create: "keeps (queued J) (createOrder env t0 now dto u)"
proof (rule keepsI)
  fix w
  assume J: "queued J w"
  note loops = keepsD [OF keeps_queued_loops(1)] keepsD [OF keeps_queued_rows(7)]
  have inventory: "queued J w1 \<Longrightarrow> queued J (fst (inventory_stage env now u ms w1))" for ms w1
  proof -
    assume "queued J w1"
    have "keeps (queued J) (\<lambda>w. if oe_inventoryFails env then (w, Inl (PlainError ''database''))
        else forE ms (inventory_row u) w)"
      using keeps_queued_loops(7) [of J ms u] by (simp add: keeps_def)
    from keepsD [OF keeps_transaction [OF this] \<open>queued J w1\<close>]
    show ?thesis
      by (auto simp: inventory_stage_def sync_inventory_def keepsD [OF keeps_queued_rows(7)]
          split: prod.split sum.split)
  qed
  have payment: "queued J w1 \<Longrightarrow> queued J (fst (payment_stage env now u ms w1))" for ms w1
  proof -
    assume "queued J w1"
    obtain w2 r where "createPaymentUrl (oe_payment env) (oe_orderId env) u w1 = (w2, r)"
      by (cases "createPaymentUrl (oe_payment env) (oe_orderId env) u w1")
    moreover from this have "queued J w2"
      using \<open>queued J w1\<close> desk_createPaymentUrl [of "oe_payment env" "oe_orderId env" u w1]
      by (simp add: desk_tables_def queued_def)
    ultimately show ?thesis
      by (cases r) (auto simp: payment_stage_def Let_def intro!: keeps_bindE [where P = "queued J"] loops)
  qed
  have persist: "queued J w1 \<Longrightarrow> queued J (fst (persist_stage env t0 now c u ms w1))" for ms w1 c
    by (simp add: persist_stage_def Let_def)
  have reserve: "queued J (fst (reserve_stage now u i ttl ms (seed_counters now u ms w)))" for i ttl ms
    using J seed_counters_redis_only [of now u ms w] reserve_stage_redis_only [of now u i ttl ms "seed_counters now u ms w"]
    by (auto simp: queued_def)
  show "queued J (fst (createOrder env t0 now dto u w))"
    using J by (auto simp: createOrder_def Let_def split: sum.split
        intro!: keeps_bindE [where P = "queued J"] reserve intro: inventory payment persist)
qed

lemma keeps_queued_close:
  "keeps (queued J) (cancelOrder now i u)" "keeps (queued J) (expireOrder now i)"
  by (rule keepsI, auto simp: cancelOrder_def expireOrder_def Let_def split: option.split
      intro!: keeps_bindE [where P = "queued J"] keepsD [OF keeps_queued_loops(1)]
        keepsD [OF keeps_queued_loops(2)] keepsD [OF keeps_queued_loops(3)])+

lemma keeps_queued_success: "keeps (queued J) (handlePaymentSuccess C env now dto ord)"
proof (rule keepsI)
  fix w
  assume J: "queued J w"
  note loops = keepsD [OF keeps_queued_loops(4)] keepsD [OF keeps_queued_loops(5)] keepsD [OF keeps_queued_loops(6)]
  let ?body = "\<lambda>ts tx. bindE (update_order (wh_orderId dto) (paid_at now)
              (upsert_payment now (te_paymentId env) PAY_SUCCESS (\<lambda>_. PAY_SUCCESS) dto tx)) (\<lambda>w1 _.
      bindE (forE ts create_ticket w1) (\<lambda>w2 _.
      bindE (forE (item_pairs ord) sell_type w2) (\<lambda>w3 _.
      forE (item_pairs ord) (sell_counter (o_userId ord)) w3)))"
  have "keeps (queued J) (?body ts)" for ts
    by (rule keepsI) (auto intro!: keeps_bindE [where P = "queued J"] loops)
  from keepsD [OF keeps_transaction [OF this] J]
  show "queued J (fst (handlePaymentSuccess C env now dto ord w))"
    by (auto simp: handlePaymentSuccess_def Let_def intro!: keeps_bindE [where P = "queued J"])
qed

lemma keeps_queued_webhook: "keeps (queued J) (handleMockWebhook C k env now dto)"
proof (rule keepsI)
  fix w
  assume J: "queued J w"
  have failed: "queued J (handlePaymentFailed now i ord w)" for i ord
    using J by (simp add: handlePaymentFailed_def Let_def queued_def split: option.split)
  have success: "queued J (fst (bindE (handlePaymentSuccess C env now dto ord w) (\<lambda>w' _. (w', Inr r))))" for ord r
    by (rule keeps_bindE [where P = "queued J"]) (simp_all add: keepsD [OF keeps_queued_success J])
  show "queued J (fst (handleMockWebhook C k env now dto w))"
    using J success
    by (auto simp: handleMockWebhook_def recordLateWebhook_def handlePaymentTimeout_def failed
        split: option.split MockPaymentResult.split)
qed

lemma queued_cron_handle: "queued J w \<Longrightarrow> queued J (cron_handle configured now newId ord w)"
  by (auto simp: cron_handle_def markOrderPaidFromCron_def expireOrderAndReleaseInventory_def Let_def
      queued_def split: MockVerifyResult.split option.split)

lemma queued_cron_loop: "queued J w \<Longrightarrow> queued J (cron_loop configured now newId n ords w)"
  by (induction ords arbitrary: n w) (simp_all add: queued_cron_handle)

lemma keeps_queued_issue: "keeps (queued J) (process_issue C env now i)"
proof -
  have units: "keeps (queued J) (issue_units C env now ord item n k)" for ord item n k
    by (rule keepsI) (metis issue_units_appends queued_frame(3))
  have "keeps (queued J) (issue_items C env now ord items n)" for ord items n
  proof (induction items arbitrary: n)
    case Nil
    then show ?case by (simp add: keeps_def)
  next
    case (Cons item items)
    show ?case
      by (rule keepsI) (auto intro!: keeps_bindE [where P = "queued J"] keepsD [OF Cons.IH]
          keepsD [OF units] keepsD [OF keeps_queued_rows(3)] keepsD [OF keeps_queued_rows(4)])
  qed
  note tx = keepsD [OF keeps_transaction [OF this]]
  show ?thesis
    by (rule keepsI) (auto simp: process_issue_def Let_def split: option.split
        intro!: keeps_bindE [where P = "queued J"] tx)
qed

lemma keeps_queued_types:
  "keeps (queued J) (tt_create now newId c dto u r)" "keeps (queued J) (tt_update now i dto' u r)"
  "keeps (queued J) (tt_remove i u r)"
  by (rule keepsI, auto simp: tt_create_def tt_update_def tt_remove_def insert_type_def delete_type_def Let_def
      split: option.split sum.split intro!: keeps_bindE [where P = "queued J"])+

lemma call_queued: "queued J w \<Longrightarrow> queued J (run_call S x w)"
  by (cases x) (use queued_cong [OF jobs_desk(1)] queued_cong [OF jobs_desk(2)] queued_cong [OF jobs_desk(3)]
    in \<open>simp_all add: keepsD [OF keeps_queued_create] keepsD [OF keeps_queued_close(1)]
      keepsD [OF keeps_queued_close(2)] keepsD [OF keeps_queued_webhook] keepsD [OF keeps_queued_issue]
      keepsD [OF keeps_queued_types(1)] keepsD [OF keeps_queued_types(2)] keepsD [OF keeps_queued_types(3)]
      verifyStuckPendingPayments_def queued_cron_loop\<close>)

text \<open>A paid order has its tickets, or its issue job is queued.\<close>

definition served :: "id \<Rightarrow> order \<Rightarrow> world \<Rightarrow> bool" where
  "served i ord w \<longleftrightarrow>
     total_qty (o_items ord) = 0 \<or> (\<exists>t \<in> set (tickets w). t_orderId t = i) \<or>
     IssueTicketJob i \<in> set (jobs w)"

definition paid_served :: "world \<Rightarrow> bool" where
  "paid_served w \<longleftrightarrow>
     (\<forall>i ord. find_order i w = Some ord \<longrightarrow> o_status ord = PAID \<longrightarrow> served i ord w)"

lemma served_iff:
  "served i ord w \<longleftrightarrow> total_qty (o_items ord) = 0 \<or> i \<in> set (snd (sale_tables w)) \<or> queued {IssueTicketJob i} w"
  by (auto simp: served_def sale_tables_def queued_def)

text \<open>It is enough to look at the orders that a call makes PAID.\<close>

lemma paid_servedI:
  assumes "paid_served w" and "\<And>J. queued J w \<Longrightarrow> queued J w'"
    and "set (snd (sale_tables w)) \<subseteq> set (snd (sale_tables w'))"
    and "\<And>i ord. find_order i w' = Some ord \<Longrightarrow> o_status ord = PAID \<Longrightarrow>
      served i ord w' \<or> (\<exists>old. find_order i w = Some old \<and> o_status old = PAID \<and> o_items old = o_items ord)"
  shows "paid_served w'"
  unfolding paid_served_def
proof (intro allI impI)
  fix i ord
  assume ord: "find_order i w' = Some ord" "o_status ord = PAID"
  from assms(4) [OF this] show "served i ord w'"
  proof
    assume "\<exists>old. find_order i w = Some old \<and> o_status old = PAID \<and> o_items old = o_items ord"
    then obtain old where "find_order i w = Some old" "o_status old = PAID" "o_items old = o_items ord" by blast
    then have "served i old w" using assms(1) by (simp add: paid_served_def)
    then have "served i ord w" using \<open>o_items old = o_items ord\<close> by (simp add: served_def)
    then show ?thesis using assms(2) [of "{IssueTicketJob i}"] assms(3) by (auto simp: served_iff)
  qed
qed

lemma find_order_tables: "find_order i w = find_row o_id i (fst (sale_tables w))"
  by (simp add: find_order_def)

lemma orders_of_tables: "sale_tables w = (os, ts) \<Longrightarrow> orders w = os"
  by (simp add: sale_tables_def)

lemma find_order_updated:
  assumes "fst (sale_tables w') = update_where (\<lambda>x. o_id x = j) f (orders w)"
    and "\<And>x. o_id (f x) = o_id x"
  shows "find_order i w' = map_option (\<lambda>x. if i = j then f x else x) (find_order i w)"
  using assms by (cases "find_row o_id i (orders w)")
    (auto simp: find_order_tables find_row_update_where dest: find_row_SomeD)

lemma served_same:
  assumes "paid_served w" and "\<And>J. queued J w \<Longrightarrow> queued J w'" and "sale_tables w' = sale_tables w"
  shows "paid_served w'"
  using assms(3) by (intro paid_servedI [OF assms(1,2)]) (auto simp: find_order_tables)

lemma served_placed:
  assumes "paid_served w" and "\<And>J. queued J w \<Longrightarrow> queued J w'"
    and "order_placed ord (sale_tables w) w'" and "o_status ord = PENDING_PAYMENT"
  shows "paid_served w'"
  using assms(3) unfolding order_placed_def
proof
  assume "sale_tables w' = sale_tables w"
  with assms(1,2) show ?thesis by (rule served_same)
next
  assume w': "sale_tables w' = (fst (sale_tables w) @ [ord], snd (sale_tables w))"
  show ?thesis
    using assms(4) orders_of_tables [OF w']
    by (intro paid_servedI [OF assms(1,2)]) (auto simp: w' find_order_def split: option.splits if_splits)
qed

lemma served_settled:
  assumes "paid_served w" and "\<And>J. queued J w \<Longrightarrow> queued J w'" and "order_settled j f w w'"
    and "\<And>x. o_id (f x) = o_id x"
    and "\<And>x. o_status (f x) \<noteq> PAID \<or> queued {IssueTicketJob j} w'"
  shows "paid_served w'"
proof (rule paid_servedI [OF assms(1,2)])
  have w': "sale_tables w' = (update_where (\<lambda>x. o_id x = j) f (orders w), snd (sale_tables w))"
    using assms(3) by (simp add: order_settled_def)
  show "set (snd (sale_tables w)) \<subseteq> set (snd (sale_tables w'))" by (simp add: w')
  fix i ord
  assume ord: "find_order i w' = Some ord" "o_status ord = PAID"
  have "find_order i w' = map_option (\<lambda>x. if i = j then f x else x) (find_order i w)"
    using w' assms(4) by (intro find_order_updated) simp_all
  with ord obtain old where old: "find_order i w = Some old" "ord = (if i = j then f old else old)"
    by auto
  show "served i ord w' \<or>
      (\<exists>old. find_order i w = Some old \<and> o_status old = PAID \<and> o_items old = o_items ord)"
    using ord(2) old assms(5) [of old] by (cases "i = j") (auto simp: served_iff)
qed

lemma served_sold:
  assumes "paid_served w" and "\<And>J. queued J w \<Longrightarrow> queued J w'" and "order_sold j now w w'"
  shows "paid_served w'"
proof (rule paid_servedI [OF assms(1,2)])
  obtain sold where sold: "find_order j w = Some sold"
      and w': "sale_tables w' = (update_where (\<lambda>x. o_id x = j) (paid_at now) (orders w),
        snd (sale_tables w) @ replicate (total_qty (o_items sold)) j)"
    using assms(3) by (auto simp: order_sold_def)
  show "set (snd (sale_tables w)) \<subseteq> set (snd (sale_tables w'))" by (simp add: w')
  fix i ord
  assume ord: "find_order i w' = Some ord" "o_status ord = PAID"
  have "find_order i w' = map_option (\<lambda>x. if i = j then paid_at now x else x) (find_order i w)"
    using orders_of_tables [OF w'] by (intro find_order_updated) (simp_all, simp add: paid_at_def)
  with ord obtain old where old: "find_order i w = Some old" "ord = (if i = j then paid_at now old else old)"
    by auto
  show "served i ord w' \<or>
      (\<exists>old. find_order i w = Some old \<and> o_status old = PAID \<and> o_items old = o_items ord)"
    using ord(2) old sold by (cases "i = j") (auto simp: served_iff w' paid_at_def)
qed

lemma served_issued:
  assumes "paid_served w" and "\<And>J. queued J w \<Longrightarrow> queued J w'" and "order_issued j w w'"
  shows "paid_served w'"
proof (rule paid_servedI [OF assms(1,2)])
  obtain n where w': "sale_tables w' = (orders w, snd (sale_tables w) @ replicate n j)"
    using assms(3) by (auto simp: order_issued_def)
  show "set (snd (sale_tables w)) \<subseteq> set (snd (sale_tables w'))" by (simp add: w')
  fix i ord
  assume "find_order i w' = Some ord" "o_status ord = PAID"
  then show "served i ord w' \<or>
      (\<exists>old. find_order i w = Some old \<and> o_status old = PAID \<and> o_items old = o_items ord)"
    using orders_of_tables [OF w'] by (simp add: find_order_def)
qed

lemma served_cron_handle:
  assumes "paid_served w"
  shows "paid_served (cron_handle configured now newId ord w)"
  using cron_handle_settles [of configured now newId ord w]
proof
  assume "sale_tables (cron_handle configured now newId ord w) = sale_tables w"
  with assms queued_cron_handle show ?thesis by (rule served_same)
next
  assume settled: "order_settled (o_id ord) (cron_outcome configured now) w (cron_handle configured now newId ord w)"
  have "o_status (cron_outcome configured now x) \<noteq> PAID \<or>
      queued {IssueTicketJob (o_id ord)} (cron_handle configured now newId ord w)" for x
    by (cases configured)
      (auto simp: cron_outcome_def cron_handle_def verifyTransaction_def cron_closed_def
        markOrderPaidFromCron_def queued_def Let_def split: MockVerifyResult.splits)
  then show ?thesis by (intro served_settled [OF assms queued_cron_handle settled]) simp_all
qed

lemma served_cron_loop: "paid_served w \<Longrightarrow> paid_served (cron_loop configured now newId n ords w)"
  by (induction ords arbitrary: n w) (simp_all add: served_cron_handle)

lemma shop_call_served:
  assumes "paid_served w" and "valid_call x w"
  shows "paid_served (run_call S x w)"
proof -
  note same = served_same [OF assms(1) call_queued [where x = x and S = S]]
  note settled = served_settled [OF assms(1) call_queued [where x = x and S = S]]
  show ?thesis
  proof (cases x)
    case (CreateOrder env t0 now dto u)
    show ?thesis
    proof (cases "collect_meta now (do_concertId dto) (do_items dto) w")
      case (Inl e)
      then show ?thesis using CreateOrder assms(1) by (simp add: createOrder_def)
    next
      case (Inr ms)
      have "find_order (oe_orderId env) w = None" using assms(2) CreateOrder by simp
      from createOrder_places [OF this Inr, of t0 u] show ?thesis
        using CreateOrder by (intro served_placed [OF assms(1) call_queued]) (auto simp: new_order_def)
    qed
  next
    case (CancelOrder now i u)
    then show ?thesis
      using cancelOrder_settles [of now i u w] same settled by (auto simp: settled_orders)
  next
    case (ExpireOrder now i)
    then show ?thesis
      using expireOrder_settles [of now i w] same settled by (auto simp: settled_orders)
  next
    case (PaymentWebhook env now dto)
    then show ?thesis
      using webhook_sale [of "sh_crypto S" "sh_webhookSecret S" env now dto w] same settled
        served_sold [OF assms(1) call_queued [where x = x and S = S]]
      by (auto simp: settled_orders)
  next
    case (PaymentCheck configured now newId)
    then show ?thesis using served_cron_loop [OF assms(1)] by (simp add: verifyStuckPendingPayments_def)
  next
    case (IssueTickets env now i)
    then show ?thesis
      using process_issue_tables [of "sh_crypto S" env now i w] same
        served_issued [OF assms(1) call_queued [where x = x and S = S]]
      by auto
  qed (use same in \<open>simp_all add: sales_desk sales_tt_create sales_tt_update sales_tt_remove\<close>)
qed



end
