(* ===== verification/Seatmap_Properties.thy ===== *)
theory Seatmap_Properties
  imports Order_Properties
begin

text \<open>
  What refreshing the seat map guarantees: the cache holds the new availability of the ticket
  type for three seconds, and a message goes out exactly when the status changed against a
  cached one.
\<close>

definition zone_status :: "ticket_type \<Rightarrow> ZoneStatus" where
  "zone_status tt =
     (if available_qty tt \<le> 0 then ZONE_SOLD_OUT
      else if 0 < tt_reservedQty tt then ZONE_RESERVED else ZONE_AVAILABLE)"

definition cached_status :: "time \<Rightarrow> id \<Rightarrow> id \<Rightarrow> world \<Rightarrow> ZoneStatus option" where
  "cached_status now c i w = Option.bind (cached_zones now c i (redisdb w)) first_status"

lemma computeZone_simp:
  "computeZoneAvailability tt =
     [\<lparr>zoneId = tt_id tt, zoneName = tt_name tt, availableCount = max 0 (available_qty tt),
       reservedCount = tt_reservedQty tt, soldCount = tt_soldQty tt, zoneStatus = zone_status tt\<rparr>]"
  by (simp add: computeZoneAvailability_def zone_status_def Let_def)

lemma cached_zones_cache [simp]:
  "cached_zones now' c i (cache_zones now c i zs r) =
     (if now' \<le> now + AVAILABILITY_TTL_SEC * 1000 then Some zs else None)"
  by (simp add: cached_zones_def cache_zones_def)

text \<open>
  Refreshing the views of a ticket type caches its new availability for exactly three seconds, and
  sends one message to the room of the concert when a status was still cached and differs from the
  new one, otherwise none.  So a change that comes more than three seconds after the last read or
  refresh is not announced.
\<close>

theorem refresh_announces_cached_changes:
  assumes "find_ticket_type i w = Some tt" and "w' = refreshAndBroadcast now c i w"
  shows "(\<forall>now'. cached_zones now' c i (redisdb w') =
            (if now' \<le> now + 3000 then Some (computeZoneAvailability tt) else None)) \<and>
    broadcasts w' = broadcasts w @
      (case cached_status now c i w of
         None \<Rightarrow> []
       | Some old \<Rightarrow>
           if old = zone_status tt then []
           else [(seatmap_room c,
                  \<lparr>zu_ticketTypeId = i, zu_zoneId = tt_id tt, zu_oldStatus = old,
                   zu_newStatus = zone_status tt, zu_availableCount = max 0 (available_qty tt),
                   zu_timestamp = now\<rparr>)]) \<and>
    orders w' = orders w \<and> ticketTypes w' = ticketTypes w \<and> tickets w' = tickets w"
proof -
  have tables: "orders w' = orders w" "ticketTypes w' = ticketTypes w" "tickets w' = tickets w"
    unfolding assms(2) by (simp_all add: views_only_tables [OF views_only_refreshAndBroadcast])
  have "cached_zones now' c i (redisdb w') =
      (if now' \<le> now + 3000 then Some (computeZoneAvailability tt) else None)" for now'
    using assms
    by (simp add: refreshAndBroadcast_def invalidateAndBroadcast_def broadcastZoneUpdate_def
        computeZone_simp Let_def AVAILABILITY_TTL_SEC_def split: option.split)
  moreover have "broadcasts w' = broadcasts w @
      (case cached_status now c i w of
         None \<Rightarrow> []
       | Some old \<Rightarrow>
           if old = zone_status tt then []
           else [(seatmap_room c,
                  \<lparr>zu_ticketTypeId = i, zu_zoneId = tt_id tt, zu_oldStatus = old,
                   zu_newStatus = zone_status tt, zu_availableCount = max 0 (available_qty tt),
                   zu_timestamp = now\<rparr>)])"
    using assms
    by (simp add: refreshAndBroadcast_def invalidateAndBroadcast_def broadcastZoneUpdate_def
        computeZone_simp Let_def cached_status_def split: option.split)
  ultimately show ?thesis using tables by blast
qed

theorem refresh_announces_cached_changes_witness:
  "\<exists>tt. find_ticket_type ''vip'' demo_shop = Some tt \<and>
     broadcasts (refreshAndBroadcast 5000 ''c1'' ''vip'' demo_shop) = [] \<and>
     cached_zones 8000 ''c1'' ''vip'' (redisdb (refreshAndBroadcast 5000 ''c1'' ''vip'' demo_shop)) =
       Some (computeZoneAvailability tt)"
proof -
  obtain tt where tt: "find_ticket_type ''vip'' demo_shop = Some tt"
    by (cases "find_ticket_type ''vip'' demo_shop") (simp_all add: find_ticket_type_def demo_shop_def demo_type_def)
  have none: "cached_status 5000 ''c1'' ''vip'' demo_shop = None" "broadcasts demo_shop = []" by code_simp+
  from refresh_announces_cached_changes [OF tt refl, where now = 5000 and c = "''c1''"] none tt
  show ?thesis by simp
qed

end
