(* ===== verification/Ticket_Service.thy ===== *)
theory Ticket_Service
  imports Checkin_Properties
begin

text \<open>
  \<open>ticket.service.ts\<close>: what a customer sees of the own tickets, and the QR token of a ticket.
  All operations read only; rows are listed in the order of their creation.
\<close>

record ticket_response =
  tk_id :: id
  tk_concertId :: id
  tk_ticketTypeId :: id
  tk_ticketTypeName :: string
  tk_orderId :: id
  tk_status :: TicketStatus
  tk_checkedInAt :: "time option"
  tk_createdAt :: time
  tk_qrPayload :: string
  tk_gateId :: string

record ticket_list_response =
  tkl_data :: "ticket_response list"
  tkl_total :: nat
  tkl_page :: nat
  tkl_limit :: nat
  tkl_totalPages :: nat

definition ticket_payload :: "ticket \<Rightarrow> string" where
  "ticket_payload t =
     buildQrPayload \<lparr>qp_ticketId = t_id t, qp_rawToken = t_qrRawToken t, qp_gateId = or_empty (t_gateId t)\<rparr>"

definition tk_toTicketResponse :: "world \<Rightarrow> ticket \<Rightarrow> ticket_response" where
  "tk_toTicketResponse w t =
     \<lparr>tk_id = t_id t, tk_concertId = t_concertId t, tk_ticketTypeId = t_ticketTypeId t,
      tk_ticketTypeName = ticket_type_name (t_ticketTypeId t) w, tk_orderId = t_orderId t,
      tk_status = t_status t, tk_checkedInAt = t_checkedInAt t, tk_createdAt = t_createdAt t,
      tk_qrPayload = ticket_payload t, tk_gateId = or_empty (t_gateId t)\<rparr>"

definition getMyTickets :: "id \<Rightarrow> nat \<Rightarrow> nat \<Rightarrow> world \<Rightarrow> ticket_list_response" where
  "getMyTickets userId page limit w =
     (let rows = filter (\<lambda>t. t_userId t = userId) (rev (tickets w));
          total = count_where (\<lambda>t. t_userId t = userId) (tickets w)
      in \<lparr>tkl_data = map (tk_toTicketResponse w) (page_of page limit rows), tkl_total = total,
          tkl_page = page, tkl_limit = limit, tkl_totalPages = ceil_div total limit\<rparr>)"

definition getMyTicketsForConcert :: "id \<Rightarrow> id \<Rightarrow> world \<Rightarrow> ticket_response list" where
  "getMyTicketsForConcert userId concertId w =
     map (tk_toTicketResponse w)
       (filter (\<lambda>t. t_userId t = userId \<and> t_concertId t = concertId) (tickets w))"

definition getTicket :: "id \<Rightarrow> id \<Rightarrow> world \<Rightarrow> exn + ticket_response" where
  "getTicket ticketId userId w =
     (case find_ticket ticketId w of
        None \<Rightarrow> Inl (NotFoundException ''ticket'')
      | Some t \<Rightarrow>
          if t_userId t \<noteq> userId then Inl (ForbiddenException ''ticket of another user'')
          else Inr (tk_toTicketResponse w t))"

definition getTicketQrData :: "id \<Rightarrow> id \<Rightarrow> world \<Rightarrow> exn + string" where
  "getTicketQrData ticketId userId w =
     (case find_ticket ticketId w of
        None \<Rightarrow> Inl (NotFoundException ''ticket'')
      | Some t \<Rightarrow>
          if t_userId t \<noteq> userId then Inl (ForbiddenException ''ticket of another user'')
          else if t_status t \<noteq> ISSUED
          then Inl (ForbiddenException (''Ticket is '' @ ticket_status_name (t_status t)))
          else Inr (ticket_payload t))"

section \<open>Properties\<close>

text \<open>
  The pages of a customer's tickets, taken together, are all the own tickets and nothing else,
  newest first, and the total is their number.
\<close>

theorem my_tickets_pages_complete:
  assumes "0 < limit"
  shows "concat (map (\<lambda>page. tkl_data (getMyTickets u page limit w))
            [1..<Suc (tkl_totalPages (getMyTickets u 1 limit w))]) =
      map (tk_toTicketResponse w) (filter (\<lambda>t. t_userId t = u) (rev (tickets w)))
    \<and> tkl_total (getMyTickets u 1 limit w) = length (filter (\<lambda>t. t_userId t = u) (tickets w))"
proof -
  let ?rows = "filter (\<lambda>t. t_userId t = u) (rev (tickets w))"
  have pages: "tkl_totalPages (getMyTickets u 1 limit w) = ceil_div (length ?rows) limit"
    by (simp add: getMyTickets_def count_where_def Let_def flip: rev_filter)
  have "concat (map (\<lambda>page. tkl_data (getMyTickets u page limit w))
            [1..<Suc (ceil_div (length ?rows) limit)]) =
      map (tk_toTicketResponse w)
        (concat (map (\<lambda>page. page_of page limit ?rows) [1..<Suc (ceil_div (length ?rows) limit)]))"
    by (simp add: getMyTickets_def Let_def map_concat comp_def del: upt_Suc)
  then show ?thesis
    unfolding pages pages_cover_listing [OF assms]
    by (simp add: getMyTickets_def count_where_def Let_def)
qed

theorem my_tickets_pages_complete_witness:
  "tkl_total (getMyTickets ''alice'' 1 10 demo_door) = length (filter (\<lambda>t. t_userId t = ''alice'') (tickets demo_door))"
  using my_tickets_pages_complete [of 10 "''alice''" demo_door] by simp

text \<open>
  The QR token is given to the owner of an ISSUED ticket and to nobody else, and the door accepts
  it: parsed and scanned at the gate that it names it admits the ticket, provided that the ticket
  has a gate, was signed for it and stores the hash of its token, as every issued ticket does.
\<close>

theorem qr_token_opens_the_door:
  assumes "unique_key t_id (tickets w)" and "find_ticket i w = Some t"
  shows "(\<forall>tok. getTicketQrData i u w = Inr tok \<longleftrightarrow> t_userId t = u \<and> t_status t = ISSUED \<and> tok = ticket_payload t) \<and>
    (getTicketQrData i u w = Inr (ticket_payload t) \<longrightarrow>
     t_gateId t = Some g \<longrightarrow> payload_ok \<lparr>qp_ticketId = i, qp_rawToken = t_qrRawToken t, qp_gateId = g\<rparr> \<longrightarrow>
     \<not> signature_mismatch C k t \<longrightarrow> t_qrTokenHash t = sha256 C (t_qrRawToken t) \<longrightarrow>
     (\<exists>p. parseQrPayload (ticket_payload t) = Some p \<and> qp_ticketId p = i \<and>
        (\<exists>r. snd (verifyAndCheckin C k now
             \<lparr>v_ticketId = qp_ticketId p, v_token = qp_rawToken p, v_deviceId = d,
              v_gateId = Some (qp_gateId p)\<rparr> staffId w) = Inr r)))"
proof -
  have id: "t_id t = i" using assms(2) by (auto simp: find_ticket_def dest: find_row_SomeD)
  have access: "\<forall>tok. getTicketQrData i u w = Inr tok \<longleftrightarrow>
      t_userId t = u \<and> t_status t = ISSUED \<and> tok = ticket_payload t"
    using assms(2) by (auto simp: getTicketQrData_def)
  let ?p = "\<lparr>qp_ticketId = i, qp_rawToken = t_qrRawToken t, qp_gateId = g\<rparr>"
  let ?dto = "\<lparr>v_ticketId = i, v_token = t_qrRawToken t, v_deviceId = d, v_gateId = Some g\<rparr>"
  have "\<exists>p. parseQrPayload (ticket_payload t) = Some p \<and> qp_ticketId p = i \<and>
        (\<exists>r. snd (verifyAndCheckin C k now
             \<lparr>v_ticketId = qp_ticketId p, v_token = qp_rawToken p, v_deviceId = d,
              v_gateId = Some (qp_gateId p)\<rparr> staffId w) = Inr r)"
    if "t_status t = ISSUED" "t_gateId t = Some g" "payload_ok ?p" "\<not> signature_mismatch C k t"
      "t_qrTokenHash t = sha256 C (t_qrRawToken t)"
  proof -
    have "ticket_payload t = buildQrPayload ?p" using id that(2) by (simp add: ticket_payload_def or_empty_def)
    then have "parseQrPayload (ticket_payload t) = Some ?p" using parse_build [OF that(3)] by simp
    moreover have "credentials_ok C k (v_gateId ?dto) (v_token ?dto) t"
      using that by (simp add: credentials_ok_def gate_mismatch_def)
    then have "\<exists>r. snd (verifyAndCheckin C k now ?dto staffId w) = Inr r"
      using verify_admits [of w ?dto t C k now staffId] assms that(1) by simp
    ultimately show ?thesis by simp
  qed
  with access show ?thesis by blast
qed

theorem qr_token_opens_the_door_witness:
  "getTicketQrData ''t0'' ''alice'' demo_door = Inr (ticket_payload demo_ticket) \<and>
   (\<exists>p. parseQrPayload (ticket_payload demo_ticket) = Some p \<and> qp_ticketId p = ''t0'' \<and>
      (\<exists>r. snd (verifyAndCheckin demo_crypto ''k'' 5
           \<lparr>v_ticketId = qp_ticketId p, v_token = qp_rawToken p, v_deviceId = ''d'',
            v_gateId = Some (qp_gateId p)\<rparr> ''s1'' demo_door) = Inr r))"
proof -
  note door = qr_token_opens_the_door [OF demo_door_facts(2,1), where u = "''alice''" and g = "''A''"
      and C = demo_crypto and k = "''k''" and now = 5 and d = "''d''" and staffId = "''s1''"]
  have token: "getTicketQrData ''t0'' ''alice'' demo_door = Inr (ticket_payload demo_ticket)"
    by (simp add: getTicketQrData_def demo_ticket_def)
  have "t_gateId demo_ticket = Some ''A''" "\<not> signature_mismatch demo_crypto ''k'' demo_ticket"
    "t_qrTokenHash demo_ticket = sha256 demo_crypto (t_qrRawToken demo_ticket)"
    "payload_ok \<lparr>qp_ticketId = ''t0'', qp_rawToken = t_qrRawToken demo_ticket, qp_gateId = ''A''\<rparr>"
    by code_simp+
  with door token show ?thesis by blast
qed

end
