(* ===== verification/Offline_Checkin.thy ===== *)
theory Offline_Checkin
  imports Checkin_Properties
begin

text \<open>
  The check-in app of the staff (\<open>frontend/checkin-pwa\<close>: \<open>hooks/useOfflineCheckin.ts\<close>,
  \<open>lib/idb.ts\<close>): a device scans QR payloads, asks the server while it is online, and otherwise
  accepts the scan, keeps it in IndexedDB and uploads it later.

  \<^item> An object store of IndexedDB is the list of its rows in the order of their keys, which is
    the order in which \<open>getAll\<close> returns them.
  \<^item> The network is an argument of every call: the request may be lost, the server may work on it
    and the answer be lost, or both arrive.  Whether the writes of a scan to IndexedDB succeed is
    an argument too.
  \<^item> The UUID of a scan, the clock and its local time string are arguments.  An upload is two
    steps, so that scans can come between its request and its answer.
\<close>

section \<open>Data of the device\<close>

record offline_scan_record =
  of_offlineEventId :: string
  of_ticketId :: id
  of_token :: string
  of_deviceId :: string
  of_gateId :: string
  of_scannedAt :: time
  of_synced :: bool

record scanned_ticket_entry =
  se_ticketId :: id
  se_gateId :: string
  se_scannedAt :: time
  se_offlineEventId :: string

datatype scan_verdict = SCAN_VALID | SCAN_INVALID

datatype scan_error = BadQrFormat | ServerRefused | AlreadyScannedHere

record scan_result =
  sc_id :: string
  sc_gate :: string
  sc_type :: "string option"
  sc_time :: string
  sc_status :: scan_verdict
  sc_errorMsg :: "scan_error option"
  sc_isOffline :: "bool option"

record scan_log =
  sl_id :: string
  sl_time :: string
  sl_type :: string
  sl_ok :: bool
  sl_isOffline :: bool

record device =
  dv_deviceId :: "string option"
  dv_gate :: string
  dv_user :: id
  dv_isOnline :: bool
  dv_checkin_logs :: "offline_scan_record list"
  dv_scanned_tickets :: "scanned_ticket_entry list"
  dv_pendingSyncCount :: nat
  dv_isSyncing :: bool
  dv_batch :: "offline_scan_record list" \<comment> \<open>the local \<open>unsynced\<close> of the running upload\<close>
  dv_syncResults :: "sync_checkin_result list"
  dv_logs :: "scan_log list"

section \<open>IndexedDB\<close>

fun idb_put :: "('r \<Rightarrow> string) \<Rightarrow> 'r \<Rightarrow> 'r list \<Rightarrow> 'r list" where
  "idb_put key r [] = [r]"
| "idb_put key r (x # xs) =
     (if key r = key x then r # xs else if key r < key x then r # x # xs else x # idb_put key r xs)"

definition saveCheckinLog :: "offline_scan_record \<Rightarrow> device \<Rightarrow> device" where
  "saveCheckinLog rec d = d\<lparr>dv_checkin_logs := idb_put of_offlineEventId rec (dv_checkin_logs d)\<rparr>"

definition getUnsynced :: "device \<Rightarrow> offline_scan_record list" where
  "getUnsynced d = filter (\<lambda>r. \<not> of_synced r) (dv_checkin_logs d)"

definition markSynced :: "string list \<Rightarrow> device \<Rightarrow> device" where
  "markSynced ids d =
     d\<lparr>dv_checkin_logs := update_where (\<lambda>r. of_offlineEventId r \<in> set ids) (\<lambda>r. r\<lparr>of_synced := True\<rparr>)
         (dv_checkin_logs d)\<rparr>"

definition countUnsynced :: "device \<Rightarrow> nat" where
  "countUnsynced d = length (getUnsynced d)"

definition hasTicketBeenScanned :: "id \<Rightarrow> device \<Rightarrow> bool" where
  "hasTicketBeenScanned i d \<longleftrightarrow> find_row se_ticketId i (dv_scanned_tickets d) \<noteq> None"

definition markTicketScanned :: "scanned_ticket_entry \<Rightarrow> device \<Rightarrow> device" where
  "markTicketScanned entry d = d\<lparr>dv_scanned_tickets := idb_put se_ticketId entry (dv_scanned_tickets d)\<rparr>"

definition clearScannedTicket :: "id \<Rightarrow> device \<Rightarrow> device" where
  "clearScannedTicket i d =
     d\<lparr>dv_scanned_tickets := delete_where (\<lambda>e. se_ticketId e = i) (dv_scanned_tickets d)\<rparr>"

definition clearAllScannedTickets :: "device \<Rightarrow> device" where
  "clearAllScannedTickets d = d\<lparr>dv_scanned_tickets := []\<rparr>"

section \<open>Parsing of a payload\<close>

definition pwa_parseQrPayload :: "string \<Rightarrow> qr_payload option" where
  "pwa_parseQrPayload raw =
     (case split_char (CHR '':'') (trim raw) of
        ticketId # token # gate # rest \<Rightarrow>
          let gateId = join_char (CHR '':'') (gate # rest)
          in if ticketId = [] \<or> token = [] \<or> gateId = [] then None
             else Some \<lparr>qp_ticketId = ticketId, qp_rawToken = token, qp_gateId = gateId\<rparr>
      | _ \<Rightarrow> None)"

definition getDeviceId :: "string \<Rightarrow> device \<Rightarrow> device \<times> string" where
  "getDeviceId uuid d =
     (case dv_deviceId d of
        Some i \<Rightarrow> (if i = [] then (d\<lparr>dv_deviceId := Some (''device-'' @ uuid)\<rparr>, ''device-'' @ uuid) else (d, i))
      | None \<Rightarrow> (d\<lparr>dv_deviceId := Some (''device-'' @ uuid)\<rparr>, ''device-'' @ uuid))"

definition refreshPendingCount :: "device \<Rightarrow> device" where
  "refreshPendingCount d = d\<lparr>dv_pendingSyncCount := countUnsynced d\<rparr>"

definition addLog :: "scan_log \<Rightarrow> device \<Rightarrow> device" where
  "addLog entry d =
     (case dv_logs d of
        [] \<Rightarrow> d\<lparr>dv_logs := [entry]\<rparr>
      | e # es \<Rightarrow> if sl_id e = sl_id entry \<and> sl_time e = sl_time entry then d
                  else d\<lparr>dv_logs := entry # dv_logs d\<rparr>)"

section \<open>A scan\<close>

datatype network = DELIVERED | REQUEST_LOST | ANSWER_LOST

record scan_env =
  sv_now :: time
  sv_timeStr :: string
  sv_uuid :: string
  sv_eventId :: string
  sv_net :: network
  sv_checkFails :: bool
  sv_saveFails :: bool
  sv_markFails :: bool

text \<open>
  The request to \<open>/checkin/verify\<close>: \<open>None\<close> when no answer came, otherwise the fields of its body
  that the app reads.  The body of an error has neither \<open>success\<close> nor \<open>ticketTypeName\<close>.
\<close>

definition verifyTicket ::
  "crypto \<Rightarrow> string \<Rightarrow> time \<Rightarrow> network \<Rightarrow> verify_ticket_dto \<Rightarrow> id \<Rightarrow> world \<Rightarrow> world \<times> (bool \<times> string option) option" where
  "verifyTicket C qrSecret now net dto staffId w =
     (case net of
        REQUEST_LOST \<Rightarrow> (w, None)
      | ANSWER_LOST \<Rightarrow> (fst (verifyAndCheckin C qrSecret now dto staffId w), None)
      | DELIVERED \<Rightarrow>
          (case verifyAndCheckin C qrSecret now dto staffId w of
             (w', Inr r) \<Rightarrow> (w', Some (vr_success r, Some (vr_ticketTypeName r)))
           | (w', Inl _) \<Rightarrow> (w', Some (False, None))))"

definition scan_request :: "qr_payload \<Rightarrow> string \<Rightarrow> string \<Rightarrow> verify_ticket_dto" where
  "scan_request p deviceId gate =
     \<lparr>v_ticketId = qp_ticketId p, v_token = qp_rawToken p, v_deviceId = deviceId,
      v_gateId = (if gate = [] then None else Some gate)\<rparr>"

definition online_result :: "qr_payload \<Rightarrow> string \<Rightarrow> string \<Rightarrow> bool \<Rightarrow> string option \<Rightarrow> scan_result" where
  "online_result p gate timeStr ok typeName =
     \<lparr>sc_id = qp_ticketId p, sc_gate = gate, sc_type = typeName, sc_time = timeStr,
      sc_status = (if ok then SCAN_VALID else SCAN_INVALID),
      sc_errorMsg = (if ok then None else Some ServerRefused), sc_isOffline = Some False\<rparr>"

definition offline_result :: "qr_payload \<Rightarrow> string \<Rightarrow> string \<Rightarrow> bool \<Rightarrow> scan_result" where
  "offline_result p gate timeStr ok =
     \<lparr>sc_id = qp_ticketId p, sc_gate = gate, sc_type = None, sc_time = timeStr,
      sc_status = (if ok then SCAN_VALID else SCAN_INVALID),
      sc_errorMsg = (if ok then None else Some AlreadyScannedHere), sc_isOffline = Some True\<rparr>"

definition offline_record :: "scan_env \<Rightarrow> qr_payload \<Rightarrow> string \<Rightarrow> string \<Rightarrow> offline_scan_record" where
  "offline_record env p deviceId gate =
     \<lparr>of_offlineEventId = sv_eventId env, of_ticketId = qp_ticketId p, of_token = qp_rawToken p,
      of_deviceId = deviceId, of_gateId = gate, of_scannedAt = sv_now env, of_synced = False\<rparr>"

text \<open>The writes of an accepted scan: each is skipped when one before it failed.\<close>

definition store_scan :: "scan_env \<Rightarrow> qr_payload \<Rightarrow> string \<Rightarrow> device \<Rightarrow> device" where
  "store_scan env p deviceId d =
     (if sv_saveFails env then d
      else let d1 = saveCheckinLog (offline_record env p deviceId (dv_gate d)) d
        in if sv_markFails env then d1
           else refreshPendingCount (markTicketScanned
                  \<lparr>se_ticketId = qp_ticketId p, se_gateId = dv_gate d, se_scannedAt = sv_now env,
                   se_offlineEventId = sv_eventId env\<rparr> d1))"

definition offline_path :: "scan_env \<Rightarrow> qr_payload \<Rightarrow> string \<Rightarrow> device \<Rightarrow> device \<times> scan_result" where
  "offline_path env p deviceId d =
     (let entry = \<lparr>sl_id = qp_ticketId p, sl_time = sv_timeStr env, sl_type = ''Offline'', sl_ok = True,
                   sl_isOffline = True\<rparr>
      in if \<not> sv_checkFails env \<and> hasTicketBeenScanned (qp_ticketId p) d
         then (addLog (entry\<lparr>sl_ok := False\<rparr>) d, offline_result p (dv_gate d) (sv_timeStr env) False)
         else (addLog entry (store_scan env p deviceId d),
               offline_result p (dv_gate d) (sv_timeStr env) True))"

definition handleScan ::
  "crypto \<Rightarrow> string \<Rightarrow> scan_env \<Rightarrow> string \<Rightarrow> device \<times> world \<Rightarrow> (device \<times> world) \<times> scan_result" where
  "handleScan C qrSecret env rawQr dw =
     (let (d0, w) = dw; gate = dv_gate d0; (d, deviceId) = getDeviceId (sv_uuid env) d0
      in case pwa_parseQrPayload rawQr of
           None \<Rightarrow>
             let i = (if take 16 rawQr = [] then ''UNKNOWN'' else take 16 rawQr)
             in ((addLog \<lparr>sl_id = i, sl_time = sv_timeStr env, sl_type = ''N/A'', sl_ok = False,
                         sl_isOffline = False\<rparr> d, w),
                 \<lparr>sc_id = i, sc_gate = gate, sc_type = None, sc_time = sv_timeStr env,
                  sc_status = SCAN_INVALID, sc_errorMsg = Some BadQrFormat, sc_isOffline = None\<rparr>)
         | Some p \<Rightarrow>
             (case (if dv_isOnline d
                    then verifyTicket C qrSecret (sv_now env) (sv_net env) (scan_request p deviceId gate)
                           (dv_user d) w
                    else (w, None)) of
                (w', Some (ok, typeName)) \<Rightarrow>
                  ((addLog \<lparr>sl_id = qp_ticketId p, sl_time = sv_timeStr env,
                            sl_type = (case typeName of None \<Rightarrow> ''General Admission'' | Some n \<Rightarrow> n),
                            sl_ok = ok, sl_isOffline = False\<rparr> d, w'),
                   online_result p gate (sv_timeStr env) ok typeName)
              | (w', None) \<Rightarrow> (case offline_path env p deviceId d of (d', r) \<Rightarrow> ((d', w'), r))))"

section \<open>An upload\<close>

definition upload_record :: "offline_scan_record \<Rightarrow> sync_checkin_record" where
  "upload_record r =
     \<lparr>s_ticketId = of_ticketId r, s_token = of_token r, s_deviceId = of_deviceId r,
      s_gateId = Some (of_gateId r), s_scannedAt = of_scannedAt r,
      s_offlineEventId = of_offlineEventId r\<rparr>"

text \<open>The request to \<open>/checkin/sync\<close>: an error status of the server is thrown like a lost answer.\<close>

definition syncOfflineLogs ::
  "crypto \<Rightarrow> string \<Rightarrow> time \<Rightarrow> network \<Rightarrow> offline_scan_record list \<Rightarrow> id \<Rightarrow> world \<Rightarrow>
   world \<times> sync_checkin_result list option" where
  "syncOfflineLogs C qrSecret now net batch staffId w =
     (case net of
        REQUEST_LOST \<Rightarrow> (w, None)
      | ANSWER_LOST \<Rightarrow> (fst (syncCheckin C qrSecret now (map upload_record batch) staffId w), None)
      | DELIVERED \<Rightarrow>
          (case syncCheckin C qrSecret now (map upload_record batch) staffId w of
             (w', Inr resp) \<Rightarrow> (w', Some (sy_results resp))
           | (w', Inl _) \<Rightarrow> (w', None)))"

definition sync_begin :: "device \<Rightarrow> device" where
  "sync_begin d =
     (if dv_isSyncing d then d else d\<lparr>dv_isSyncing := True, dv_batch := getUnsynced d\<rparr>)"

definition synced_ids :: "sync_checkin_result list \<Rightarrow> string list" where
  "synced_ids results =
     map sr_offlineEventId (filter (\<lambda>r. sr_success r \<or> sr_status r = ALREADY_CHECKED_IN) results)"

definition clear_conflict :: "offline_scan_record list \<Rightarrow> sync_checkin_result \<Rightarrow> device \<Rightarrow> device" where
  "clear_conflict unsynced conflict d =
     (case find_row of_offlineEventId (sr_offlineEventId conflict) unsynced of
        None \<Rightarrow> d
      | Some matched \<Rightarrow> clearScannedTicket (of_ticketId matched) d)"

definition apply_results :: "sync_checkin_result list \<Rightarrow> device \<Rightarrow> device" where
  "apply_results results d =
     (let d1 = (if synced_ids results = [] then d else markSynced (synced_ids results) d);
          d2 = fold (clear_conflict (dv_batch d))
                 (filter (\<lambda>r. sr_conflict r \<and> \<not> sr_success r) results) d1
      in refreshPendingCount (d2\<lparr>dv_syncResults := results @ dv_syncResults d2\<rparr>))"

definition sync_end ::
  "crypto \<Rightarrow> string \<Rightarrow> time \<Rightarrow> network \<Rightarrow> device \<times> world \<Rightarrow> device \<times> world" where
  "sync_end C qrSecret now net dw =
     (let (d, w) = dw
      in if \<not> dv_isSyncing d then (d, w)
         else if dv_batch d = [] then (d\<lparr>dv_isSyncing := False\<rparr>, w)
         else case syncOfflineLogs C qrSecret now net (dv_batch d) (dv_user d) w of
                (w', Some results) \<Rightarrow> ((apply_results results d)\<lparr>dv_isSyncing := False\<rparr>, w')
              | (w', None) \<Rightarrow> (d\<lparr>dv_isSyncing := False\<rparr>, w'))"

text \<open>\<open>triggerSync\<close> without anything in between; it returns at once while an upload is running.\<close>

definition triggerSync ::
  "crypto \<Rightarrow> string \<Rightarrow> time \<Rightarrow> network \<Rightarrow> device \<times> world \<Rightarrow> device \<times> world" where
  "triggerSync C qrSecret now net dw =
     (let (d, w) = dw
      in if dv_isSyncing d then (d, w) else sync_end C qrSecret now net (sync_begin d, w))"

section \<open>Network events\<close>

definition handleOnline :: "device \<Rightarrow> device" where
  "handleOnline d = sync_begin (d\<lparr>dv_isOnline := True\<rparr>)"

definition handleOffline :: "device \<Rightarrow> device" where
  "handleOffline d = d\<lparr>dv_isOnline := False\<rparr>"

text \<open>A device that was just installed.\<close>

definition new_device :: "string \<Rightarrow> id \<Rightarrow> device" where
  "new_device gate user =
     \<lparr>dv_deviceId = None, dv_gate = gate, dv_user = user, dv_isOnline = True, dv_checkin_logs = [],
      dv_scanned_tickets = [], dv_pendingSyncCount = 0, dv_isSyncing = False, dv_batch = [],
      dv_syncResults = [], dv_logs = []\<rparr>"

end
