(* ===== verification/Offline_Properties.thy ===== *)
theory Offline_Properties
  imports Offline_Checkin
begin

text \<open>
  The check-in app together with the server: what an offline scan accepts, which scans reach the
  log of the server, when a queue drains, and how one record can keep all others from it.
\<close>

section \<open>What a scan does to the server\<close>

text \<open>The log only grows, and no scan makes or removes a ticket.\<close>

definition server_grows :: "world \<Rightarrow> world \<Rightarrow> bool" where
  "server_grows w w' \<longleftrightarrow>
     (\<forall>dev ev. find_event dev ev w \<noteq> None \<longrightarrow> find_event dev ev w' \<noteq> None) \<and>
     (\<forall>i. find_ticket i w' = None \<longleftrightarrow> find_ticket i w = None)"

lemma server_grows_refl [simp]: "server_grows w w"
  by (simp add: server_grows_def)

lemma server_grows_trans: "server_grows w w1 \<Longrightarrow> server_grows w1 w2 \<Longrightarrow> server_grows w w2"
  by (simp add: server_grows_def)

lemma server_grows_log: "server_grows w (w\<lparr>checkinLogs := checkinLogs w @ ls\<rparr>)"
  by (auto simp: server_grows_def find_event_def find_ticket_def split: option.split)

lemma server_grows_admit: "admit_ticket now i w = (w1, n) \<Longrightarrow> server_grows w w1"
  using find_event_admit [of _ _ now i w] find_ticket_admit [of _ now i w]
  by (simp add: server_grows_def)

lemma scan_step_grows: "scan_step now i w b w' \<Longrightarrow> server_grows w w'"
  by (elim scan_stepE)
    (auto intro: server_grows_log server_grows_trans [OF server_grows_admit server_grows_log])

lemma verify_grows: "server_grows w (fst (verifyAndCheckin C qrSecret now dto staffId w))"
  by (rule scan_step_grows [OF verify_scan_step])

lemma process_grows: "server_grows w (fst (processSyncRecord C qrSecret now staffId rec w))"
  by (rule scan_step_grows [OF sync_scan_step])

lemma run_scan_grows: "server_grows w (fst (run_scan C qrSecret x w))"
  by (rule scan_step_grows [OF run_scan_step])

lemma sync_loop_grows: "server_grows w (fst (sync_loop C qrSecret now staffId recs acc w))"
proof (induction recs arbitrary: acc w)
  case Nil
  then show ?case by simp
next
  case (Cons rec recs)
  obtain w1 r where rec: "processSyncRecord C qrSecret now staffId rec w = (w1, r)"
    by (cases "processSyncRecord C qrSecret now staffId rec w")
  then have "server_grows w w1" using process_grows [of w C qrSecret now staffId rec] by simp
  then show ?case
    using rec Cons.IH by (cases r) (auto simp: Let_def intro: server_grows_trans)
qed

lemma sync_grows: "server_grows w (fst (syncCheckin C qrSecret now recs staffId w))"
  by (simp add: syncCheckin_def sync_loop_grows)

section \<open>Answers to a batch\<close>

lemma processed_id:
  "processSyncRecord C qrSecret now staffId rec w = (w', Inr res) \<Longrightarrow> sr_offlineEventId res = s_offlineEventId rec"
  by (auto simp: processSyncRecord_def Let_def sync_result_def split: option.splits if_splits prod.splits
      elim!: bindE_eq_InrE)

text \<open>Every result is that of a record of the batch, which is in the log then.\<close>

lemma sync_loop_results:
  assumes "sync_loop C qrSecret now staffId recs acc w = (w', Inr resp)"
    and "res \<in> set (sy_results resp)" and "res \<notin> set (sy_results acc)"
  shows "\<exists>rec \<in> set recs. sr_offlineEventId res = s_offlineEventId rec \<and>
    find_event (s_deviceId rec) (s_offlineEventId rec) w' \<noteq> None"
  using assms
proof (induction recs arbitrary: acc w)
  case Nil
  then show ?case by simp
next
  case (Cons rec recs)
  obtain w1 r1 where rec: "processSyncRecord C qrSecret now staffId rec w = (w1, Inr r1)"
    using Cons.prems(1) by (auto elim: bindE_eq_InrE)
  obtain acc2 where loop: "sync_loop C qrSecret now staffId recs acc2 w1 = (w', Inr resp)"
    and acc2: "sy_results acc2 = sy_results acc @ [r1]"
    using Cons.prems(1) rec by (auto simp: Let_def split: if_splits)
  show ?case
  proof (cases "res = r1")
    case True
    have "find_event (s_deviceId rec) (s_offlineEventId rec) w1 \<noteq> None"
      using processed_record_logged [OF rec] by auto
    moreover have "server_grows w1 w'"
      using sync_loop_grows [of w1 C qrSecret now staffId recs acc2] loop by simp
    ultimately show ?thesis
      using True processed_id [OF rec] unfolding server_grows_def by (intro bexI [of _ rec]) auto
  next
    case False
    then show ?thesis
      using Cons.IH [OF loop Cons.prems(2)] Cons.prems(3) acc2 by auto
  qed
qed

lemma sync_results:
  assumes "syncCheckin C qrSecret now recs staffId w = (w', Inr resp)" and "res \<in> set (sy_results resp)"
  shows "\<exists>rec \<in> set recs. sr_offlineEventId res = s_offlineEventId rec \<and>
     find_event (s_deviceId rec) (s_offlineEventId rec) w' \<noteq> None"
  using sync_loop_results [OF assms(1) [unfolded syncCheckin_def] assms(2)] by simp

section \<open>A device and its server\<close>

text \<open>
  The steps of one device, with everything that other devices do at the server in between.
\<close>

datatype device_step =
    Scan scan_env string
  | NetworkUp
  | NetworkDown
  | SyncBegin
  | SyncEnd time network
  | OtherDevice scan_op

fun run_device ::
  "crypto \<Rightarrow> string \<Rightarrow> device_step \<Rightarrow> device \<times> world \<Rightarrow> (device \<times> world) \<times> scan_result option" where
  "run_device C k (Scan env raw) dw = map_prod id Some (handleScan C k env raw dw)"
| "run_device C k NetworkUp dw = ((handleOnline (fst dw), snd dw), None)"
| "run_device C k NetworkDown dw = ((handleOffline (fst dw), snd dw), None)"
| "run_device C k SyncBegin dw = ((sync_begin (fst dw), snd dw), None)"
| "run_device C k (SyncEnd now net) dw = (sync_end C k now net dw, None)"
| "run_device C k (OtherDevice x) dw = ((fst dw, fst (run_scan C k x (snd dw))), None)"

text \<open>All records carry the identifier of the device, and a synced one is in the server's log.\<close>

definition queue_sound :: "device \<times> world \<Rightarrow> bool" where
  "queue_sound dw \<longleftrightarrow>
     (\<forall>r \<in> set (dv_checkin_logs (fst dw)) \<union> set (dv_batch (fst dw)).
        dv_deviceId (fst dw) = Some (of_deviceId r) \<and> of_deviceId r \<noteq> []) \<and>
     (\<forall>r \<in> set (dv_checkin_logs (fst dw)).
        of_synced r \<longrightarrow> find_event (of_deviceId r) (of_offlineEventId r) (snd dw) \<noteq> None)"

lemma set_idb_put: "set (idb_put key r rows) \<subseteq> insert r (set rows)"
  by (induction rows) auto

lemma idb_put_cases: "x \<in> set (idb_put key r rows) \<Longrightarrow> x = r \<or> x \<in> set rows"
  using set_idb_put [of key r rows] by blast

lemma idb_put_mem [simp]: "r \<in> set (idb_put key r rows)"
  by (induction rows) auto

lemma addLog_frame [simp]:
  "dv_checkin_logs (addLog e d) = dv_checkin_logs d" "dv_batch (addLog e d) = dv_batch d"
  "dv_deviceId (addLog e d) = dv_deviceId d" "dv_scanned_tickets (addLog e d) = dv_scanned_tickets d"
  "dv_isOnline (addLog e d) = dv_isOnline d" "dv_gate (addLog e d) = dv_gate d"
  "dv_isSyncing (addLog e d) = dv_isSyncing d" "dv_user (addLog e d) = dv_user d"
  by (simp_all add: addLog_def split: list.split)

lemma sound_grows: "queue_sound (d, w) \<Longrightarrow> server_grows w w' \<Longrightarrow> queue_sound (d, w')"
  by (simp add: queue_sound_def server_grows_def)

lemma getDeviceId_sound:
  assumes "queue_sound (d, w)" and "getDeviceId uuid d = (d', i)"
  shows "queue_sound (d', w) \<and> dv_deviceId d' = Some i \<and> i \<noteq> [] \<and>
    dv_checkin_logs d' = dv_checkin_logs d \<and> dv_scanned_tickets d' = dv_scanned_tickets d \<and>
    dv_gate d' = dv_gate d \<and> dv_isOnline d' = dv_isOnline d \<and> dv_user d' = dv_user d \<and>
    dv_isSyncing d' = dv_isSyncing d \<and> dv_batch d' = dv_batch d"
  using assms by (auto simp: getDeviceId_def queue_sound_def split: option.splits if_splits)

lemma sound_addLog [simp]: "queue_sound (addLog e d, w) = queue_sound (d, w)"
  by (simp add: queue_sound_def)

lemma sound_save:
  "queue_sound (d, w) \<Longrightarrow> dv_deviceId d = Some (of_deviceId r) \<Longrightarrow> of_deviceId r \<noteq> [] \<Longrightarrow> \<not> of_synced r \<Longrightarrow>
   queue_sound (saveCheckinLog r d, w)"
  by (auto simp: queue_sound_def saveCheckinLog_def dest!: idb_put_cases)

lemma sound_mark [simp]:
  "queue_sound (refreshPendingCount (markTicketScanned e d), w) = queue_sound (d, w)"
  by (simp add: queue_sound_def refreshPendingCount_def markTicketScanned_def)

lemma sound_store:
  "queue_sound (d, w) \<Longrightarrow> dv_deviceId d = Some i \<Longrightarrow> i \<noteq> [] \<Longrightarrow> queue_sound (store_scan env p i d, w)"
  by (auto simp: store_scan_def Let_def offline_record_def intro!: sound_save)

lemma sound_offline:
  "queue_sound (d, w) \<Longrightarrow> dv_deviceId d = Some i \<Longrightarrow> i \<noteq> [] \<Longrightarrow> queue_sound (fst (offline_path env p i d), w)"
  by (simp add: offline_path_def Let_def sound_store)

lemma verifyTicket_grows: "server_grows w (fst (verifyTicket C k now net dto u w))"
  using verify_grows [of w C k now dto u]
  by (cases "verifyAndCheckin C k now dto u w"; cases "snd (verifyAndCheckin C k now dto u w)")
    (auto simp: verifyTicket_def split: network.split)

lemma sound_scan:
  assumes "queue_sound dw"
  shows "queue_sound (fst (handleScan C k env raw dw))"
proof -
  obtain d0 w where dw: "dw = (d0, w)" by (cases dw)
  obtain d i where dev: "getDeviceId (sv_uuid env) d0 = (d, i)" by (cases "getDeviceId (sv_uuid env) d0")
  have sound: "queue_sound (d, w)" "dv_deviceId d = Some i" "i \<noteq> []"
    using getDeviceId_sound [OF _ dev] assms dw by blast+
  show ?thesis
  proof (cases "pwa_parseQrPayload raw")
    case None
    then show ?thesis using sound by (simp add: handleScan_def dw dev Let_def)
  next
    case (Some p)
    let ?v = "if dv_isOnline d then verifyTicket C k (sv_now env) (sv_net env) (scan_request p i (dv_gate d0)) (dv_user d) w
      else (w, None)"
    have "server_grows w (fst ?v)" using verifyTicket_grows by simp
    then have "queue_sound (d, fst ?v)" using sound(1) sound_grows by blast
    then show ?thesis
      using Some sound_offline [OF _ sound(2,3), of "fst ?v" env p]
      by (cases ?v; cases "snd ?v") (auto simp: handleScan_def dw dev Let_def split: prod.splits)
  qed
qed

lemma sound_begin: "queue_sound (d, w) \<Longrightarrow> queue_sound (sync_begin d, w)"
  by (auto simp: queue_sound_def sync_begin_def getUnsynced_def)

lemma clear_conflict_frame [simp]:
  "dv_checkin_logs (clear_conflict b c d) = dv_checkin_logs d" "dv_batch (clear_conflict b c d) = dv_batch d"
  "dv_deviceId (clear_conflict b c d) = dv_deviceId d" "dv_isSyncing (clear_conflict b c d) = dv_isSyncing d"
  "dv_user (clear_conflict b c d) = dv_user d" "dv_isOnline (clear_conflict b c d) = dv_isOnline d"
  by (simp_all add: clear_conflict_def clearScannedTicket_def split: option.split)

lemma fold_conflict_frame [simp]:
  "dv_checkin_logs (fold (clear_conflict b) cs d) = dv_checkin_logs d"
  "dv_batch (fold (clear_conflict b) cs d) = dv_batch d"
  "dv_deviceId (fold (clear_conflict b) cs d) = dv_deviceId d"
  "dv_isSyncing (fold (clear_conflict b) cs d) = dv_isSyncing d"
  "dv_user (fold (clear_conflict b) cs d) = dv_user d"
  by (induction cs arbitrary: d) simp_all

lemma markSynced_Nil [simp]: "markSynced [] d = d"
  by (simp add: markSynced_def update_where_def)

lemma apply_results_frame [simp]:
  "dv_checkin_logs (apply_results rs d) =
     update_where (\<lambda>r. of_offlineEventId r \<in> set (synced_ids rs)) (\<lambda>r. r\<lparr>of_synced := True\<rparr>) (dv_checkin_logs d)"
  "dv_batch (apply_results rs d) = dv_batch d" "dv_deviceId (apply_results rs d) = dv_deviceId d"
  "dv_user (apply_results rs d) = dv_user d"
  by (simp_all add: apply_results_def Let_def refreshPendingCount_def markSynced_def update_where_def)

lemma syncOfflineLogs_grows: "server_grows w (fst (syncOfflineLogs C k now net b u w))"
  using sync_grows [of w C k now "map upload_record b" u]
  by (cases "syncCheckin C k now (map upload_record b) u w"; cases "snd (syncCheckin C k now (map upload_record b) u w)")
    (auto simp: syncOfflineLogs_def split: network.split)

lemma syncOfflineLogs_results:
  assumes "syncOfflineLogs C k now net b u w = (w', Some results)" and "res \<in> set results"
  shows "\<exists>r \<in> set b. sr_offlineEventId res = of_offlineEventId r \<and>
    find_event (of_deviceId r) (of_offlineEventId r) w' \<noteq> None"
proof -
  obtain resp where "syncCheckin C k now (map upload_record b) u w = (w', Inr resp)" "results = sy_results resp"
    using assms(1) by (auto simp: syncOfflineLogs_def split: network.splits prod.splits sum.splits)
  then show ?thesis
    using sync_results [of C k now "map upload_record b" u w w' resp res] assms(2)
    by (auto simp: upload_record_def)
qed

lemma sound_end:
  assumes "queue_sound dw"
  shows "queue_sound (sync_end C k now net dw)"
proof -
  obtain d w where dw: "dw = (d, w)" by (cases dw)
  obtain w' r where answer: "syncOfflineLogs C k now net (dv_batch d) (dv_user d) w = (w', r)"
    by (cases "syncOfflineLogs C k now net (dv_batch d) (dv_user d) w")
  have idle: "queue_sound (e\<lparr>dv_isSyncing := False\<rparr>, v) = queue_sound (e, v)" for e v
    by (simp add: queue_sound_def)
  have grown: "queue_sound (d, w')"
    using assms dw sound_grows syncOfflineLogs_grows [of w C k now net "dv_batch d" "dv_user d"] answer by auto
  have "queue_sound (apply_results results d, w')" if "r = Some results" for results
  proof -
    have "find_event (of_deviceId x) (of_offlineEventId x) w' \<noteq> None"
      if stored: "x \<in> set (dv_checkin_logs d)" and marked: "of_offlineEventId x \<in> set (synced_ids results)" for x
    proof -
      obtain res where "res \<in> set results" "sr_offlineEventId res = of_offlineEventId x"
        using marked by (auto simp: synced_ids_def)
      then obtain y where "y \<in> set (dv_batch d)" "of_offlineEventId y = of_offlineEventId x"
        "find_event (of_deviceId y) (of_offlineEventId y) w' \<noteq> None"
        using syncOfflineLogs_results [of C k now net "dv_batch d" "dv_user d" w w' results res]
          answer \<open>r = Some results\<close> by auto
      moreover have "of_deviceId y = of_deviceId x"
        using grown stored \<open>y \<in> set (dv_batch d)\<close> by (simp add: queue_sound_def) (metis UnCI option.inject)
      ultimately show ?thesis by simp
    qed
    then show ?thesis using grown by (auto simp: queue_sound_def set_update_where)
  qed
  then show ?thesis
    using assms grown by (cases r) (auto simp: sync_end_def dw answer idle)
qed

lemma sound_step: "queue_sound dw \<Longrightarrow> queue_sound (fst (run_device C k x dw))"
proof (cases x)
  case (Scan env raw)
  then show "queue_sound dw \<Longrightarrow> queue_sound (fst (run_device C k x dw))"
    using sound_scan [of dw C k env raw] by simp
next
  case (OtherDevice y)
  then show "queue_sound dw \<Longrightarrow> queue_sound (fst (run_device C k x dw))"
    using sound_grows [of "fst dw" "snd dw"] run_scan_grows [of "snd dw" C k y] by simp
next
  case NetworkUp
  have "queue_sound dw \<Longrightarrow> queue_sound ((fst dw)\<lparr>dv_isOnline := True\<rparr>, snd dw)" by (simp add: queue_sound_def)
  then show "queue_sound dw \<Longrightarrow> queue_sound (fst (run_device C k x dw))"
    using NetworkUp sound_begin by (simp add: handleOnline_def)
next
  case NetworkDown
  then show "queue_sound dw \<Longrightarrow> queue_sound (fst (run_device C k x dw))"
    by (simp add: handleOffline_def queue_sound_def)
next
  case SyncBegin
  then show "queue_sound dw \<Longrightarrow> queue_sound (fst (run_device C k x dw))"
    using sound_begin [of "fst dw" "snd dw"] by simp
next
  case (SyncEnd now net)
  then show "queue_sound dw \<Longrightarrow> queue_sound (fst (run_device C k x dw))" by (simp add: sound_end)
qed

interpretation offline_queue: op_system "run_device C k" "\<lambda>_. True" queue_sound for C k
  by unfold_locales (rule sound_step)

section \<open>Properties\<close>


section \<open>Draining the queue\<close>

lemma process_known:
  assumes "find_ticket (s_ticketId rec) w \<noteq> None \<or> find_event (s_deviceId rec) (s_offlineEventId rec) w \<noteq> None"
  shows "\<exists>w' res. processSyncRecord C k now staffId rec w = (w', Inr res)"
proof (cases "find_event (s_deviceId rec) (s_offlineEventId rec) w")
  case (Some l)
  then show ?thesis by (simp add: processSyncRecord_def)
next
  case None
  then obtain t where t: "find_ticket (s_ticketId rec) w = Some t" using assms by auto
  obtain w1 n where admit: "admit_ticket now (s_ticketId rec) w = (w1, n)"
    by (cases "admit_ticket now (s_ticketId rec) w")
  have kept: "find_event (s_deviceId rec) (s_offlineEventId rec) w1 = None" "find_ticket (s_ticketId rec) w1 \<noteq> None"
    using None t find_event_admit [of "s_deviceId rec" "s_offlineEventId rec" now "s_ticketId rec" w]
      find_ticket_admit [of "s_ticketId rec" now "s_ticketId rec" w] admit by simp_all
  have log: "logCheckinAttempt now (sync_params rec staffId c st rsn b) v =
      (v\<lparr>checkinLogs := checkinLogs v @ [log_row now (sync_params rec staffId c st rsn b)]\<rparr>, Inr ())"
    if "v = w \<or> v = w1" for v c st rsn b
    using that kept None t by (intro log_ok) auto
  show ?thesis
    using None t by (auto simp: processSyncRecord_def Let_def admit log)
qed

lemma process_repeated:
  "find_event (s_deviceId rec) (s_offlineEventId rec) w \<noteq> None \<Longrightarrow>
   \<exists>res. processSyncRecord C k now staffId rec w = (w, Inr res) \<and> sr_success res \<and>
     sr_offlineEventId res = s_offlineEventId rec"
  by (auto simp: processSyncRecord_def sync_result_def)

lemma sync_loop_known:
  assumes "\<And>rec. rec \<in> set recs \<Longrightarrow> find_ticket (s_ticketId rec) w \<noteq> None \<or>
      find_event (s_deviceId rec) (s_offlineEventId rec) w \<noteq> None"
  shows "\<exists>w' resp. sync_loop C k now staffId recs acc w = (w', Inr resp) \<and>
    (\<forall>rec \<in> set recs. find_event (s_deviceId rec) (s_offlineEventId rec) w' \<noteq> None)"
  using assms
proof (induction recs arbitrary: acc w)
  case Nil
  then show ?case by simp
next
  case (Cons rec recs)
  obtain w1 res where rec: "processSyncRecord C k now staffId rec w = (w1, Inr res)"
    using process_known [of rec w] Cons.prems by (meson list.set_intros(1))
  have grows: "server_grows w w1" using process_grows [of w C k now staffId rec] rec by simp
  have known: "find_ticket (s_ticketId x) w1 \<noteq> None \<or> find_event (s_deviceId x) (s_offlineEventId x) w1 \<noteq> None"
    if "x \<in> set recs" for x
    using Cons.prems [of x] that grows by (auto simp: server_grows_def)
  obtain acc2 where step: "sync_loop C k now staffId (rec # recs) acc w = sync_loop C k now staffId recs acc2 w1"
    using rec by (auto simp: Let_def)
  obtain w' resp where rest: "sync_loop C k now staffId recs acc2 w1 = (w', Inr resp)"
    "\<forall>x \<in> set recs. find_event (s_deviceId x) (s_offlineEventId x) w' \<noteq> None"
    using Cons.IH [OF known, of acc2] by blast
  moreover have "find_event (s_deviceId rec) (s_offlineEventId rec) w' \<noteq> None"
    using processed_record_logged [OF rec] sync_loop_grows [of w1 C k now staffId recs acc2] rest(1)
    by (auto simp: server_grows_def)
  ultimately show ?case unfolding step by simp
qed

lemma sync_known:
  assumes "\<And>rec. rec \<in> set recs \<Longrightarrow> find_ticket (s_ticketId rec) w \<noteq> None \<or>
      find_event (s_deviceId rec) (s_offlineEventId rec) w \<noteq> None"
  shows "\<exists>w' resp. syncCheckin C k now recs staffId w = (w', Inr resp) \<and>
    (\<forall>rec \<in> set recs. find_event (s_deviceId rec) (s_offlineEventId rec) w' \<noteq> None)"
  unfolding syncCheckin_def by (rule sync_loop_known) (rule assms)

lemma sync_loop_repeated:
  assumes "\<And>rec. rec \<in> set recs \<Longrightarrow> find_event (s_deviceId rec) (s_offlineEventId rec) w \<noteq> None"
  shows "\<exists>resp. sync_loop C k now staffId recs acc w = (w, Inr resp) \<and>
    (\<exists>rs. sy_results resp = sy_results acc @ rs \<and> map sr_offlineEventId rs = map s_offlineEventId recs \<and>
      list_all sr_success rs)"
  using assms
proof (induction recs arbitrary: acc)
  case Nil
  then show ?case by simp
next
  case (Cons rec recs)
  obtain res where rec: "processSyncRecord C k now staffId rec w = (w, Inr res)" "sr_success res"
    "sr_offlineEventId res = s_offlineEventId rec"
    using process_repeated [of rec w] Cons.prems by (meson list.set_intros(1))
  obtain acc2 where step: "sync_loop C k now staffId (rec # recs) acc w = sync_loop C k now staffId recs acc2 w"
    "sy_results acc2 = sy_results acc @ [res]"
    using rec by (auto simp: Let_def)
  obtain resp rs where "sync_loop C k now staffId recs acc2 w = (w, Inr resp)"
    "sy_results resp = sy_results acc2 @ rs" "map sr_offlineEventId rs = map s_offlineEventId recs"
    "list_all sr_success rs"
    using Cons.IH [of acc2] Cons.prems by auto
  then show ?case
    using step rec(2,3) by (intro exI [of _ resp] conjI exI [of _ "res # rs"]) simp_all
qed

lemma marked_none:
  assumes "\<And>r. r \<in> set rows \<Longrightarrow> \<not> of_synced r \<Longrightarrow> of_offlineEventId r \<in> ids"
  shows "filter (\<lambda>r. \<not> of_synced r) (update_where (\<lambda>r. of_offlineEventId r \<in> ids) (\<lambda>r. r\<lparr>of_synced := True\<rparr>) rows) = []"
  using assms by (auto simp: filter_empty_conv set_update_where)

lemma synced_ids_success: "list_all sr_success rs \<Longrightarrow> synced_ids rs = map sr_offlineEventId rs"
  by (induction rs) (auto simp: synced_ids_def)

lemma apply_pending [simp]: "dv_pendingSyncCount (apply_results rs d) = countUnsynced (apply_results rs d)"
  by (simp add: apply_results_def Let_def refreshPendingCount_def countUnsynced_def getUnsynced_def)

lemma getUnsynced_frame [simp]:
  "getUnsynced (d\<lparr>dv_isSyncing := b\<rparr>) = getUnsynced d" "getUnsynced (d\<lparr>dv_batch := rs\<rparr>) = getUnsynced d"
  by (simp_all add: getUnsynced_def)

text \<open>An upload of records that the server has logged before marks them all.\<close>

lemma trigger_repeated:
  assumes "\<not> dv_isSyncing d" and "list_all (\<lambda>r. find_event (of_deviceId r) (of_offlineEventId r) w \<noteq> None) (getUnsynced d)"
  shows "\<exists>d'. triggerSync C k t DELIVERED (d, w) = (d', w) \<and> getUnsynced d' = []"
proof (cases "getUnsynced d = []")
  case True
  then show ?thesis using assms(1) by (auto simp: triggerSync_def sync_begin_def sync_end_def getUnsynced_def)
next
  case False
  let ?b = "map upload_record (getUnsynced d)"
  have "find_event (s_deviceId rec) (s_offlineEventId rec) w \<noteq> None" if "rec \<in> set ?b" for rec
    using assms(2) that by (auto simp: list_all_iff upload_record_def)
  then obtain resp where resp: "syncCheckin C k t ?b (dv_user d) w = (w, Inr resp)"
    "map sr_offlineEventId (sy_results resp) = map s_offlineEventId ?b" "list_all sr_success (sy_results resp)"
    using sync_loop_repeated [of ?b w C k t "dv_user d"
        "\<lparr>sy_total = length ?b, sy_success = 0, sy_failed = 0, sy_conflicts = 0, sy_results = []\<rparr>"]
    by (auto simp: syncCheckin_def)
  have "of_offlineEventId r \<in> set (synced_ids (sy_results resp))" if "r \<in> set (getUnsynced d)" for r
    using that resp(2,3) by (auto simp: synced_ids_success upload_record_def comp_def)
  then have "filter (\<lambda>r. \<not> of_synced r) (update_where (\<lambda>r. of_offlineEventId r \<in> set (synced_ids (sy_results resp)))
      (\<lambda>r. r\<lparr>of_synced := True\<rparr>) (dv_checkin_logs d)) = []"
    by (intro marked_none) (simp add: getUnsynced_def)
  then show ?thesis
    using assms(1) False resp(1)
    by (simp add: triggerSync_def sync_begin_def sync_end_def syncOfflineLogs_def getUnsynced_def)
qed

text \<open>
  C28: Two uploads in good network drain the queue of scans of existing tickets: after the first every
  scan is in the server's log, and after the second nothing is pending, rejected scans included.
\<close>

theorem two_uploads_drain_the_queue:
  assumes "\<not> dv_isSyncing d"
    and "list_all (\<lambda>r. find_ticket (of_ticketId r) w \<noteq> None) (getUnsynced d)"
    and "triggerSync C k t DELIVERED (d, w) = (d1, w1)" and "triggerSync C k t' DELIVERED (d1, w1) = (d2, w2)"
  shows "list_all (\<lambda>r. find_event (of_deviceId r) (of_offlineEventId r) w1 \<noteq> None) (getUnsynced d)
    \<and> getUnsynced d2 = [] \<and> w2 = w1"
proof -
  let ?b = "map upload_record (getUnsynced d)"
  have first: "\<not> dv_isSyncing d1 \<and> set (getUnsynced d1) \<subseteq> set (getUnsynced d) \<and>
      list_all (\<lambda>r. find_event (of_deviceId r) (of_offlineEventId r) w1 \<noteq> None) (getUnsynced d)"
  proof (cases "getUnsynced d = []")
    case True
    then show ?thesis
      using assms(1,3) by (auto simp: triggerSync_def sync_begin_def sync_end_def)
  next
    case False
    have "find_ticket (s_ticketId rec) w \<noteq> None" if "rec \<in> set ?b" for rec
      using that assms(2) by (auto simp: list_all_iff upload_record_def)
    then obtain w' resp where resp: "syncCheckin C k t ?b (dv_user d) w = (w', Inr resp)"
      "\<forall>rec \<in> set ?b. find_event (s_deviceId rec) (s_offlineEventId rec) w' \<noteq> None"
      using sync_known [of ?b w C k t "dv_user d"] by blast
    have "d1 = (apply_results (sy_results resp) (sync_begin d))\<lparr>dv_isSyncing := False\<rparr>" "w1 = w'"
      using assms(1,3) False resp(1)
      by (simp_all add: triggerSync_def sync_begin_def sync_end_def syncOfflineLogs_def)
    then show ?thesis
      using resp(2) by (auto simp: list_all_iff upload_record_def getUnsynced_def set_update_where
          sync_begin_def split: if_splits)
  qed
  then have "list_all (\<lambda>r. find_event (of_deviceId r) (of_offlineEventId r) w1 \<noteq> None) (getUnsynced d1)"
    by (auto simp: list_all_iff)
  with first trigger_repeated [of d1 w1 C k t'] assms(4) show ?thesis by auto
qed

section \<open>A record that stops the queue\<close>

lemma process_other_event:
  assumes "(s_deviceId rec, s_offlineEventId rec) \<noteq> (dev, ev)"
  shows "find_event dev ev (fst (processSyncRecord C k now staffId rec w)) = find_event dev ev w"
proof -
  have other: "find_event dev ev (fst (logCheckinAttempt now (sync_params rec staffId c st rsn b) v)) = find_event dev ev v"
    for c st rsn b v
    using log_cases [of now "sync_params rec staffId c st rsn b" v] assms
    by (auto simp: find_event_def split: option.split)
  have bind: "fst (bindE m (\<lambda>w' _. (w', Inr x))) = fst m" for m :: "(world, unit) outcome" and x :: sync_checkin_result
    by (cases m; cases "snd m") auto
  obtain w1 n where admit: "admit_ticket now (s_ticketId rec) w = (w1, n)"
    by (cases "admit_ticket now (s_ticketId rec) w")
  then have "find_event dev ev w1 = find_event dev ev w"
    using find_event_admit [of dev ev now "s_ticketId rec" w] by simp
  then show ?thesis
    by (auto simp: processSyncRecord_def Let_def bind other admit split: option.split)
qed

lemma process_unknown:
  "find_ticket (s_ticketId rec) w = None \<Longrightarrow> find_event (s_deviceId rec) (s_offlineEventId rec) w = None \<Longrightarrow>
   processSyncRecord C k now staffId rec w = (w, Inl (ForeignKeyViolation ''CheckinLog''))"
  by (simp add: processSyncRecord_def Let_def logCheckinAttempt_def)

lemma sync_loop_unknown:
  assumes "rec \<in> set recs" and "find_ticket (s_ticketId rec) w = None"
    and "find_event (s_deviceId rec) (s_offlineEventId rec) w = None"
    and "distinct (map (\<lambda>r. (s_deviceId r, s_offlineEventId r)) recs)"
  shows "\<exists>w' e. sync_loop C k now staffId recs acc w = (w', Inl e) \<and>
    find_event (s_deviceId rec) (s_offlineEventId rec) w' = None"
  using assms
proof (induction recs arbitrary: acc w)
  case Nil
  then show ?case by simp
next
  case (Cons x recs)
  obtain w1 r where x: "processSyncRecord C k now staffId x w = (w1, r)"
    by (cases "processSyncRecord C k now staffId x w")
  show ?case
  proof (cases "rec = x")
    case True
    then show ?thesis using Cons.prems(2,3) by (simp add: process_unknown)
  next
    case False
    then have rec: "rec \<in> set recs" "(s_deviceId x, s_offlineEventId x) \<noteq> (s_deviceId rec, s_offlineEventId rec)"
      using Cons.prems(1,4) by auto
    have "find_event (s_deviceId rec) (s_offlineEventId rec) w1 = None"
      using process_other_event [OF rec(2), of C k now staffId w] x Cons.prems(3) by simp
    moreover have "find_ticket (s_ticketId rec) w1 = None"
      using process_grows [of w C k now staffId x] x Cons.prems(2) by (simp add: server_grows_def)
    ultimately show ?thesis
      using Cons.IH [OF rec(1)] Cons.prems(4) x by (cases r) (auto simp: Let_def)
  qed
qed

text \<open>A queue with a record of a ticket that the server does not know and has not logged.\<close>

definition stuck :: "device \<Rightarrow> world \<Rightarrow> bool" where
  "stuck d w \<longleftrightarrow>
     \<not> dv_isSyncing d \<and> unique_key (\<lambda>r. (of_deviceId r, of_offlineEventId r)) (dv_checkin_logs d) \<and>
     list_ex (\<lambda>r. find_ticket (of_ticketId r) w = None \<and>
       find_event (of_deviceId r) (of_offlineEventId r) w = None) (getUnsynced d)"

lemma stuck_step:
  assumes "stuck d w" and "triggerSync C k t net (d, w) = (d', w')"
  shows "stuck d' w' \<and> dv_checkin_logs d' = dv_checkin_logs d"
proof -
  let ?b = "map upload_record (getUnsynced d)"
  obtain r where r: "r \<in> set (getUnsynced d)" "find_ticket (of_ticketId r) w = None"
    "find_event (of_deviceId r) (of_offlineEventId r) w = None"
    using assms(1) by (auto simp: stuck_def list_ex_iff)
  have "distinct (map (\<lambda>r. (s_deviceId r, s_offlineEventId r)) ?b)"
    using assms(1) by (simp add: stuck_def unique_key_def getUnsynced_def upload_record_def comp_def distinct_map_filter)
  then obtain w1 e where fail: "syncCheckin C k t ?b (dv_user d) w = (w1, Inl e)"
    "find_event (of_deviceId r) (of_offlineEventId r) w1 = None"
    using sync_loop_unknown [of "upload_record r" ?b w C k t "dv_user d"] r
    by (fastforce simp: syncCheckin_def upload_record_def)
  have "find_ticket (of_ticketId r) w1 = None"
    using sync_grows [of w C k t ?b "dv_user d"] fail(1) r(2) by (simp add: server_grows_def)
  moreover obtain v where v: "syncOfflineLogs C k t net (getUnsynced d) (dv_user d) w = (v, None)" "v = w \<or> v = w1"
    using fail(1) by (cases net) (auto simp: syncOfflineLogs_def)
  have "getUnsynced d \<noteq> []" "\<not> dv_isSyncing d" using r(1) assms(1) by (auto simp: stuck_def)
  then have "w' = v" "d' = d\<lparr>dv_isSyncing := False, dv_batch := getUnsynced d\<rparr>"
    using assms(2) v(1) by (auto simp: triggerSync_def sync_begin_def sync_end_def)
  ultimately show ?thesis
    using assms(1) r fail(2) v(2) by (auto simp: stuck_def list_ex_iff getUnsynced_def)
qed


section \<open>What a device accepts\<close>

lemma find_idb_put:
  "find_row key j (idb_put key r rows) = (if j = key r then Some r else find_row key j rows)"
  by (induction rows) auto

lemma hasTicketBeenScanned_addLog [simp]: "hasTicketBeenScanned i (addLog e d) = hasTicketBeenScanned i d"
  by (simp add: hasTicketBeenScanned_def)

definition idb_works :: "scan_env \<Rightarrow> bool" where
  "idb_works env \<longleftrightarrow> \<not> sv_checkFails env \<and> \<not> sv_saveFails env \<and> \<not> sv_markFails env"

lemma store_scan_scanned:
  "idb_works env \<Longrightarrow> hasTicketBeenScanned i (store_scan env p dev d) \<longleftrightarrow> i = qp_ticketId p \<or> hasTicketBeenScanned i d"
  by (auto simp: idb_works_def store_scan_def Let_def refreshPendingCount_def markTicketScanned_def
      saveCheckinLog_def hasTicketBeenScanned_def find_idb_put)

definition scanned_id :: "scan_env \<times> string \<Rightarrow> id option" where
  "scanned_id x = map_option qp_ticketId (pwa_parseQrPayload (snd x))"

definition accepted_offline :: "scan_result \<Rightarrow> bool" where
  "accepted_offline r \<longleftrightarrow> sc_status r = SCAN_VALID \<and> sc_isOffline r = Some True"

definition guarded :: "id option \<Rightarrow> device \<times> world \<Rightarrow> bool" where
  "guarded i dw \<longleftrightarrow> (case i of None \<Rightarrow> True | Some t \<Rightarrow> hasTicketBeenScanned t (fst dw))"

lemma offline_path_cases:
  assumes "idb_works env"
  shows "accepted_offline (snd (offline_path env p dev d)) \<longleftrightarrow> \<not> hasTicketBeenScanned (qp_ticketId p) d"
    and "hasTicketBeenScanned i (fst (offline_path env p dev d)) \<longleftrightarrow>
      i = qp_ticketId p \<or> hasTicketBeenScanned i d"
  using assms
  by (auto simp: offline_path_def Let_def accepted_offline_def offline_result_def store_scan_scanned idb_works_def)

lemma handleScan_guard:
  assumes "idb_works env"
  shows "accepted_offline (snd (handleScan C k env raw dw)) \<Longrightarrow>
      \<not> guarded (scanned_id (env, raw)) dw \<and> guarded (scanned_id (env, raw)) (fst (handleScan C k env raw dw))"
    and "guarded i dw \<Longrightarrow> guarded i (fst (handleScan C k env raw dw))"
proof -
  obtain d0 w where dw: "dw = (d0, w)" by (cases dw)
  obtain d dev where dev: "getDeviceId (sv_uuid env) d0 = (d, dev)" by (cases "getDeviceId (sv_uuid env) d0")
  then have same: "hasTicketBeenScanned j d = hasTicketBeenScanned j d0" for j
    by (auto simp: getDeviceId_def hasTicketBeenScanned_def split: option.splits if_splits)
  have "(accepted_offline (snd (handleScan C k env raw dw)) \<longrightarrow>
      \<not> guarded (scanned_id (env, raw)) dw \<and> guarded (scanned_id (env, raw)) (fst (handleScan C k env raw dw))) \<and>
      (guarded i dw \<longrightarrow> guarded i (fst (handleScan C k env raw dw)))"
  proof (cases "pwa_parseQrPayload raw")
    case None
    then show ?thesis
      by (auto simp: handleScan_def dw dev Let_def accepted_offline_def guarded_def same split: option.split)
  next
    case (Some p)
    let ?v = "if dv_isOnline d then verifyTicket C k (sv_now env) (sv_net env) (scan_request p dev (dv_gate d0)) (dv_user d) w
      else (w, None)"
    show ?thesis
      using Some offline_path_cases(1) [OF assms, where p = p and dev = dev and d = d]
        offline_path_cases(2) [OF assms, where p = p and dev = dev and d = d] same
      by (cases ?v; cases "snd ?v")
        (auto simp: handleScan_def dw dev Let_def guarded_def scanned_id_def accepted_offline_def
          online_result_def split: prod.splits option.splits)
  qed
  then show "accepted_offline (snd (handleScan C k env raw dw)) \<Longrightarrow>
      \<not> guarded (scanned_id (env, raw)) dw \<and> guarded (scanned_id (env, raw)) (fst (handleScan C k env raw dw))"
    and "guarded i dw \<Longrightarrow> guarded i (fst (handleScan C k env raw dw))" by blast+
qed

interpretation device_guard: at_most_once "\<lambda>x. handleScan C k (fst x) (snd x)" "\<lambda>x. idb_works (fst x)" "\<lambda>_. True"
    scanned_id accepted_offline guarded for C k
proof
  fix dw and x :: "scan_env \<times> string" and i
  assume ok: "idb_works (fst x)"
  show "accepted_offline (snd (handleScan C k (fst x) (snd x) dw)) \<Longrightarrow> \<not> guarded (scanned_id x) dw"
    and "accepted_offline (snd (handleScan C k (fst x) (snd x) dw)) \<Longrightarrow>
      guarded (scanned_id x) (fst (handleScan C k (fst x) (snd x) dw))"
    and "guarded i dw \<Longrightarrow> guarded i (fst (handleScan C k (fst x) (snd x) dw))"
    using handleScan_guard(1) [OF ok, where C = C and k = k and raw = "snd x" and dw = dw]
      handleScan_guard(2) [OF ok, where C = C and k = k and raw = "snd x" and dw = dw] by auto
qed simp

text \<open>
  Between two uploads a device with a working IndexedDB accepts a ticket offline at most once,
  whatever payloads are scanned and however the network behaves in between.
\<close>

theorem offline_accepts_a_ticket_once:
  assumes "list_all (\<lambda>x. idb_works (fst x)) scans"
  shows "length (filter (\<lambda>(x, r). scanned_id x = Some i \<and> accepted_offline r)
    (snd (run_ops (\<lambda>x. handleScan C k (fst x) (snd x)) scans dw))) \<le> 1"
  by (rule device_guard.at_most_one_success) (use assms in \<open>auto simp: list_all_iff\<close>)

text \<open>
  Offline nothing but the form of the payload and the guard of this device is looked at: a payload
  of a ticket that does not exist, with a wrong token or for another gate, is accepted.
\<close>

theorem offline_accepts_any_payload:
  assumes "pwa_parseQrPayload raw = Some p" and "\<not> dv_isOnline d" and "\<not> hasTicketBeenScanned (qp_ticketId p) d"
  shows "accepted_offline (snd (handleScan C k env raw (d, w))) \<and> snd (fst (handleScan C k env raw (d, w))) = w"
proof -
  obtain d1 dev where dev: "getDeviceId (sv_uuid env) d = (d1, dev)" by (cases "getDeviceId (sv_uuid env) d")
  then have "hasTicketBeenScanned (qp_ticketId p) d1 = hasTicketBeenScanned (qp_ticketId p) d" "dv_isOnline d1 = dv_isOnline d"
    by (auto simp: getDeviceId_def hasTicketBeenScanned_def split: option.splits if_splits)
  then show ?thesis
    using assms by (simp add: handleScan_def dev Let_def offline_path_def accepted_offline_def offline_result_def)
qed

section \<open>After a conflict\<close>

lemma clear_conflict_scanned:
  "hasTicketBeenScanned i (clear_conflict b c d) \<Longrightarrow> hasTicketBeenScanned i d"
  by (auto simp: clear_conflict_def clearScannedTicket_def hasTicketBeenScanned_def delete_where_def
      find_row_None_iff split: option.splits)

lemma fold_conflict_scanned:
  "hasTicketBeenScanned i (fold (clear_conflict b) cs d) \<Longrightarrow> hasTicketBeenScanned i d"
  by (induction cs arbitrary: d) (auto dest: clear_conflict_scanned)

lemma fold_conflict_clears:
  assumes "c \<in> set cs" and "find_row of_offlineEventId (sr_offlineEventId c) b = Some r"
  shows "\<not> hasTicketBeenScanned (of_ticketId r) (fold (clear_conflict b) cs d)"
  using assms
proof (induction cs arbitrary: d)
  case Nil
  then show ?case by simp
next
  case (Cons x cs)
  have "\<not> hasTicketBeenScanned (of_ticketId r) (clear_conflict b c d)" for d
    using assms(2)
    by (auto simp: clear_conflict_def clearScannedTicket_def hasTicketBeenScanned_def find_row_None_iff delete_where_def)
  then show ?case
    using Cons fold_conflict_scanned [of "of_ticketId r" b cs "clear_conflict b c d"] by (cases "c = x") auto
qed

text \<open>
  A scan that the server rejects because the ticket was used elsewhere is taken off the guard of the
  device, so the device accepts the same payload again as soon as it is offline.
\<close>

theorem conflict_is_accepted_again:
  assumes "dv_isSyncing d" and "syncOfflineLogs C k t net (dv_batch d) (dv_user d) w = (w', Some results)"
    and "list_ex (\<lambda>res. sr_conflict res \<and> \<not> sr_success res \<and>
        find_row of_offlineEventId (sr_offlineEventId res) (dv_batch d) = Some r) results"
    and "pwa_parseQrPayload raw = Some p" and "qp_ticketId p = of_ticketId r"
  shows "accepted_offline (snd (handleScan C k env raw
           (handleOffline (fst (sync_end C k t net (d, w))), w'')))"
proof -
  obtain res where res: "res \<in> set results" "sr_conflict res" "\<not> sr_success res"
    "find_row of_offlineEventId (sr_offlineEventId res) (dv_batch d) = Some r"
    using assms(3) by (auto simp: list_ex_iff)
  then have "dv_batch d \<noteq> []" by auto
  then have after: "fst (sync_end C k t net (d, w)) = (apply_results results d)\<lparr>dv_isSyncing := False\<rparr>"
    using assms(1,2) by (simp add: sync_end_def)
  have "\<not> hasTicketBeenScanned (of_ticketId r) (apply_results results d)"
  proof -
    have "hasTicketBeenScanned (of_ticketId r) (apply_results results d) =
      hasTicketBeenScanned (of_ticketId r) (fold (clear_conflict (dv_batch d))
        (filter (\<lambda>r. sr_conflict r \<and> \<not> sr_success r) results)
        (if synced_ids results = [] then d else markSynced (synced_ids results) d))"
      by (cases "synced_ids results = []")
        (simp_all add: apply_results_def Let_def refreshPendingCount_def hasTicketBeenScanned_def)
    then show ?thesis using fold_conflict_clears [OF _ res(4)] res(1,2,3) by simp
  qed
  then show ?thesis
    using assms(4,5) by (intro conjunct1 [OF offline_accepts_any_payload [OF assms(4)]])
      (simp_all add: after handleOffline_def hasTicketBeenScanned_def)
qed

section \<open>Parsing\<close>

lemma trim_id:
  assumes "s \<noteq> []" and "\<not> is_space (hd s)" and "\<not> is_space (last s)"
  shows "trim s = s"
proof -
  have "dropWhile is_space s = s" using assms(1,2) by (cases s) auto
  moreover have "dropWhile is_space (rev s) = rev s" using assms(1,3) by (cases s rule: rev_cases) auto
  ultimately show ?thesis by (simp add: trim_def)
qed


section \<open>Examples\<close>

definition demo_env :: "time \<Rightarrow> string \<Rightarrow> scan_env" where
  "demo_env now ev =
     \<lparr>sv_now = now, sv_timeStr = ''12:00'', sv_uuid = ''u'', sv_eventId = ev, sv_net = DELIVERED,
      sv_checkFails = False, sv_saveFails = False, sv_markFails = False\<rparr>"

definition demo_device :: device where
  "demo_device = handleOffline (new_device ''A'' ''s1'')"

definition demo_queue :: device where
  "demo_queue = fst (fst (handleScan demo_crypto ''k'' (demo_env 5 ''e1'') ''t0:r:A'' (demo_device, demo_door)))"

definition forged_queue :: device where
  "forged_queue = fst (fst (handleScan demo_crypto ''k'' (demo_env 6 ''e2'') ''x:y:z'' (demo_queue, demo_door)))"

lemma demo_device_sound [simp]: "queue_sound (demo_device, w)"
  by (simp add: queue_sound_def demo_device_def handleOffline_def new_device_def)


theorem two_uploads_drain_the_queue_witness:
  "\<exists>d1 w1 d2 w2. triggerSync demo_crypto ''k'' 6 DELIVERED (demo_queue, demo_door) = (d1, w1) \<and>
     triggerSync demo_crypto ''k'' 7 DELIVERED (d1, w1) = (d2, w2) \<and> getUnsynced demo_queue \<noteq> [] \<and> getUnsynced d2 = []"
proof -
  obtain d1 w1 where first: "triggerSync demo_crypto ''k'' 6 DELIVERED (demo_queue, demo_door) = (d1, w1)"
    by (cases "triggerSync demo_crypto ''k'' 6 DELIVERED (demo_queue, demo_door)")
  obtain d2 w2 where second: "triggerSync demo_crypto ''k'' 7 DELIVERED (d1, w1) = (d2, w2)"
    by (cases "triggerSync demo_crypto ''k'' 7 DELIVERED (d1, w1)")
  have "\<not> dv_isSyncing demo_queue" "map of_ticketId (getUnsynced demo_queue) = [''t0'']" by code_simp+
  then have "list_all (\<lambda>r. find_ticket (of_ticketId r) demo_door \<noteq> None) (getUnsynced demo_queue)"
    "getUnsynced demo_queue \<noteq> []"
    by (auto simp: map_eq_Cons_conv)
  with two_uploads_drain_the_queue [OF \<open>\<not> dv_isSyncing demo_queue\<close> _ first second] first second
  show ?thesis by blast
qed


theorem offline_accepts_a_ticket_once_witness:
  "length (filter (\<lambda>(x, r). scanned_id x = Some ''t0'' \<and> accepted_offline r)
    (snd (run_ops (\<lambda>x. handleScan demo_crypto ''k'' (fst x) (snd x))
      [(demo_env 5 ''e1'', ''t0:r:A''), (demo_env 6 ''e2'', '' t0:other:A'')] (demo_device, demo_door)))) \<le> 1"
  by (rule offline_accepts_a_ticket_once) (simp add: demo_env_def idb_works_def)

theorem offline_accepts_any_payload_witness:
  "accepted_offline (snd (handleScan demo_crypto ''k'' (demo_env 5 ''e1'') ''x:y:z'' (demo_device, demo_door)))"
proof -
  have "pwa_parseQrPayload ''x:y:z'' = Some \<lparr>qp_ticketId = ''x'', qp_rawToken = ''y'', qp_gateId = ''z''\<rparr>"
    "\<not> dv_isOnline demo_device" "\<not> hasTicketBeenScanned ''x'' demo_device"
    by code_simp+
  then show ?thesis using offline_accepts_any_payload [of "''x:y:z''" _ demo_device] by simp
qed

text \<open>The ticket of the queue was used online before the upload.\<close>

definition used_door :: world where
  "used_door = fst (verifyAndCheckin demo_crypto ''k'' 6 (demo_scan None) ''s2'' demo_door)"

theorem conflict_is_accepted_again_witness:
  "accepted_offline (snd (handleScan demo_crypto ''k'' (demo_env 9 ''e3'') ''t0:r:A''
     (handleOffline (fst (sync_end demo_crypto ''k'' 8 DELIVERED (sync_begin demo_queue, used_door))), used_door)))"
proof -
  let ?d = "sync_begin demo_queue"
  let ?r = "\<lparr>of_offlineEventId = ''e1'', of_ticketId = ''t0'', of_token = ''r'', of_deviceId = ''device-u'',
    of_gateId = ''A'', of_scannedAt = 5, of_synced = False\<rparr>"
  let ?res = "\<lparr>sr_ticketId = ''t0'', sr_offlineEventId = ''e1'', sr_success = False,
    sr_status = REJECTED_CONFLICT, sr_conflict = True, sr_message = MsgConflict\<rparr>"
  obtain w' where answer: "syncOfflineLogs demo_crypto ''k'' 8 DELIVERED (dv_batch ?d) (dv_user ?d) used_door = (w', Some [?res])"
  proof -
    have "snd (syncOfflineLogs demo_crypto ''k'' 8 DELIVERED (dv_batch ?d) (dv_user ?d) used_door) = Some [?res]"
      by code_simp
    then show ?thesis using that by (metis prod.collapse)
  qed
  have "dv_isSyncing ?d" "find_row of_offlineEventId ''e1'' (dv_batch ?d) = Some ?r"
    "pwa_parseQrPayload ''t0:r:A'' = Some \<lparr>qp_ticketId = ''t0'', qp_rawToken = ''r'', qp_gateId = ''A''\<rparr>"
    by code_simp+
  then show ?thesis
    using conflict_is_accepted_again [OF _ answer, of ?r "''t0:r:A''"] by simp
qed


end
