(* ===== verification/Concert_Service.thy ===== *)
theory Concert_Service
  imports Ticket_Type_Service Payment_Gateway
begin

text \<open>
  \<open>concert.service.ts\<close> and \<open>reminder.service.ts\<close>: the public listing and detail of concerts with
  their cache, maintenance of concerts by organizers, removal with all its rows, and the delayed
  reminder job of a concert.

  \<^item> The calls that the code starts without awaiting them (reminder, invalidation) run here right
    after the handler.  A cached answer is the value that was stored; the code gets the dates back
    as strings, which look the same on the wire.
  \<^item> Of BullMQ the reminder uses this: a job is added under an identifier unless one is there
    already, and a failed job stays under its identifier, as the options ask for.
\<close>

section \<open>Requests and answers\<close>

record concert_query =
  cq_status :: "ConcertStatus option"
  cq_page :: "nat option"
  cq_limit :: "nat option"

record create_concert_dto =
  cc_title :: string
  cc_slug :: string
  cc_description :: "string option"
  cc_artistBio :: "string option"
  cc_venue :: string
  cc_startsAt :: time
  cc_saleStartsAt :: "time option"
  cc_saleEndsAt :: "time option"
  cc_status :: "ConcertStatus option"
  cc_seatMapUrl :: "string option"
  cc_coverImageUrl :: "string option"
  cc_organizerId :: "id option"

text \<open>Every field may be absent; a nullable one may also be present and null.\<close>

record update_concert_dto =
  cu_title :: "string option"
  cu_slug :: "string option"
  cu_description :: "string option option"
  cu_artistBio :: "string option option"
  cu_venue :: "string option"
  cu_startsAt :: "time option"
  cu_saleStartsAt :: "time option option"
  cu_saleEndsAt :: "time option option"
  cu_status :: "ConcertStatus option"
  cu_seatMapUrl :: "string option option"
  cu_coverImageUrl :: "string option option"

definition type_summary :: "ticket_type \<Rightarrow> ticket_type_summary" where
  "type_summary tt =
     \<lparr>ts_id = tt_id tt, ts_name = tt_name tt, ts_price = tt_price tt, ts_totalQty = tt_totalQty tt,
      ts_soldQty = tt_soldQty tt, ts_reservedQty = tt_reservedQty tt, ts_maxPerUser = tt_maxPerUser tt,
      ts_status = tt_status tt, ts_saleStartsAt = tt_saleStartsAt tt, ts_saleEndsAt = tt_saleEndsAt tt\<rparr>"

definition file_summary :: "uploaded_file \<Rightarrow> uploaded_file_summary" where
  "file_summary uf =
     \<lparr>fs_id = uf_id uf, fs_concertId = uf_concertId uf, fs_originalName = uf_fileName uf,
      fs_objectKey = uf_objectKey uf, fs_mimeType = uf_mimeType uf, fs_sizeBytes = 0,
      fs_purpose = uf_purpose uf, fs_status = uf_status uf, fs_errorMessage = uf_errorMessage uf,
      fs_createdAt = uf_createdAt uf\<rparr>"

text \<open>The relations a query includes: the organizer (all of it or the name only), types, files.\<close>

definition cs_toResponse ::
  "organizer_summary option \<Rightarrow> ticket_type list option \<Rightarrow> uploaded_file list option \<Rightarrow> concert \<Rightarrow>
   concert_response" where
  "cs_toResponse organizer types ufs c =
     \<lparr>cr_id = c_id c, cr_title = c_title c, cr_slug = c_slug c, cr_description = c_description c,
      cr_artistBio = c_artistBio c, cr_venue = c_venue c, cr_startsAt = c_startsAt c,
      cr_saleStartsAt = c_saleStartsAt c, cr_saleEndsAt = c_saleEndsAt c, cr_status = c_status c,
      cr_seatMapUrl = c_seatMapUrl c, cr_coverImageUrl = c_coverImageUrl c,
      cr_organizerId = c_organizerId c, cr_organizerName = Option.bind organizer os_fullName,
      cr_createdAt = c_createdAt c, cr_updatedAt = c_updatedAt c,
      cr_ticketTypes = map_option (map type_summary) types, cr_organizer = organizer,
      cr_uploadedFiles = map_option (map file_summary) ufs\<rparr>"

definition organizer_name :: "concert \<Rightarrow> world \<Rightarrow> organizer_summary option" where
  "organizer_name c w =
     map_option (\<lambda>u. \<lparr>os_id = [], os_fullName = u_fullName u, os_email = []\<rparr>)
       (find_user (c_organizerId c) w)"

definition organizer_full :: "concert \<Rightarrow> world \<Rightarrow> organizer_summary option" where
  "organizer_full c w =
     map_option (\<lambda>u. \<lparr>os_id = u_id u, os_fullName = u_fullName u, os_email = u_email u\<rparr>)
       (find_user (c_organizerId c) w)"

definition types_by_price :: "id \<Rightarrow> world \<Rightarrow> ticket_type list" where
  "types_by_price concertId w = sort_key (\<lambda>t. - tt_price t) (ticket_types_of concertId w)"

text \<open>What the public detail shows of a row.\<close>

definition public_detail :: "concert \<Rightarrow> world \<Rightarrow> concert_response" where
  "public_detail c w = cs_toResponse (organizer_name c w) (Some (types_by_price (c_id c) w)) None c"

section \<open>The cache\<close>

definition REDIS_TTL_CONCERT_CACHE :: int where
  "REDIS_TTL_CONCERT_CACHE = 60"

fun concert_status_name :: "ConcertStatus \<Rightarrow> string" where
  "concert_status_name DRAFT = ''DRAFT''"
| "concert_status_name PUBLISHED = ''PUBLISHED''"
| "concert_status_name SALE_OPEN = ''SALE_OPEN''"
| "concert_status_name SALE_CLOSED = ''SALE_CLOSED''"
| "concert_status_name CONCERT_CANCELLED = ''CANCELLED''"
| "concert_status_name COMPLETED = ''COMPLETED''"

definition REDIS_KEY_CONCERT_LIST_QUERY :: "string \<Rightarrow> nat \<Rightarrow> nat \<Rightarrow> string" where
  "REDIS_KEY_CONCERT_LIST_QUERY status page limit =
     ''cache:concert:list:'' @ status @ '':'' @ show_nat page @ '':'' @ show_nat limit"

definition query_or :: "'a option \<Rightarrow> 'a \<Rightarrow> 'a" where
  "query_or x d = (case x of None \<Rightarrow> d | Some y \<Rightarrow> y)"

definition listCacheKey :: "concert_query \<Rightarrow> string" where
  "listCacheKey query =
     (let status = query_or (cq_status query) PUBLISHED;
          page = query_or (cq_page query) 1;
          limit = query_or (cq_limit query) 20
      in if status = PUBLISHED \<and> page = 1 \<and> limit = 20 then REDIS_KEY_CONCERT_LIST
         else REDIS_KEY_CONCERT_LIST_QUERY (concert_status_name status) page limit)"

definition cached_list :: "time \<Rightarrow> string \<Rightarrow> redis \<Rightarrow> concert_list_response option" where
  "cached_list now k r = (case redis_get now k r of Some (RConcertList l) \<Rightarrow> Some l | _ \<Rightarrow> None)"

definition cached_detail :: "time \<Rightarrow> string \<Rightarrow> redis \<Rightarrow> concert_response option" where
  "cached_detail now k r = (case redis_get now k r of Some (RConcert c) \<Rightarrow> Some c | _ \<Rightarrow> None)"

definition cacheSet :: "time \<Rightarrow> string \<Rightarrow> rval \<Rightarrow> world \<Rightarrow> world" where
  "cacheSet now k v w = w\<lparr>redisdb := redis_set now k v (Some REDIS_TTL_CONCERT_CACHE) (redisdb w)\<rparr>"

section \<open>Public reads\<close>

text \<open>A page of the concerts that satisfy a condition, by starting time.\<close>

definition concert_page ::
  "(concert \<Rightarrow> concert_response) \<Rightarrow> (concert \<Rightarrow> bool) \<Rightarrow> nat \<Rightarrow> nat \<Rightarrow> world \<Rightarrow> concert_list_response" where
  "concert_page show cond page limit w =
     (let rows = sort_key c_startsAt (filter cond (concerts w));
          total = count_where cond (concerts w)
      in \<lparr>cl_data = map show (page_of page limit rows), cl_total = total, cl_page = page,
          cl_limit = limit, cl_totalPages = ceil_div total limit\<rparr>)"

definition cs_findAll :: "time \<Rightarrow> concert_query \<Rightarrow> world \<Rightarrow> world \<times> concert_list_response" where
  "cs_findAll now query w =
     (let cacheKey = listCacheKey query
      in case cached_list now cacheKey (redisdb w) of
           Some l \<Rightarrow> (w, l)
         | None \<Rightarrow>
             let status = query_or (cq_status query) PUBLISHED;
                 result = concert_page (\<lambda>c. cs_toResponse (organizer_name c w) None None c)
                            (\<lambda>c. c_status c = status) (query_or (cq_page query) 1)
                            (query_or (cq_limit query) 20) w
             in (cacheSet now cacheKey (RConcertList result) w, result))"

definition cs_findOne :: "time \<Rightarrow> id \<Rightarrow> concert_response handler" where
  "cs_findOne now i w =
     (case cached_detail now (REDIS_KEY_CONCERT_DETAIL i) (redisdb w) of
        Some c \<Rightarrow> (w, Inr c)
      | None \<Rightarrow>
          (case find_concert i w of
             None \<Rightarrow> (w, Inl (NotFoundException ''concert''))
           | Some c \<Rightarrow>
               if c_status c = DRAFT then (w, Inl (NotFoundException ''concert''))
               else (cacheSet now (REDIS_KEY_CONCERT_DETAIL i) (RConcert (public_detail c w)) w,
                     Inr (public_detail c w))))"

definition find_slug :: "string \<Rightarrow> world \<Rightarrow> concert option" where
  "find_slug slug w = find_row c_slug slug (concerts w)"

definition cs_findBySlug :: "string \<Rightarrow> world \<Rightarrow> exn + concert_response" where
  "cs_findBySlug slug w =
     (case find_slug slug w of
        None \<Rightarrow> Inl (NotFoundException ''concert'')
      | Some c \<Rightarrow>
          if c_status c = DRAFT then Inl (NotFoundException ''concert'') else Inr (public_detail c w))"

section \<open>Organizer reads\<close>

definition cs_findAdminAll ::
  "concert_query \<Rightarrow> id option \<Rightarrow> Role option \<Rightarrow> world \<Rightarrow> concert_list_response" where
  "cs_findAdminAll query userId role w =
     concert_page (\<lambda>c. cs_toResponse (organizer_full c w) (Some (types_by_price (c_id c) w)) None c)
       (\<lambda>c. (case cq_status query of None \<Rightarrow> True | Some s \<Rightarrow> c_status c = s) \<and>
            (role = Some ORGANIZER \<longrightarrow> (case userId of None \<Rightarrow> True | Some u \<Rightarrow> c_organizerId c = u)))
       (query_or (cq_page query) 1) (query_or (cq_limit query) 20) w"

definition not_own_concert :: "concert \<Rightarrow> id option \<Rightarrow> Role option \<Rightarrow> bool" where
  "not_own_concert c userId userRole \<longleftrightarrow> userRole = Some ORGANIZER \<and> Some (c_organizerId c) \<noteq> userId"

definition cs_findAdminOne :: "id \<Rightarrow> id option \<Rightarrow> Role option \<Rightarrow> world \<Rightarrow> exn + concert_response" where
  "cs_findAdminOne i userId userRole w =
     (case find_concert i w of
        None \<Rightarrow> Inl (NotFoundException ''concert'')
      | Some c \<Rightarrow>
          if not_own_concert c userId userRole then Inl (ForbiddenException ''concert of another organizer'')
          else Inr (cs_toResponse (organizer_full c w) (Some (types_by_price i w))
                 (Some (rev (filter (\<lambda>f. uf_concertId f = Some i) (uploadedFiles w)))) c))"

definition cs_findAdminGuests :: "id \<Rightarrow> id option \<Rightarrow> Role option \<Rightarrow> world \<Rightarrow> exn + guest list" where
  "cs_findAdminGuests i userId userRole w =
     (case find_concert i w of
        None \<Rightarrow> Inl (NotFoundException ''concert'')
      | Some c \<Rightarrow>
          if not_own_concert c userId userRole then Inl (ForbiddenException ''concert of another organizer'')
          else Inr (filter (\<lambda>g. gl_concertId g = i) (guestListEntries w)))"

section \<open>The reminder of a concert\<close>

definition REMINDER_DELAY_MS :: int where
  "REMINDER_DELAY_MS = 24 * 60 * 60 * 1000"

definition update_concert :: "id \<Rightarrow> (concert \<Rightarrow> concert) \<Rightarrow> world \<Rightarrow> world" where
  "update_concert i f w = w\<lparr>concerts := update_where (\<lambda>c. c_id c = i) f (concerts w)\<rparr>"

definition queue_add :: "reminder_job \<Rightarrow> world \<Rightarrow> world" where
  "queue_add job w =
     (if rj_id job \<in> rj_id ` set (reminderJobs w) then w
      else w\<lparr>reminderJobs := reminderJobs w @ [job]\<rparr>)"

definition removable :: "job_state \<Rightarrow> bool" where
  "removable s \<longleftrightarrow> s = JOB_DELAYED \<or> s = JOB_WAITING"

definition cancelReminder :: "time \<Rightarrow> id \<Rightarrow> world \<Rightarrow> world" where
  "cancelReminder now concertId w =
     (case Option.bind (find_concert concertId w) c_reminderJobId of
        None \<Rightarrow> w
      | Some jobId \<Rightarrow>
          if jobId = [] then w
          else update_concert concertId (\<lambda>c. c\<lparr>c_reminderJobId := None, c_updatedAt := now\<rparr>)
            (w\<lparr>reminderJobs := delete_where (\<lambda>j. rj_id j = jobId \<and> removable (rj_state j))
                 (reminderJobs w)\<rparr>))"

definition reminder_job_id :: "id \<Rightarrow> string" where
  "reminder_job_id concertId = ''reminder-'' @ concertId"

definition scheduleReminder :: "time \<Rightarrow> id \<Rightarrow> world \<Rightarrow> world" where
  "scheduleReminder now concertId w =
     (case find_concert concertId w of
        None \<Rightarrow> w
      | Some c \<Rightarrow>
          if c_status c \<noteq> PUBLISHED \<and> c_status c \<noteq> SALE_OPEN then w
          else let reminderTime = c_startsAt c - REMINDER_DELAY_MS
            in if reminderTime \<le> now then cancelReminder now concertId w
               else update_concert concertId
                      (\<lambda>x. x\<lparr>c_reminderJobId := Some (reminder_job_id concertId), c_updatedAt := now\<rparr>)
                      (queue_add \<lparr>rj_id = reminder_job_id concertId, rj_concertId = concertId,
                                  rj_delay = reminderTime - now, rj_state = JOB_DELAYED\<rparr>
                        (cancelReminder now concertId w)))"

section \<open>Maintenance\<close>

definition insert_concert :: "concert \<Rightarrow> unit handler" where
  "insert_concert c w =
     (if find_concert (c_id c) w \<noteq> None \<or> find_slug (c_slug c) w \<noteq> None
      then (w, Inl (UniqueViolation ''Concert''))
      else if find_user (c_organizerId c) w = None then (w, Inl (ForeignKeyViolation ''Concert''))
      else (w\<lparr>concerts := concerts w @ [c]\<rparr>, Inr ()))"

text \<open>An optional string that is absent or empty counts as not given.\<close>

definition text_or :: "string option \<Rightarrow> string \<Rightarrow> string" where
  "text_or x d = (case x of None \<Rightarrow> d | Some s \<Rightarrow> if s = [] then d else s)"

definition cs_create :: "time \<Rightarrow> id \<Rightarrow> create_concert_dto \<Rightarrow> id \<Rightarrow> concert_response handler" where
  "cs_create now newId dto fallbackOrganizerId w =
     (if find_slug (cc_slug dto) w \<noteq> None then (w, Inl (ConflictException ''slug exists''))
      else let initialStatus = query_or (cc_status dto) DRAFT;
               c = \<lparr>c_id = newId, c_organizerId = text_or (cc_organizerId dto) fallbackOrganizerId,
                    c_title = cc_title dto, c_slug = cc_slug dto, c_description = cc_description dto,
                    c_artistBio = cc_artistBio dto, c_venue = cc_venue dto, c_startsAt = cc_startsAt dto,
                    c_saleStartsAt = cc_saleStartsAt dto, c_saleEndsAt = cc_saleEndsAt dto,
                    c_status = initialStatus, c_seatMapUrl = cc_seatMapUrl dto,
                    c_coverImageUrl = cc_coverImageUrl dto, c_reminderJobId = None,
                    c_createdAt = now, c_updatedAt = now\<rparr>
           in bindE (insert_concert c w) (\<lambda>w1 _.
                (if initialStatus = PUBLISHED \<or> initialStatus = SALE_OPEN
                 then invalidateCache (Some newId) (scheduleReminder now newId w1) else w1,
                 Inr (cs_toResponse (organizer_full c w1) None None c))))"

definition apply_concert_update :: "time \<Rightarrow> update_concert_dto \<Rightarrow> concert \<Rightarrow> concert" where
  "apply_concert_update now dto c =
     c\<lparr>c_title := set_if (cu_title dto) (c_title c), c_slug := set_if (cu_slug dto) (c_slug c),
       c_description := set_if (cu_description dto) (c_description c),
       c_artistBio := set_if (cu_artistBio dto) (c_artistBio c),
       c_venue := set_if (cu_venue dto) (c_venue c),
       c_startsAt := set_if (cu_startsAt dto) (c_startsAt c),
       c_saleStartsAt := set_if (cu_saleStartsAt dto) (c_saleStartsAt c),
       c_saleEndsAt := set_if (cu_saleEndsAt dto) (c_saleEndsAt c),
       c_status := set_if (cu_status dto) (c_status c),
       c_seatMapUrl := set_if (cu_seatMapUrl dto) (c_seatMapUrl c),
       c_coverImageUrl := set_if (cu_coverImageUrl dto) (c_coverImageUrl c), c_updatedAt := now\<rparr>"

text \<open>The unique index on the slug, checked by the database when the row is written.\<close>

definition slug_taken :: "id \<Rightarrow> string \<Rightarrow> world \<Rightarrow> bool" where
  "slug_taken i slug w \<longleftrightarrow> (\<exists>c \<in> set (concerts w). c_slug c = slug \<and> c_id c \<noteq> i)"

definition reminder_affected :: "update_concert_dto \<Rightarrow> concert \<Rightarrow> bool" where
  "reminder_affected dto c \<longleftrightarrow>
     (case cu_startsAt dto of None \<Rightarrow> False | Some s \<Rightarrow> c_startsAt c \<noteq> s) \<or>
     (case cu_status dto of None \<Rightarrow> False | Some s \<Rightarrow> s \<noteq> c_status c)"

definition cs_update ::
  "time \<Rightarrow> id \<Rightarrow> update_concert_dto \<Rightarrow> id option \<Rightarrow> Role option \<Rightarrow> concert_response handler" where
  "cs_update now i dto userId userRole w =
     (case find_concert i w of
        None \<Rightarrow> (w, Inl (NotFoundException ''concert''))
      | Some existing \<Rightarrow>
          if not_own_concert existing userId userRole
          then (w, Inl (ForbiddenException ''concert of another organizer''))
          else if (case cu_slug dto of None \<Rightarrow> False
                   | Some s \<Rightarrow> s \<noteq> [] \<and> s \<noteq> c_slug existing \<and> find_slug s w \<noteq> None)
          then (w, Inl (ConflictException ''slug exists''))
          else let c = apply_concert_update now dto existing
            in if slug_taken i (c_slug c) w then (w, Inl (UniqueViolation ''Concert''))
               else let w1 = update_concert i (apply_concert_update now dto) w;
                        w2 = (if reminder_affected dto existing then scheduleReminder now i w1 else w1)
                 in (invalidateCache (Some i) w2, Inr (public_detail c w1)))"

section \<open>Removal\<close>

text \<open>
  The statements of the removal, in their order, each refused by the first foreign key with
  \<open>ON DELETE RESTRICT\<close> that still refers to a row it deletes: items by the tickets issued for
  them, orders by their payments, tickets and items, types by items, tickets and counters.
  A check-in log loses its ticket or its concert when that is deleted, and gates go with
  their concert.
\<close>

definition delete_tickets_of :: "id \<Rightarrow> world \<Rightarrow> world" where
  "delete_tickets_of i w =
     (let gone = map t_id (filter (\<lambda>t. t_concertId t = i) (tickets w))
      in w\<lparr>tickets := delete_where (\<lambda>t. t_concertId t = i) (tickets w),
           checkinLogs := update_where
             (\<lambda>l. case l_ticketId l of None \<Rightarrow> False | Some t \<Rightarrow> t \<in> set gone)
             (\<lambda>l. l\<lparr>l_ticketId := None\<rparr>) (checkinLogs w)\<rparr>)"

definition item_ids_of :: "id \<Rightarrow> world \<Rightarrow> id list" where
  "item_ids_of i w =
     concat (map (\<lambda>ord. map oi_id (o_items ord)) (filter (\<lambda>ord. o_concertId ord = i) (orders w)))"

definition delete_items_of :: "id \<Rightarrow> unit handler" where
  "delete_items_of i w =
     (if \<exists>t \<in> set (tickets w). t_orderItemId t \<in> set (item_ids_of i w)
      then (w, Inl (ForeignKeyViolation ''OrderItem''))
      else (w\<lparr>orders := update_where (\<lambda>ord. o_concertId ord = i) (\<lambda>ord. ord\<lparr>o_items := []\<rparr>) (orders w)\<rparr>,
            Inr ()))"

definition order_referenced :: "order \<Rightarrow> world \<Rightarrow> bool" where
  "order_referenced ord w \<longleftrightarrow>
     o_items ord \<noteq> [] \<or> (\<exists>p \<in> set (payments w). p_orderId p = o_id ord) \<or>
     (\<exists>t \<in> set (tickets w). t_orderId t = o_id ord)"

definition delete_orders_of :: "id \<Rightarrow> unit handler" where
  "delete_orders_of i w =
     (if \<exists>ord \<in> set (orders w). o_concertId ord = i \<and> order_referenced ord w
      then (w, Inl (ForeignKeyViolation ''Order''))
      else (w\<lparr>orders := delete_where (\<lambda>ord. o_concertId ord = i) (orders w)\<rparr>, Inr ()))"

definition delete_types_of :: "id \<Rightarrow> unit handler" where
  "delete_types_of i w =
     (if \<exists>tt \<in> set (ticketTypes w). tt_concertId tt = i \<and> type_referenced (tt_id tt) w
      then (w, Inl (ForeignKeyViolation ''TicketType''))
      else (w\<lparr>ticketTypes := delete_where (\<lambda>tt. tt_concertId tt = i) (ticketTypes w)\<rparr>, Inr ()))"

definition concert_referenced :: "id \<Rightarrow> world \<Rightarrow> bool" where
  "concert_referenced i w \<longleftrightarrow>
     (\<exists>tt \<in> set (ticketTypes w). tt_concertId tt = i) \<or> (\<exists>ord \<in> set (orders w). o_concertId ord = i) \<or>
     (\<exists>t \<in> set (tickets w). t_concertId t = i) \<or> (\<exists>g \<in> set (guestListEntries w). gl_concertId g = i)"

definition delete_concert :: "id \<Rightarrow> unit handler" where
  "delete_concert i w =
     (if find_concert i w = None then (w, Inl (RecordNotFound ''Concert''))
      else if concert_referenced i w then (w, Inl (ForeignKeyViolation ''Concert''))
      else (w\<lparr>concerts := delete_where (\<lambda>c. c_id c = i) (concerts w),
              gates := delete_where (\<lambda>g. g_concertId g = i) (gates w),
              checkinLogs := update_where (\<lambda>l. l_concertId l = Some i) (\<lambda>l. l\<lparr>l_concertId := None\<rparr>)
                (checkinLogs w),
              uploadedFiles := update_where (\<lambda>f. uf_concertId f = Some i) (\<lambda>f. f\<lparr>uf_concertId := None\<rparr>)
                (uploadedFiles w)\<rparr>, Inr ()))"

definition remove_rows :: "id \<Rightarrow> unit handler" where
  "remove_rows i w =
     (let w1 = w\<lparr>checkinLogs := delete_where (\<lambda>l. l_concertId l = Some i) (checkinLogs w)\<rparr>;
          w2 = delete_tickets_of i w1
      in bindE (delete_items_of i w2) (\<lambda>w3 _.
         bindE (delete_orders_of i w3) (\<lambda>w4 _.
         bindE (delete_types_of i w4) (\<lambda>w5 _.
           delete_concert i
             (w5\<lparr>guestListEntries := delete_where (\<lambda>g. gl_concertId g = i) (guestListEntries w5),
                 uploadedFiles := delete_where (\<lambda>f. uf_concertId f = Some i) (uploadedFiles w5)\<rparr>)))))"

definition active_orders :: "id \<Rightarrow> world \<Rightarrow> order list" where
  "active_orders i w =
     filter (\<lambda>ord. o_concertId ord = i \<and> (o_status ord = PENDING_PAYMENT \<or> o_status ord = PAID)) (orders w)"

definition cs_remove :: "id \<Rightarrow> string handler" where
  "cs_remove i w =
     (case find_concert i w of
        None \<Rightarrow> (w, Inl (NotFoundException ''concert''))
      | Some c \<Rightarrow>
          if active_orders i w \<noteq> [] then (w, Inl (BadRequestException ''active orders''))
          else bindE (transaction (remove_rows i) w) (\<lambda>w1 _.
            (invalidateCache (Some i) w1, Inr (''Concert '' @ c_title c @ '' deleted successfully''))))"

end
