(* ===== verification/Concert_Cache.thy ===== *)
theory Concert_Cache
  imports Concert_Service
begin

text \<open>
  The cache of the concert service: a call changes one concert and invalidates what was kept of it,
  so the cached detail and the cached default list never differ from the tables, while every other
  page of the list may be as old as its time to live.
\<close>

section \<open>Calls of the service\<close>

datatype concert_call =
    FindAll time concert_query
  | FindOne time id
  | FindBySlug string
  | CreateConcert time id create_concert_dto id
  | UpdateConcert time id update_concert_dto "id option" "Role option"
  | RemoveConcert id

datatype concert_answer =
    AnswerList concert_list_response
  | AnswerConcert "exn + concert_response"
  | AnswerMessage "exn + string"

fun run_concert_call :: "concert_call \<Rightarrow> world \<Rightarrow> world \<times> concert_answer" where
  "run_concert_call (FindAll now q) w = map_prod id AnswerList (cs_findAll now q w)"
| "run_concert_call (FindOne now i) w = map_prod id AnswerConcert (cs_findOne now i w)"
| "run_concert_call (FindBySlug s) w = (w, AnswerConcert (cs_findBySlug s w))"
| "run_concert_call (CreateConcert now i dto fb) w = map_prod id AnswerConcert (cs_create now i dto fb w)"
| "run_concert_call (UpdateConcert now i dto u r) w = map_prod id AnswerConcert (cs_update now i dto u r w)"
| "run_concert_call (RemoveConcert i) w = map_prod id AnswerMessage (cs_remove i w)"

section \<open>What a call changes\<close>

text \<open>Only the rows of concert \<open>i\<close> change, and no key of Redis.\<close>

definition touches_only :: "id \<Rightarrow> world \<Rightarrow> world \<Rightarrow> bool" where
  "touches_only i w w' \<longleftrightarrow>
     (\<forall>j. j \<noteq> i \<longrightarrow> find_concert j w' = find_concert j w) \<and>
     (\<forall>j. j \<noteq> i \<longrightarrow> ticket_types_of j w' = ticket_types_of j w) \<and>
     users w' = users w \<and> redisdb w' = redisdb w"

lemma touches_only_refl [simp]: "touches_only i w w"
  by (simp add: touches_only_def)

lemma touches_only_trans: "touches_only i w w1 \<Longrightarrow> touches_only i w1 w2 \<Longrightarrow> touches_only i w w2"
  by (simp add: touches_only_def)

lemma find_concert_update [simp]:
  "(\<And>c. c_id (f c) = c_id c) \<Longrightarrow>
   find_concert j (update_concert i f w) =
     map_option (\<lambda>c. if j = i then f c else c) (find_concert j w)"
  by (cases "find_row c_id j (concerts w)")
    (auto simp: find_concert_def update_concert_def find_row_update_where dest: find_row_SomeD)

lemma find_concert_id: "find_concert i w = Some c \<Longrightarrow> c_id c = i"
  by (auto simp: find_concert_def dest: find_row_SomeD)

lemma update_concert_frame [simp]:
  "users (update_concert i f w) = users w" "ticketTypes (update_concert i f w) = ticketTypes w"
  "redisdb (update_concert i f w) = redisdb w" "reminderJobs (update_concert i f w) = reminderJobs w"
  by (simp_all add: update_concert_def)

lemma touches_only_update:
  "(\<And>c. c_id (f c) = c_id c) \<Longrightarrow> touches_only i w (update_concert i f w)"
  by (auto simp: touches_only_def ticket_types_of_def option.map_ident intro: option.map_ident)

lemma find_concert_jobs [simp]:
  "find_concert i (w\<lparr>reminderJobs := js\<rparr>) = find_concert i w"
  "find_concert i (queue_add j w) = find_concert i w"
  by (simp_all add: find_concert_def queue_add_def)

lemma queue_add_frame [simp]:
  "users (queue_add j w) = users w" "ticketTypes (queue_add j w) = ticketTypes w"
  "redisdb (queue_add j w) = redisdb w" "concerts (queue_add j w) = concerts w"
  by (simp_all add: queue_add_def)

lemma touches_only_jobs: "touches_only i w (w\<lparr>reminderJobs := js\<rparr>)" "touches_only i w (queue_add j w)"
  by (simp_all add: touches_only_def ticket_types_of_def)

lemma touches_only_cancel: "touches_only i w (cancelReminder now i w)"
proof -
  have "touches_only i w (update_concert i f (w\<lparr>reminderJobs := js\<rparr>))"
    if "\<And>c. c_id (f c) = c_id c" for f js
    by (rule touches_only_trans [OF touches_only_jobs(1) touches_only_update [OF that]])
  then show ?thesis by (auto simp: cancelReminder_def split: option.split)
qed

lemma touches_only_schedule: "touches_only i w (scheduleReminder now i w)"
proof -
  have "touches_only i w (update_concert i f (queue_add j (cancelReminder now i w)))"
    if "\<And>c. c_id (f c) = c_id c" for f j
    by (rule touches_only_trans [OF touches_only_cancel
          touches_only_trans [OF touches_only_jobs(2) touches_only_update [OF that]]])
  then show ?thesis
    by (auto simp: scheduleReminder_def Let_def touches_only_cancel split: option.split)
qed

section \<open>A cache that does not show\<close>

definition default_page :: "world \<Rightarrow> concert_list_response" where
  "default_page w =
     concert_page (\<lambda>c. cs_toResponse (organizer_name c w) None None c) (\<lambda>c. c_status c = PUBLISHED) 1 20 w"

text \<open>What the detail of a concert is without a cache.\<close>

definition detail_of :: "id \<Rightarrow> world \<Rightarrow> exn + concert_response" where
  "detail_of i w =
     (case find_concert i w of
        None \<Rightarrow> Inl (NotFoundException ''concert'')
      | Some c \<Rightarrow> if c_status c = DRAFT then Inl (NotFoundException ''concert'') else Inr (public_detail c w))"

definition coherent :: "world \<Rightarrow> bool" where
  "coherent w \<longleftrightarrow>
     (\<forall>i v e. redisdb w (REDIS_KEY_CONCERT_DETAIL i) = Some (v, e) \<longrightarrow>
        (\<exists>r. v = RConcert r \<and> detail_of i w = Inr r)) \<and>
     (\<forall>v e. redisdb w REDIS_KEY_CONCERT_LIST = Some (v, e) \<longrightarrow> v = RConcertList (default_page w))"

lemma concert_keys [simp]:
  "REDIS_KEY_CONCERT_DETAIL i = REDIS_KEY_CONCERT_DETAIL j \<longleftrightarrow> i = j"
  "REDIS_KEY_CONCERT_DETAIL i \<noteq> REDIS_KEY_CONCERT_LIST" "REDIS_KEY_CONCERT_LIST \<noteq> REDIS_KEY_CONCERT_DETAIL i"
  "REDIS_KEY_CONCERT_DETAIL i \<noteq> REDIS_KEY_CONCERT_LIST_QUERY s p n"
  "REDIS_KEY_CONCERT_LIST_QUERY s p n \<noteq> REDIS_KEY_CONCERT_DETAIL i"
  "REDIS_KEY_CONCERT_LIST_QUERY s p n \<noteq> REDIS_KEY_CONCERT_LIST"
  "REDIS_KEY_CONCERT_LIST \<noteq> REDIS_KEY_CONCERT_LIST_QUERY s p n"
  by (simp_all add: key_defs REDIS_KEY_CONCERT_LIST_QUERY_def)

lemma listCacheKey_detail [simp]:
  "listCacheKey q \<noteq> REDIS_KEY_CONCERT_DETAIL i" "REDIS_KEY_CONCERT_DETAIL i \<noteq> listCacheKey q"
  by (simp_all add: listCacheKey_def Let_def)

lemma detail_of_touch:
  "touches_only i w w' \<Longrightarrow> j \<noteq> i \<Longrightarrow> detail_of j w' = detail_of j w"
  by (auto simp: touches_only_def detail_of_def public_detail_def organizer_name_def find_user_def
      types_by_price_def find_concert_id split: option.split)

lemma views_of_redis [simp]:
  "public_detail c (w\<lparr>redisdb := r\<rparr>) = public_detail c w"
  "detail_of i (w\<lparr>redisdb := r\<rparr>) = detail_of i w" "default_page (w\<lparr>redisdb := r\<rparr>) = default_page w"
  by (auto simp: detail_of_def default_page_def concert_page_def public_detail_def organizer_name_def
      find_user_def find_concert_def types_by_price_def ticket_types_of_def split: option.split)

text \<open>A change of one concert, followed by the invalidation, keeps the cache coherent.\<close>

lemma coherent_invalidate:
  assumes "coherent w" and "touches_only i w w'"
  shows "coherent (invalidateCache (Some i) w')"
proof -
  let ?w = "invalidateCache (Some i) w'"
  have db: "redisdb ?w = (redisdb w)(REDIS_KEY_CONCERT_LIST := None, REDIS_KEY_CONCERT_DETAIL i := None)"
    using assms(2) by (simp add: invalidateCache_def redis_del_def touches_only_def)
  have "detail_of j ?w = detail_of j w'" for j by (simp add: invalidateCache_def)
  then show ?thesis
    using assms detail_of_touch [OF assms(2)] unfolding coherent_def db by (auto split: if_splits)
qed

lemma read_only_redis [simp]:
  "detail_of i (cacheSet now k v w) = detail_of i w" "default_page (cacheSet now k v w) = default_page w"
  by (simp_all add: cacheSet_def)

lemma redis_cacheSet [simp]:
  "redisdb (cacheSet now k v w) = (redisdb w)(k \<mapsto> (v, Some (now + 60 * 1000)))"
  by (simp add: cacheSet_def redis_set_def REDIS_TTL_CONCERT_CACHE_def)

lemma redis_getD: "redis_get now k r = Some v \<Longrightarrow> \<exists>e. r k = Some (v, e)"
  by (auto simp: redis_get_def redis_live_def split: option.splits if_splits)

lemma coherent_cacheSet:
  assumes "coherent w"
    and "\<And>i. k = REDIS_KEY_CONCERT_DETAIL i \<Longrightarrow> \<exists>r. v = RConcert r \<and> detail_of i w = Inr r"
    and "k = REDIS_KEY_CONCERT_LIST \<Longrightarrow> v = RConcertList (default_page w)"
  shows "coherent (cacheSet now k v w)"
  using assms unfolding coherent_def by (auto split: if_splits)

definition list_page :: "concert_query \<Rightarrow> world \<Rightarrow> concert_list_response" where
  "list_page q w =
     concert_page (\<lambda>c. cs_toResponse (organizer_name c w) None None c)
       (\<lambda>c. c_status c = query_or (cq_status q) PUBLISHED) (query_or (cq_page q) 1)
       (query_or (cq_limit q) 20) w"

lemma cs_findAll_alt:
  "cs_findAll now q w =
     (case cached_list now (listCacheKey q) (redisdb w) of
        Some l \<Rightarrow> (w, l)
      | None \<Rightarrow> (cacheSet now (listCacheKey q) (RConcertList (list_page q w)) w, list_page q w))"
  by (simp add: cs_findAll_def list_page_def Let_def split: option.split)

lemma cs_findOne_alt:
  "cs_findOne now i w =
     (case cached_detail now (REDIS_KEY_CONCERT_DETAIL i) (redisdb w) of
        Some r \<Rightarrow> (w, Inr r)
      | None \<Rightarrow>
          (case detail_of i w of
             Inl e \<Rightarrow> (w, Inl e)
           | Inr r \<Rightarrow> (cacheSet now (REDIS_KEY_CONCERT_DETAIL i) (RConcert r) w, Inr r)))"
  by (auto simp: cs_findOne_def detail_of_def split: option.split)

lemma list_key_default: "listCacheKey q = REDIS_KEY_CONCERT_LIST \<Longrightarrow> list_page q w = default_page w"
  by (simp add: listCacheKey_def list_page_def default_page_def Let_def split: if_splits)

lemma coherent_findAll: "coherent w \<Longrightarrow> coherent (fst (cs_findAll now q w))"
  unfolding cs_findAll_alt
  by (cases "cached_list now (listCacheKey q) (redisdb w)")
    (auto intro!: coherent_cacheSet simp: list_key_default)

lemma coherent_findOne: "coherent w \<Longrightarrow> coherent (fst (cs_findOne now i w))"
  unfolding cs_findOne_alt
  by (cases "cached_detail now (REDIS_KEY_CONCERT_DETAIL i) (redisdb w)"; cases "detail_of i w")
    (auto intro!: coherent_cacheSet)

lemma touches_only_insert: "find_concert (c_id c) w = None \<Longrightarrow> touches_only (c_id c) w (w\<lparr>concerts := concerts w @ [c]\<rparr>)"
  by (auto simp: touches_only_def find_concert_def ticket_types_of_def split: option.split)

lemma coherent_insert:
  assumes "coherent w" and "find_concert (c_id c) w = None" and "c_status c \<noteq> PUBLISHED"
  shows "coherent (w\<lparr>concerts := concerts w @ [c]\<rparr>)"
proof -
  let ?w = "w\<lparr>concerts := concerts w @ [c]\<rparr>"
  have "default_page ?w = default_page w"
    using assms(3) by (simp add: default_page_def concert_page_def organizer_name_def find_user_def)
  moreover have "detail_of (c_id c) w = Inl (NotFoundException ''concert'')"
    using assms(2) by (simp add: detail_of_def)
  moreover have "detail_of j ?w = detail_of j w" if "j \<noteq> c_id c" for j
    using detail_of_touch [OF touches_only_insert [OF assms(2)] that] .
  ultimately show ?thesis
    using assms(1) unfolding coherent_def by (auto, metis Inr_Inl_False)
qed

lemma coherent_create: "coherent w \<Longrightarrow> coherent (fst (cs_create now i dto fb w))"
proof -
  assume coh: "coherent w"
  have shown: "coherent (invalidateCache (Some (c_id c)) (scheduleReminder now (c_id c) (w\<lparr>concerts := concerts w @ [c]\<rparr>)))"
    if "find_concert (c_id c) w = None" for c
    by (rule coherent_invalidate [OF coh touches_only_trans [OF touches_only_insert [OF that]
          touches_only_schedule]])
  show ?thesis
    unfolding cs_create_def Let_def insert_concert_def
    using coh by (auto intro!: coherent_insert shown [where c = "concert.make _ _ _ _ _ _ _ _ _ _ _ _ _ _ _ _",
          simplified concert.make_def concert.simps])
qed

lemma apply_concert_update_id [simp]: "c_id (apply_concert_update now dto c) = c_id c"
  by (simp add: apply_concert_update_def)

lemma coherent_update: "coherent w \<Longrightarrow> coherent (fst (cs_update now i dto u r w))"
proof -
  assume coh: "coherent w"
  have "touches_only i w (scheduleReminder now i (update_concert i (apply_concert_update now dto) w))"
    by (rule touches_only_trans [OF touches_only_update touches_only_schedule]) simp
  with coh show ?thesis
    by (auto simp: cs_update_def Let_def intro!: coherent_invalidate touches_only_update split: option.split)
qed

text \<open>The row of another concert, its types and all of Redis survive a removal.\<close>

lemma delete_type_find: "find_concert j (w\<lparr>concerts := delete_where (\<lambda>c. c_id c = i) (concerts w)\<rparr>) =
    (if j = i then None else find_concert j w)"
proof -
  have "find_row c_id j (delete_where (\<lambda>c. c_id c = i) rows) = (if j = i then None else find_row c_id j rows)"
    for rows :: "concert list"
    by (induction rows) (auto simp: delete_where_def)
  then show ?thesis by (simp add: find_concert_def)
qed

lemma remove_rows_success:
  assumes "remove_rows i w = (w', Inr ())"
  shows "concerts w' = delete_where (\<lambda>c. c_id c = i) (concerts w) \<and>
    ticketTypes w' = delete_where (\<lambda>tt. tt_concertId tt = i) (ticketTypes w) \<and>
    orders w' = delete_where (\<lambda>ord. o_concertId ord = i) (orders w) \<and>
    tickets w' = delete_where (\<lambda>t. t_concertId t = i) (tickets w) \<and>
    gates w' = delete_where (\<lambda>g. g_concertId g = i) (gates w) \<and>
    guestListEntries w' = delete_where (\<lambda>g. gl_concertId g = i) (guestListEntries w) \<and>
    uploadedFiles w' = delete_where (\<lambda>f. uf_concertId f = Some i) (uploadedFiles w) \<and>
    users w' = users w \<and> redisdb w' = redisdb w \<and> payments w' = payments w \<and> counters w' = counters w \<and>
    (\<forall>l \<in> set (checkinLogs w'). l_concertId l \<noteq> Some i)"
proof -
  have del: "delete_where (\<lambda>ord. o_concertId ord = i)
      (update_where (\<lambda>ord. o_concertId ord = i) (\<lambda>ord. ord\<lparr>o_items := []\<rparr>) rows) =
      delete_where (\<lambda>ord. o_concertId ord = i) rows" for rows :: "order list"
    by (induction rows) (auto simp: delete_where_def)
  have files: "update_where (\<lambda>f. uf_concertId f = Some i) g (delete_where (\<lambda>f. uf_concertId f = Some i) rows) =
      delete_where (\<lambda>f. uf_concertId f = Some i) rows" for g and rows :: "uploaded_file list"
    by (auto intro!: update_where_None simp: delete_where_def)
  show ?thesis
    using assms
    by (auto simp: remove_rows_def delete_tickets_of_def delete_items_of_def delete_orders_of_def
        delete_types_of_def delete_concert_def Let_def del files set_update_where split: if_splits)
qed

lemma touches_only_remove:
  assumes "remove_rows i w = (w', Inr ())"
  shows "touches_only i w w'"
proof -
  have "find_concert j w' = (if j = i then None else find_concert j w)" for j
    using remove_rows_success [OF assms] delete_type_find [of j i w] by (simp add: find_concert_def)
  moreover have "ticket_types_of j w' = ticket_types_of j w" if "j \<noteq> i" for j
  proof -
    have "(tt_concertId tt = j \<and> tt_concertId tt \<noteq> i) = (tt_concertId tt = j)" for tt :: ticket_type
      using that by auto
    then show ?thesis using remove_rows_success [OF assms] by (simp add: ticket_types_of_def delete_where_def conj_commute)
  qed
  ultimately show ?thesis using remove_rows_success [OF assms] by (simp add: touches_only_def)
qed

lemma cs_remove_cases:
  obtains e where "cs_remove i w = (w, Inl e)"
  | c w1 where "find_concert i w = Some c" "active_orders i w = []" "remove_rows i w = (w1, Inr ())"
      "cs_remove i w = (invalidateCache (Some i) w1, Inr (''Concert '' @ c_title c @ '' deleted successfully''))"
proof (cases "find_concert i w")
  case None
  then show ?thesis using that(1) by (simp add: cs_remove_def)
next
  case (Some c)
  obtain w1 r where "remove_rows i w = (w1, r)" by (cases "remove_rows i w")
  then show ?thesis using Some that
    by (cases "active_orders i w = []"; cases r) (auto simp: cs_remove_def)
qed

lemma coherent_remove: "coherent w \<Longrightarrow> coherent (fst (cs_remove i w))"
  by (cases rule: cs_remove_cases [of i w]) (auto intro: coherent_invalidate touches_only_remove)

interpretation concert_cache: op_system run_concert_call "\<lambda>_. True" coherent
proof
  fix w x
  assume "coherent w"
  then show "coherent (fst (run_concert_call x w))"
    by (cases x) (simp_all add: coherent_findAll coherent_findOne coherent_create coherent_update coherent_remove)
qed

lemma coherent_detailD:
  "coherent w \<Longrightarrow> redisdb w (REDIS_KEY_CONCERT_DETAIL i) = Some (RConcert r, e) \<Longrightarrow> detail_of i w = Inr r"
  unfolding coherent_def by blast

lemma coherent_detail: "coherent w \<Longrightarrow> snd (cs_findOne now i w) = detail_of i w"
  unfolding cs_findOne_alt
  by (auto simp: cached_detail_def dest!: redis_getD dest: coherent_detailD split: option.split rval.split sum.split)

lemma coherent_list: "coherent w \<Longrightarrow> listCacheKey q = REDIS_KEY_CONCERT_LIST \<Longrightarrow> snd (cs_findAll now q w) = default_page w"
  unfolding cs_findAll_alt
  by (auto simp: cached_list_def coherent_def list_key_default dest!: redis_getD split: option.split rval.split)

section \<open>Properties of the cache\<close>


definition admin_user :: user where
  "admin_user = \<lparr>u_id = ''org'', u_email = ''o@x'', u_phone = None, u_passwordHash = [],
     u_fullName = Some ''Org'', u_role = ORGANIZER, u_createdAt = 0\<rparr>"

definition demo_listing :: world where
  "demo_listing = demo_types\<lparr>users := [admin_user],
     concerts := [(demo_concert ''c1'')\<lparr>c_status := PUBLISHED, c_startsAt := 100000000\<rparr>]\<rparr>"

definition no_concert_change :: update_concert_dto where
  "no_concert_change = \<lparr>cu_title = None, cu_slug = None, cu_description = None, cu_artistBio = None,
     cu_venue = None, cu_startsAt = None, cu_saleStartsAt = None, cu_saleEndsAt = None, cu_status = None,
     cu_seatMapUrl = None, cu_coverImageUrl = None\<rparr>"

definition hide_calls :: "concert_call list" where
  "hide_calls = [FindOne 5 ''c1'',
     UpdateConcert 6 ''c1'' (no_concert_change\<lparr>cu_status := Some DRAFT\<rparr>) (Some ''org'') (Some ORGANIZER)]"

lemma demo_listing_coherent [simp]: "coherent demo_listing"
  by (simp add: coherent_def demo_listing_def demo_types_def empty_world_def)


text \<open>
  The other pages of the public list are not invalidated: while a cached page has not expired it
  answers every read, whatever has been created, updated or removed since.
\<close>

fun maintenance :: "concert_call \<Rightarrow> bool" where
  "maintenance (CreateConcert _ _ _ _) = True"
| "maintenance (UpdateConcert _ _ _ _ _) = True"
| "maintenance (RemoveConcert _) = True"
| "maintenance _ = False"

lemma touches_redis: "touches_only i w w' \<Longrightarrow> redisdb w' = redisdb w"
  by (simp add: touches_only_def)

lemma invalidate_other_key:
  "k \<noteq> REDIS_KEY_CONCERT_LIST \<Longrightarrow> (\<And>i. k \<noteq> REDIS_KEY_CONCERT_DETAIL i) \<Longrightarrow>
   redisdb (invalidateCache c w) k = redisdb w k"
  by (simp add: invalidateCache_def redis_del_def split: option.split)

lemma maintenance_keeps_key:
  assumes "maintenance x" and "k \<noteq> REDIS_KEY_CONCERT_LIST" and "\<And>i. k \<noteq> REDIS_KEY_CONCERT_DETAIL i"
  shows "redisdb (fst (run_concert_call x w)) k = redisdb w k"
proof (cases x)
  case (CreateConcert now i dto fb)
  then show ?thesis
    using touches_redis [OF touches_only_schedule]
    by (auto simp: cs_create_def insert_concert_def Let_def invalidate_other_key [OF assms(2,3)])
next
  case (UpdateConcert now i dto u r)
  then show ?thesis
    using touches_redis [OF touches_only_schedule]
    by (auto simp: cs_update_def Let_def invalidate_other_key [OF assms(2,3)] split: option.split)
next
  case (RemoveConcert i)
  then show ?thesis
    by (cases rule: cs_remove_cases [of i w])
      (auto simp: invalidate_other_key [OF assms(2,3)] dest: remove_rows_success)
qed (use assms(1) in simp_all)

interpretation cached_page: op_system run_concert_call
    "\<lambda>x. maintenance x \<and> listCacheKey q \<noteq> REDIS_KEY_CONCERT_LIST" "\<lambda>w. redisdb w (listCacheKey q) = e" for q e
  by unfold_locales (simp add: maintenance_keeps_key)

theorem cached_list_page_goes_stale:
  assumes "listCacheKey q \<noteq> REDIS_KEY_CONCERT_LIST" and "cached_list now (listCacheKey q) (redisdb w) = Some l"
    and "list_all maintenance calls"
  shows "snd (cs_findAll now q (fst (run_ops run_concert_call calls w))) = l"
proof -
  have "redisdb (fst (run_ops run_concert_call calls w)) (listCacheKey q) = redisdb w (listCacheKey q)"
    using assms(1,3) by (intro cached_page.inv_run refl) (auto simp: list_all_iff)
  then show ?thesis
    using assms(2) by (simp add: cs_findAll_alt cached_list_def redis_get_def redis_live_def)
qed

definition open_query :: concert_query where
  "open_query = \<lparr>cq_status = Some SALE_OPEN, cq_page = None, cq_limit = None\<rparr>"

definition open_calls :: "concert_call list" where
  "open_calls = [UpdateConcert 6 ''c1'' (no_concert_change\<lparr>cu_status := Some CONCERT_CANCELLED\<rparr>) None (Some ADMIN)]"

definition demo_open :: world where
  "demo_open = fst (cs_findAll 5 open_query (demo_types\<lparr>users := [admin_user]\<rparr>))"

theorem cached_list_page_goes_stale_witness:
  "map cr_status (cl_data (snd (cs_findAll 7 open_query (fst (run_ops run_concert_call open_calls demo_open))))) =
     [SALE_OPEN] \<and>
   map_option c_status (find_concert ''c1'' (fst (run_ops run_concert_call open_calls demo_open))) =
     Some CONCERT_CANCELLED"
proof -
  obtain l where l: "cached_list 7 (listCacheKey open_query) (redisdb demo_open) = Some l"
    "map cr_status (cl_data l) = [SALE_OPEN]"
  proof -
    have "map_option (\<lambda>l. map cr_status (cl_data l)) (cached_list 7 (listCacheKey open_query) (redisdb demo_open)) =
      Some [SALE_OPEN]" by code_simp
    then show ?thesis using that by auto
  qed
  have "listCacheKey open_query \<noteq> REDIS_KEY_CONCERT_LIST" "list_all maintenance open_calls" by code_simp+
  then have "snd (cs_findAll 7 open_query (fst (run_ops run_concert_call open_calls demo_open))) = l"
    using cached_list_page_goes_stale [OF _ l(1)] by blast
  moreover have "map_option c_status (find_concert ''c1'' (fst (run_ops run_concert_call open_calls demo_open))) =
      Some CONCERT_CANCELLED" by code_simp
  ultimately show ?thesis using l(2) by simp
qed

text \<open>
  The public list: without a cached page, the pages of a status are together all the concerts in
  that status, ordered by their start, and the total is their number.  The status is the caller's
  choice, so drafts are listed for whoever asks for them.
\<close>

theorem public_list_pages_complete:
  assumes "0 < n" and "\<And>page. cached_list now (listCacheKey \<lparr>cq_status = Some s, cq_page = Some page, cq_limit = Some n\<rparr>) (redisdb w) = None"
  shows "concat (map (\<lambda>page. map cr_id (cl_data
            (snd (cs_findAll now \<lparr>cq_status = Some s, cq_page = Some page, cq_limit = Some n\<rparr> w))))
            [1..<Suc (cl_totalPages (snd (cs_findAll now \<lparr>cq_status = Some s, cq_page = Some 1, cq_limit = Some n\<rparr> w)))]) =
      map c_id (sort_key c_startsAt (filter (\<lambda>c. c_status c = s) (concerts w)))"
proof -
  let ?rows = "sort_key c_startsAt (filter (\<lambda>c. c_status c = s) (concerts w))"
  have page: "map cr_id (cl_data (snd (cs_findAll now \<lparr>cq_status = Some s, cq_page = Some page, cq_limit = Some n\<rparr> w))) =
      map c_id (page_of page n ?rows)" for page
    using assms(2) [of page]
    by (simp add: cs_findAll_alt list_page_def concert_page_def query_or_def cs_toResponse_def Let_def comp_def)
  have count: "cl_totalPages (snd (cs_findAll now \<lparr>cq_status = Some s, cq_page = Some 1, cq_limit = Some n\<rparr> w)) =
      ceil_div (length ?rows) n"
    using assms(2) [of 1]
    by (simp add: cs_findAll_alt list_page_def concert_page_def query_or_def Let_def count_where_def)
  have "concat (map (\<lambda>page. map c_id (page_of page n ?rows)) [1..<Suc (ceil_div (length ?rows) n)]) =
      map c_id (concat (map (\<lambda>page. page_of page n ?rows) [1..<Suc (ceil_div (length ?rows) n)]))"
    by (simp add: map_concat comp_def del: upt_Suc)
  then show ?thesis unfolding page count pages_cover_listing [OF assms(1)] .
qed

theorem public_list_pages_complete_witness:
  "concat (map (\<lambda>page. map cr_id (cl_data
      (snd (cs_findAll 5 \<lparr>cq_status = Some SALE_OPEN, cq_page = Some page, cq_limit = Some 2\<rparr> demo_two))))
      [1..<Suc (cl_totalPages (snd (cs_findAll 5 \<lparr>cq_status = Some SALE_OPEN, cq_page = Some 1, cq_limit = Some 2\<rparr> demo_two)))]) =
    [''c1'', ''c2'']"
proof -
  have none: "cached_list 5 k (redisdb demo_two) = None" for k
    by (simp add: cached_list_def demo_two_def empty_world_def redis_get_def redis_live_def)
  show ?thesis
    unfolding public_list_pages_complete [OF zero_less_numeral none]
    by (simp add: demo_two_def demo_concert_def)
qed

end
