(* ===== verification/Concert_Properties.thy ===== *)
theory Concert_Properties
  imports Concert_Cache
begin

text \<open>
  Maintenance of concerts: a removal takes every row of the concert or none, organizers reach
  their own concerts only, and the reminder of a concert.
\<close>

section \<open>Removal\<close>

text \<open>The rows that hold a concert back, by the foreign key that does it.\<close>

definition item_blocked :: "id \<Rightarrow> world \<Rightarrow> bool" where
  "item_blocked i w \<longleftrightarrow> (\<exists>t \<in> set (tickets w). t_concertId t \<noteq> i \<and> t_orderItemId t \<in> set (item_ids_of i w))"

definition order_blocked :: "id \<Rightarrow> world \<Rightarrow> bool" where
  "order_blocked i w \<longleftrightarrow>
     (\<exists>ord \<in> set (orders w). o_concertId ord = i \<and>
        ((\<exists>p \<in> set (payments w). p_orderId p = o_id ord) \<or>
         (\<exists>t \<in> set (tickets w). t_concertId t \<noteq> i \<and> t_orderId t = o_id ord)))"

definition type_blocked :: "id \<Rightarrow> world \<Rightarrow> bool" where
  "type_blocked i w \<longleftrightarrow>
     (\<exists>tt \<in> set (ticketTypes w). tt_concertId tt = i \<and>
        ((\<exists>k \<in> set (counters w). uc_ticketTypeId k = tt_id tt) \<or>
         (\<exists>t \<in> set (tickets w). t_concertId t \<noteq> i \<and> t_ticketTypeId t = tt_id tt) \<or>
         (\<exists>ord \<in> set (orders w). o_concertId ord \<noteq> i \<and>
            (\<exists>item \<in> set (o_items ord). oi_ticketTypeId item = tt_id tt))))"

lemma mem_delete_where [simp]: "x \<in> set (delete_where p rows) \<longleftrightarrow> x \<in> set rows \<and> \<not> p x"
  by (simp add: delete_where_def)

lemma delete_cleared_orders [simp]:
  "delete_where (\<lambda>ord. o_concertId ord = i)
     (update_where (\<lambda>ord. o_concertId ord = i) (\<lambda>ord. ord\<lparr>o_items := []\<rparr>) rows) =
   delete_where (\<lambda>ord. o_concertId ord = i) rows"
  by (induction rows) (auto simp: delete_where_def)

lemma items_step:
  assumes "orders w2 = orders w" and "tickets w2 = delete_where (\<lambda>t. t_concertId t = i) (tickets w)"
  shows "delete_items_of i w2 =
    (if item_blocked i w then (w2, Inl (ForeignKeyViolation ''OrderItem''))
     else (w2\<lparr>orders := update_where (\<lambda>ord. o_concertId ord = i) (\<lambda>ord. ord\<lparr>o_items := []\<rparr>) (orders w)\<rparr>, Inr ()))"
proof -
  have "item_ids_of i w2 = item_ids_of i w" using assms(1) by (simp add: item_ids_of_def)
  then have "(\<exists>t \<in> set (tickets w2). t_orderItemId t \<in> set (item_ids_of i w2)) = item_blocked i w"
    using assms(2) by (auto simp: item_blocked_def)
  then show ?thesis using assms by (simp add: delete_items_of_def)
qed

lemma orders_step:
  assumes "orders w3 = update_where (\<lambda>ord. o_concertId ord = i) (\<lambda>ord. ord\<lparr>o_items := []\<rparr>) (orders w)"
    and "tickets w3 = delete_where (\<lambda>t. t_concertId t = i) (tickets w)" and "payments w3 = payments w"
  shows "delete_orders_of i w3 =
    (if order_blocked i w then (w3, Inl (ForeignKeyViolation ''Order''))
     else (w3\<lparr>orders := delete_where (\<lambda>ord. o_concertId ord = i) (orders w)\<rparr>, Inr ()))"
proof -
  have "(\<exists>ord \<in> set (orders w3). o_concertId ord = i \<and> order_referenced ord w3) = order_blocked i w"
  proof -
    have "(\<exists>ord \<in> set (update_where (\<lambda>ord. o_concertId ord = i) (\<lambda>ord. ord\<lparr>o_items := []\<rparr>) rows). o_concertId ord = i \<and> Q ord) \<longleftrightarrow>
        (\<exists>ord \<in> set rows. o_concertId ord = i \<and> Q (ord\<lparr>o_items := []\<rparr>))" for Q and rows :: "order list"
      by (induction rows) auto
    moreover have "order_referenced (ord\<lparr>o_items := []\<rparr>) w3 \<longleftrightarrow>
        (\<exists>p \<in> set (payments w). p_orderId p = o_id ord) \<or>
        (\<exists>t \<in> set (tickets w). t_concertId t \<noteq> i \<and> t_orderId t = o_id ord)" for ord
      using assms(2,3) by (auto simp: order_referenced_def)
    ultimately show ?thesis using assms(1) by (simp add: order_blocked_def)
  qed
  then show ?thesis using assms by (simp add: delete_orders_of_def)
qed

lemma types_step:
  assumes "orders w4 = delete_where (\<lambda>ord. o_concertId ord = i) (orders w)"
    and "tickets w4 = delete_where (\<lambda>t. t_concertId t = i) (tickets w)" and "counters w4 = counters w"
    and "ticketTypes w4 = ticketTypes w"
  shows "delete_types_of i w4 =
    (if type_blocked i w then (w4, Inl (ForeignKeyViolation ''TicketType''))
     else (w4\<lparr>ticketTypes := delete_where (\<lambda>tt. tt_concertId tt = i) (ticketTypes w)\<rparr>, Inr ()))"
proof -
  have "type_referenced k w4 \<longleftrightarrow>
      (\<exists>c \<in> set (counters w). uc_ticketTypeId c = k) \<or>
      (\<exists>t \<in> set (tickets w). t_concertId t \<noteq> i \<and> t_ticketTypeId t = k) \<or>
      (\<exists>ord \<in> set (orders w). o_concertId ord \<noteq> i \<and> (\<exists>item \<in> set (o_items ord). oi_ticketTypeId item = k))" for k
    using assms by (auto simp: type_referenced_def)
  then have "(\<exists>tt \<in> set (ticketTypes w4). tt_concertId tt = i \<and> type_referenced (tt_id tt) w4) = type_blocked i w"
    using assms(4) by (simp add: type_blocked_def)
  then show ?thesis using assms by (simp add: delete_types_of_def)
qed

lemma concert_step:
  assumes "find_concert i w5 \<noteq> None" and "tickets w5 = delete_where (\<lambda>t. t_concertId t = i) (tickets w)"
    "orders w5 = delete_where (\<lambda>ord. o_concertId ord = i) (orders w)"
    "ticketTypes w5 = delete_where (\<lambda>tt. tt_concertId tt = i) (ticketTypes w)"
    "guestListEntries w5 = delete_where (\<lambda>g. gl_concertId g = i) (guestListEntries w)"
  shows "snd (delete_concert i w5) = Inr ()"
  using assms by (simp add: delete_concert_def concert_referenced_def)

lemma remove_rows_result:
  assumes "find_concert i w = Some c"
  shows "snd (remove_rows i w) =
    (if item_blocked i w then Inl (ForeignKeyViolation ''OrderItem'')
     else if order_blocked i w then Inl (ForeignKeyViolation ''Order'')
     else if type_blocked i w then Inl (ForeignKeyViolation ''TicketType'') else Inr ())"
proof -
  define w2 where "w2 = delete_tickets_of i
    (w\<lparr>checkinLogs := delete_where (\<lambda>l. l_concertId l = Some i) (checkinLogs w)\<rparr>)"
  have w2: "tickets w2 = delete_where (\<lambda>t. t_concertId t = i) (tickets w)" "orders w2 = orders w"
    "payments w2 = payments w" "counters w2 = counters w" "ticketTypes w2 = ticketTypes w"
    "concerts w2 = concerts w" "guestListEntries w2 = guestListEntries w"
    by (simp_all add: w2_def delete_tickets_of_def Let_def)
  have "find_concert i (w1 :: world) \<noteq> None" if "concerts w1 = concerts w" for w1
    using that assms by (simp add: find_concert_def)
  with w2 show ?thesis
    by (simp add: remove_rows_def Let_def flip: w2_def)
      (simp add: items_step [of _ w] orders_step [of _ i w] types_step [of _ i w] concert_step [of _ _ w])
qed

text \<open>
  A concert without active orders is removed exactly when no foreign key holds it back: a payment
  of one of its orders, whatever became of it, a ticket counter of one of its types, or a row of
  another concert that refers to it.  Otherwise the removal is undone as a whole.  A removal that
  succeeds leaves no row of the concert in any table.
\<close>

theorem concert_removal:
  assumes "find_concert i w = Some c" and "active_orders i w = []"
  shows "((\<exists>w' msg. cs_remove i w = (w', Inr msg)) \<longleftrightarrow>
      \<not> item_blocked i w \<and> \<not> order_blocked i w \<and> \<not> type_blocked i w)
    \<and> (item_blocked i w \<or> order_blocked i w \<or> type_blocked i w \<longrightarrow>
        (\<exists>k. cs_remove i w = (w, Inl (ForeignKeyViolation k))))
    \<and> (\<forall>w' msg. cs_remove i w = (w', Inr msg) \<longrightarrow>
        concerts w' = delete_where (\<lambda>c. c_id c = i) (concerts w) \<and>
        ticketTypes w' = delete_where (\<lambda>tt. tt_concertId tt = i) (ticketTypes w) \<and>
        orders w' = delete_where (\<lambda>ord. o_concertId ord = i) (orders w) \<and>
        tickets w' = delete_where (\<lambda>t. t_concertId t = i) (tickets w) \<and>
        gates w' = delete_where (\<lambda>g. g_concertId g = i) (gates w) \<and>
        guestListEntries w' = delete_where (\<lambda>g. gl_concertId g = i) (guestListEntries w) \<and>
        uploadedFiles w' = delete_where (\<lambda>f. uf_concertId f = Some i) (uploadedFiles w) \<and>
        (\<forall>l \<in> set (checkinLogs w'). l_concertId l \<noteq> Some i))"
proof -
  obtain w1 r where rows: "remove_rows i w = (w1, r)" by (cases "remove_rows i w")
  have result: "r = (if item_blocked i w then Inl (ForeignKeyViolation ''OrderItem'')
     else if order_blocked i w then Inl (ForeignKeyViolation ''Order'')
     else if type_blocked i w then Inl (ForeignKeyViolation ''TicketType'') else Inr ())"
    using remove_rows_result [OF assms(1)] rows by simp
  have step: "cs_remove i w = (case r of Inl e \<Rightarrow> (w, Inl e)
      | Inr _ \<Rightarrow> (invalidateCache (Some i) w1, Inr (''Concert '' @ c_title c @ '' deleted successfully'')))"
    using assms rows by (cases r) (simp_all add: cs_remove_def)
  show ?thesis
  proof (cases "item_blocked i w \<or> order_blocked i w \<or> type_blocked i w")
    case True
    then show ?thesis using step result by auto
  next
    case False
    then have "remove_rows i w = (w1, Inr ())" using rows result by simp
    from remove_rows_success [OF this] False show ?thesis
      using step result by (auto simp: invalidateCache_def)
  qed
qed

definition paid_attempt :: payment where
  "paid_attempt = \<lparr>p_id = ''p1'', p_orderId = ''o1'', p_provider = MOCK, p_status = PAY_FAILED,
     p_amount = 200, p_providerTransactionId = None, p_paymentUrl = None, p_rawWebhook = None, p_receivedAt = None\<rparr>"

definition demo_expired :: "payment list \<Rightarrow> world" where
  "demo_expired ps = demo_listing\<lparr>orders := [demo_order\<lparr>o_status := EXPIRED, o_concertId := ''c1''\<rparr>],
     payments := ps, gates := [gate_row ''g1'' ''A'' ''c1'']\<rparr>"

theorem concert_removal_witness:
  "(\<exists>w' msg. cs_remove ''c1'' (demo_expired []) = (w', Inr msg)) \<and>
   (\<exists>k. cs_remove ''c1'' (demo_expired [paid_attempt]) = (demo_expired [paid_attempt], Inl (ForeignKeyViolation k)))"
proof -
  have rows: "find_concert ''c1'' (demo_expired ps) = Some ((demo_concert ''c1'')\<lparr>c_status := PUBLISHED, c_startsAt := 100000000\<rparr>)"
    "active_orders ''c1'' (demo_expired ps) = []" for ps
    by (simp_all add: demo_expired_def demo_listing_def find_concert_def demo_concert_def active_orders_def demo_order_def)
  have "\<not> item_blocked ''c1'' (demo_expired [])" "\<not> order_blocked ''c1'' (demo_expired [])"
    "\<not> type_blocked ''c1'' (demo_expired [])" "order_blocked ''c1'' (demo_expired [paid_attempt])"
    by code_simp+
  then show ?thesis using concert_removal [OF rows] by blast
qed

section \<open>Reminders\<close>

text \<open>
  Job identifiers are unique and made from the concert, and a concert stores no other
  identifier than its own.
\<close>

definition reminders_sound :: "world \<Rightarrow> bool" where
  "reminders_sound w \<longleftrightarrow>
     unique_key rj_id (reminderJobs w) \<and>
     (\<forall>j \<in> set (reminderJobs w). rj_id j = reminder_job_id (rj_concertId j)) \<and>
     (\<forall>c \<in> set (concerts w). \<forall>k. c_reminderJobId c = Some k \<longrightarrow> k = reminder_job_id (c_id c))"

lemma reminder_job_id_inject [simp]: "reminder_job_id i = reminder_job_id j \<longleftrightarrow> i = j"
  by (simp add: reminder_job_id_def)

lemma reminder_job_id_nonempty [simp]: "reminder_job_id i \<noteq> []"
  by (simp add: reminder_job_id_def)

lemma unique_key_delete: "unique_key key rows \<Longrightarrow> unique_key key (delete_where p rows)"
  by (simp add: unique_key_def delete_where_def distinct_map_filter)

lemma sound_update:
  assumes "reminders_sound w" and "\<And>c. c_id (f c) = c_id c"
    and "\<And>c. c_id c = i \<Longrightarrow> c_reminderJobId (f c) \<in> {c_reminderJobId c, None, Some (reminder_job_id i)}"
  shows "reminders_sound (update_concert i f w)"
  using assms unfolding reminders_sound_def update_concert_def
  by (auto simp: set_update_where split: if_splits) (metis insertE singletonD option.distinct(1) option.inject)+

lemma sound_cancel: "reminders_sound w \<Longrightarrow> reminders_sound (cancelReminder now i w)"
proof -
  assume sound: "reminders_sound w"
  then have "reminders_sound (w\<lparr>reminderJobs := delete_where p (reminderJobs w)\<rparr>)" for p
    by (simp add: reminders_sound_def unique_key_delete)
  then show ?thesis using sound by (auto simp: cancelReminder_def intro!: sound_update split: option.split)
qed

lemma sound_add:
  "reminders_sound w \<Longrightarrow> rj_id j = reminder_job_id (rj_concertId j) \<Longrightarrow> reminders_sound (queue_add j w)"
  by (auto simp: reminders_sound_def queue_add_def unique_key_snoc find_row_None_image)

lemma sound_schedule: "reminders_sound w \<Longrightarrow> reminders_sound (scheduleReminder now i w)"
  by (auto simp: scheduleReminder_def Let_def intro!: sound_update sound_add sound_cancel split: option.split)

lemma sound_views: "reminders_sound (invalidateCache i w) = reminders_sound w"
  "reminders_sound (cacheSet now k v w) = reminders_sound w"
  by (simp_all add: reminders_sound_def invalidateCache_def cacheSet_def)

lemma sound_create: "reminders_sound w \<Longrightarrow> reminders_sound (fst (cs_create now i dto fb w))"
proof -
  assume sound: "reminders_sound w"
  have new: "reminders_sound (w\<lparr>concerts := concerts w @ [c]\<rparr>)" if "c_reminderJobId c = None" for c
    using sound that by (auto simp: reminders_sound_def)
  show ?thesis
    using sound by (auto simp: cs_create_def Let_def insert_concert_def sound_views intro!: sound_schedule new)
qed

lemma sound_change: "reminders_sound w \<Longrightarrow> reminders_sound (fst (cs_update now i dto u r w))"
  by (auto simp: cs_update_def Let_def sound_views apply_concert_update_def split: option.split
      intro!: sound_schedule sound_update)

lemma remove_rows_jobs: "reminderJobs (fst (remove_rows i w)) = reminderJobs w"
  by (simp add: remove_rows_def Let_def delete_tickets_of_def delete_items_of_def delete_orders_of_def
      delete_types_of_def delete_concert_def)

lemma cs_remove_jobs [simp]: "reminderJobs (fst (cs_remove i w)) = reminderJobs w"
  using remove_rows_jobs [of i w]
  by (cases rule: cs_remove_cases [of i w]) (auto simp: invalidateCache_def)

lemma sound_remove: "reminders_sound w \<Longrightarrow> reminders_sound (fst (cs_remove i w))"
proof (cases rule: cs_remove_cases [of i w])
  case (2 c w1)
  assume "reminders_sound w"
  then show ?thesis
    using 2(3,4) remove_rows_success [OF 2(3)] remove_rows_jobs [of i w]
    by (auto simp: sound_views) (simp add: reminders_sound_def)
qed simp

interpretation reminders: op_system run_concert_call "\<lambda>_. True" reminders_sound
proof
  fix w x
  assume sound: "reminders_sound w"
  show "reminders_sound (fst (run_concert_call x w))"
  proof (cases x)
    case (FindAll now q)
    then show ?thesis
      using sound by (simp add: cs_findAll_alt sound_views split: option.split)
  next
    case (FindOne now i)
    then show ?thesis
      using sound by (simp add: cs_findOne_alt sound_views split: option.split sum.split)
  qed (use sound in \<open>simp_all add: sound_create sound_change sound_remove\<close>)
qed

section \<open>Properties of reminders\<close>

definition reminders_of :: "id \<Rightarrow> world \<Rightarrow> reminder_job list" where
  "reminders_of i w = filter (\<lambda>j. rj_concertId j = i) (reminderJobs w)"

text \<open>
  However the concert service is called, a concert never has more than one reminder job.
\<close>

theorem at_most_one_reminder:
  assumes "reminders_sound w"
  shows "length (reminders_of i (fst (run_ops run_concert_call calls w))) \<le> 1"
proof -
  let ?js = "reminders_of i (fst (run_ops run_concert_call calls w))"
  have sound: "reminders_sound (fst (run_ops run_concert_call calls w))"
    by (rule reminders.inv_run [OF assms]) simp
  have "distinct (map rj_id ?js)"
    using sound by (simp add: reminders_sound_def reminders_of_def unique_key_def distinct_map_filter)
  moreover have "set (map rj_id ?js) \<subseteq> {reminder_job_id i}"
    using sound by (auto simp: reminders_sound_def reminders_of_def)
  ultimately have "length (map rj_id ?js) \<le> card {reminder_job_id i}"
    by (metis card_mono distinct_card finite.emptyI finite.insertI)
  then show ?thesis by simp
qed

lemma reminder_id_taken:
  assumes "reminders_sound w"
  shows "reminder_job_id i \<in> rj_id ` set (reminderJobs w) \<longleftrightarrow> reminders_of i w \<noteq> []"
proof -
  have "rj_id ` set (reminderJobs w) = reminder_job_id ` rj_concertId ` set (reminderJobs w)"
    using assms by (force simp: reminders_sound_def image_image)
  then show ?thesis by (auto simp: reminders_of_def filter_empty_conv)
qed

text \<open>What a cancellation leaves of the reminder: a job that can no longer be removed.\<close>

lemma reminders_of_cancel:
  assumes sound: "reminders_sound w" and c: "find_concert i w = Some c"
    and stored: "list_all (\<lambda>j. removable (rj_state j) \<longrightarrow> c_reminderJobId c = Some (rj_id j)) (reminders_of i w)"
  shows "reminders_of i (cancelReminder now i w) = filter (\<lambda>j. \<not> removable (rj_state j)) (reminders_of i w)"
proof (cases "c_reminderJobId c")
  case None
  then have "\<not> removable (rj_state j)" if "j \<in> set (reminders_of i w)" for j
    using stored that by (auto simp: list_all_iff)
  then have "filter (\<lambda>j. \<not> removable (rj_state j)) (reminders_of i w) = reminders_of i w" by simp
  then show ?thesis using None c by (simp add: cancelReminder_def)
next
  case (Some k)
  have own: "rj_id j = reminder_job_id (rj_concertId j)" if "j \<in> set (reminderJobs w)" for j
    using sound that by (simp add: reminders_sound_def)
  have "k = reminder_job_id i"
    using Some sound c by (auto simp: reminders_sound_def find_concert_def dest!: find_row_SomeD)
  then show ?thesis
    using Some c
    by (auto simp: cancelReminder_def reminders_of_def delete_where_def own intro!: filter_cong)
qed

text \<open>
  Rescheduling a concert that is on sale replaces its reminder by one that is due 24 hours before
  the start, or by none when that moment has passed.  A job that a worker holds or that has failed
  stays under its identifier, and then no new reminder is made, whatever the new start is.
\<close>

theorem reminder_rescheduled:
  assumes "reminders_sound w" and "find_concert i w = Some c" and "c_status c = PUBLISHED \<or> c_status c = SALE_OPEN"
    and "list_all (\<lambda>j. removable (rj_state j) \<longrightarrow> c_reminderJobId c = Some (rj_id j)) (reminders_of i w)"
  shows "reminders_of i (scheduleReminder now i w) =
    (if list_ex (\<lambda>j. \<not> removable (rj_state j)) (reminders_of i w) then reminders_of i w
     else if now < c_startsAt c - REMINDER_DELAY_MS
     then [\<lparr>rj_id = reminder_job_id i, rj_concertId = i,
            rj_delay = c_startsAt c - REMINDER_DELAY_MS - now, rj_state = JOB_DELAYED\<rparr>]
     else [])"
proof -
  have own: "rj_id j = reminder_job_id i \<longleftrightarrow> rj_concertId j = i" if "j \<in> set (reminderJobs w)" for j
    using assms(1) that by (simp add: reminders_sound_def)
  have only: "rj_concertId j = i \<Longrightarrow> rj_concertId j' = i \<Longrightarrow> j = j'"
    if "j \<in> set (reminderJobs w)" "j' \<in> set (reminderJobs w)" for j j'
    using assms(1) that own unique_key_inject [of rj_id "reminderJobs w" j j'] by (simp add: reminders_sound_def)
  note rest = reminders_of_cancel [OF assms(1,2,4), of now]
  note taken = reminder_id_taken [OF sound_cancel [OF assms(1)], of i now i]
  have all: "filter (\<lambda>j. \<not> removable (rj_state j)) (reminders_of i w) = reminders_of i w"
    if stuck: "list_ex (\<lambda>j. \<not> removable (rj_state j)) (reminders_of i w)"
  proof (rule filter_True, rule ballI)
    fix j'
    assume j': "j' \<in> set (reminders_of i w)"
    obtain j where "j \<in> set (reminders_of i w)" "\<not> removable (rj_state j)"
      using stuck unfolding list_ex_iff by blast
    with only [of j j'] j' show "\<not> removable (rj_state j')" by (auto simp: reminders_of_def)
  qed
  have none: "filter (\<lambda>j. \<not> removable (rj_state j)) (reminders_of i w) = []"
    if "\<not> list_ex (\<lambda>j. \<not> removable (rj_state j)) (reminders_of i w)"
    using that by (auto simp: list_ex_iff filter_empty_conv)
  show ?thesis
    using assms(2,3) rest taken all none
    by (auto simp: scheduleReminder_def Let_def reminders_of_def queue_add_def split: if_splits)
qed

definition failed_reminder :: reminder_job where
  "failed_reminder = \<lparr>rj_id = reminder_job_id ''c1'', rj_concertId = ''c1'', rj_delay = 1000, rj_state = JOB_FAILED\<rparr>"

lemma demo_listing_reminders [simp]:
  "reminders_sound demo_listing" "reminders_sound (demo_listing\<lparr>reminderJobs := [failed_reminder]\<rparr>)"
  by (simp_all add: reminders_sound_def demo_listing_def demo_types_def empty_world_def demo_concert_def
      unique_key_def failed_reminder_def)

theorem at_most_one_reminder_witness:
  "length (reminders_of ''c1'' (fst (run_ops run_concert_call (hide_calls @ open_calls) demo_listing))) \<le> 1"
  by (rule at_most_one_reminder) simp

theorem reminder_rescheduled_witness:
  "map rj_delay (reminders_of ''c1'' (scheduleReminder 5 ''c1'' demo_listing)) = [100000000 - 86400000 - 5] \<and>
   reminders_of ''c1'' (scheduleReminder 5 ''c1'' (demo_listing\<lparr>reminderJobs := [failed_reminder]\<rparr>)) = [failed_reminder]"
proof -
  let ?c = "(demo_concert ''c1'')\<lparr>c_status := PUBLISHED, c_startsAt := 100000000\<rparr>"
  have find: "find_concert ''c1'' demo_listing = Some ?c"
    "find_concert ''c1'' (demo_listing\<lparr>reminderJobs := [failed_reminder]\<rparr>) = Some ?c"
    by (simp_all add: demo_listing_def find_concert_def demo_concert_def)
  have jobs: "reminders_of ''c1'' demo_listing = []"
    "reminders_of ''c1'' (demo_listing\<lparr>reminderJobs := [failed_reminder]\<rparr>) = [failed_reminder]"
    by (simp_all add: reminders_of_def demo_listing_def demo_types_def empty_world_def failed_reminder_def)
  have "\<not> removable (rj_state failed_reminder)" by (simp add: failed_reminder_def removable_def)
  then show ?thesis
    using reminder_rescheduled [OF demo_listing_reminders(1) find(1), of 5]
      reminder_rescheduled [OF demo_listing_reminders(2) find(2), of 5]
    by (simp add: jobs REMINDER_DELAY_MS_def demo_concert_def)
qed

text \<open>
  Only a concert on sale is rescheduled: an update that cancels, closes or unpublishes a concert,
  and a removal, leave its delayed reminder in the queue.
\<close>

theorem reminder_survives_cancellation:
  assumes "s \<noteq> PUBLISHED" and "s \<noteq> SALE_OPEN" and "cu_status dto = Some s"
  shows "reminderJobs (fst (cs_update now i dto u r w)) = reminderJobs w
    \<and> reminderJobs (fst (cs_remove i w)) = reminderJobs w"
proof -
  have status: "map_option c_status (find_concert i (update_concert i (apply_concert_update now dto) w)) =
      map_option (\<lambda>_. s) (find_concert i w)"
    using assms(3) by (cases "find_concert i w") (simp_all add: apply_concert_update_def set_if_def)
  have "reminderJobs (scheduleReminder now i (update_concert i (apply_concert_update now dto) w)) = reminderJobs w"
    using status assms(1,2) by (auto simp: scheduleReminder_def split: option.split)
  then show ?thesis
    by (auto simp: cs_update_def Let_def invalidateCache_def split: option.split)
qed

theorem reminder_survives_cancellation_witness:
  "reminderJobs (fst (run_concert_call
      (UpdateConcert 6 ''c1'' (no_concert_change\<lparr>cu_status := Some CONCERT_CANCELLED\<rparr>) None (Some ADMIN))
      (scheduleReminder 5 ''c1'' demo_listing))) = reminderJobs (scheduleReminder 5 ''c1'' demo_listing)
   \<and> reminderJobs (scheduleReminder 5 ''c1'' demo_listing) \<noteq> []"
proof -
  have "reminderJobs (scheduleReminder 5 ''c1'' demo_listing) \<noteq> []" by code_simp
  then show ?thesis
    using reminder_survives_cancellation [of CONCERT_CANCELLED "no_concert_change\<lparr>cu_status := Some CONCERT_CANCELLED\<rparr>"]
    by simp
qed

end
