(* ===== verification/Guest_Import.thy ===== *)
theory Guest_Import
  imports Concert_Properties
begin

text \<open>
  Files that organizers upload: \<open>uploads/uploads.service.ts\<close> stores a file, its row and a job;
  the worker imports a guest list (\<open>worker/processors/csv-import.processor.ts\<close>,
  \<open>worker/services/csv-parse.service.ts\<close>) or writes an artist biography
  (\<open>worker/processors/ai-bio.processor.ts\<close>).

  \<^item> Object storage, the CSV library, the PDF library and the language model are arguments: what they
    return, or the error they throw.  A CSV row is a map from column names to fields.
  \<^item> Messages of errors are the constructors of \<open>import_error\<close>; their JSON text is made by an
    argument.  The tag of an exception stands for its message.
\<close>

section \<open>Uploads\<close>

record multer_file =
  mf_originalname :: string
  mf_mimetype :: string
  mf_size :: nat

record upload_env =
  ue_uuid :: string
  ue_fileId :: id
  ue_now :: time
  ue_storageFails :: "exn option"

definition word_char :: "char \<Rightarrow> bool" where
  "word_char c \<longleftrightarrow>
     (let n = (of_char c :: nat)
      in 48 \<le> n \<and> n \<le> 57 \<or> 65 \<le> n \<and> n \<le> 90 \<or> 97 \<le> n \<and> n \<le> 122 \<or> n = 95 \<or> n = 46 \<or> n = 45)"

text \<open>\<open>replace(/[^\w.-]+/g, '_')\<close>: every run of other characters becomes one underscore.\<close>

function safe_file_name :: "string \<Rightarrow> string" where
  "safe_file_name [] = []"
| "safe_file_name (c # cs) =
     (if word_char c then c # safe_file_name cs
      else CHR ''_'' # safe_file_name (dropWhile (\<lambda>x. \<not> word_char x) cs))"
  by pat_completeness auto

termination
  by (relation "measure length") (auto simp: le_imp_less_Suc length_dropWhile_le)

record upload_response =
  up_uploadedFileId :: id
  up_status :: string

definition new_file :: "upload_env \<Rightarrow> id \<Rightarrow> string \<Rightarrow> multer_file \<Rightarrow> string \<Rightarrow> uploaded_file" where
  "new_file env concertId objectKey mf purpose =
     \<lparr>uf_id = ue_fileId env, uf_concertId = Some concertId, uf_objectKey = objectKey,
      uf_fileName = mf_originalname mf, uf_mimeType = mf_mimetype mf, uf_purpose = purpose,
      uf_status = ''PENDING'', uf_errorMessage = None, uf_createdAt = ue_now env\<rparr>"

text \<open>The part that both uploads share: ownership, storage, row, job.\<close>

definition store_upload ::
  "upload_env \<Rightarrow> string \<Rightarrow> string \<Rightarrow> (id \<Rightarrow> id \<Rightarrow> string \<Rightarrow> job) \<Rightarrow> id \<Rightarrow> multer_file \<Rightarrow> id \<Rightarrow> Role \<Rightarrow>
   upload_response handler" where
  "store_upload env folder purpose mk_job concertId mf userId role w =
     (case find_concert concertId w of
        None \<Rightarrow> (w, Inl (NotFoundException ''concert''))
      | Some c \<Rightarrow>
          if role \<noteq> ADMIN \<and> c_organizerId c \<noteq> userId
          then (w, Inl (ForbiddenException ''not the organizer''))
          else let objectKey = ''concerts/'' @ concertId @ ''/'' @ folder @ ''/'' @ ue_uuid env @ ''-'' @
                       safe_file_name (mf_originalname mf)
            in case ue_storageFails env of
                 Some e \<Rightarrow> (w, Inl e)
               | None \<Rightarrow>
                   (w\<lparr>uploadedFiles := uploadedFiles w @ [new_file env concertId objectKey mf purpose],
                      jobs := jobs w @ [mk_job concertId (ue_fileId env) objectKey]\<rparr>,
                    Inr \<lparr>up_uploadedFileId = ue_fileId env, up_status = ''PENDING''\<rparr>))"

definition uploadGuestListCsv ::
  "upload_env \<Rightarrow> id \<Rightarrow> multer_file \<Rightarrow> id \<Rightarrow> Role \<Rightarrow> upload_response handler" where
  "uploadGuestListCsv env concertId mf userId role w =
     (if \<not> contains_string ''csv'' (mf_mimetype mf) \<and> \<not> contains_string ''excel'' (mf_mimetype mf)
      then (w, Inl (BadRequestException ''not a CSV file''))
      else if mf_size mf > 5 * 1024 * 1024 then (w, Inl (BadRequestException ''CSV larger than 5MB''))
      else store_upload env ''guest-list'' ''GUEST_LIST_CSV'' CsvImportJob concertId mf userId role w)"

definition uploadArtistPdf ::
  "upload_env \<Rightarrow> id \<Rightarrow> multer_file \<Rightarrow> id \<Rightarrow> Role \<Rightarrow> upload_response handler" where
  "uploadArtistPdf env concertId mf userId role w =
     (if mf_mimetype mf \<noteq> ''application/pdf'' then (w, Inl (BadRequestException ''not a PDF file''))
      else if mf_size mf > 10 * 1024 * 1024 then (w, Inl (BadRequestException ''PDF larger than 10MB''))
      else store_upload env ''artist-bio'' ''ARTIST_PRESS_KIT'' AiBioJob concertId mf userId role w)"

definition find_file :: "id \<Rightarrow> world \<Rightarrow> uploaded_file option" where
  "find_file i w = find_row uf_id i (uploadedFiles w)"

definition getUploadStatus :: "id \<Rightarrow> world \<Rightarrow> exn + uploaded_file" where
  "getUploadStatus i w =
     (case find_file i w of None \<Rightarrow> Inl (NotFoundException ''uploaded file'') | Some f \<Rightarrow> Inr f)"

section \<open>Rows of a guest list\<close>

type_synonym csv_row = "string \<Rightarrow> string option"

record csv_row_result =
  cv_fullName :: string
  cv_email :: "string option"
  cv_phone :: "string option"
  cv_sponsorName :: "string option"

datatype import_error =
    MissingName nat
  | BadEmail nat string
  | EmailTwice nat string
  | BadPhone nat string
  | PhoneTwice nat string
  | EmailListed string

text \<open>JavaScript's \<open>||\<close> on strings that may be missing: the empty string counts as missing.\<close>

fun or_text :: "string option \<Rightarrow> string option \<Rightarrow> string option" where
  "or_text None b = b"
| "or_text (Some []) b = b"
| "or_text (Some (c # cs)) b = Some (c # cs)"

definition trimmed_field :: "string option \<Rightarrow> string option" where
  "trimmed_field x = or_text (map_option trim x) None"

text \<open>\<open>/^[^\s@]+@[^\s@]+\.[^\s@]+$/\<close> and \<open>/^[0-9]{10,11}$/\<close>.\<close>

definition email_ok :: "string \<Rightarrow> bool" where
  "email_ok s \<longleftrightarrow>
     \<not> list_ex is_space s \<and>
     (case split_char (CHR ''@'') s of
        [local, domain] \<Rightarrow>
          local \<noteq> [] \<and> list_ex (\<lambda>i. domain ! i = CHR ''.'') [1..<length domain - 1]
      | _ \<Rightarrow> False)"

definition phone_ok :: "string \<Rightarrow> bool" where
  "phone_ok s \<longleftrightarrow>
     (length s = 10 \<or> length s = 11) \<and>
     list_all (\<lambda>c. let n = (of_char c :: nat) in 48 \<le> n \<and> n \<le> 57) s"

record parse_state =
  ps_valid :: "csv_row_result list"
  ps_errors :: "import_error list"
  ps_emails :: "string list"
  ps_phones :: "string list"

definition check_email :: "nat \<Rightarrow> string option \<Rightarrow> parse_state \<Rightarrow> parse_state" where
  "check_email line email st =
     (case email of
        None \<Rightarrow> st
      | Some e \<Rightarrow>
          let st1 = (if \<not> email_ok e then st\<lparr>ps_errors := ps_errors st @ [BadEmail line e]\<rparr>
                     else if e \<in> set (ps_emails st) then st\<lparr>ps_errors := ps_errors st @ [EmailTwice line e]\<rparr>
                     else st)
          in st1\<lparr>ps_emails := e # ps_emails st1\<rparr>)"

definition check_phone :: "nat \<Rightarrow> string option \<Rightarrow> parse_state \<Rightarrow> parse_state" where
  "check_phone line phone st =
     (case phone of
        None \<Rightarrow> st
      | Some p \<Rightarrow>
          let st1 = (if \<not> phone_ok p then st\<lparr>ps_errors := ps_errors st @ [BadPhone line p]\<rparr>
                     else if p \<in> set (ps_phones st) then st\<lparr>ps_errors := ps_errors st @ [PhoneTwice line p]\<rparr>
                     else st)
          in st1\<lparr>ps_phones := p # ps_phones st1\<rparr>)"

definition row_name :: "csv_row \<Rightarrow> string option" where
  "row_name row = or_text (row ''fullName'') (or_text (row ''name'') None)"

definition row_result :: "csv_row \<Rightarrow> string \<Rightarrow> csv_row_result" where
  "row_result row fullName =
     \<lparr>cv_fullName = fullName, cv_email = trimmed_field (row ''email''),
      cv_phone = trimmed_field (row ''phone''),
      cv_sponsorName = or_text (row ''sponsorName'') (or_text (row ''sponsor'') None)\<rparr>"

definition parse_row :: "nat \<Rightarrow> csv_row \<Rightarrow> parse_state \<Rightarrow> parse_state" where
  "parse_row line row st =
     (case row_name row of
        None \<Rightarrow> st\<lparr>ps_errors := ps_errors st @ [MissingName line]\<rparr>
      | Some fullName \<Rightarrow>
          let r = row_result row fullName;
              st1 = check_phone line (cv_phone r) (check_email line (cv_email r) st)
          in st1\<lparr>ps_valid := ps_valid st1 @ [r]\<rparr>)"

fun parse_loop :: "nat \<Rightarrow> csv_row list \<Rightarrow> parse_state \<Rightarrow> parse_state" where
  "parse_loop line [] st = st"
| "parse_loop line (row # rows) st = parse_loop (Suc line) rows (parse_row line row st)"

text \<open>The first row of data is line 2 of the file.\<close>

definition parseBuffer :: "csv_row list \<Rightarrow> parse_state" where
  "parseBuffer rows = parse_loop 2 rows \<lparr>ps_valid = [], ps_errors = [], ps_emails = [], ps_phones = []\<rparr>"

section \<open>A job that works on a file\<close>

text \<open>\<open>job.attemptsMade\<close> and \<open>job.opts.attempts\<close> of the queue.\<close>

record attempt =
  at_made :: nat
  at_attempts :: "nat option"

definition is_final_attempt :: "attempt \<Rightarrow> bool" where
  "is_final_attempt a \<longleftrightarrow>
     (let maxAttempts = (case at_attempts a of None \<Rightarrow> 1 | Some n \<Rightarrow> if n = 0 then 1 else n)
      in at_made a + 1 \<ge> maxAttempts)"

definition set_file_status :: "id \<Rightarrow> string \<Rightarrow> string option \<Rightarrow> unit handler" where
  "set_file_status i status msg w =
     (case find_file i w of
        None \<Rightarrow> (w, Inl (RecordNotFound ''UploadedFile''))
      | Some _ \<Rightarrow>
          (w\<lparr>uploadedFiles := update_where (\<lambda>f. uf_id f = i)
               (\<lambda>f. f\<lparr>uf_status := status, uf_errorMessage := msg\<rparr>) (uploadedFiles w)\<rparr>, Inr ()))"

text \<open>The \<open>catch\<close> of both processors: the last attempt marks the file, every attempt throws on.\<close>

definition on_failure :: "attempt \<Rightarrow> (exn \<Rightarrow> string) \<Rightarrow> id \<Rightarrow> 'a handler \<Rightarrow> 'a handler" where
  "on_failure a message i body w =
     (case body w of
        (w1, Inl e) \<Rightarrow>
          if is_final_attempt a
          then bindE (set_file_status i ''FAILED'' (Some (message e)) w1) (\<lambda>w2 _. (w2, Inl e))
          else (w1, Inl e)
      | (w1, Inr x) \<Rightarrow> (w1, Inr x))"

section \<open>Import of a guest list\<close>

text \<open>
  \<open>ie_rows\<close> is what the download and the CSV library give, \<open>ie_lastWrite\<close> the error of the
  database at the last write, \<open>ie_id\<close> the fresh identifier of the n-th new row.
\<close>

record import_env =
  ie_rows :: "exn + csv_row list"
  ie_id :: "nat \<Rightarrow> id"
  ie_now :: time
  ie_json :: "import_error list \<Rightarrow> string"
  ie_message :: "exn \<Rightarrow> string"
  ie_lastWrite :: "exn option"

record import_result =
  ir_status :: string
  ir_insertedCount :: nat
  ir_duplicateCount :: nat

definition listed_emails :: "id \<Rightarrow> csv_row_result list \<Rightarrow> world \<Rightarrow> string list" where
  "listed_emails concertId rs w =
     (let emailsToCheck = List.map_filter cv_email rs;
          existing = filter (\<lambda>g. gl_concertId g = concertId \<and>
            (case gl_email g of None \<Rightarrow> False | Some e \<Rightarrow> e \<in> set emailsToCheck)) (guestListEntries w)
      in filter (\<lambda>e. e \<noteq> []) (List.map_filter gl_email existing))"

text \<open>\<open>row.email && existingEmailsSet.has(row.email)\<close>\<close>

definition is_listed :: "string list \<Rightarrow> csv_row_result \<Rightarrow> bool" where
  "is_listed existing r \<longleftrightarrow>
     (case cv_email r of None \<Rightarrow> False | Some e \<Rightarrow> e \<noteq> [] \<and> e \<in> set existing)"

definition new_guest :: "import_env \<Rightarrow> id \<Rightarrow> string \<Rightarrow> nat \<Rightarrow> csv_row_result \<Rightarrow> guest" where
  "new_guest env concertId objectKey n r =
     \<lparr>gl_id = ie_id env n, gl_concertId = concertId, gl_fullName = cv_fullName r,
      gl_email = cv_email r, gl_phone = cv_phone r, gl_sponsorName = cv_sponsorName r,
      gl_sourceFile = Some objectKey, gl_createdAt = ie_now env\<rparr>"

text \<open>\<open>guestListEntry.createMany\<close>: the foreign key on the concert is the only constraint.\<close>

definition create_guests :: "import_env \<Rightarrow> id \<Rightarrow> string \<Rightarrow> csv_row_result list \<Rightarrow> unit handler" where
  "create_guests env concertId objectKey rs w =
     (if find_concert concertId w = None then (w, Inl (ForeignKeyViolation ''GuestListEntry''))
      else (w\<lparr>guestListEntries := guestListEntries w @
                map (\<lambda>(n, r). new_guest env concertId objectKey n r) (enumerate 0 rs)\<rparr>, Inr ()))"

text \<open>The rows to insert, and the errors of the rows that are listed already.\<close>

definition insert_new :: "import_env \<Rightarrow> id \<Rightarrow> string \<Rightarrow> csv_row_result list \<Rightarrow> (nat \<times> import_error list) handler" where
  "insert_new env concertId objectKey validRecords w =
     (if validRecords = [] then (w, Inr (0, []))
      else let existing = listed_emails concertId validRecords w;
               recordsToInsert = filter (\<lambda>r. \<not> is_listed existing r) validRecords;
               skipped = map (\<lambda>r. EmailListed (the (cv_email r))) (filter (is_listed existing) validRecords)
           in if recordsToInsert = [] then (w, Inr (0, skipped))
              else bindE (create_guests env concertId objectKey recordsToInsert w)
                     (\<lambda>w1 _. (w1, Inr (length recordsToInsert, skipped))))"

definition import_body :: "import_env \<Rightarrow> id \<Rightarrow> id \<Rightarrow> string \<Rightarrow> import_result handler" where
  "import_body env concertId fileId objectKey w =
     bindE (set_file_status fileId ''PROCESSING'' None w) (\<lambda>w1 _.
       case ie_rows env of
         Inl e \<Rightarrow> (w1, Inl e)
       | Inr rows \<Rightarrow>
           if rows = [] then (w1, Inl (PlainError ''empty CSV file''))
           else let st = parseBuffer rows
             in bindE (insert_new env concertId objectKey (ps_valid st) w1) (\<lambda>w2 (n, skipped).
                  let errors = ps_errors st @ skipped;
                      finalStatus = (if errors \<noteq> [] then ''COMPLETED_WITH_ERRORS'' else ''COMPLETED'');
                      errorMsg = (if errors \<noteq> [] then Some (ie_json env (take 50 errors)) else None)
                  in case ie_lastWrite env of
                       Some e \<Rightarrow> (w2, Inl e)
                     | None \<Rightarrow>
                         bindE (set_file_status fileId finalStatus errorMsg w2) (\<lambda>w3 _.
                           (w3, Inr \<lparr>ir_status = finalStatus, ir_insertedCount = n,
                                     ir_duplicateCount = length skipped\<rparr>))))"

definition process_csv :: "attempt \<Rightarrow> import_env \<Rightarrow> id \<Rightarrow> id \<Rightarrow> string \<Rightarrow> import_result handler" where
  "process_csv a env concertId fileId objectKey =
     on_failure a (ie_message env) fileId (import_body env concertId fileId objectKey)"

section \<open>Biography of an artist\<close>

text \<open>
  \<open>cleanText\<close> of the PDF service: a run of white space becomes one space, null characters go.
\<close>

fun one_space :: "bool \<Rightarrow> string \<Rightarrow> string" where
  "one_space seen [] = []"
| "one_space seen (c # cs) =
     (if is_space c then (if seen then one_space True cs else CHR '' '' # one_space True cs)
      else c # one_space False cs)"

definition cleanText :: "string \<Rightarrow> string" where
  "cleanText s = trim (filter (\<lambda>c. of_char c \<noteq> (0 :: nat)) (one_space False s))"

record bio_env =
  be_pdfText :: "exn + string"             \<comment> \<open>download and PDF library\<close>
  be_generate :: "string \<Rightarrow> exn + string"  \<comment> \<open>language model\<close>
  be_message :: "exn \<Rightarrow> string"
  be_now :: time

definition extractText :: "bio_env \<Rightarrow> exn + string" where
  "extractText env = (case be_pdfText env of Inl e \<Rightarrow> Inl e | Inr s \<Rightarrow> Inr (cleanText s))"

definition store_bio :: "bio_env \<Rightarrow> id \<Rightarrow> id \<Rightarrow> string \<Rightarrow> unit handler" where
  "store_bio env concertId fileId bio w =
     (if find_concert concertId w = None then (w, Inl (RecordNotFound ''Concert''))
      else set_file_status fileId ''COMPLETED'' None
             (update_concert concertId (\<lambda>c. c\<lparr>c_artistBio := Some bio, c_updatedAt := be_now env\<rparr>) w))"

definition REDIS_KEY_ARTIST_BIO :: "id \<Rightarrow> string" where
  "REDIS_KEY_ARTIST_BIO i = ''cache:artist-bio:'' @ i"

definition drop_bio_caches :: "id \<Rightarrow> world \<Rightarrow> world" where
  "drop_bio_caches i w = w\<lparr>redisdb :=
     redis_del REDIS_KEY_CONCERT_LIST (redis_del (REDIS_KEY_CONCERT_DETAIL i)
       (redis_del (REDIS_KEY_ARTIST_BIO i) (redisdb w)))\<rparr>"

definition bio_body :: "bio_env \<Rightarrow> id \<Rightarrow> id \<Rightarrow> unit handler" where
  "bio_body env concertId fileId w =
     bindE (set_file_status fileId ''PROCESSING'' None w) (\<lambda>w1 _.
       case extractText env of
         Inl e \<Rightarrow> (w1, Inl e)
       | Inr extractedText \<Rightarrow>
           if length extractedText < 20 then (w1, Inl (PlainError ''PDF_TEXT_EXTRACTION_FAILED''))
           else case be_generate env (take 8000 extractedText) of
                  Inl e \<Rightarrow> (w1, Inl e)
                | Inr artistBio \<Rightarrow>
                    if length (trim artistBio) < 20 then (w1, Inl (PlainError ''AI_BIO_EMPTY''))
                    else bindE (transaction (store_bio env concertId fileId artistBio) w1) (\<lambda>w2 _.
                           (drop_bio_caches concertId w2, Inr ())))"

definition process_ai_bio :: "attempt \<Rightarrow> bio_env \<Rightarrow> id \<Rightarrow> id \<Rightarrow> unit handler" where
  "process_ai_bio a env concertId fileId = on_failure a (be_message env) fileId (bio_body env concertId fileId)"

end
