(* ===== verification/Guest_Import_Properties.thy ===== *)
theory Guest_Import_Properties
  imports Guest_Import
begin

text \<open>
  What the import of a guest list and the biography job promise: the rows that are accepted, what is
  inserted by a first attempt and by a retry, what a failure leaves, and what a reader sees.
\<close>

section \<open>What the parser accepts\<close>

text \<open>The rows that have a name, and the fields of a column that are not blank.\<close>

definition guest_rows :: "csv_row list \<Rightarrow> csv_row_result list" where
  "guest_rows rows = List.map_filter (\<lambda>row. map_option (row_result row) (row_name row)) rows"

lemma map_filter_Nil [simp]: "List.map_filter f [] = []"
  by (simp add: List.map_filter_def)

lemma map_filter_Cons [simp]:
  "List.map_filter f (x # xs) = (case f x of None \<Rightarrow> [] | Some y \<Rightarrow> [y]) @ List.map_filter f xs"
  by (auto simp: List.map_filter_def split: option.split)

lemma set_map_filter: "set (List.map_filter f xs) = {y. \<exists>x \<in> set xs. f x = Some y}"
  by (induction xs) (auto split: option.split)

lemma guest_rows_Cons:
  "guest_rows (row # rows) =
     (case row_name row of None \<Rightarrow> guest_rows rows | Some n \<Rightarrow> row_result row n # guest_rows rows)"
  by (simp add: guest_rows_def split: option.split)

lemma check_frame [simp]:
  "ps_valid (check_email l e st) = ps_valid st" "ps_valid (check_phone l p st) = ps_valid st"
  "ps_phones (check_email l e st) = ps_phones st" "ps_emails (check_phone l p st) = ps_emails st"
  "ps_emails (check_email l e st) = (case e of None \<Rightarrow> [] | Some x \<Rightarrow> [x]) @ ps_emails st"
  "ps_phones (check_phone l p st) = (case p of None \<Rightarrow> [] | Some x \<Rightarrow> [x]) @ ps_phones st"
  by (auto simp: check_email_def check_phone_def Let_def split: option.split)

lemma parse_loop_valid: "ps_valid (parse_loop line rows st) = ps_valid st @ guest_rows rows"
  by (induction rows arbitrary: line st)
    (auto simp: guest_rows_Cons guest_rows_def parse_row_def Let_def split: option.split)

lemma parse_valid [simp]: "ps_valid (parseBuffer rows) = guest_rows rows"
  by (simp add: parseBuffer_def parse_loop_valid)

text \<open>No error: every row has a name, the values of a column are well formed and differ.\<close>

definition fresh_column :: "(string \<Rightarrow> bool) \<Rightarrow> string list \<Rightarrow> string list \<Rightarrow> bool" where
  "fresh_column ok xs seen \<longleftrightarrow> list_all ok xs \<and> distinct xs \<and> set xs \<inter> set seen = {}"

lemma fresh_column_Cons:
  "fresh_column ok (x # xs) seen \<longleftrightarrow> ok x \<and> x \<notin> set seen \<and> fresh_column ok xs (x # seen)"
  by (auto simp: fresh_column_def)

lemma fresh_column_Nil [simp]: "fresh_column ok [] seen"
  by (simp add: fresh_column_def)

lemma check_email_clean:
  "ps_errors (check_email l e st) = [] \<longleftrightarrow>
     ps_errors st = [] \<and> (case e of None \<Rightarrow> True | Some x \<Rightarrow> email_ok x \<and> x \<notin> set (ps_emails st))"
  by (auto simp: check_email_def Let_def split: option.split)

lemma check_phone_clean:
  "ps_errors (check_phone l p st) = [] \<longleftrightarrow>
     ps_errors st = [] \<and> (case p of None \<Rightarrow> True | Some x \<Rightarrow> phone_ok x \<and> x \<notin> set (ps_phones st))"
  by (auto simp: check_phone_def Let_def split: option.split)

lemma parse_loop_clean:
  "ps_errors (parse_loop line rows st) = [] \<longleftrightarrow>
     ps_errors st = [] \<and> list_all (\<lambda>row. row_name row \<noteq> None) rows \<and>
     fresh_column email_ok (List.map_filter cv_email (guest_rows rows)) (ps_emails st) \<and>
     fresh_column phone_ok (List.map_filter cv_phone (guest_rows rows)) (ps_phones st)"
proof (induction rows arbitrary: line st)
  case Nil
  then show ?case by (simp add: guest_rows_def)
next
  case (Cons row rows)
  show ?case
  proof (cases "row_name row")
    case None
    then show ?thesis by (simp add: Cons.IH parse_row_def)
  next
    case (Some n)
    let ?r = "row_result row n"
    have "ps_errors (parse_row line row st) = [] \<longleftrightarrow> ps_errors st = [] \<and>
        (case cv_email ?r of None \<Rightarrow> True | Some x \<Rightarrow> email_ok x \<and> x \<notin> set (ps_emails st)) \<and>
        (case cv_phone ?r of None \<Rightarrow> True | Some x \<Rightarrow> phone_ok x \<and> x \<notin> set (ps_phones st))"
      using Some by (simp add: parse_row_def Let_def check_email_clean check_phone_clean split: option.split)
    moreover have
      "ps_emails (parse_row line row st) = (case cv_email ?r of None \<Rightarrow> [] | Some x \<Rightarrow> [x]) @ ps_emails st"
      "ps_phones (parse_row line row st) = (case cv_phone ?r of None \<Rightarrow> [] | Some x \<Rightarrow> [x]) @ ps_phones st"
      using Some by (simp_all add: parse_row_def Let_def)
    ultimately show ?thesis
      using Some
      by (cases "cv_email ?r"; cases "cv_phone ?r")
        (auto simp: Cons.IH guest_rows_Cons fresh_column_Cons)
  qed
qed

text \<open>
  The parser reports no error exactly for the lists in which every row has a name, all e-mail
  addresses and phone numbers are well formed, and none occurs twice.
\<close>

theorem guest_list_clean_iff:
  "ps_errors (parseBuffer rows) = [] \<longleftrightarrow>
     list_all (\<lambda>row. row_name row \<noteq> None) rows \<and>
     (let emails = List.map_filter cv_email (guest_rows rows);
          phones = List.map_filter cv_phone (guest_rows rows)
      in list_all email_ok emails \<and> distinct emails \<and> list_all phone_ok phones \<and> distinct phones)"
  by (simp add: parseBuffer_def parse_loop_clean fresh_column_def Let_def conj_assoc)

section \<open>What an import does\<close>

lemma find_file_rows [simp]:
  "find_file i (w\<lparr>uploadedFiles := fs\<rparr>) = find_row uf_id i fs"
  "find_file i (w\<lparr>guestListEntries := gs\<rparr>) = find_file i w"
  by (simp_all add: find_file_def)

lemma find_row_status [simp]:
  "find_row uf_id i (update_where (\<lambda>f. uf_id f = i) (\<lambda>f. f\<lparr>uf_status := s, uf_errorMessage := m\<rparr>) fs) =
     map_option (\<lambda>f. f\<lparr>uf_status := s, uf_errorMessage := m\<rparr>) (find_row uf_id i fs)"
  by (induction fs) auto

lemma set_status_found:
  assumes "find_file i w = Some f"
  shows "\<exists>fs. set_file_status i s m w = (w\<lparr>uploadedFiles := fs\<rparr>, Inr ()) \<and>
    find_file i (w\<lparr>uploadedFiles := fs\<rparr>) = Some (f\<lparr>uf_status := s, uf_errorMessage := m\<rparr>)"
  using assms by (auto simp: set_file_status_def find_file_def)

lemma set_status_missing: "find_file i w = None \<Longrightarrow> set_file_status i s m w = (w, Inl (RecordNotFound ''UploadedFile''))"
  by (simp add: set_file_status_def)

text \<open>A guest of the concert has this e-mail address already.\<close>

definition email_taken :: "id \<Rightarrow> world \<Rightarrow> csv_row_result \<Rightarrow> bool" where
  "email_taken concertId w r \<longleftrightarrow>
     (case cv_email r of None \<Rightarrow> False
      | Some e \<Rightarrow> list_ex (\<lambda>g. gl_concertId g = concertId \<and> gl_email g = Some e) (guestListEntries w))"

definition new_guests :: "import_env \<Rightarrow> id \<Rightarrow> string \<Rightarrow> csv_row_result list \<Rightarrow> guest list" where
  "new_guests env concertId objectKey rs =
     map (\<lambda>(n, r). new_guest env concertId objectKey n r) (enumerate 0 rs)"

lemma trimmed_nonempty: "trimmed_field x \<noteq> Some []"
  by (cases x; cases "trim (the x)") (auto simp: trimmed_field_def)

lemma guest_rows_email: "r \<in> set (guest_rows rows) \<Longrightarrow> cv_email r \<noteq> Some []"
  by (auto simp: guest_rows_def set_map_filter row_result_def trimmed_nonempty)

lemma is_listed_iff:
  assumes "r \<in> set rs" and "cv_email r \<noteq> Some []"
  shows "is_listed (listed_emails cid rs w) r = email_taken cid w r"
proof (cases "cv_email r")
  case (Some e)
  then have "e \<in> set (List.map_filter cv_email rs)" using assms(1) by (force simp: set_map_filter)
  then have "e \<in> set (listed_emails cid rs w) \<longleftrightarrow>
      e \<noteq> [] \<and> (\<exists>g \<in> set (guestListEntries w). gl_concertId g = cid \<and> gl_email g = Some e)"
    unfolding listed_emails_def Let_def by (fastforce simp: set_map_filter [where f = gl_email])
  then show ?thesis
    using Some assms(2) by (simp add: is_listed_def email_taken_def list_ex_iff)
qed (simp_all add: is_listed_def email_taken_def)

lemma insert_new_rows:
  assumes "find_concert cid w \<noteq> None" and rs: "rs = guest_rows rows"
  defines "fresh \<equiv> filter (\<lambda>r. \<not> email_taken cid w r) rs"
  shows "insert_new env cid key rs w =
     (w\<lparr>guestListEntries := guestListEntries w @ new_guests env cid key fresh\<rparr>,
      Inr (length fresh, map (\<lambda>r. EmailListed (the (cv_email r))) (filter (email_taken cid w) rs)))"
proof -
  have "filter (is_listed (listed_emails cid rs w)) rs = filter (email_taken cid w) rs"
    "filter (\<lambda>r. \<not> is_listed (listed_emails cid rs w) r) rs = fresh"
    unfolding fresh_def by (auto intro!: filter_cong simp: is_listed_iff guest_rows_email rs)
  then show ?thesis
    using assms(1)
    by (auto simp: insert_new_def Let_def create_guests_def new_guests_def fresh_def enumerate_Suc_eq)
qed

text \<open>The body of an import that reads rows, up to the last write.\<close>

lemma import_body_rows:
  assumes row: "find_file i w = Some f" and "find_concert cid w \<noteq> None"
    and "ie_rows env = Inr rows" and "rows \<noteq> []"
  defines "fresh \<equiv> filter (\<lambda>r. \<not> email_taken cid w r) (guest_rows rows)"
    and "errors \<equiv> ps_errors (parseBuffer rows) @
      map (\<lambda>r. EmailListed (the (cv_email r))) (filter (email_taken cid w) (guest_rows rows))"
  shows "\<exists>fs.
    find_file i (w\<lparr>uploadedFiles := fs\<rparr>) = Some (f\<lparr>uf_status := ''PROCESSING'', uf_errorMessage := None\<rparr>) \<and>
    import_body env cid i key w =
      (let w2 = w\<lparr>uploadedFiles := fs, guestListEntries := guestListEntries w @ new_guests env cid key fresh\<rparr>;
           status = (if errors \<noteq> [] then ''COMPLETED_WITH_ERRORS'' else ''COMPLETED'');
           msg = (if errors \<noteq> [] then Some (ie_json env (take 50 errors)) else None)
       in case ie_lastWrite env of
            Some e \<Rightarrow> (w2, Inl e)
          | None \<Rightarrow> bindE (set_file_status i status msg w2) (\<lambda>w3 _.
              (w3, Inr \<lparr>ir_status = status, ir_insertedCount = length fresh,
                 ir_duplicateCount = length (filter (email_taken cid w) (guest_rows rows))\<rparr>)))"
proof -
  obtain fs where set_st: "set_file_status i ''PROCESSING'' None w = (w\<lparr>uploadedFiles := fs\<rparr>, Inr ())"
    and found: "find_file i (w\<lparr>uploadedFiles := fs\<rparr>) = Some (f\<lparr>uf_status := ''PROCESSING'', uf_errorMessage := None\<rparr>)"
    using set_status_found [OF row] by blast
  have taken: "email_taken cid (w\<lparr>uploadedFiles := fs\<rparr>) = email_taken cid w"
    by (simp add: email_taken_def fun_eq_iff split: option.split)
  have here: "find_concert cid (w\<lparr>uploadedFiles := fs\<rparr>) \<noteq> None"
    using assms(2) by (simp add: find_concert_def)
  show ?thesis
    using insert_new_rows [OF here refl, of env key rows]
    by (intro exI [of _ fs] conjI found)
      (auto simp: import_body_def set_st assms(3,4) taken Let_def fresh_def errors_def split: option.split)
qed

text \<open>Rows without a name.\<close>

definition nameless :: "csv_row list \<Rightarrow> nat" where
  "nameless rows = count_where (\<lambda>row. row_name row = None) rows"

lemma rows_counted: "length (guest_rows rows) + nameless rows = length rows"
  by (induction rows) (auto simp: guest_rows_Cons guest_rows_def nameless_def count_where_def split: option.split)

text \<open>
  An import inserts, in the order of the file, the rows that have a name and whose e-mail address no
  guest of the concert has yet.  It counts every row as inserted, duplicate or nameless, and ends
  COMPLETED exactly when the list is clean and nothing was a duplicate.
\<close>

theorem import_inserts_new_guests:
  assumes "find_file i w = Some f" and "find_concert cid w \<noteq> None"
    and "ie_rows env = Inr rows" and "rows \<noteq> []" and "ie_lastWrite env = None"
  shows "\<exists>w' r. process_csv a env cid i key w = (w', Inr r) \<and>
      guestListEntries w' = guestListEntries w @
        new_guests env cid key (filter (\<lambda>r. \<not> email_taken cid w r) (guest_rows rows)) \<and>
      ir_insertedCount r + ir_duplicateCount r + nameless rows = length rows \<and>
      (ir_status r = ''COMPLETED'' \<longleftrightarrow> ps_errors (parseBuffer rows) = [] \<and> ir_duplicateCount r = 0) \<and>
      map_option uf_status (find_file i w') = Some (ir_status r)"
proof -
  have counts: "length (filter (\<lambda>r. \<not> email_taken cid w r) (guest_rows rows)) +
      length (filter (email_taken cid w) (guest_rows rows)) + nameless rows = length rows"
    using sum_length_filter_compl [of "email_taken cid w" "guest_rows rows"] rows_counted [of rows] by simp
  from import_body_rows [OF assms(1-4), where key = key] show ?thesis
    using counts
    by (elim exE conjE) (auto simp: process_csv_def on_failure_def assms(5) Let_def set_file_status_def)
qed

lemma find_concert_files [simp]:
  "find_concert cid (w\<lparr>uploadedFiles := fs\<rparr>) = find_concert cid w"
  "find_concert cid (w\<lparr>guestListEntries := gs\<rparr>) = find_concert cid w"
  by (simp_all add: find_concert_def)

lemma import_guests:
  assumes "find_file i w = Some f" and "find_concert cid w \<noteq> None"
    and "ie_rows env = Inr rows" and "rows \<noteq> []" and w': "w' = fst (process_csv a env cid i key w)"
  shows "guestListEntries w' = guestListEntries w @
      new_guests env cid key (filter (\<lambda>r. \<not> email_taken cid w r) (guest_rows rows)) \<and>
    (\<exists>f'. find_file i w' = Some f') \<and> find_concert cid w' \<noteq> None"
proof -
  from import_body_rows [OF assms(1-4), where key = key] assms(2) show ?thesis
    unfolding w'
    by (elim exE conjE) (auto simp: process_csv_def on_failure_def Let_def set_file_status_def split: option.splits)
qed

lemma email_taken_new_guests:
  assumes "guestListEntries w' =
    guestListEntries w @ new_guests env cid key (filter (\<lambda>r. \<not> email_taken cid w r) rs)"
    and "r \<in> set rs"
  shows "email_taken cid w' r \<longleftrightarrow> cv_email r \<noteq> None"
proof (cases "cv_email r")
  case None
  then show ?thesis by (simp add: email_taken_def)
next
  case (Some e)
  let ?fresh = "filter (\<lambda>r. \<not> email_taken cid w r) rs"
  have "list_ex (\<lambda>g. gl_concertId g = cid \<and> gl_email g = Some e) (guestListEntries w')"
  proof (cases "email_taken cid w r")
    case True
    then show ?thesis using Some assms(1) by (simp add: email_taken_def)
  next
    case False
    then have "r \<in> set ?fresh" using assms(2) by simp
    then obtain n where "n < length ?fresh" "?fresh ! n = r" unfolding in_set_conv_nth by blast
    then have "(n, r) \<in> set (enumerate 0 ?fresh)" by (simp add: in_set_enumerate_eq)
    then have "new_guest env cid key n r \<in> set (guestListEntries w')"
      using assms(1) by (force simp: new_guests_def)
    moreover have "gl_concertId (new_guest env cid key n r) = cid" "gl_email (new_guest env cid key n r) = Some e"
      using Some by (simp_all add: new_guest_def)
    ultimately show ?thesis unfolding list_ex_iff by blast
  qed
  then show ?thesis using Some by (simp add: email_taken_def)
qed

text \<open>
  C39: A retry after an attempt that had inserted its rows, whether the attempt completed or lost its last
  write, skips the guests with an e-mail address and inserts every guest without one again.
\<close>

theorem retry_duplicates_guests_without_email:
  assumes "find_file i w = Some f" and "find_concert cid w \<noteq> None"
    and "ie_rows env = Inr rows" and "rows \<noteq> []" and "ie_rows env' = Inr rows"
    and "w1 = fst (process_csv a env cid i key w)"
  shows "guestListEntries (fst (process_csv a' env' cid i key' w1)) =
    guestListEntries w1 @ new_guests env' cid key' (filter (\<lambda>r. cv_email r = None) (guest_rows rows))"
proof -
  have one: "guestListEntries w1 = guestListEntries w @
      new_guests env cid key (filter (\<lambda>r. \<not> email_taken cid w r) (guest_rows rows))"
    and two: "\<exists>f'. find_file i w1 = Some f'" "find_concert cid w1 \<noteq> None"
    using import_guests [OF assms(1-4) assms(6)] by auto
  have "filter (\<lambda>r. \<not> email_taken cid w1 r) (guest_rows rows) =
      filter (\<lambda>r. cv_email r = None) (guest_rows rows)"
    using email_taken_new_guests [OF one] by (auto intro: filter_cong)
  then show ?thesis using import_guests [OF _ two(2) assms(5,4) refl] two(1) by auto
qed

lemma insert_new_no_concert: "find_concert cid w = None \<Longrightarrow> fst (insert_new env cid key rs w) = w"
  by (auto simp: insert_new_def Let_def create_guests_def)

lemma import_body_failure:
  assumes "import_body env cid i key w = (w1, Inl e)" and row: "find_file i w = Some f"
    and "ie_lastWrite env = None"
  shows "guestListEntries w1 = guestListEntries w \<and>
    find_file i w1 = Some (f\<lparr>uf_status := ''PROCESSING'', uf_errorMessage := None\<rparr>)"
proof -
  obtain fs where set_st: "set_file_status i ''PROCESSING'' None w = (w\<lparr>uploadedFiles := fs\<rparr>, Inr ())"
    and found: "find_file i (w\<lparr>uploadedFiles := fs\<rparr>) = Some (f\<lparr>uf_status := ''PROCESSING'', uf_errorMessage := None\<rparr>)"
    using set_status_found [OF row] by blast
  show ?thesis
  proof (cases "\<exists>rows. ie_rows env = Inr rows \<and> rows \<noteq> [] \<and> find_concert cid w \<noteq> None")
    case True
    then obtain rows where "ie_rows env = Inr rows" "rows \<noteq> []" "find_concert cid w \<noteq> None" by blast
    from import_body_rows [OF row this(3,1,2), where key = key] assms(1,3) show ?thesis
      by (elim exE conjE) (auto simp: Let_def set_file_status_def split: if_splits)
  next
    case False
    have con: "find_concert cid (w\<lparr>uploadedFiles := fs\<rparr>) = find_concert cid w" by (simp add: find_concert_def)
    show ?thesis
    proof (cases "ie_rows env")
      case (Inl x)
      then show ?thesis using assms(1) found by (auto simp: import_body_def set_st)
    next
      case (Inr rows)
      show ?thesis
      proof (cases "rows = []")
        case True
        then show ?thesis using Inr assms(1) found by (auto simp: import_body_def set_st)
      next
        case rows: False
        then have "find_concert cid (w\<lparr>uploadedFiles := fs\<rparr>) = None" using False Inr con by auto
        from insert_new_no_concert [OF this, of env key "guest_rows rows"]
        obtain r where ins: "insert_new env cid key (guest_rows rows) (w\<lparr>uploadedFiles := fs\<rparr>) =
            (w\<lparr>uploadedFiles := fs\<rparr>, r)"
          by (cases "insert_new env cid key (guest_rows rows) (w\<lparr>uploadedFiles := fs\<rparr>)") auto
        show ?thesis
        proof (cases r)
          case (Inl x)
          then show ?thesis using Inr rows ins assms(1) found
            by (auto simp: import_body_def set_st Let_def)
        next
          case r: (Inr ns)
          obtain n skipped where ns: "ns = (n, skipped)" by (cases ns)
          have "set_file_status i s m (w\<lparr>uploadedFiles := fs\<rparr>) \<noteq> (x, Inl y)" for s m x y
            using set_status_found [OF found, of s m] by auto
          moreover have "snd (import_body env cid i key w) = Inl e" using assms(1) by simp
          ultimately have False
            using Inr rows ins assms(3)
            by (auto simp: import_body_def set_st Let_def r ns bindE_def split: prod.splits sum.splits if_splits)
          then show ?thesis ..
        qed
      qed
    qed
  qed
qed

text \<open>
  An attempt that fails before its last write has inserted no guest; the file stays PROCESSING and
  becomes FAILED only with the last attempt.
\<close>

theorem failed_import_leaves_guests:
  assumes "process_csv a env cid i key w = (w', Inl e)" and "find_file i w = Some f"
    and "ie_lastWrite env = None"
  shows "guestListEntries w' = guestListEntries w \<and>
    map_option uf_status (find_file i w') =
      Some (if is_final_attempt a then ''FAILED'' else ''PROCESSING'')"
proof -
  obtain w1 r where body: "import_body env cid i key w = (w1, r)" by (cases "import_body env cid i key w")
  show ?thesis
  proof (cases r)
    case (Inl e1)
    note facts = import_body_failure [OF body [unfolded Inl] assms(2,3)]
    show ?thesis
      using assms(1) facts
      by (auto simp: process_csv_def on_failure_def body Inl set_file_status_def find_file_def split: if_splits)
  next
    case (Inr x)
    then show ?thesis using assms(1) by (simp add: process_csv_def on_failure_def body)
  qed
qed

section \<open>What a biography changes\<close>

lemma set_file_status_frame [simp]:
  "concerts (fst (set_file_status i s m w)) = concerts w"
  "redisdb (fst (set_file_status i s m w)) = redisdb w"
  "users (fst (set_file_status i s m w)) = users w"
  "ticketTypes (fst (set_file_status i s m w)) = ticketTypes w"
  by (auto simp: set_file_status_def split: option.split)

lemma views_of_files [simp]:
  "public_detail c (w\<lparr>uploadedFiles := fs\<rparr>) = public_detail c w"
  "detail_of i (w\<lparr>uploadedFiles := fs\<rparr>) = detail_of i w"
  "default_page (w\<lparr>uploadedFiles := fs\<rparr>) = default_page w"
  by (auto simp: detail_of_def default_page_def concert_page_def public_detail_def organizer_name_def
      find_user_def types_by_price_def ticket_types_of_def split: option.split)

lemma coherent_set_file_status [simp]: "coherent (fst (set_file_status i s m w)) = coherent w"
  by (simp add: set_file_status_def coherent_def split: option.split)

lemma touches_only_file_status: "touches_only c w (fst (set_file_status i s m w))"
  by (simp add: touches_only_def find_concert_def ticket_types_of_def)

lemma coherent_drop_bio:
  assumes "coherent w" and "touches_only i w w'"
  shows "coherent (drop_bio_caches i w')"
proof -
  have "coherent (invalidateCache (Some i) w')" by (rule coherent_invalidate [OF assms])
  moreover have "redisdb (drop_bio_caches i w') k = Some v \<Longrightarrow> redisdb (invalidateCache (Some i) w') k = Some v" for k v
    by (auto simp: drop_bio_caches_def invalidateCache_def redis_del_def split: if_splits)
  moreover have "detail_of j (drop_bio_caches i w') = detail_of j (invalidateCache (Some i) w')"
    "default_page (drop_bio_caches i w') = default_page (invalidateCache (Some i) w')" for j
    by (simp_all add: drop_bio_caches_def invalidateCache_def)
  ultimately show ?thesis unfolding coherent_def by metis
qed

lemma store_bio_step:
  assumes "store_bio env cid i bio w = (w', Inr ())"
  shows "touches_only cid w w' \<and> map_option c_artistBio (find_concert cid w') = Some (Some bio)"
proof -
  let ?f = "\<lambda>c. c\<lparr>c_artistBio := Some bio, c_updatedAt := be_now env\<rparr>"
  have here: "find_concert cid w \<noteq> None" and step: "set_file_status i ''COMPLETED'' None (update_concert cid ?f w) = (w', Inr ())"
    using assms by (auto simp: store_bio_def split: if_splits)
  have "touches_only cid w (update_concert cid ?f w)" by (rule touches_only_update) simp
  moreover have "touches_only cid (update_concert cid ?f w) w'"
    using touches_only_file_status [of cid "update_concert cid ?f w" i "''COMPLETED''" None] step by simp
  moreover have "find_concert cid w' = find_concert cid (update_concert cid ?f w)"
    using set_file_status_frame(1) [of i "''COMPLETED''" None "update_concert cid ?f w"] step
    by (simp add: find_concert_def)
  moreover have "find_concert cid (update_concert cid ?f w) = map_option ?f (find_concert cid w)"
    by (simp add: option.map_ident)
  ultimately show ?thesis using here touches_only_trans by auto
qed

lemma bio_body_step:
  assumes "bio_body env cid i w = (w', r)" and "coherent w"
  shows "coherent w' \<and>
    (case r of
       Inl e \<Rightarrow> concerts w' = concerts w
     | Inr _ \<Rightarrow> (\<exists>text bio. extractText env = Inr text \<and> 20 \<le> length text \<and>
         be_generate env (take 8000 text) = Inr bio \<and> 20 \<le> length (trim bio) \<and>
         map_option c_artistBio (find_concert cid w') = Some (Some bio)))"
proof -
  obtain w1 s where set_st: "set_file_status i ''PROCESSING'' None w = (w1, s)"
    by (cases "set_file_status i ''PROCESSING'' None w")
  have w1: "coherent w1" "concerts w1 = concerts w"
    using set_file_status_frame [of i "''PROCESSING''" None w] coherent_set_file_status [of i "''PROCESSING''" None w]
      assms(2) set_st by simp_all
  have view: "find_concert cid (drop_bio_caches cid w2) = find_concert cid w2" for w2
    by (simp add: drop_bio_caches_def find_concert_def)
  have stored: "coherent (drop_bio_caches cid w2) \<and> map_option c_artistBio (find_concert cid w2) = Some (Some bio)"
    if "store_bio env cid i bio w1 = (w2, Inr ())" for w2 bio
    using store_bio_step [OF that] coherent_drop_bio [OF w1(1)] by blast
  show ?thesis
    using assms(1) w1
    by (auto simp: bio_body_def set_st bindE_def transaction_def view not_less dest!: stored
        split: sum.splits if_splits prod.splits)
qed

text \<open>
  A biography job keeps the cache of the concert service coherent.  When it succeeds the concert has
  the text that the model wrote from at most 8000 characters of the PDF, and the reader sees it at
  once; when it fails no concert has changed.
\<close>

theorem ai_bio_visible_at_once:
  assumes "coherent w" and "process_ai_bio a env cid i w = (w', r)"
  shows "coherent w' \<and>
    (case r of
       Inl e \<Rightarrow> concerts w' = concerts w
     | Inr _ \<Rightarrow> (\<exists>text bio c. extractText env = Inr text \<and> 20 \<le> length text \<and>
         be_generate env (take 8000 text) = Inr bio \<and> 20 \<le> length (trim bio) \<and>
         find_concert cid w' = Some c \<and> c_artistBio c = Some bio \<and>
         snd (cs_findOne now cid w') =
           (if c_status c = DRAFT then Inl (NotFoundException ''concert'') else Inr (public_detail c w'))))"
proof -
  obtain w1 s where body: "bio_body env cid i w = (w1, s)" by (cases "bio_body env cid i w")
  note facts = bio_body_step [OF body assms(1)]
  show ?thesis
  proof (cases s)
    case (Inl e)
    then show ?thesis
      using facts assms(2) set_file_status_frame(1) [of i "''FAILED''" "Some (be_message env e)" w1]
        coherent_set_file_status [of i "''FAILED''" "Some (be_message env e)" w1]
      by (cases "set_file_status i ''FAILED'' (Some (be_message env e)) w1")
        (auto simp: process_ai_bio_def on_failure_def body bindE_def split: if_splits sum.splits)
  next
    case (Inr u)
    then have "w' = w1" "r = Inr ()" using assms(2) by (simp_all add: process_ai_bio_def on_failure_def body)
    moreover have "coherent w1" using facts by simp
    ultimately show ?thesis
      using facts Inr coherent_detail [of w1 now cid] by (auto simp: detail_of_def)
  qed
qed

section \<open>Rows of the guest list stay well formed\<close>

definition guest_ok :: "world \<Rightarrow> guest \<Rightarrow> bool" where
  "guest_ok w g \<longleftrightarrow>
     gl_fullName g \<noteq> [] \<and> gl_email g \<noteq> Some [] \<and> gl_phone g \<noteq> Some [] \<and> gl_sponsorName g \<noteq> Some [] \<and>
     find_concert (gl_concertId g) w \<noteq> None"

definition guests_ok :: "world \<Rightarrow> bool" where
  "guests_ok w \<longleftrightarrow> list_all (guest_ok w) (guestListEntries w)"

lemma or_text_nonempty: "b \<noteq> Some [] \<Longrightarrow> or_text x b \<noteq> Some []"
  by (induction x b rule: or_text.induct) auto

lemma guest_rows_ok:
  assumes "r \<in> set (guest_rows rows)"
  shows "cv_fullName r \<noteq> [] \<and> cv_email r \<noteq> Some [] \<and> cv_phone r \<noteq> Some [] \<and> cv_sponsorName r \<noteq> Some []"
proof -
  obtain row n where "row_name row = Some n" "r = row_result row n"
    using assms by (auto simp: guest_rows_def set_map_filter)
  moreover have "row_name row \<noteq> Some []" by (simp add: row_name_def or_text_nonempty)
  ultimately show ?thesis by (auto simp: row_result_def trimmed_nonempty or_text_nonempty)
qed

lemma guests_ok_file_status [simp]: "guests_ok (fst (set_file_status i s m w)) = guests_ok w"
  by (simp add: guests_ok_def guest_ok_def [abs_def] set_file_status_def split: option.split)

lemma guests_ok_create:
  assumes "guests_ok w" and "\<And>r. r \<in> set rs \<Longrightarrow> r \<in> set (guest_rows rows)"
  shows "guests_ok (fst (create_guests env cid key rs w))"
proof -
  have "guest_ok w (new_guest env cid key n r)"
    if "find_concert cid w \<noteq> None" "(n, r) \<in> set (enumerate 0 rs)" for n r
  proof -
    have "r \<in> set rs" using that(2) by (metis enumerate_eq_zip in_set_zipE)
    then show ?thesis using guest_rows_ok [OF assms(2)] that(1) by (simp add: guest_ok_def new_guest_def)
  qed
  then show ?thesis
    using assms(1)
    by (auto simp: guests_ok_def create_guests_def list_all_iff guest_ok_def [abs_def])
qed

lemma guests_ok_insert: "guests_ok w \<Longrightarrow> guests_ok (fst (insert_new env cid key (guest_rows rows) w))"
  by (auto simp: insert_new_def Let_def intro!: keeps_bindE [where P = guests_ok] guests_ok_create [where rows = rows])

text \<open>
  C40: Every row of the guest list belongs to a concert, has a name, and has no blank e-mail address,
  phone number or sponsor; an import keeps that, whatever the file holds and wherever it fails.
\<close>

theorem import_keeps_guests_well_formed:
  assumes "guests_ok w"
  shows "guests_ok (fst (process_csv a env cid i key w))"
proof -
  have body: "guests_ok (fst (import_body env cid i key w))"
    unfolding import_body_def Let_def
    using assms
    by (intro keeps_bindE [where P = guests_ok])
      (auto split: sum.split option.split intro!: keeps_bindE [where P = guests_ok] guests_ok_insert)
  show ?thesis
  proof (cases "import_body env cid i key w")
    case (Pair w1 r)
    then have "guests_ok w1" using body by simp
    then show ?thesis
      by (cases r) (auto simp: process_csv_def on_failure_def Pair intro!: keeps_bindE [where P = guests_ok])
  qed
qed

section \<open>What an upload leaves behind\<close>

lemma safe_name_words: "list_all word_char (safe_file_name s)"
  by (induction s rule: safe_file_name.induct) (auto simp: word_char_def)

lemma safe_name_no_slash: "CHR ''/'' \<notin> set (safe_file_name s)"
  using safe_name_words [of s] by (auto simp: list_all_iff word_char_def)

text \<open>
  A guest list is accepted from an administrator or the organizer of the concert, up to 5 MB: one
  pending row and one job that names the same object are added, and the user's file name adds no
  folder to its key.  A refused upload changes nothing.
\<close>

theorem upload_stores_one_job:
  "case uploadGuestListCsv env cid mf userId role w of
     (w', Inl e) \<Rightarrow> w' = w
   | (w', Inr up) \<Rightarrow>
       \<exists>c key name. find_concert cid w = Some c \<and> (role = ADMIN \<or> c_organizerId c = userId) \<and>
         mf_size mf \<le> 5242880 \<and> ue_storageFails env = None \<and>
         key = ''concerts/'' @ cid @ ''/guest-list/'' @ ue_uuid env @ ''-'' @ name \<and> CHR ''/'' \<notin> set name \<and>
         uploadedFiles w' = uploadedFiles w @ [new_file env cid key mf ''GUEST_LIST_CSV''] \<and>
         jobs w' = jobs w @ [CsvImportJob cid (up_uploadedFileId up) key] \<and>
         w' = w\<lparr>uploadedFiles := uploadedFiles w', jobs := jobs w'\<rparr>"
  by (auto simp: uploadGuestListCsv_def store_upload_def Let_def safe_name_no_slash
      split: prod.split sum.split option.split if_splits)

section \<open>Examples\<close>

definition demo_rows :: "csv_row list" where
  "demo_rows =
     [[''fullName'' \<mapsto> ''Ann'', ''email'' \<mapsto> '' a@x.vn''], [''name'' \<mapsto> ''Bob'', ''phone'' \<mapsto> ''12''], [''email'' \<mapsto> ''c@x.vn'']]"

definition demo_import :: "exn option \<Rightarrow> import_env" where
  "demo_import lost = \<lparr>ie_rows = Inr demo_rows, ie_id = (\<lambda>n. replicate n (CHR ''g'')), ie_now = 7,
     ie_json = (\<lambda>es. replicate (length es) (CHR ''e'')), ie_message = (\<lambda>_. ''lost''), ie_lastWrite = lost\<rparr>"

definition csv_file :: uploaded_file where
  "csv_file = \<lparr>uf_id = ''f1'', uf_concertId = Some ''c1'', uf_objectKey = ''k'', uf_fileName = ''g.csv'',
     uf_mimeType = ''text/csv'', uf_purpose = ''GUEST_LIST_CSV'', uf_status = ''PENDING'',
     uf_errorMessage = None, uf_createdAt = 1\<rparr>"

definition demo_import_world :: world where
  "demo_import_world = demo_listing\<lparr>uploadedFiles := [csv_file]\<rparr>"

definition first_attempt :: attempt where
  "first_attempt = \<lparr>at_made = 0, at_attempts = Some 3\<rparr>"

lemma demo_import_facts:
  "find_file ''f1'' demo_import_world = Some csv_file" "find_concert ''c1'' demo_import_world \<noteq> None"
  "ie_rows (demo_import lost) = Inr demo_rows" "demo_rows \<noteq> []" "ie_lastWrite (demo_import lost) = lost"
  by (simp_all add: demo_import_world_def csv_file_def find_file_def demo_import_def demo_rows_def
      demo_listing_def demo_concert_def find_concert_def)

theorem import_inserts_new_guests_witness:
  "\<exists>w' r. process_csv first_attempt (demo_import None) ''c1'' ''f1'' ''k'' demo_import_world = (w', Inr r) \<and>
     map gl_fullName (guestListEntries w') = [''Ann'', ''Bob''] \<and> ir_insertedCount r + ir_duplicateCount r = 2"
proof -
  have "map gl_fullName (new_guests (demo_import None) ''c1'' ''k''
      (filter (\<lambda>r. \<not> email_taken ''c1'' demo_import_world r) (guest_rows demo_rows))) = [''Ann'', ''Bob'']"
    "nameless demo_rows = 1" "length demo_rows = 3" "guestListEntries demo_import_world = []"
    by code_simp+
  moreover obtain w' r where
    "process_csv first_attempt (demo_import None) ''c1'' ''f1'' ''k'' demo_import_world = (w', Inr r)"
    "guestListEntries w' = guestListEntries demo_import_world @ new_guests (demo_import None) ''c1'' ''k''
       (filter (\<lambda>r. \<not> email_taken ''c1'' demo_import_world r) (guest_rows demo_rows))"
    "ir_insertedCount r + ir_duplicateCount r + nameless demo_rows = length demo_rows"
    using import_inserts_new_guests [OF demo_import_facts(1-5)] by blast
  ultimately show ?thesis by auto
qed

theorem retry_duplicates_guests_without_email_witness:
  "map gl_fullName (guestListEntries (fst (process_csv first_attempt (demo_import None) ''c1'' ''f1'' ''k''
     (fst (process_csv first_attempt (demo_import (Some (PlainError ''lost''))) ''c1'' ''f1'' ''k'' demo_import_world)))))
   = [''Ann'', ''Bob'', ''Bob'']"
proof -
  let ?w1 = "fst (process_csv first_attempt (demo_import (Some (PlainError ''lost''))) ''c1'' ''f1'' ''k'' demo_import_world)"
  have "map gl_fullName (guestListEntries ?w1) = [''Ann'', ''Bob'']"
    "map gl_fullName (new_guests (demo_import None) ''c1'' ''k''
       (filter (\<lambda>r. cv_email r = None) (guest_rows demo_rows))) = [''Bob'']"
    by code_simp+
  then show ?thesis
    using retry_duplicates_guests_without_email [OF demo_import_facts(1,2,3,4,3) refl] by simp
qed

definition no_concert_world :: world where
  "no_concert_world = empty_world\<lparr>uploadedFiles := [csv_file]\<rparr>"

theorem failed_import_leaves_guests_witness:
  "\<exists>w' e. process_csv first_attempt (demo_import None) ''c1'' ''f1'' ''k'' no_concert_world = (w', Inl e) \<and>
     guestListEntries w' = [] \<and> map_option uf_status (find_file ''f1'' w') = Some ''PROCESSING''"
proof -
  obtain w' e where run: "process_csv first_attempt (demo_import None) ''c1'' ''f1'' ''k'' no_concert_world = (w', Inl e)"
  proof -
    have "case snd (process_csv first_attempt (demo_import None) ''c1'' ''f1'' ''k'' no_concert_world) of Inl _ \<Rightarrow> True | Inr _ \<Rightarrow> False"
      by code_simp
    then show thesis by (cases "process_csv first_attempt (demo_import None) ''c1'' ''f1'' ''k'' no_concert_world")
        (auto split: sum.splits intro: that)
  qed
  have "find_file ''f1'' no_concert_world = Some csv_file" "\<not> is_final_attempt first_attempt"
    "guestListEntries no_concert_world = []"
    by (simp_all add: no_concert_world_def csv_file_def find_file_def is_final_attempt_def first_attempt_def empty_world_def)
  then show ?thesis using failed_import_leaves_guests [OF run _ demo_import_facts(5)] run by auto
qed

theorem import_keeps_guests_well_formed_witness:
  "guests_ok (fst (process_csv first_attempt (demo_import None) ''c1'' ''f1'' ''k'' demo_import_world))"
proof -
  have "guests_ok demo_import_world" by code_simp
  then show ?thesis by (rule import_keeps_guests_well_formed)
qed

definition demo_bio :: bio_env where
  "demo_bio = \<lparr>be_pdfText = Inr ''  A singer   from Hue, on tour.'', be_generate = (\<lambda>s. Inr (s @ ''!'')),
     be_message = (\<lambda>_. ''failed''), be_now = 9\<rparr>"

theorem ai_bio_visible_at_once_witness:
  "map_option c_artistBio (find_concert ''c1''
     (fst (process_ai_bio first_attempt demo_bio ''c1'' ''f1'' demo_import_world))) =
   Some (Some ''A singer from Hue, on tour.!'')"
proof -
  let ?run = "process_ai_bio first_attempt demo_bio ''c1'' ''f1'' demo_import_world"
  have coh: "coherent demo_import_world" by (simp add: demo_import_world_def coherent_def demo_listing_def
      demo_types_def empty_world_def)
  have "snd ?run = Inr ()" "extractText demo_bio = Inr ''A singer from Hue, on tour.''" by code_simp+
  moreover have "?run = (fst ?run, snd ?run)" by simp
  ultimately show ?thesis
    using ai_bio_visible_at_once [OF coh, of first_attempt demo_bio "''c1''" "''f1''" "fst ?run" "snd ?run"]
    by (auto simp: demo_bio_def)
qed

end
