(* ===== verification/Auth_Service.thy ===== *)
theory Auth_Service
  imports Concert_Properties
begin

text \<open>
  Accounts: \<open>auth/auth.service.ts\<close> (registration, login, profile, passwords) and the listings of
  \<open>users/users.service.ts\<close> and \<open>admin/admin.service.ts\<close>.

  \<^item> \<open>bcrypt\<close> and the JWT service are the record \<open>auth_lib\<close>.  What a theorem relies on of them is a
    named hypothesis: \<open>bcrypt_sound\<close> (a password matches its own hash), \<open>jwt_sound\<close> (a token that was
    signed verifies to its payload).
  \<^item> The salt, the new identifier, the clock and the generated password are arguments; so is the
    outcome of sending an e-mail.
\<close>

section \<open>Libraries and data\<close>

record auth_user =
  au_sub :: id
  au_email :: string
  au_role :: Role

record auth_lib =
  bc_hash :: "string \<Rightarrow> string \<Rightarrow> string" \<comment> \<open>salt, password\<close>
  bc_compare :: "string \<Rightarrow> string \<Rightarrow> bool" \<comment> \<open>password, hash\<close>
  jwt_sign :: "auth_user \<Rightarrow> string"
  jwt_verify :: "string \<Rightarrow> auth_user option"

definition bcrypt_sound :: "auth_lib \<Rightarrow> bool" where
  "bcrypt_sound L \<longleftrightarrow> (\<forall>salt p. bc_compare L p (bc_hash L salt p))"

definition jwt_sound :: "auth_lib \<Rightarrow> bool" where
  "jwt_sound L \<longleftrightarrow> (\<forall>u. jwt_verify L (jwt_sign L u) = Some u)"

record register_dto =
  rg_email :: string
  rg_password :: string
  rg_fullName :: "string option"

record login_dto =
  lg_email :: string
  lg_password :: string

record change_password_dto =
  cp_currentPassword :: string
  cp_newPassword :: string

record user_view =
  uv_id :: id
  uv_email :: string
  uv_fullName :: "string option"
  uv_role :: Role

record auth_response =
  ar_accessToken :: string
  ar_user :: user_view

record auth_env =
  ae_newId :: id
  ae_now :: time
  ae_salt :: string

section \<open>Operations\<close>

definition normalize_email :: "string \<Rightarrow> string" where
  "normalize_email e = map lower_char (trim e)"

definition user_by_email :: "string \<Rightarrow> world \<Rightarrow> user option" where
  "user_by_email e w = find_row u_email e (users w)"

definition view_of :: "user \<Rightarrow> user_view" where
  "view_of u = \<lparr>uv_id = u_id u, uv_email = u_email u, uv_fullName = u_fullName u, uv_role = u_role u\<rparr>"

definition payload_of :: "user \<Rightarrow> auth_user" where
  "payload_of u = \<lparr>au_sub = u_id u, au_email = u_email u, au_role = u_role u\<rparr>"

definition session_of :: "auth_lib \<Rightarrow> user \<Rightarrow> auth_response" where
  "session_of L u = \<lparr>ar_accessToken = jwt_sign L (payload_of u), ar_user = view_of u\<rparr>"

text \<open>\<open>user.create\<close>: the identifier and the e-mail address are unique.\<close>

definition create_user :: "user \<Rightarrow> user handler" where
  "create_user u w =
     (if find_user (u_id u) w \<noteq> None \<or> user_by_email (u_email u) w \<noteq> None
      then (w, Inl (UniqueViolation ''User''))
      else (w\<lparr>users := users w @ [u]\<rparr>, Inr u))"

definition update_user :: "id \<Rightarrow> (user \<Rightarrow> user) \<Rightarrow> unit handler" where
  "update_user i f w =
     (case find_user i w of
        None \<Rightarrow> (w, Inl (RecordNotFound ''User''))
      | Some _ \<Rightarrow> (w\<lparr>users := update_where (\<lambda>u. u_id u = i) f (users w)\<rparr>, Inr ()))"

definition auth_register :: "auth_lib \<Rightarrow> auth_env \<Rightarrow> register_dto \<Rightarrow> auth_response handler" where
  "auth_register L env dto w =
     (let email = normalize_email (rg_email dto)
      in if user_by_email email w \<noteq> None then (w, Inl (ConflictException ''email in use''))
         else bindE (create_user \<lparr>u_id = ae_newId env, u_email = email, u_phone = None,
                       u_passwordHash = bc_hash L (ae_salt env) (rg_password dto),
                       u_fullName = rg_fullName dto, u_role = CUSTOMER, u_createdAt = ae_now env\<rparr> w)
                (\<lambda>w' u. (w', Inr (session_of L u))))"

definition auth_login :: "auth_lib \<Rightarrow> login_dto \<Rightarrow> world \<Rightarrow> exn + auth_response" where
  "auth_login L dto w =
     (case user_by_email (normalize_email (lg_email dto)) w of
        None \<Rightarrow> Inl (UnauthorizedException ''wrong email or password'')
      | Some u \<Rightarrow>
          if \<not> bc_compare L (lg_password dto) (u_passwordHash u)
          then Inl (UnauthorizedException ''wrong email or password'')
          else Inr (session_of L u))"

definition auth_getMe :: "id \<Rightarrow> world \<Rightarrow> exn + user_view" where
  "auth_getMe userId w =
     (case find_user userId w of
        None \<Rightarrow> Inl (UnauthorizedException ''no such user'')
      | Some u \<Rightarrow> Inr (view_of u))"

definition auth_updateProfile :: "id \<Rightarrow> string option \<Rightarrow> user_view handler" where
  "auth_updateProfile userId fullName w =
     bindE (update_user userId
              (\<lambda>u. case fullName of None \<Rightarrow> u | Some n \<Rightarrow> u\<lparr>u_fullName := Some n\<rparr>) w)
       (\<lambda>w' _. case find_user userId w' of
                 None \<Rightarrow> (w', Inl (RecordNotFound ''User''))
               | Some u \<Rightarrow> (w', Inr (view_of u)))"

definition auth_changePassword ::
  "auth_lib \<Rightarrow> auth_env \<Rightarrow> id \<Rightarrow> change_password_dto \<Rightarrow> unit handler" where
  "auth_changePassword L env userId dto w =
     (case find_user userId w of
        None \<Rightarrow> (w, Inl (UnauthorizedException ''no such user''))
      | Some u \<Rightarrow>
          if \<not> bc_compare L (cp_currentPassword dto) (u_passwordHash u)
          then (w, Inl (UnauthorizedException ''wrong current password''))
          else if cp_currentPassword dto = cp_newPassword dto
          then (w, Inl (ConflictException ''same password''))
          else update_user userId
                 (\<lambda>u. u\<lparr>u_passwordHash := bc_hash L (ae_salt env) (cp_newPassword dto)\<rparr>) w)"

text \<open>\<open>mailFails\<close> is what \<open>sendForgotPasswordEmail\<close> throws.\<close>

definition auth_forgotPassword ::
  "auth_lib \<Rightarrow> auth_env \<Rightarrow> string \<Rightarrow> exn option \<Rightarrow> string \<Rightarrow> unit handler" where
  "auth_forgotPassword L env generatedPassword mailFails email w =
     (case user_by_email (normalize_email email) w of
        None \<Rightarrow> (w, Inl (NotFoundException ''no account''))
      | Some u \<Rightarrow>
          bindE (update_user (u_id u)
                   (\<lambda>x. x\<lparr>u_passwordHash := bc_hash L (ae_salt env) generatedPassword\<rparr>) w)
            (\<lambda>w' _. case mailFails of
                      Some _ \<Rightarrow> (w', Inl (PlainError ''mail not sent''))
                    | None \<Rightarrow> (w', Inr ())))"

section \<open>Listings for administrators\<close>

record user_list_item =
  ul_user :: user_view
  ul_phone :: "string option"
  ul_createdAt :: time
  ul_orders :: nat
  ul_tickets :: nat

record list_users_response =
  lu_users :: "user_list_item list"
  lu_page :: nat
  lu_limit :: nat
  lu_total :: nat
  lu_totalPages :: nat

definition user_item :: "world \<Rightarrow> user \<Rightarrow> user_list_item" where
  "user_item w u =
     \<lparr>ul_user = view_of u, ul_phone = u_phone u, ul_createdAt = u_createdAt u,
      ul_orders = count_where (\<lambda>ord. o_userId ord = u_id u) (orders w),
      ul_tickets = count_where (\<lambda>t. t_userId t = u_id u) (tickets w)\<rparr>"

definition contains_ci :: "string \<Rightarrow> string \<Rightarrow> bool" where
  "contains_ci s field \<longleftrightarrow> contains_string (map lower_char s) (map lower_char field)"

definition field_contains :: "string \<Rightarrow> string option \<Rightarrow> bool" where
  "field_contains s field = (case field of None \<Rightarrow> False | Some x \<Rightarrow> contains_ci s x)"

definition user_page :: "(user \<Rightarrow> bool) \<Rightarrow> nat \<Rightarrow> nat \<Rightarrow> world \<Rightarrow> list_users_response" where
  "user_page keep page limit w =
     (let total = count_where keep (users w)
      in \<lparr>lu_users = map (user_item w) (page_of page limit (filter keep (rev (users w)))),
          lu_page = page, lu_limit = limit, lu_total = total, lu_totalPages = ceil_div total limit\<rparr>)"

text \<open>\<open>UsersService.getUsers\<close> searches phone numbers too and takes any page and limit.\<close>

definition getUsers :: "nat \<Rightarrow> nat \<Rightarrow> string option \<Rightarrow> Role option \<Rightarrow> world \<Rightarrow> list_users_response" where
  "getUsers page limit search role =
     user_page (\<lambda>u.
       (case search of None \<Rightarrow> True
        | Some s \<Rightarrow> s = [] \<or> contains_ci s (u_email u) \<or> field_contains s (u_fullName u) \<or> field_contains s (u_phone u)) \<and>
       (case role of None \<Rightarrow> True | Some r \<Rightarrow> u_role u = r)) page limit"

definition listUsers :: "nat option \<Rightarrow> nat option \<Rightarrow> string option \<Rightarrow> Role option \<Rightarrow> world \<Rightarrow> list_users_response" where
  "listUsers page limit search role =
     user_page (\<lambda>u.
       (case search of None \<Rightarrow> True
        | Some s \<Rightarrow> s = [] \<or>
            (let searchLower = map lower_char s
             in contains_ci searchLower (u_email u) \<or> field_contains searchLower (u_fullName u))) \<and>
       (case role of None \<Rightarrow> True | Some r \<Rightarrow> u_role u = r))
       (case page of None \<Rightarrow> 1 | Some n \<Rightarrow> n) (case limit of None \<Rightarrow> 20 | Some n \<Rightarrow> n)"

section \<open>Dashboard\<close>

record concert_revenue =
  rv_concertId :: id
  rv_title :: string
  rv_revenue :: int

record dashboard_stats =
  ds_totalRevenue :: int
  ds_ticketsSold :: nat
  ds_activeConcerts :: nat
  ds_revenueByConcert :: "concert_revenue list"

text \<open>The relation filter \<open>concert: \<lbrace>organizerId\<rbrace>\<close> and the filter for organizers alone.\<close>

definition organized_by :: "id \<Rightarrow> world \<Rightarrow> id \<Rightarrow> bool" where
  "organized_by userId w concertId =
     (case find_concert concertId w of None \<Rightarrow> False | Some c \<Rightarrow> c_organizerId c = userId)"

definition in_scope :: "id \<Rightarrow> Role \<Rightarrow> world \<Rightarrow> id \<Rightarrow> bool" where
  "in_scope userId role w concertId \<longleftrightarrow> role \<noteq> ORGANIZER \<or> organized_by userId w concertId"

definition revenue_of :: "order list \<Rightarrow> int" where
  "revenue_of os = sum_list (map o_totalAmountInVnd os)"

definition getDashboardStats :: "id \<Rightarrow> Role \<Rightarrow> world \<Rightarrow> dashboard_stats" where
  "getDashboardStats userId role w =
     (let paid = filter (\<lambda>ord. o_status ord = PAID \<and> in_scope userId role w (o_concertId ord)) (orders w);
          groups = remdups (map o_concertId paid);
          title = (\<lambda>i. case find_concert i w of None \<Rightarrow> ''Unknown Concert'' | Some c \<Rightarrow> c_title c)
      in \<lparr>ds_totalRevenue = revenue_of paid,
          ds_ticketsSold = count_where (\<lambda>t. t_status t \<in> {ISSUED, CHECKED_IN} \<and>
             in_scope userId role w (t_concertId t)) (tickets w),
          ds_activeConcerts = count_where (\<lambda>c. c_status c \<in> {PUBLISHED, SALE_OPEN} \<and>
             (role = ORGANIZER \<longrightarrow> c_organizerId c = userId)) (concerts w),
          ds_revenueByConcert = map (\<lambda>i. \<lparr>rv_concertId = i, rv_title = title i,
             rv_revenue = revenue_of (filter (\<lambda>ord. o_concertId ord = i) paid)\<rparr>) groups\<rparr>)"

section \<open>Health of the subsystems\<close>

datatype health = SERVICE_UP int | SERVICE_DOWN string

datatype overall = HEALTHY | DEGRADED | ALL_DOWN

record system_health =
  sh_status :: overall
  sh_postgres :: health
  sh_redis :: health
  sh_bullmq :: health

fun is_up :: "health \<Rightarrow> bool" where
  "is_up (SERVICE_UP n) = True"
| "is_up (SERVICE_DOWN e) = False"

text \<open>A ping: the time it took and what it answered, or an error.\<close>

fun check_ping :: "string \<Rightarrow> int \<times> (string + string) \<Rightarrow> health" where
  "check_ping unexpected (ms, Inl e) = SERVICE_DOWN e"
| "check_ping unexpected (ms, Inr answer) = (if answer \<noteq> ''PONG'' then SERVICE_DOWN unexpected else SERVICE_UP ms)"

fun check_postgres :: "int \<times> (string + unit) \<Rightarrow> health" where
  "check_postgres (ms, Inl e) = SERVICE_DOWN e"
| "check_postgres (ms, Inr _) = SERVICE_UP ms"

definition getSystemHealth ::
  "int \<times> (string + unit) \<Rightarrow> int \<times> (string + string) \<Rightarrow> int \<times> (string + string) \<Rightarrow> system_health" where
  "getSystemHealth pg ping1 ping2 =
     (let postgres = check_postgres pg;
          redis = check_ping ''Unexpected response'' ping1;
          bullmq = check_ping ''BullMQ Redis backend unreachable'' ping2
      in \<lparr>sh_status =
            (if is_up postgres \<and> is_up redis \<and> is_up bullmq then HEALTHY
             else if \<not> is_up postgres \<and> \<not> is_up redis \<and> \<not> is_up bullmq then ALL_DOWN else DEGRADED),
          sh_postgres = postgres, sh_redis = redis, sh_bullmq = bullmq\<rparr>)"

end
