(* ===== verification/Auth_Properties.thy ===== *)
theory Auth_Properties
  imports Auth_Service
begin

text \<open>
  What the account service promises: sound accounts through every sequence of calls, sessions and
  passwords, complete listings, and a dashboard that adds up.
\<close>

section \<open>E-mail addresses\<close>

lemma dropWhile_idle: "(xs = [] \<or> \<not> P (hd xs)) \<Longrightarrow> dropWhile P xs = xs"
  by (cases xs) auto

lemma trim_ends:
  "trim s = [] \<or> \<not> is_space (hd (trim s)) \<and> \<not> is_space (last (trim s))"
proof -
  let ?a = "dropWhile is_space s"
  let ?b = "dropWhile is_space (rev ?a)"
  have "?b = [] \<or> \<not> is_space (hd ?b)" by (meson hd_dropWhile)
  moreover have "\<not> is_space (last ?b)" if "?b \<noteq> []"
  proof -
    have "last ?b = last (rev ?a)" using that by (metis last_appendR takeWhile_dropWhile_id)
    moreover have "?a \<noteq> []" using that by (metis dropWhile.simps(1) rev.simps(1))
    ultimately show ?thesis by (metis hd_dropWhile last_rev)
  qed
  ultimately show ?thesis unfolding trim_def by (auto simp: hd_rev last_rev)
qed

lemma trim_idle:
  assumes "s = [] \<or> \<not> is_space (hd s) \<and> \<not> is_space (last s)"
  shows "trim s = s"
proof -
  have "dropWhile is_space s = s" using assms by (intro dropWhile_idle) auto
  moreover have "dropWhile is_space (rev s) = rev s"
    using assms by (intro dropWhile_idle) (auto simp: hd_rev)
  ultimately show ?thesis by (simp add: trim_def)
qed

lemma lower_char_cases:
  "lower_char c = c \<or> 65 \<le> (of_char c :: nat) \<and> (of_char c :: nat) \<le> 90 \<and>
     (of_char (lower_char c) :: nat) = of_char c + 32"
proof (cases "65 \<le> (of_char c :: nat) \<and> (of_char c :: nat) \<le> 90")
  case True
  then have "(of_char c :: nat) + 32 < 256" by simp
  then show ?thesis using True by (simp add: lower_char_def Let_def)
qed (simp add: lower_char_def Let_def)

lemma is_space_lower [simp]: "is_space (lower_char c) = is_space c"
  using lower_char_cases [of c] by (auto simp: is_space_def)

lemma lower_char_idem [simp]: "lower_char (lower_char c) = lower_char c"
  using lower_char_cases [of c] lower_char_cases [of "lower_char c"] by auto

lemma normalize_idem [simp]: "normalize_email (normalize_email e) = normalize_email e"
proof -
  have "trim (map lower_char (trim e)) = map lower_char (trim e)"
    using trim_ends [of e] by (intro trim_idle) (auto simp: hd_map last_map)
  then show ?thesis by (simp add: normalize_email_def comp_def)
qed

section \<open>Accounts stay sound\<close>

definition accounts_ok :: "world \<Rightarrow> bool" where
  "accounts_ok w \<longleftrightarrow>
     unique_key u_id (users w) \<and> unique_key u_email (users w) \<and>
     list_all (\<lambda>u. u_email u = normalize_email (u_email u)) (users w)"

text \<open>What no operation on accounts takes away or gives: identifier, address and role.\<close>

definition identity_of :: "user \<Rightarrow> id \<times> string \<times> Role" where
  "identity_of u = (u_id u, u_email u, u_role u)"

lemma update_user_cases:
  "update_user i f w = (w', r) \<Longrightarrow>
   w' = w \<and> (\<exists>e. r = Inl e) \<or> w' = w\<lparr>users := update_where (\<lambda>u. u_id u = i) f (users w)\<rparr> \<and> r = Inr ()"
  by (auto simp: update_user_def split: option.splits)

lemma map_update_where_same: "(\<And>u. g (f u) = g u) \<Longrightarrow> map g (update_where p f rows) = map g rows"
  by (induction rows) auto

lemma accounts_ok_identities:
  "accounts_ok w \<longleftrightarrow>
     distinct (map fst (map identity_of (users w))) \<and> distinct (map (fst \<circ> snd) (map identity_of (users w))) \<and>
     list_all (\<lambda>(i, e, r). e = normalize_email e) (map identity_of (users w))"
  by (simp add: accounts_ok_def unique_key_def identity_of_def comp_def list_all_iff)

lemma identities_update:
  "(\<And>u. identity_of (f u) = identity_of u) \<Longrightarrow>
   map identity_of (users (fst (update_user i f w))) = map identity_of (users w)"
  by (auto simp: update_user_def map_update_where_same split: option.split)

text \<open>A registration adds one customer, every other operation leaves the identities alone.\<close>

lemma register_identities:
  "map identity_of (users (fst (auth_register L env dto w))) = map identity_of (users w) \<or>
   (\<exists>i e. map identity_of (users (fst (auth_register L env dto w))) = map identity_of (users w) @ [(i, e, CUSTOMER)] \<and>
      e = normalize_email e \<and> i \<notin> u_id ` set (users w) \<and> e \<notin> u_email ` set (users w))"
  by (auto simp: auth_register_def Let_def create_user_def find_user_def user_by_email_def
      find_row_None_image identity_of_def)

lemma profile_identities:
  "map identity_of (users (fst (auth_updateProfile i n w))) = map identity_of (users w)"
  by (auto simp: auth_updateProfile_def update_user_def bindE_def identity_of_def
      intro!: map_update_where_same split: option.split)

lemma password_identities:
  "map identity_of (users (fst (auth_changePassword L env i dto w))) = map identity_of (users w)"
  by (auto simp: auth_changePassword_def identity_of_def intro!: identities_update
      split: option.split)

lemma forgot_identities:
  "map identity_of (users (fst (auth_forgotPassword L env g m e w))) = map identity_of (users w)"
  by (auto simp: auth_forgotPassword_def update_user_def bindE_def identity_of_def
      intro!: map_update_where_same split: option.split)

section \<open>Sequences of calls\<close>

datatype auth_call =
    Register auth_env register_dto
  | Login login_dto
  | UpdateProfile id "string option"
  | ChangePassword auth_env id change_password_dto
  | ForgotPassword auth_env string "exn option" string

fun run_auth_call :: "auth_lib \<Rightarrow> auth_call \<Rightarrow> world \<Rightarrow> world \<times> exn option" where
  "run_auth_call L (Register env dto) w = map_prod id (\<lambda>r. case r of Inl e \<Rightarrow> Some e | Inr _ \<Rightarrow> None) (auth_register L env dto w)"
| "run_auth_call L (Login dto) w = (w, case auth_login L dto w of Inl e \<Rightarrow> Some e | Inr _ \<Rightarrow> None)"
| "run_auth_call L (UpdateProfile i n) w = map_prod id (\<lambda>r. case r of Inl e \<Rightarrow> Some e | Inr _ \<Rightarrow> None) (auth_updateProfile i n w)"
| "run_auth_call L (ChangePassword env i dto) w = map_prod id (\<lambda>r. case r of Inl e \<Rightarrow> Some e | Inr _ \<Rightarrow> None) (auth_changePassword L env i dto w)"
| "run_auth_call L (ForgotPassword env g m e) w = map_prod id (\<lambda>r. case r of Inl e \<Rightarrow> Some e | Inr _ \<Rightarrow> None) (auth_forgotPassword L env g m e w)"

text \<open>Sound accounts, all of them known before or customers.\<close>

definition grows_by_customers :: "world \<Rightarrow> world \<Rightarrow> bool" where
  "grows_by_customers w0 w \<longleftrightarrow>
     accounts_ok w \<and>
     (\<exists>new. map identity_of (users w) = map identity_of (users w0) @ new \<and>
        list_all (\<lambda>(i, e, r). r = CUSTOMER) new)"

lemma grows_same:
  "grows_by_customers w0 w \<Longrightarrow> map identity_of (users w') = map identity_of (users w) \<Longrightarrow> grows_by_customers w0 w'"
  by (simp add: grows_by_customers_def accounts_ok_identities)

lemma grows_register: "grows_by_customers w0 w \<Longrightarrow> grows_by_customers w0 (fst (auth_register L env dto w))"
proof -
  assume grow: "grows_by_customers w0 w"
  let ?w = "fst (auth_register L env dto w)"
  from register_identities [of L env dto w] show ?thesis
  proof (elim disjE exE conjE)
    assume "map identity_of (users ?w) = map identity_of (users w)"
    then show ?thesis by (rule grows_same [OF grow])
  next
    fix i e
    assume ids: "map identity_of (users ?w) = map identity_of (users w) @ [(i, e, CUSTOMER)]"
      and e: "e = normalize_email e" "i \<notin> u_id ` set (users w)" "e \<notin> u_email ` set (users w)"
    obtain new where new: "map identity_of (users w) = map identity_of (users w0) @ new"
      "list_all (\<lambda>(i, e, r). r = CUSTOMER) new"
      using grow unfolding grows_by_customers_def by blast
    have "accounts_ok ?w"
      using grow e unfolding grows_by_customers_def accounts_ok_identities ids
      by (auto simp: identity_of_def comp_def image_iff)
    moreover have "map identity_of (users ?w) = map identity_of (users w0) @ (new @ [(i, e, CUSTOMER)])"
      using ids new(1) by simp
    moreover have "list_all (\<lambda>(i, e, r). r = CUSTOMER) (new @ [(i, e, CUSTOMER)])" using new(2) by simp
    ultimately show ?thesis unfolding grows_by_customers_def by blast
  qed
qed

interpretation accounts: op_system "run_auth_call L" "\<lambda>_. True" "grows_by_customers w0" for L w0
proof
  fix w x
  assume grow: "grows_by_customers w0 w"
  show "grows_by_customers w0 (fst (run_auth_call L x w))"
    by (cases x) (simp_all add: grow grows_register grows_same [OF grow] profile_identities
        password_identities forgot_identities)
qed

section \<open>Properties of accounts\<close>

text \<open>
  C34: Through any sequence of registrations, logins, profile and password changes and resets, e-mail
  addresses stay unique and normalized, no account disappears or changes its address or role, and
  every account that is added is a customer.
\<close>

theorem accounts_gain_no_roles:
  assumes "accounts_ok w"
  shows "accounts_ok (fst (run_ops (run_auth_call L) calls w)) \<and>
    (\<exists>new. map identity_of (users (fst (run_ops (run_auth_call L) calls w))) = map identity_of (users w) @ new \<and>
       list_all (\<lambda>(i, e, r). r = CUSTOMER) new)"
proof -
  have "grows_by_customers w w" using assms by (simp add: grows_by_customers_def)
  then have "grows_by_customers w (fst (run_ops (run_auth_call L) calls w))"
    by (rule accounts.inv_run) simp
  then show ?thesis by (simp add: grows_by_customers_def)
qed

lemma find_row_update_self:
  "unique_key key rows \<Longrightarrow> find_row key k rows = Some u \<Longrightarrow> i (u :: user) = j \<Longrightarrow> (\<And>u. key (f u) = key u) \<Longrightarrow>
   find_row key k (update_where (\<lambda>u. i u = j) f rows) = Some (f u)"
  by (simp add: find_row_update_where)

text \<open>
  A registered customer can log in with the same password under any spelling of the address that is
  the same after trimming and lower-casing, and the token of that session names the account.
\<close>

theorem login_after_register:
  assumes "bcrypt_sound L" and "jwt_sound L" and "auth_register L env dto w = (w', Inr reg)"
    and "normalize_email (lg_email l) = normalize_email (rg_email dto)" and "lg_password l = rg_password dto"
  shows "\<exists>s. auth_login L l w' = Inr s \<and> ar_user s = ar_user reg \<and>
    uv_role (ar_user s) = CUSTOMER \<and> uv_email (ar_user s) = normalize_email (rg_email dto) \<and>
    jwt_verify L (ar_accessToken s) =
      Some \<lparr>au_sub = uv_id (ar_user s), au_email = uv_email (ar_user s), au_role = CUSTOMER\<rparr>"
  using assms
  by (auto simp: auth_register_def Let_def create_user_def auth_login_def user_by_email_def session_of_def
      view_of_def payload_of_def bcrypt_sound_def jwt_sound_def split: if_splits)

text \<open>
  A password changes exactly when the current one is right and the new one differs; then the new
  password opens the account and nothing but its hash has changed, otherwise nothing has.
\<close>

theorem change_password_effect:
  assumes "bcrypt_sound L" and "accounts_ok w" and "find_user i w = Some u"
    and "auth_changePassword L env i dto w = (w', r)"
  shows "(r = Inr () \<longleftrightarrow> bc_compare L (cp_currentPassword dto) (u_passwordHash u) \<and>
        cp_currentPassword dto \<noteq> cp_newPassword dto) \<and>
    (if r = Inr ()
     then w' = w\<lparr>users := update_where (\<lambda>x. u_id x = i)
           (\<lambda>x. x\<lparr>u_passwordHash := bc_hash L (ae_salt env) (cp_newPassword dto)\<rparr>) (users w)\<rparr> \<and>
       (\<exists>s. auth_login L \<lparr>lg_email = u_email u, lg_password = cp_newPassword dto\<rparr> w' = Inr s \<and> uv_id (ar_user s) = i)
     else w' = w)"
proof -
  have row: "u \<in> set (users w)" "u_id u = i" using find_row_SomeD assms(3) by (metis find_user_def)+
  then have by_email: "user_by_email (u_email u) w = Some u" and norm: "normalize_email (u_email u) = u_email u"
    using assms(2) by (simp_all add: accounts_ok_def user_by_email_def find_row_unique list_all_iff)
  show ?thesis
    using assms(1,3,4) by_email norm row(2)
    by (auto simp: auth_changePassword_def update_user_def auth_login_def user_by_email_def
        find_row_update_where bcrypt_sound_def session_of_def view_of_def split: if_splits)
qed

text \<open>
  A reset that cannot send its e-mail reports an error after it has replaced the password: the old
  password no longer opens the account, and the new one is known to nobody.
\<close>

theorem failed_reset_locks_out:
  assumes "accounts_ok w" and "user_by_email (normalize_email e) w = Some u"
    and "\<not> bc_compare L old (bc_hash L (ae_salt env) generated)"
  shows "\<exists>w'. auth_forgotPassword L env generated (Some mailError) e w = (w', Inl (PlainError ''mail not sent'')) \<and>
    auth_login L \<lparr>lg_email = e, lg_password = old\<rparr> w' = Inl (UnauthorizedException ''wrong email or password'')"
proof -
  have row: "u \<in> set (users w)" "u_email u = normalize_email e"
    using find_row_SomeD assms(2) by (metis user_by_email_def)+
  then have "find_user (u_id u) w = Some u"
    using assms(1) by (simp add: accounts_ok_def find_user_def find_row_unique)
  then show ?thesis
    using assms(2,3)
    by (auto simp: auth_forgotPassword_def update_user_def auth_login_def user_by_email_def find_row_update_where)
qed

section \<open>Properties of the listings\<close>

lemma user_pages:
  assumes "0 < limit"
  shows "concat (map (\<lambda>page. lu_users (user_page keep page limit w)) [1..<Suc (lu_totalPages (user_page keep 1 limit w))]) =
    map (user_item w) (filter keep (rev (users w)))"
proof -
  have pages: "lu_totalPages (user_page keep 1 limit w) = ceil_div (length (filter keep (rev (users w)))) limit"
    by (simp add: user_page_def Let_def count_where_def flip: rev_filter)
  have "concat (map (\<lambda>page. lu_users (user_page keep page limit w)) [1..<Suc n]) =
      map (user_item w) (concat (map (\<lambda>page. page_of page limit (filter keep (rev (users w)))) [1..<Suc n]))" for n
    by (simp add: user_page_def Let_def map_concat comp_def del: upt_Suc)
  then show ?thesis unfolding pages by (simp only: pages_cover_listing [OF assms])
qed

lemma sum_by_key:
  fixes f :: "'a \<Rightarrow> int"
  shows "sum_list (map (\<lambda>k. sum_list (map f (filter (\<lambda>x. key x = k) xs))) (remdups (map key xs))) = sum_list (map f xs)"
proof -
  have "(\<Sum>k\<in>set (map key xs). sum_list (map f (filter (\<lambda>x. key x = k) xs))) = sum_list (map f xs)"
  proof -
    have "(\<Sum>k\<in>K. sum_list (map f (filter (\<lambda>x. key x = k) ys))) = sum_list (map f ys)"
      if "finite K" "key ` set ys \<subseteq> K" for K ys
      using that(2)
    proof (induction ys)
      case Nil
      then show ?case by simp
    next
      case (Cons y ys)
      have "(\<Sum>k\<in>K. sum_list (map f (filter (\<lambda>x. key x = k) (y # ys)))) =
          (\<Sum>k\<in>K. (if k = key y then f y else 0) + sum_list (map f (filter (\<lambda>x. key x = k) ys)))"
        by (intro sum.cong) auto
      also have "\<dots> = f y + (\<Sum>k\<in>K. sum_list (map f (filter (\<lambda>x. key x = k) ys)))"
        using Cons.prems that(1) by (simp add: sum.distrib)
      finally show ?case using Cons by simp
    qed
    from this [of "set (map key xs)" xs] show ?thesis by simp
  qed
  then show ?thesis by (simp add: sum_list_distinct_conv_sum_set)
qed

text \<open>
  The revenue per concert adds up to the total revenue, each concert is listed once, and an organizer
  sees the revenue of no concert of another.
\<close>

theorem dashboard_adds_up:
  "sum_list (map rv_revenue (ds_revenueByConcert (getDashboardStats u role w))) =
     ds_totalRevenue (getDashboardStats u role w)
   \<and> distinct (map rv_concertId (ds_revenueByConcert (getDashboardStats u role w)))
   \<and> list_all (\<lambda>v. in_scope u role w (rv_concertId v)) (ds_revenueByConcert (getDashboardStats u role w))"
proof -
  let ?paid = "filter (\<lambda>ord. o_status ord = PAID \<and> in_scope u role w (o_concertId ord)) (orders w)"
  have "sum_list (map rv_revenue (ds_revenueByConcert (getDashboardStats u role w))) = revenue_of ?paid"
    using sum_by_key [where f = o_totalAmountInVnd and key = o_concertId and xs = ?paid]
    by (simp add: getDashboardStats_def Let_def comp_def revenue_of_def del: filter_filter)
  then show ?thesis by (auto simp: getDashboardStats_def Let_def comp_def list_all_iff)
qed

text \<open>
  The pages of a search for users, taken together, are all users that fit it, the newest first, also
  for the search in phone numbers that only one of the two listings has.
\<close>

theorem user_search_pages_complete:
  assumes "0 < limit"
  shows "concat (map (\<lambda>page. lu_users (getUsers page limit (Some s) role w))
            [1..<Suc (lu_totalPages (getUsers 1 limit (Some s) role w))]) =
      map (user_item w) (filter (\<lambda>u.
        (s = [] \<or> contains_ci s (u_email u) \<or> field_contains s (u_fullName u) \<or> field_contains s (u_phone u)) \<and>
        (case role of None \<Rightarrow> True | Some r \<Rightarrow> u_role u = r)) (rev (users w)))"
  using user_pages [OF assms] by (simp add: getUsers_def)

section \<open>Examples\<close>

text \<open>A library for the examples: the hash is the salt with the password, a token spells its payload.\<close>

definition role_letter :: "Role \<Rightarrow> string" where
  "role_letter r = (case r of CUSTOMER \<Rightarrow> ''C'' | ORGANIZER \<Rightarrow> ''O'' | STAFF \<Rightarrow> ''S'' | ADMIN \<Rightarrow> ''A'')"

definition role_of_letter :: "string \<Rightarrow> Role" where
  "role_of_letter s = (if s = ''C'' then CUSTOMER else if s = ''O'' then ORGANIZER else if s = ''S'' then STAFF else ADMIN)"

fun unary :: "string \<Rightarrow> string" where
  "unary [] = ''.''"
| "unary (c # cs) = CHR ''x'' # c # unary cs"

fun read_unary :: "string \<Rightarrow> string \<times> string" where
  "read_unary (x # c # cs) = (if x = CHR ''x'' then map_prod (Cons c) id (read_unary cs) else ([], c # cs))"
| "read_unary xs = ([], [])"

lemma read_unary_app [simp]: "rest \<noteq> [] \<Longrightarrow> read_unary (unary s @ rest) = (s, rest)"
  by (induction s) (auto simp: neq_Nil_conv)

definition demo_lib :: auth_lib where
  "demo_lib = \<lparr>bc_hash = (\<lambda>salt p. unary salt @ ''#'' @ p),
     bc_compare = (\<lambda>p h. snd (read_unary h) = ''#'' @ p),
     jwt_sign = (\<lambda>u. unary (au_sub u) @ unary (au_email u) @ role_letter (au_role u)),
     jwt_verify = (\<lambda>t. let (i, r1) = read_unary t; (e, r2) = read_unary r1
        in Some \<lparr>au_sub = i, au_email = e, au_role = role_of_letter r2\<rparr>)\<rparr>"

lemma role_letter_inverse [simp]: "role_of_letter (role_letter r) = r" "role_letter r \<noteq> []"
  by (cases r; simp add: role_letter_def role_of_letter_def)+

lemma unary_nonempty [simp]: "unary s \<noteq> []"
  by (cases s) auto

lemma demo_lib_sound [simp]: "bcrypt_sound demo_lib" "jwt_sound demo_lib"
  by (simp_all add: bcrypt_sound_def jwt_sound_def demo_lib_def)

definition demo_accounts :: world where
  "demo_accounts = empty_world\<lparr>users := [\<lparr>u_id = ''u1'', u_email = ''an@x.vn'', u_phone = None,
     u_passwordHash = bc_hash demo_lib ''s'' ''secret'', u_fullName = None, u_role = ORGANIZER, u_createdAt = 0\<rparr>]\<rparr>"

definition demo_auth_env :: auth_env where
  "demo_auth_env = \<lparr>ae_newId = ''u2'', ae_now = 5, ae_salt = ''t''\<rparr>"

lemma demo_accounts_ok: "accounts_ok demo_accounts"
  unfolding accounts_ok_def unique_key_def by code_simp

theorem accounts_gain_no_roles_witness:
  "map u_role (users (fst (run_ops (run_auth_call demo_lib)
     [Register demo_auth_env \<lparr>rg_email = '' Bo@X.vn '', rg_password = ''pw1234'', rg_fullName = None\<rparr>] demo_accounts)))
   = [ORGANIZER, CUSTOMER]"
proof -
  let ?w = "fst (run_ops (run_auth_call demo_lib)
     [Register demo_auth_env \<lparr>rg_email = '' Bo@X.vn '', rg_password = ''pw1234'', rg_fullName = None\<rparr>] demo_accounts)"
  obtain new where new: "map identity_of (users ?w) = map identity_of (users demo_accounts) @ new"
    "list_all (\<lambda>(i, e, r). r = CUSTOMER) new"
    using accounts_gain_no_roles [OF demo_accounts_ok] by blast
  have "length (map identity_of (users ?w)) = 2" "length (users demo_accounts) = 1" by code_simp+
  then have "length new = 1" unfolding new(1) by simp
  moreover have "map u_role us = map (snd \<circ> snd) (map identity_of us)" for us by (simp add: identity_of_def)
  ultimately show ?thesis
    using new by (auto simp: length_Suc_conv demo_accounts_def identity_of_def)
qed

theorem login_after_register_witness:
  "map_option (\<lambda>s. uv_role (ar_user s))
     (case auth_login demo_lib \<lparr>lg_email = ''BO@x.VN'', lg_password = ''pw1234''\<rparr>
        (fst (auth_register demo_lib demo_auth_env \<lparr>rg_email = '' Bo@X.vn '', rg_password = ''pw1234'', rg_fullName = None\<rparr>
          demo_accounts)) of Inl _ \<Rightarrow> None | Inr s \<Rightarrow> Some s) = Some CUSTOMER"
proof -
  let ?dto = "\<lparr>rg_email = '' Bo@X.vn '', rg_password = ''pw1234'', rg_fullName = None\<rparr>"
  let ?l = "\<lparr>lg_email = ''BO@x.VN'', lg_password = ''pw1234''\<rparr>"
  let ?run = "auth_register demo_lib demo_auth_env ?dto demo_accounts"
  have "(case snd ?run of Inl _ \<Rightarrow> False | Inr _ \<Rightarrow> True)" by code_simp
  then obtain reg where "?run = (fst ?run, Inr reg)" by (cases ?run; cases "snd ?run") auto
  moreover have "normalize_email (lg_email ?l) = normalize_email (rg_email ?dto)" by code_simp
  ultimately obtain s where "auth_login demo_lib ?l (fst ?run) = Inr s" "uv_role (ar_user s) = CUSTOMER"
    using login_after_register [of demo_lib demo_auth_env ?dto demo_accounts "fst ?run" reg ?l] by auto
  then show ?thesis by simp
qed

theorem change_password_effect_witness:
  "\<exists>s. auth_login demo_lib \<lparr>lg_email = ''an@x.vn'', lg_password = ''better''\<rparr>
     (fst (auth_changePassword demo_lib demo_auth_env ''u1'' \<lparr>cp_currentPassword = ''secret'', cp_newPassword = ''better''\<rparr>
       demo_accounts)) = Inr s"
proof -
  let ?dto = "\<lparr>cp_currentPassword = ''secret'', cp_newPassword = ''better''\<rparr>"
  let ?run = "auth_changePassword demo_lib demo_auth_env ''u1'' ?dto demo_accounts"
  obtain u where u: "find_user ''u1'' demo_accounts = Some u" "u_email u = ''an@x.vn''"
    "u_passwordHash u = bc_hash demo_lib ''s'' ''secret''"
    by (simp add: find_user_def demo_accounts_def)
  then have "bc_compare demo_lib ''secret'' (u_passwordHash u)"
    using demo_lib_sound(1) by (simp add: bcrypt_sound_def)
  then show ?thesis
    using change_password_effect [OF demo_lib_sound(1) demo_accounts_ok u(1), of demo_auth_env ?dto "fst ?run" "snd ?run"] u(2)
    by (auto split: if_splits)
qed

theorem failed_reset_locks_out_witness:
  "\<exists>w'. auth_forgotPassword demo_lib demo_auth_env ''k3j4x9'' (Some (PlainError ''smtp'')) ''AN@x.vn'' demo_accounts =
       (w', Inl (PlainError ''mail not sent'')) \<and>
     auth_login demo_lib \<lparr>lg_email = ''AN@x.vn'', lg_password = ''secret''\<rparr> w' =
       Inl (UnauthorizedException ''wrong email or password'')"
proof -
  obtain u where "user_by_email (normalize_email ''AN@x.vn'') demo_accounts = Some u"
  proof -
    have "user_by_email (normalize_email ''AN@x.vn'') demo_accounts \<noteq> None" by code_simp
    then show thesis using that by blast
  qed
  moreover have "\<not> bc_compare demo_lib ''secret'' (bc_hash demo_lib (ae_salt demo_auth_env) ''k3j4x9'')" by code_simp
  ultimately show ?thesis by (rule failed_reset_locks_out [OF demo_accounts_ok])
qed

theorem user_search_pages_complete_witness:
  "concat (map (\<lambda>page. lu_users (getUsers page 1 (Some ''AN'') None demo_accounts)) [1..<2]) =
     map (user_item demo_accounts) (users demo_accounts)"
proof -
  have "lu_totalPages (getUsers 1 1 (Some ''AN'') None demo_accounts) = 1"
    "filter (\<lambda>u. (''AN'' = [] \<or> contains_ci ''AN'' (u_email u) \<or> field_contains ''AN'' (u_fullName u) \<or>
        field_contains ''AN'' (u_phone u)) \<and> True) (rev (users demo_accounts)) = users demo_accounts"
    by code_simp+
  then show ?thesis using user_search_pages_complete [of 1 "''AN''" None demo_accounts] by (simp add: numeral_2_eq_2)
qed

end
