(* ===== verification/Http_Routes.thy ===== *)
theory Http_Routes
  imports Auth_Properties Rate_Limit Checkin_Properties Payment_Properties Guest_Import
begin

text \<open>
  The HTTP surface of the backend: the routes of all controllers with their guards and declared
  roles, the guards \<open>auth.guard.ts\<close> and \<open>roles.guard.ts\<close> in front of the rate limit guard, the page
  of the mock gateway, and the test reset of \<open>health.controller.ts\<close>.

  \<^item> A route is its method, its path as a list of segments, the guards that run (those of the
    controller first), the roles declared for it (those of the method override those of the
    controller, as \<open>getAllAndOverride\<close> does), its rate limit, and the name of its handler.
  \<^item> Routes are tried in the order of the list; which of two equal routes the framework registers
    first plays no role in a theorem here.
\<close>

section \<open>Routes\<close>

datatype http_method = GET | POST | PATCH | DELETE

datatype segment = Lit string | Par string

datatype guard_name = AuthGuard | RolesGuard | RateLimitGuard

record route =
  rt_method :: http_method
  rt_path :: "segment list"
  rt_guards :: "guard_name list"
  rt_roles :: "Role list option"
  rt_limit :: "rate_limit_config option"
  rt_handler :: string

definition mk_route ::
  "http_method \<Rightarrow> segment list \<Rightarrow> guard_name list \<Rightarrow> Role list option \<Rightarrow> string \<Rightarrow> route" where
  "mk_route m p gs rs h =
     \<lparr>rt_method = m, rt_path = p, rt_guards = gs, rt_roles = rs, rt_limit = None, rt_handler = h\<rparr>"

definition rate_limited :: "string \<Rightarrow> RateLimitRoute \<Rightarrow> route \<Rightarrow> route" where
  "rate_limited name k r =
     r\<lparr>rt_limit := Some \<lparr>rc_route = name, rc_capacity = bl_capacity (RATE_LIMIT_DEFAULTS k),
        rc_refillRate = bl_refillRate (RATE_LIMIT_DEFAULTS k),
        rc_tokensPerRequest = Some (bl_tokensNeeded (RATE_LIMIT_DEFAULTS k))\<rparr>\<rparr>"

definition in_controller ::
  "segment list \<Rightarrow> guard_name list \<Rightarrow> Role list option \<Rightarrow> route list \<Rightarrow> route list" where
  "in_controller prefix gs roles =
     map (\<lambda>r. r\<lparr>rt_path := prefix @ rt_path r, rt_guards := gs @ rt_guards r,
        rt_roles := (case rt_roles r of None \<Rightarrow> roles | Some rs \<Rightarrow> Some rs)\<rparr>)"

definition auth_routes :: "route list" where
  "auth_routes = in_controller [Lit ''auth''] [] None
     [mk_route POST [Lit ''register''] [] None ''register'',
      mk_route POST [Lit ''login''] [] None ''login'',
      mk_route GET [Lit ''me''] [AuthGuard] None ''getMe'',
      mk_route PATCH [Lit ''profile''] [AuthGuard] None ''updateProfile'',
      mk_route POST [Lit ''change-password''] [AuthGuard] None ''changePassword'',
      mk_route POST [Lit ''forgot-password''] [] None ''forgotPassword'']"

definition concert_routes :: "route list" where
  "concert_routes =
     [rate_limited ''/concerts'' CONCERT_LIST
        (mk_route GET [Lit ''concerts''] [RateLimitGuard] None ''concert.findAll''),
      rate_limited ''/concerts/:id'' CONCERT_DETAIL
        (mk_route GET [Lit ''concerts'', Par ''id''] [RateLimitGuard] None ''concert.findOne''),
      mk_route GET [Lit ''concerts'', Lit ''slug'', Par ''slug''] [] None ''concert.findBySlug'',
      mk_route GET [Lit ''admin'', Lit ''concerts''] [AuthGuard, RolesGuard] (Some [ADMIN, ORGANIZER]) ''findAdminAll'',
      mk_route GET [Lit ''admin'', Lit ''concerts'', Par ''id''] [AuthGuard, RolesGuard]
        (Some [ADMIN, ORGANIZER]) ''findAdminOne'',
      mk_route GET [Lit ''admin'', Lit ''concerts'', Par ''id'', Lit ''guests''] [AuthGuard, RolesGuard]
        (Some [ADMIN, ORGANIZER]) ''findAdminGuests'',
      mk_route POST [Lit ''admin'', Lit ''concerts''] [AuthGuard, RolesGuard] (Some [ADMIN, ORGANIZER]) ''concert.create'',
      mk_route PATCH [Lit ''admin'', Lit ''concerts'', Par ''id''] [AuthGuard, RolesGuard]
        (Some [ADMIN, ORGANIZER]) ''concert.update'',
      mk_route DELETE [Lit ''admin'', Lit ''concerts'', Par ''id''] [AuthGuard, RolesGuard] (Some [ADMIN]) ''concert.remove'']"

definition payment_routes :: "route list" where
  "payment_routes = in_controller [Lit ''payments''] [] None
     [mk_route POST [Lit ''create''] [AuthGuard] None ''createPayment'',
      mk_route POST [Lit ''mock-callback''] [] None ''handleMockWebhook'',
      mk_route GET [Lit ''system'', Lit ''circuit-breaker''] [] None ''getCircuitBreakerStatus'',
      mk_route GET [Lit ''mock-page''] [] None ''mockPage'',
      mk_route GET [Par ''orderId'', Lit ''status''] [AuthGuard] None ''getStatus'']"

definition ticket_type_routes :: "route list" where
  "ticket_type_routes =
     in_controller [Lit ''admin'', Lit ''concerts'', Par ''concertId'', Lit ''ticket-types'']
       [AuthGuard, RolesGuard] (Some [ADMIN, ORGANIZER])
       [mk_route GET [] [] None ''ticketType.findAll'',
        mk_route GET [Par ''id''] [] None ''ticketType.findOne'',
        mk_route POST [] [] None ''ticketType.create'',
        mk_route PATCH [Par ''id''] [] None ''ticketType.update'',
        mk_route DELETE [Par ''id''] [] None ''ticketType.remove'']"

definition ticket_type_public_routes :: "route list" where
  "ticket_type_public_routes = in_controller [Lit ''concerts'', Par ''concertId'', Lit ''ticket-types''] [] None
     [mk_route GET [] [] None ''findAvailable'']"

definition health_routes :: "route list" where
  "health_routes = in_controller [Lit ''health''] [] None
     [mk_route GET [] [] None ''checkAll'',
      mk_route GET [Lit ''api''] [] None ''checkApi'',
      mk_route GET [Lit ''postgres''] [] None ''checkPostgres'',
      mk_route GET [Lit ''redis''] [] None ''checkRedis'',
      mk_route POST [Lit ''reset''] [] None ''resetDatabase'']"

definition order_routes :: "route list" where
  "order_routes =
     [rate_limited ''/orders'' ORDER_RESERVE
        (mk_route POST [Lit ''orders''] [AuthGuard, RolesGuard, RateLimitGuard]
          (Some [CUSTOMER, ORGANIZER, ADMIN]) ''createOrder''),
      mk_route GET [Lit ''orders'', Lit ''me''] [AuthGuard] None ''getMyOrders'',
      mk_route GET [Lit ''orders'', Par ''id''] [AuthGuard] None ''getOrder'',
      mk_route POST [Lit ''orders'', Par ''id'', Lit ''cancel''] [AuthGuard] None ''cancelOrder'',
      mk_route GET [Lit ''admin'', Lit ''orders''] [AuthGuard, RolesGuard] (Some [ADMIN, ORGANIZER]) ''getAllOrders'',
      mk_route GET [Lit ''admin'', Lit ''orders'', Par ''id''] [AuthGuard, RolesGuard]
        (Some [ADMIN, ORGANIZER]) ''getOrderAdmin'']"

definition ticket_routes :: "route list" where
  "ticket_routes = in_controller [Lit ''tickets''] [AuthGuard] None
     [mk_route GET [Lit ''me''] [] None ''getMyTickets'',
      mk_route GET [Lit ''me'', Lit ''concerts'', Par ''concertId''] [] None ''getMyTicketsForConcert'',
      mk_route GET [Par ''id''] [] None ''getTicket'',
      mk_route GET [Par ''id'', Lit ''qr''] [] None ''getTicketQr'']"

definition checkin_routes :: "route list" where
  "checkin_routes = in_controller [Lit ''checkin''] [] None
     [rate_limited ''/checkin/verify'' CHECKIN_VERIFY
        (mk_route POST [Lit ''verify''] [AuthGuard, RateLimitGuard] (Some [STAFF, ADMIN]) ''verifyTicket''),
      rate_limited ''/checkin/sync'' CHECKIN_SYNC
        (mk_route POST [Lit ''sync''] [AuthGuard, RateLimitGuard] (Some [STAFF, ADMIN]) ''syncCheckin'')]"

definition gate_routes :: "route list" where
  "gate_routes = in_controller [Lit ''admin''] [AuthGuard, RolesGuard] (Some [ADMIN, ORGANIZER])
     [mk_route GET [Lit ''concerts'', Par ''concertId'', Lit ''gates''] [] None ''gate.list'',
      mk_route POST [Lit ''concerts'', Par ''concertId'', Lit ''gates''] [] None ''gate.create'',
      mk_route PATCH [Lit ''gates'', Par ''gateId''] [] None ''gate.update'',
      mk_route DELETE [Lit ''gates'', Par ''gateId''] [] None ''gate.remove'',
      mk_route POST [Lit ''concerts'', Par ''concertId'', Lit ''gates'', Lit ''rebalance''] [] None ''gate.rebalance'']"

definition upload_routes :: "route list" where
  "upload_routes = in_controller [Lit ''organizer'', Lit ''concerts'', Par ''concertId''] [] None
     [mk_route POST [Lit ''upload-pdf''] [AuthGuard] None ''uploadArtistPdf'',
      mk_route GET [Lit ''uploads'', Par ''uploadedFileId'', Lit ''status''] [AuthGuard] None ''getUploadStatus'',
      mk_route POST [Lit ''upload-csv''] [AuthGuard] None ''uploadGuestListCsv'']"

definition admin_routes :: "route list" where
  "admin_routes = in_controller [Lit ''admin''] [AuthGuard, RolesGuard] (Some [ADMIN])
     [mk_route GET [Lit ''users''] [] None ''listUsers'',
      mk_route GET [Lit ''system-health''] [] None ''getSystemHealth'',
      mk_route GET [Lit ''dashboard'', Lit ''stats''] [] (Some [ADMIN, ORGANIZER]) ''getDashboardStats'']"

definition seatmap_routes :: "route list" where
  "seatmap_routes = in_controller [Lit ''concerts'', Par ''concertId'', Lit ''seatmap''] [] None
     [mk_route GET [] [] None ''getSeatmap'',
      mk_route GET [Lit ''availability''] [] None ''getAvailability'']"

definition user_routes :: "route list" where
  "user_routes = in_controller [Lit ''admin'', Lit ''users''] [AuthGuard, RolesGuard] (Some [ADMIN])
     [mk_route GET [] [] None ''getAdminUsers'']"

definition app_routes :: "route list" where
  "app_routes = [mk_route GET [Lit ''health''] [] None ''getHealth'']"

definition all_routes :: "route list" where
  "all_routes = app_routes @ auth_routes @ concert_routes @ payment_routes @ ticket_type_routes @
     ticket_type_public_routes @ health_routes @ order_routes @ ticket_routes @ checkin_routes @
     gate_routes @ upload_routes @ admin_routes @ seatmap_routes @ user_routes"

fun matches :: "segment list \<Rightarrow> string list \<Rightarrow> bool" where
  "matches [] [] = True"
| "matches (Lit s # ps) (x # xs) = (s = x \<and> matches ps xs)"
| "matches (Par n # ps) (x # xs) = matches ps xs"
| "matches ps xs = False"

definition dispatch :: "http_method \<Rightarrow> string list \<Rightarrow> route option" where
  "dispatch m path = List.find (\<lambda>r. rt_method r = m \<and> matches (rt_path r) path) all_routes"

section \<open>Guards\<close>

text \<open>
  \<open>const [type, token] = authorization?.split(' ') ?? []\<close>; an empty token counts as missing.
\<close>

definition extractTokenFromHeader :: "string option \<Rightarrow> string option" where
  "extractTokenFromHeader authorization =
     (case authorization of
        None \<Rightarrow> None
      | Some h \<Rightarrow>
          (case split_char (CHR '' '') h of
             type # token # _ \<Rightarrow> if type = ''Bearer'' then Some token else None
           | _ \<Rightarrow> None))"

definition auth_canActivate :: "auth_lib \<Rightarrow> string option \<Rightarrow> exn + auth_user" where
  "auth_canActivate L authorization =
     (case extractTokenFromHeader authorization of
        None \<Rightarrow> Inl (UnauthorizedException ''no token'')
      | Some token \<Rightarrow>
          if token = [] then Inl (UnauthorizedException ''no token'')
          else case jwt_verify L token of
                 None \<Rightarrow> Inl (UnauthorizedException ''bad token'')
               | Some payload \<Rightarrow> Inr payload)"

definition roles_canActivate :: "Role list option \<Rightarrow> auth_user option \<Rightarrow> exn + unit" where
  "roles_canActivate requiredRoles user =
     (case requiredRoles of
        None \<Rightarrow> Inr ()
      | Some rs \<Rightarrow>
          (case user of
             None \<Rightarrow> Inl (ForbiddenException ''not authenticated'')
           | Some u \<Rightarrow> if au_role u \<in> set rs then Inr () else Inl (ForbiddenException ''role'')))"

record http_request =
  hr_authorization :: "string option"
  hr_client :: client_request

record http_env =
  he_lib :: auth_lib
  he_limitsDisabled :: bool
  he_now :: time

fun run_guards :: "http_env \<Rightarrow> route \<Rightarrow> http_request \<Rightarrow> guard_name list \<Rightarrow> auth_user option \<Rightarrow> auth_user option handler" where
  "run_guards env r rq [] user w = (w, Inr user)"
| "run_guards env r rq (AuthGuard # gs) user w =
     (case auth_canActivate (he_lib env) (hr_authorization rq) of
        Inl e \<Rightarrow> (w, Inl e)
      | Inr payload \<Rightarrow> run_guards env r rq gs (Some payload) w)"
| "run_guards env r rq (RolesGuard # gs) user w =
     (case roles_canActivate (rt_roles r) user of
        Inl e \<Rightarrow> (w, Inl e)
      | Inr _ \<Rightarrow> run_guards env r rq gs user w)"
| "run_guards env r rq (RateLimitGuard # gs) user w =
     (case canActivate (he_limitsDisabled env) (he_now env) (rt_limit r)
             ((hr_client rq)\<lparr>cr_userId := map_option au_sub user\<rparr>) w of
        ((w', Inl e), _) \<Rightarrow> (w', Inl e)
      | ((w', Inr _), _) \<Rightarrow> run_guards env r rq gs user w')"

text \<open>A request: the guards, then the handler of the controller.  Without a user the handler throws.\<close>

definition http_verifyTicket ::
  "http_env \<Rightarrow> crypto \<Rightarrow> string \<Rightarrow> http_request \<Rightarrow> verify_ticket_dto \<Rightarrow> verify_ticket_response handler" where
  "http_verifyTicket env C qrSecret rq dto w =
     (case dispatch POST [''checkin'', ''verify''] of
        None \<Rightarrow> (w, Inl (NotFoundException ''route''))
      | Some r \<Rightarrow>
          bindE (run_guards env r rq (rt_guards r) None w) (\<lambda>w1 user.
            case user of
              None \<Rightarrow> (w1, Inl (PlainError ''TypeError''))
            | Some u \<Rightarrow> verifyAndCheckin C qrSecret (he_now env) dto (au_sub u) w1))"

text \<open>The controllers that do more than hand the arguments on.\<close>

definition ctl_createPayment ::
  "crypto \<Rightarrow> payment_env \<Rightarrow> time \<Rightarrow> auth_user \<Rightarrow> string option \<Rightarrow> id \<Rightarrow> string option handler" where
  "ctl_createPayment C env now user idempotencyKey orderId w =
     (if or_empty idempotencyKey = [] then (w, Inl (BadRequestException ''no Idempotency-Key''))
      else createPayment C env now (au_sub user) (or_empty idempotencyKey) orderId w)"

definition ctl_getAllOrders ::
  "time \<Rightarrow> auth_user option \<Rightarrow> nat \<Rightarrow> nat \<Rightarrow> OrderStatus option \<Rightarrow> id option \<Rightarrow> world \<Rightarrow> order_list_response" where
  "ctl_getAllOrders now user page limit status concertId w =
     (let organizerId = (case user of
            None \<Rightarrow> None
          | Some u \<Rightarrow> if au_role u = ORGANIZER then Some (au_sub u) else None)
      in getAllOrders now page limit status concertId organizerId w)"

definition ctl_uploadArtistPdf :: "upload_env \<Rightarrow> id \<Rightarrow> multer_file option \<Rightarrow> auth_user \<Rightarrow> upload_response handler" where
  "ctl_uploadArtistPdf env concertId mf user w =
     (case mf of
        None \<Rightarrow> (w, Inl (BadRequestException ''no PDF file''))
      | Some x \<Rightarrow> uploadArtistPdf env concertId x (au_sub user) (au_role user) w)"

definition ctl_uploadGuestListCsv :: "upload_env \<Rightarrow> id \<Rightarrow> multer_file option \<Rightarrow> auth_user \<Rightarrow> upload_response handler" where
  "ctl_uploadGuestListCsv env concertId mf user w =
     (case mf of
        None \<Rightarrow> (w, Inl (BadRequestException ''no CSV file''))
      | Some x \<Rightarrow> uploadGuestListCsv env concertId x (au_sub user) (au_role user) w)"

section \<open>Page of the mock gateway\<close>

text \<open>What the buttons of the page send; the amount is a number again when it was written as one.\<close>

definition generateProviderTransactionId :: "time \<Rightarrow> id \<Rightarrow> string" where
  "generateProviderTransactionId now orderId = ''MOCK_'' @ orderId @ ''_'' @ show_int now"

definition mockPage :: "crypto \<Rightarrow> string \<Rightarrow> time \<Rightarrow> id \<Rightarrow> int \<Rightarrow> MockPaymentResult \<Rightarrow> mock_webhook_dto" where
  "mockPage C secret now orderId amount result =
     (let providerTransactionId = generateProviderTransactionId now orderId;
          payload = orderId @ '':'' @ providerTransactionId @ '':'' @ show_result result @ '':'' @ show_int amount
      in \<lparr>wh_orderId = orderId, wh_providerTransactionId = providerTransactionId, wh_result = result,
          wh_amount = amount, wh_signature = createSignature C secret payload\<rparr>)"

section \<open>Test reset\<close>

record reset_env =
  rs_production :: bool   \<comment> \<open>\<open>NODE_ENV === 'production'\<close>\<close>
  rs_allowed :: bool      \<comment> \<open>\<open>ALLOW_RESET === 'true'\<close>\<close>
  rs_seed :: "world \<Rightarrow> world \<times> (exn + unit)" \<comment> \<open>the seed script, run in another process\<close>
  rs_now :: time

definition resetDatabase :: "reset_env \<Rightarrow> unit handler" where
  "resetDatabase env w =
     (if rs_production env \<and> \<not> rs_allowed env then (w, Inl (ForbiddenException ''reset in production''))
      else let w1 = w\<lparr>redisdb := (\<lambda>_. None)\<rparr>
        in case rs_seed env w1 of
             (w2, Inl e) \<Rightarrow> (w2, Inl (ServiceUnavailableException ''reset failed''))
           | (w2, Inr _) \<Rightarrow>
               (w2\<lparr>redisdb := fold (\<lambda>tt. seedStock (rs_now env) (tt_id tt)
                     (tt_totalQty tt - tt_soldQty tt - tt_reservedQty tt)) (ticketTypes w2) (redisdb w2)\<rparr>, Inr ()))"

section \<open>What the guards let through\<close>

text \<open>The user a request is authenticated as.\<close>

definition token_user :: "http_env \<Rightarrow> http_request \<Rightarrow> auth_user option" where
  "token_user env rq =
     (case auth_canActivate (he_lib env) (hr_authorization rq) of Inl e \<Rightarrow> None | Inr u \<Rightarrow> Some u)"

text \<open>Guards read the user that an earlier guard of the list has set.\<close>

fun guards_decide :: "Role list option \<Rightarrow> auth_user option \<Rightarrow> guard_name list \<Rightarrow> auth_user option \<Rightarrow> bool" where
  "guards_decide roles tok [] user = True"
| "guards_decide roles tok (AuthGuard # gs) user = (tok \<noteq> None \<and> guards_decide roles tok gs tok)"
| "guards_decide roles tok (RolesGuard # gs) user =
     ((case roles of None \<Rightarrow> True | Some rs \<Rightarrow> (case user of None \<Rightarrow> False | Some u \<Rightarrow> au_role u \<in> set rs))
      \<and> guards_decide roles tok gs user)"
| "guards_decide roles tok (RateLimitGuard # gs) user = guards_decide roles tok gs user"

lemma run_guards_decide:
  "run_guards env r rq gs user w = (w', Inr who) \<Longrightarrow>
     guards_decide (rt_roles r) (token_user env rq) gs user \<and>
     who = (if AuthGuard \<in> set gs then token_user env rq else user)"
  by (induction env r rq gs user w rule: run_guards.induct)
    (auto simp: token_user_def roles_canActivate_def split: sum.splits option.splits prod.splits if_splits)

lemma run_guards_deny:
  "gs = AuthGuard # gs' \<Longrightarrow> token_user env rq = None \<Longrightarrow>
   \<exists>e. run_guards env r rq gs user w = (w, Inl (UnauthorizedException e))"
  by (auto simp: token_user_def auth_canActivate_def split: sum.splits option.splits if_splits)

section \<open>The table of routes\<close>

lemma all_routes_shape:
  "list_all (\<lambda>r. rt_roles r = None \<or> take 2 (rt_guards r) = [AuthGuard, RolesGuard] \<or>
      rt_handler r \<in> {''verifyTicket'', ''syncCheckin''}) all_routes"
  by code_simp

lemma open_writes_shape:
  "list_all (\<lambda>r. rt_method r = GET \<or> take 1 (rt_guards r) = [AuthGuard] \<or>
      rt_handler r \<in> {''register'', ''login'', ''forgotPassword'', ''handleMockWebhook'', ''resetDatabase''}) all_routes"
  by code_simp

text \<open>
  C31: On every route that declares roles, except the two of the check-in controller, a request reaches
  the handler only with a token of a user who has one of the declared roles.
\<close>

theorem declared_roles_are_enforced:
  assumes "r \<in> set all_routes" and "rt_roles r = Some rs"
    and "rt_handler r \<notin> {''verifyTicket'', ''syncCheckin''}"
    and "run_guards env r rq (rt_guards r) None w = (w', Inr who)"
  shows "\<exists>u. who = Some u \<and> token_user env rq = Some u \<and> au_role u \<in> set rs"
proof -
  have "take 2 (rt_guards r) = [AuthGuard, RolesGuard]"
    using all_routes_shape assms(1-3) by (auto simp: list_all_iff)
  then obtain gs where "rt_guards r = AuthGuard # RolesGuard # gs"
    by (cases "rt_guards r"; cases "tl (rt_guards r)") auto
  then show ?thesis
    using run_guards_decide [OF assms(4)] assms(2) by (auto split: option.splits)
qed

text \<open>
  Every request that is no GET, except the registration, the login, the reset of a password, the
  webhook and the reset of the database, is refused without a valid token, and leaves no trace.
\<close>

theorem writes_need_a_token:
  assumes "r \<in> set all_routes" and "rt_method r \<noteq> GET"
    and "rt_handler r \<notin> {''register'', ''login'', ''forgotPassword'', ''handleMockWebhook'', ''resetDatabase''}"
    and "token_user env rq = None"
  shows "\<exists>e. run_guards env r rq (rt_guards r) None w = (w, Inl (UnauthorizedException e))"
proof -
  have "take 1 (rt_guards r) = [AuthGuard]"
    using open_writes_shape assms(1-3) by (auto simp: list_all_iff)
  then obtain gs where "rt_guards r = AuthGuard # gs" by (cases "rt_guards r") auto
  then show ?thesis using run_guards_deny assms(4) by blast
qed

text \<open>
  Two requests are answered by two controllers: GET /health by the application and by the health
  controller, GET /admin/users by the admin and by the users controller.  Every other pair of a
  method and a path pattern has one handler.
\<close>

fun twins :: "('k \<times> 'v) list \<Rightarrow> ('v \<times> 'v) list" where
  "twins [] = []"
| "twins ((k, v) # xs) = map (\<lambda>(_, v'). (v, v')) (filter (\<lambda>(k', _). k' = k) xs) @ twins xs"

theorem duplicate_routes:
  "twins (map (\<lambda>r. ((rt_path r, rt_method r), rt_handler r)) all_routes) =
   [(''getHealth'', ''checkAll''), (''listUsers'', ''getAdminUsers'')]"
  by code_simp

section \<open>Check-in by customers\<close>

lemma verify_route:
  "\<exists>r. dispatch POST [''checkin'', ''verify''] = Some r \<and> rt_guards r = [AuthGuard, RateLimitGuard]"
proof -
  have "map_option rt_guards (dispatch POST [''checkin'', ''verify'']) = Some [AuthGuard, RateLimitGuard]"
    by code_simp
  then show ?thesis by auto
qed

lemma credentials_ok_redis [simp]: "find_ticket i (w\<lparr>redisdb := db\<rparr>) = find_ticket i w"
  by (simp add: find_ticket_def)


section \<open>The mock gateway trusts everybody\<close>

text \<open>
  C33: The page of the mock gateway needs no token and signs whatever order and amount it is asked for:
  the webhook that its success button sends for a pending order and its amount is accepted, the order
  becomes PAID and its tickets are issued.
\<close>

theorem mock_page_pays_any_order:
  assumes "find_order i w = Some ord" and "o_status ord = PENDING_PAYMENT"
    and "types_exist (item_pairs ord) w" and "fresh_tickets C env (total_qty (o_items ord)) (tickets w)"
  shows "map_option rt_guards (dispatch GET [''payments'', ''mock-page'']) = Some [] \<and>
    map_option rt_guards (dispatch POST [''payments'', ''mock-callback'']) = Some [] \<and>
    (\<exists>w'. handleMockWebhook C secret env now (mockPage C secret now' i (o_totalAmountInVnd ord) RESULT_SUCCESS) w =
       (w', Inr \<lparr>wr_orderId = i, wr_status = Some PAID\<rparr>) \<and>
     map_option o_status (find_order i w') = Some PAID \<and>
     length (tickets w') = length (tickets w) + total_qty (o_items ord))"
proof -
  let ?dto = "mockPage C secret now' i (o_totalAmountInVnd ord) RESULT_SUCCESS"
  have dto: "wh_orderId ?dto = i" "wh_amount ?dto = o_totalAmountInVnd ord" "wh_result ?dto = RESULT_SUCCESS"
    "verifySignature C secret (webhook_payload ?dto) (wh_signature ?dto)"
    by (simp_all add: mockPage_def Let_def webhook_payload_def verifySignature_iff createSignature_def)
  obtain w' where paid: "handlePaymentSuccess C env now ?dto ord w = (w', Inr ())"
    and orders': "orders w' = update_where (\<lambda>x. o_id x = i) (paid_at now) (orders w)"
    and tickets': "tickets w' = tickets w @ issued_tickets C env now ord w"
    using handlePaymentSuccess_effect [of ?dto w ord C env now] assms dto(1) by auto
  have "map_option rt_guards (dispatch GET [''payments'', ''mock-page'']) = Some []"
    "map_option rt_guards (dispatch POST [''payments'', ''mock-callback'']) = Some []"
    by code_simp+
  moreover have "handleMockWebhook C secret env now ?dto w = (w', Inr \<lparr>wr_orderId = i, wr_status = Some PAID\<rparr>)"
    using assms(1,2) dto paid find_order_id [OF assms(1)] by (simp add: handleMockWebhook_def)
  moreover have "map_option o_status (find_order i w') = Some PAID"
    using assms(1) find_order_id [OF assms(1)] orders'
    by (simp add: find_order_def find_row_update_where paid_at_def)
  moreover have "length (issued_tickets C env now ord w) = total_qty (o_items ord)"
    by (simp add: issued_tickets_def Let_def)
  ultimately show ?thesis using tickets' by auto
qed

section \<open>Reset of the database\<close>

lemma fold_seed_other:
  "k \<notin> (\<lambda>tt. REDIS_KEY_STOCK (tt_id tt)) ` set tts \<Longrightarrow>
   fold (\<lambda>tt. seedStock now (tt_id tt) (f tt)) tts r k = r k"
  by (induction tts arbitrary: r) (auto simp: seedStock_def redis_set_def)

lemma stock_key_inject [simp]: "REDIS_KEY_STOCK a = REDIS_KEY_STOCK b \<longleftrightarrow> a = b"
  by (simp add: REDIS_KEY_STOCK_def)

lemma fold_seed_stock:
  "distinct (map tt_id tts) \<Longrightarrow> tt \<in> set tts \<Longrightarrow>
   fold (\<lambda>tt. seedStock now (tt_id tt) (f tt)) tts r (REDIS_KEY_STOCK (tt_id tt)) =
     Some (RInt (max 0 (f tt)), None)"
proof (induction tts arbitrary: r)
  case Nil
  then show ?case by simp
next
  case (Cons a tts)
  show ?case
  proof (cases "tt = a")
    case True
    then have "REDIS_KEY_STOCK (tt_id tt) \<notin> (\<lambda>tt. REDIS_KEY_STOCK (tt_id tt)) ` set tts"
      using Cons.prems(1) by auto
    then have "fold (\<lambda>tt. seedStock now (tt_id tt) (f tt)) (a # tts) r (REDIS_KEY_STOCK (tt_id tt)) =
        seedStock now (tt_id a) (f a) r (REDIS_KEY_STOCK (tt_id tt))"
      using fold_seed_other [where tts = tts] by simp
    then show ?thesis using True by (simp only:) (simp add: seedStock_def redis_set_def)
  next
    case False
    then show ?thesis using Cons by simp
  qed
qed

text \<open>
  After a reset of the test database Redis holds the stock of every ticket type that the seed made,
  what is neither sold nor reserved, and no other key; in production nothing happens unless it is
  allowed.
\<close>

theorem reset_reseeds_stock:
  assumes "resetDatabase env w = (w', r)" and "rs_seed env (w\<lparr>redisdb := \<lambda>_. None\<rparr>) = (w2, Inr ())"
    and "redisdb w2 = (\<lambda>_. None)" and "unique_key tt_id (ticketTypes w2)"
  shows "if rs_production env \<and> \<not> rs_allowed env then w' = w \<and> r \<noteq> Inr ()
    else r = Inr () \<and>
      list_all (\<lambda>tt. redisdb w' (REDIS_KEY_STOCK (tt_id tt)) =
         Some (RInt (max 0 (tt_totalQty tt - tt_soldQty tt - tt_reservedQty tt)), None)) (ticketTypes w') \<and>
      (\<forall>k. redisdb w' k \<noteq> None \<longrightarrow> k \<in> (\<lambda>tt. REDIS_KEY_STOCK (tt_id tt)) ` set (ticketTypes w'))"
proof (cases "rs_production env \<and> \<not> rs_allowed env")
  case True
  then show ?thesis using assms(1) by (auto simp: resetDatabase_def)
next
  case False
  let ?f = "\<lambda>tt. tt_totalQty tt - tt_soldQty tt - tt_reservedQty tt"
  have w': "w' = w2\<lparr>redisdb := fold (\<lambda>tt. seedStock (rs_now env) (tt_id tt) (?f tt)) (ticketTypes w2) (\<lambda>_. None)\<rparr>"
    and r: "r = Inr ()"
    using assms(1-3) False by (auto simp: resetDatabase_def Let_def)
  have types: "ticketTypes w' = ticketTypes w2"
    and db: "redisdb w' = fold (\<lambda>tt. seedStock (rs_now env) (tt_id tt) (?f tt)) (ticketTypes w2) (\<lambda>_. None)"
    by (simp_all add: w')
  have other: "redisdb w' k = None" if "k \<notin> (\<lambda>tt. REDIS_KEY_STOCK (tt_id tt)) ` set (ticketTypes w2)" for k
    unfolding w' using fold_seed_other [OF that] by simp
  have stock: "list_all (\<lambda>tt. redisdb w' (REDIS_KEY_STOCK (tt_id tt)) = Some (RInt (max 0 (?f tt)), None)) (ticketTypes w2)"
    unfolding list_all_iff
  proof
    fix tt assume "tt \<in> set (ticketTypes w2)"
    then show "redisdb w' (REDIS_KEY_STOCK (tt_id tt)) = Some (RInt (max 0 (?f tt)), None)"
      unfolding db using assms(4) by (intro fold_seed_stock) (simp_all add: unique_key_def)
  qed
  show ?thesis unfolding if_not_P [OF False] types
  proof (intro conjI allI impI)
    show "k \<in> (\<lambda>tt. REDIS_KEY_STOCK (tt_id tt)) ` set (ticketTypes w2)" if "redisdb w' k \<noteq> None" for k
      using other that by (rule_tac ccontr) simp
  qed (rule r, rule stock)
qed

section \<open>Examples\<close>

definition demo_http_env :: http_env where
  "demo_http_env = \<lparr>he_lib = demo_lib, he_limitsDisabled = True, he_now = 5\<rparr>"

definition request_of :: "auth_user option \<Rightarrow> http_request" where
  "request_of u =
     \<lparr>hr_authorization = map_option (\<lambda>x. ''Bearer '' @ jwt_sign demo_lib x) u,
      hr_client = \<lparr>cr_userId = None, cr_forwardedFor = NoHeader, cr_ip = Some ''1.2.3.4'', cr_remoteAddress = None\<rparr>\<rparr>"

definition some_customer :: auth_user where
  "some_customer = \<lparr>au_sub = ''c9'', au_email = ''c@x'', au_role = CUSTOMER\<rparr>"

definition some_admin :: auth_user where
  "some_admin = \<lparr>au_sub = ''a9'', au_email = ''a@x'', au_role = ADMIN\<rparr>"

definition remove_route :: route where
  "remove_route = mk_route DELETE [Lit ''admin'', Lit ''concerts'', Par ''id''] [AuthGuard, RolesGuard] (Some [ADMIN]) ''concert.remove''"

lemma remove_route_listed: "remove_route \<in> set all_routes"
  by (simp add: remove_route_def all_routes_def concert_routes_def)

theorem declared_roles_are_enforced_witness:
  "snd (run_guards demo_http_env remove_route (request_of (Some some_admin)) (rt_guards remove_route) None empty_world) =
     Inr (Some some_admin) \<and> token_user demo_http_env (request_of (Some some_admin)) = Some some_admin"
proof -
  let ?run = "run_guards demo_http_env remove_route (request_of (Some some_admin)) (rt_guards remove_route) None empty_world"
  have "snd ?run = Inr (Some some_admin)" by code_simp
  moreover have "?run = (fst ?run, snd ?run)" by simp
  moreover have "rt_roles remove_route = Some [ADMIN]" "rt_handler remove_route \<notin> {''verifyTicket'', ''syncCheckin''}"
    by (simp_all add: remove_route_def mk_route_def)
  ultimately show ?thesis
    using declared_roles_are_enforced [OF remove_route_listed, of "[ADMIN]" demo_http_env "request_of (Some some_admin)"
        empty_world "fst ?run" "Some some_admin"] by auto
qed

theorem writes_need_a_token_witness:
  "\<exists>e. run_guards demo_http_env remove_route (request_of None) (rt_guards remove_route) None empty_world =
     (empty_world, Inl (UnauthorizedException e))"
  by (rule writes_need_a_token [OF remove_route_listed])
    (simp_all add: remove_route_def mk_route_def token_user_def auth_canActivate_def extractTokenFromHeader_def
      request_of_def)


theorem mock_page_pays_any_order_witness:
  "\<exists>w'. handleMockWebhook demo_crypto ''s'' (demo_ticket_env ''t'') 1000 (mockPage demo_crypto ''s'' 900 ''o1'' 200 RESULT_SUCCESS) demo_pending
     = (w', Inr \<lparr>wr_orderId = ''o1'', wr_status = Some PAID\<rparr>)"
  using mock_page_pays_any_order [of "''o1''" demo_pending demo_order demo_crypto "demo_ticket_env ''t''" "''s''" 1000 900]
  by auto

definition demo_reset :: reset_env where
  "demo_reset = \<lparr>rs_production = False, rs_allowed = False,
     rs_seed = (\<lambda>w. (w\<lparr>ticketTypes := [demo_type ''vip'' 3]\<rparr>, Inr ())), rs_now = 0\<rparr>"

theorem reset_reseeds_stock_witness:
  "redisdb (fst (resetDatabase demo_reset empty_world)) (REDIS_KEY_STOCK ''vip'') = Some (RInt 3, None)"
proof -
  let ?run = "resetDatabase demo_reset empty_world"
  have "ticketTypes (fst ?run) = [demo_type ''vip'' 3]"
    by (simp add: resetDatabase_def demo_reset_def)
  then show ?thesis
    using reset_reseeds_stock [of demo_reset empty_world "fst ?run" "snd ?run" "empty_world\<lparr>ticketTypes := [demo_type ''vip'' 3]\<rparr>"]
    by (auto simp: demo_reset_def empty_world_def unique_key_def demo_type_def)
qed

end
