(* ===== verification/Waiting_Room.thy ===== *)
theory Waiting_Room
  imports Qr_Payload
begin

text \<open>
  The waiting room of the customers' app (\<open>src/src/frontend/customer-web\<close>): the server side
  \<open>lib/mock-waiting-room.ts\<close> with its route, and the tab of a customer with
  \<open>lib/waiting-room-storage.ts\<close>, \<open>lib/waiting-room-access.ts\<close>, \<open>lib/waiting-room-abandon.ts\<close>,
  \<open>hooks/useWaitingRoom.ts\<close> and \<open>hooks/usePurchaseAccess.ts\<close>.

  \<^item> The \<open>Map\<close> of sessions is the list of its values in insertion order, the map of join
    timestamps a map.  The two environment variables are arguments.
  \<^item> A call of the server is synchronous, so all its readings of the clock are one argument.  The
    UUIDs and the value of \<open>Math.random\<close>, a rational here, are arguments too.
  \<^item> The tab is the part of \<open>sessionStorage\<close> that belongs to one concert.  What is stored there as
    JSON is kept as the value itself.  Whether a request reaches the server and its answer comes
    back is an argument of each call.
\<close>

text \<open>A string that counts as present: JavaScript's empty string is false.\<close>

definition truthy :: "string option \<Rightarrow> string option" where
  "truthy s = (case s of Some (c # cs) \<Rightarrow> Some (c # cs) | _ \<Rightarrow> None)"

section \<open>Configuration\<close>

definition TOKEN_TTL_MS :: time where "TOKEN_TTL_MS = 5 * 60 * 1000"
definition MIN_WAIT_MS :: time where "MIN_WAIT_MS = 12000"
definition MAX_WAIT_MS :: time where "MAX_WAIT_MS = 38000"
definition LOAD_WINDOW_MS :: time where "LOAD_WINDOW_MS = 5 * 60 * 1000"
definition DEFAULT_JOIN_THRESHOLD :: int where "DEFAULT_JOIN_THRESHOLD = 12"

lemmas room_bounds = TOKEN_TTL_MS_def MIN_WAIT_MS_def MAX_WAIT_MS_def

text \<open>
  JavaScript's \<open>Number.parseInt\<close> in base ten: leading spaces, a sign, the longest run of digits.
  \<open>None\<close> is \<open>NaN\<close>.  A value from \<open>double_limit\<close> on rounds to \<open>Infinity\<close>.
\<close>

definition is_digit :: "char \<Rightarrow> bool" where
  "is_digit c \<longleftrightarrow> 48 \<le> (of_char c :: nat) \<and> (of_char c :: nat) \<le> 57"

fun decimal :: "int \<Rightarrow> string \<Rightarrow> int" where
  "decimal n [] = n"
| "decimal n (c # cs) = decimal (10 * n + (of_char c - 48)) cs"

definition parse_digits :: "string \<Rightarrow> int option" where
  "parse_digits s = (case takeWhile is_digit s of [] \<Rightarrow> None | ds \<Rightarrow> Some (decimal 0 ds))"

definition number_parseInt :: "string \<Rightarrow> int option" where
  "number_parseInt raw =
     (case dropWhile is_space raw of
        c # s \<Rightarrow>
          if c = CHR ''-'' then map_option uminus (parse_digits s)
          else if c = CHR ''+'' then parse_digits s
          else parse_digits (c # s)
      | [] \<Rightarrow> None)"

definition double_limit :: int where "double_limit = 2 ^ 1024 - 2 ^ 970"

record room_env =
  WAITING_ROOM_JOIN_THRESHOLD :: "string option"
  FORCE_WAITING_ROOM :: "string option"

definition getJoinThreshold :: "room_env \<Rightarrow> int" where
  "getJoinThreshold env =
     (let parsed =
            (case truthy (WAITING_ROOM_JOIN_THRESHOLD env) of
               Some raw \<Rightarrow> number_parseInt raw
             | None \<Rightarrow> Some DEFAULT_JOIN_THRESHOLD)
      in case parsed of
           Some n \<Rightarrow> if \<bar>n\<bar> < double_limit \<and> n > 0 then n else DEFAULT_JOIN_THRESHOLD
         | None \<Rightarrow> DEFAULT_JOIN_THRESHOLD)"

definition isForceWaitingRoom :: "room_env \<Rightarrow> bool" where
  "isForceWaitingRoom env \<longleftrightarrow> FORCE_WAITING_ROOM env = Some ''true''"

section \<open>Sessions and load\<close>

record waiting_session =
  ws_sessionId :: id
  ws_concertId :: id
  ws_createdAt :: time
  ws_admitAt :: time
  ws_admitted :: bool
  ws_required :: bool
  ws_token :: "string option"
  ws_tokenExpiresAt :: "time option"

record room =
  wr_sessions :: "waiting_session list"
  wr_joinTimestamps :: "id \<Rightarrow> time list option"

record room_draw =
  dr_sessionId :: string
  dr_token :: string
  dr_random :: rat

fun map_put :: "('r \<Rightarrow> 'k) \<Rightarrow> 'r \<Rightarrow> 'r list \<Rightarrow> 'r list" where
  "map_put key r [] = [r]"
| "map_put key r (x # xs) = (if key x = key r then r # xs else x # map_put key r xs)"

definition put_session :: "waiting_session \<Rightarrow> room \<Rightarrow> room" where
  "put_session rec w = w\<lparr>wr_sessions := map_put ws_sessionId rec (wr_sessions w)\<rparr>"

definition get_session :: "id \<Rightarrow> room \<Rightarrow> waiting_session option" where
  "get_session sid w = find_row ws_sessionId sid (wr_sessions w)"

definition pruneJoinTimestamps :: "id \<Rightarrow> time \<Rightarrow> room \<Rightarrow> room \<times> time list" where
  "pruneJoinTimestamps concertId now w =
     (let entries = filter (\<lambda>timestamp. now - timestamp < LOAD_WINDOW_MS)
            (case wr_joinTimestamps w concertId of Some ts \<Rightarrow> ts | None \<Rightarrow> [])
      in (w\<lparr>wr_joinTimestamps := (wr_joinTimestamps w)(concertId \<mapsto> entries)\<rparr>, entries))"

definition is_waiting :: "id \<Rightarrow> waiting_session \<Rightarrow> bool" where
  "is_waiting concertId rec \<longleftrightarrow> ws_concertId rec = concertId \<and> \<not> ws_admitted rec \<and> ws_required rec"

definition countActiveWaitingSessions :: "id \<Rightarrow> room \<Rightarrow> nat" where
  "countActiveWaitingSessions concertId w = count_where (is_waiting concertId) (wr_sessions w)"

definition isWaitingRoomRequired :: "room_env \<Rightarrow> time \<Rightarrow> id \<Rightarrow> room \<Rightarrow> room \<times> bool" where
  "isWaitingRoomRequired env now concertId w =
     (if isForceWaitingRoom env then (w, True)
      else let (w', entries) = pruneJoinTimestamps concertId now w
           in (w', int (length entries) + int (countActiveWaitingSessions concertId w')
                     \<ge> getJoinThreshold env))"

definition recordJoin :: "time \<Rightarrow> id \<Rightarrow> room \<Rightarrow> room" where
  "recordJoin now concertId w =
     (let (w', entries) = pruneJoinTimestamps concertId now w
      in w'\<lparr>wr_joinTimestamps := (wr_joinTimestamps w')(concertId \<mapsto> entries @ [now])\<rparr>)"

definition randomWaitMs :: "rat \<Rightarrow> time" where
  "randomWaitMs random = MIN_WAIT_MS + \<lfloor>random * of_int (MAX_WAIT_MS - MIN_WAIT_MS)\<rfloor>"

definition generateToken :: "string \<Rightarrow> string" where
  "generateToken uuid = ''wr_'' @ filter (\<lambda>c. c \<noteq> CHR ''-'') uuid"

section \<open>Answers\<close>

datatype poll_response =
    Admitted (pr_required: bool) (pr_token: string) (pr_expires: "time option")
  | Waiting (pr_required: bool) (pr_position: "nat option") (pr_estimate: "int option")

definition is_ahead :: "waiting_session \<Rightarrow> waiting_session \<Rightarrow> bool" where
  "is_ahead other rec \<longleftrightarrow>
     is_waiting (ws_concertId rec) other \<and>
     (ws_admitAt other < ws_admitAt rec \<or>
      ws_admitAt other = ws_admitAt rec \<and> ws_createdAt other < ws_createdAt rec)"

definition getQueuePosition :: "waiting_session \<Rightarrow> room \<Rightarrow> nat" where
  "getQueuePosition rec w = 1 + count_where (\<lambda>other. is_ahead other rec) (wr_sessions w)"

definition toPollResponse :: "time \<Rightarrow> waiting_session \<Rightarrow> room \<Rightarrow> poll_response" where
  "toPollResponse now rec w =
     (let estimatedWaitSeconds = max 0 \<lceil>of_int (ws_admitAt rec - now) / (1000 :: rat)\<rceil>;
          waiting = Waiting (ws_required rec)
            (if ws_required rec then Some (getQueuePosition rec w) else None)
            (if ws_required rec then Some estimatedWaitSeconds else None)
      in case truthy (ws_token rec) of
           Some token \<Rightarrow>
             if ws_admitted rec
             then Admitted (ws_required rec) token (ws_tokenExpiresAt rec) else waiting
         | None \<Rightarrow> waiting)"

section \<open>Operations of the server\<close>

definition admitImmediately ::
  "time \<Rightarrow> room_draw \<Rightarrow> id \<Rightarrow> bool \<Rightarrow> room \<Rightarrow> room \<times> (id \<times> poll_response)" where
  "admitImmediately now draw concertId waitingRoomRequired w =
     (let rec = \<lparr>ws_sessionId = dr_sessionId draw, ws_concertId = concertId, ws_createdAt = now,
                 ws_admitAt = now, ws_admitted = True, ws_required = waitingRoomRequired,
                 ws_token = Some (generateToken (dr_token draw)),
                 ws_tokenExpiresAt = Some (now + TOKEN_TTL_MS)\<rparr>;
          w' = put_session rec w
      in (w', (dr_sessionId draw, toPollResponse now rec w')))"

definition new_session ::
  "room_env \<Rightarrow> time \<Rightarrow> room_draw \<Rightarrow> id \<Rightarrow> room \<Rightarrow> room \<times> (id \<times> poll_response)" where
  "new_session env now draw concertId w =
     (let (w1, waitingRoomRequired) = isWaitingRoomRequired env now concertId w;
          w2 = recordJoin now concertId w1
      in if \<not> waitingRoomRequired then admitImmediately now draw concertId False w2
         else let rec = \<lparr>ws_sessionId = dr_sessionId draw, ws_concertId = concertId,
                         ws_createdAt = now, ws_admitAt = now + randomWaitMs (dr_random draw),
                         ws_admitted = False, ws_required = True,
                         ws_token = None, ws_tokenExpiresAt = None\<rparr>;
                  w3 = put_session rec w2
              in (w3, (dr_sessionId draw, toPollResponse now rec w3)))"

definition joinWaitingRoom ::
  "room_env \<Rightarrow> time \<Rightarrow> room_draw \<Rightarrow> id \<Rightarrow> id option \<Rightarrow> room \<Rightarrow> room \<times> (id \<times> poll_response)" where
  "joinWaitingRoom env now draw concertId existingSessionId w =
     (let existing =
            (case truthy existingSessionId of Some sid \<Rightarrow> get_session sid w | None \<Rightarrow> None)
      in case existing of
           Some rec \<Rightarrow>
             if ws_concertId rec = concertId then (w, (ws_sessionId rec, toPollResponse now rec w))
             else new_session env now draw concertId w
         | None \<Rightarrow> new_session env now draw concertId w)"

definition pollWaitingRoom :: "time \<Rightarrow> room_draw \<Rightarrow> id \<Rightarrow> room \<Rightarrow> room \<times> poll_response option" where
  "pollWaitingRoom now draw sessionId w =
     (case get_session sessionId w of
        None \<Rightarrow> (w, None)
      | Some rec \<Rightarrow>
          let rec' = (if \<not> ws_admitted rec \<and> ws_required rec \<and> now \<ge> ws_admitAt rec
                      then rec\<lparr>ws_admitted := True,
                               ws_token := Some (generateToken (dr_token draw)),
                               ws_tokenExpiresAt := Some (now + TOKEN_TTL_MS)\<rparr>
                      else rec);
              w' = put_session rec' w
          in (w', Some (toPollResponse now rec' w')))"

text \<open>The calls that reach the server, of any customers and concerts.\<close>

datatype room_call =
    JOIN time room_draw id "id option"
  | POLL time room_draw id

datatype room_result = Joined id poll_response | Polled "poll_response option"

fun run_room_call :: "room_env \<Rightarrow> room_call \<Rightarrow> room \<Rightarrow> room \<times> room_result" where
  "run_room_call env (JOIN now draw c existing) w =
     (let (w', (sid, r)) = joinWaitingRoom env now draw c existing w in (w', Joined sid r))"
| "run_room_call env (POLL now draw sid) w =
     (let (w', r) = pollWaitingRoom now draw sid w in (w', Polled r))"

section \<open>The tab of a customer\<close>

text \<open>
  \<open>tb_session\<close>, \<open>tb_token\<close> and \<open>tb_intent\<close> are the values under the keys
  \<open>waiting-room-session\<close>, \<open>waiting-room-token\<close> and \<open>waiting-room-purchase-intent\<close> of the concert;
  \<open>tb_pendingOrder\<close> is what \<open>readPendingOrder\<close> finds.
\<close>

record tab =
  tb_session :: "id option"
  tb_token :: "(string \<times> time) option"
  tb_intent :: bool
  tb_pendingOrder :: "id option"

definition storeAdmittedToken :: "time \<Rightarrow> string \<Rightarrow> time option \<Rightarrow> tab \<Rightarrow> tab" where
  "storeAdmittedToken now token tokenExpiresAt t =
     t\<lparr>tb_token := Some (token, case tokenExpiresAt of Some e \<Rightarrow> e | None \<Rightarrow> now + 5 * 60 * 1000)\<rparr>"

definition readAdmittedTokenRecord :: "time \<Rightarrow> tab \<Rightarrow> tab \<times> (string \<times> time) option" where
  "readAdmittedTokenRecord now t =
     (case tb_token t of
        None \<Rightarrow> (t, None)
      | Some (token, expires) \<Rightarrow>
          if now > expires then (t\<lparr>tb_token := None\<rparr>, None) else (t, Some (token, expires)))"

definition readAdmittedToken :: "time \<Rightarrow> tab \<Rightarrow> tab \<times> string option" where
  "readAdmittedToken now t = (let (t', r) = readAdmittedTokenRecord now t in (t', map_option fst r))"

definition getAdmittedTokenRemainingMs :: "time \<Rightarrow> tab \<Rightarrow> tab \<times> int option" where
  "getAdmittedTokenRemainingMs now t =
     (let (t', r) = readAdmittedTokenRecord now t
      in (t', map_option (\<lambda>(_, expires). max 0 (expires - now)) r))"

definition clearWaitingSession :: "tab \<Rightarrow> tab" where
  "clearWaitingSession t = t\<lparr>tb_session := None\<rparr>"

definition clearWaitingRoomData :: "tab \<Rightarrow> tab" where
  "clearWaitingRoomData t = t\<lparr>tb_session := None, tb_token := None\<rparr>"

definition abandonPurchaseFlow :: "tab \<Rightarrow> tab" where
  "abandonPurchaseFlow t = clearWaitingRoomData (t\<lparr>tb_intent := False\<rparr>)"

text \<open>A request of the tab: lost on the way, its answer lost on the way, or both arrive.\<close>

datatype room_net = RequestLost | AnswerLost | Arrives

datatype access_result = Granted "string option" | WaitingRoomRequired

text \<open>
  \<open>pollExistingSession\<close> and \<open>requestPurchaseAccess\<close>: an exception is a request that \<open>fetch\<close>
  rejects, \<open>None\<close> an answer from which the code concludes nothing.  The route answers an unknown
  session with 404; the tab never sends an empty session identifier.
\<close>

definition fetch_poll ::
  "time \<Rightarrow> room_draw \<Rightarrow> room_net \<Rightarrow> id \<Rightarrow> room \<Rightarrow> (room, poll_response option) outcome" where
  "fetch_poll now draw net sid w =
     (case net of
        RequestLost \<Rightarrow> (w, Inl (PlainError ''fetch failed''))
      | AnswerLost \<Rightarrow> (fst (pollWaitingRoom now draw sid w), Inl (PlainError ''fetch failed''))
      | Arrives \<Rightarrow> (let (w', r) = pollWaitingRoom now draw sid w in (w', Inr r)))"

definition admitted_token :: "poll_response \<Rightarrow> (string \<times> time option) option" where
  "admitted_token data =
     (case data of
        Admitted req token expires \<Rightarrow> map_option (\<lambda>tok. (tok, expires)) (truthy (Some token))
      | Waiting req pos est \<Rightarrow> None)"

definition pollExistingSession ::
  "time \<Rightarrow> room_draw \<Rightarrow> room_net \<Rightarrow> id \<Rightarrow> room \<times> tab \<Rightarrow> (room \<times> tab, access_result option) outcome" where
  "pollExistingSession now draw net sid s =
     (case fetch_poll now draw net sid (fst s) of
        (w, Inl e) \<Rightarrow> ((w, snd s), Inl e)
      | (w, Inr None) \<Rightarrow> ((w, snd s), Inr None)
      | (w, Inr (Some data)) \<Rightarrow>
          (case admitted_token data of
             Some (token, expires) \<Rightarrow>
               ((w, storeAdmittedToken now token expires (snd s)), Inr (Some (Granted (Some token))))
           | None \<Rightarrow>
               (case data of
                  Waiting True _ _ \<Rightarrow> ((w, snd s), Inr (Some WaitingRoomRequired))
                | _ \<Rightarrow> ((w, snd s), Inr None))))"

definition requestPurchaseAccess ::
  "time \<Rightarrow> room_draw \<Rightarrow> room_net \<Rightarrow> bool \<Rightarrow> room \<times> tab \<Rightarrow> (room \<times> tab, access_result) outcome" where
  "requestPurchaseAccess now draw net requireToken s =
     (let (t, existingToken) = readAdmittedToken now (snd s)
      in case truthy existingToken of
           Some token \<Rightarrow> ((fst s, t), Inr (Granted (Some token)))
         | None \<Rightarrow>
             if \<not> requireToken then ((fst s, t), Inr (Granted None))
             else case truthy (tb_session t) of
               None \<Rightarrow> ((fst s, t), Inr WaitingRoomRequired)
             | Some sid \<Rightarrow>
                 bindE (pollExistingSession now draw net sid (fst s, t)) (\<lambda>s' polled.
                   case polled of
                     Some r \<Rightarrow> (s', Inr r)
                   | None \<Rightarrow> ((fst s', clearWaitingSession (snd s')), Inr WaitingRoomRequired)))"

section \<open>The page of the waiting room\<close>

datatype hook_status = HookLoading | HookWaiting | HookAdmitted | HookError

record room_hook =
  hk_status :: hook_status
  hk_sessionId :: "id option"
  hk_admitted :: bool
  hk_startedAt :: "time option"
  hk_position :: "nat option"
  hk_estimate :: "int option"

definition fresh_hook :: room_hook where
  "fresh_hook = \<lparr>hk_status = HookLoading, hk_sessionId = None, hk_admitted = False,
     hk_startedAt = None, hk_position = None, hk_estimate = None\<rparr>"

definition setPurchaseIntent :: "tab \<Rightarrow> tab" where
  "setPurchaseIntent t = t\<lparr>tb_intent := True\<rparr>"

text \<open>The page is mounted, and its \<open>onAdmitted\<close> sets the purchase intent.\<close>

definition handleAdmitted ::
  "time \<Rightarrow> string \<Rightarrow> time option \<Rightarrow> tab \<times> room_hook \<Rightarrow> tab \<times> room_hook" where
  "handleAdmitted now token tokenExpiresAt s =
     (if hk_admitted (snd s) then s
      else (setPurchaseIntent (storeAdmittedToken now token tokenExpiresAt (fst s)),
            (snd s)\<lparr>hk_admitted := True, hk_status := HookAdmitted\<rparr>))"

definition show_wait :: "poll_response \<Rightarrow> room_hook \<Rightarrow> room_hook" where
  "show_wait data h =
     (case data of
        Admitted req token expires \<Rightarrow> h\<lparr>hk_position := None, hk_estimate := None\<rparr>
      | Waiting req pos est \<Rightarrow> h\<lparr>hk_position := pos, hk_estimate := est\<rparr>)"

definition joined ::
  "time \<Rightarrow> id \<Rightarrow> poll_response \<Rightarrow> tab \<times> room_hook \<Rightarrow> tab \<times> room_hook" where
  "joined now sid data s =
     (let t = (fst s)\<lparr>tb_session := Some sid\<rparr>;
          h = show_wait data ((snd s)\<lparr>hk_sessionId := Some sid, hk_startedAt := Some now\<rparr>)
      in case admitted_token data of
           Some (token, expires) \<Rightarrow> handleAdmitted now token expires (t, h)
         | None \<Rightarrow>
             if \<not> pr_required data then (t, h\<lparr>hk_status := HookError\<rparr>)
             else (t, h\<lparr>hk_status := HookWaiting\<rparr>))"

definition joinQueue ::
  "room_env \<Rightarrow> time \<Rightarrow> room_draw \<Rightarrow> room_net \<Rightarrow> bool \<Rightarrow> id \<Rightarrow> room \<times> tab \<times> room_hook \<Rightarrow>
   room \<times> tab \<times> room_hook" where
  "joinQueue env now draw net cancelled c s =
     (case s of (w, t, h) \<Rightarrow>
        let h1 = h\<lparr>hk_status := (if hk_status h \<in> {HookWaiting, HookAdmitted} then hk_status h
                                else HookLoading),
                   hk_sessionId := tb_session t\<rparr>;
            (w', (sid, data)) = joinWaitingRoom env now draw c (tb_session t) w;
            failed = (if cancelled then h1 else h1\<lparr>hk_status := HookError\<rparr>)
        in case net of
             RequestLost \<Rightarrow> (w, t, failed)
           | AnswerLost \<Rightarrow> (w', t, failed)
           | Arrives \<Rightarrow> if cancelled then (w', t, h1) else (w', joined now sid data (t, h1)))"

text \<open>The button \<open>retry\<close> of the page.\<close>

definition retryQueue ::
  "room_env \<Rightarrow> time \<Rightarrow> room_draw \<Rightarrow> room_net \<Rightarrow> id \<Rightarrow> room \<times> tab \<times> room_hook \<Rightarrow>
   room \<times> tab \<times> room_hook" where
  "retryQueue env now draw net c s =
     (case s of (w, t, h) \<Rightarrow>
        joinQueue env now draw net False c
          (w, t, h\<lparr>hk_admitted := False, hk_sessionId := None, hk_startedAt := None,
                   hk_position := None, hk_estimate := None\<rparr>))"

text \<open>One poll of the interval that runs while the page shows the queue.\<close>

definition pollQueue ::
  "time \<Rightarrow> room_draw \<Rightarrow> room_net \<Rightarrow> bool \<Rightarrow> room \<times> tab \<times> room_hook \<Rightarrow> room \<times> tab \<times> room_hook" where
  "pollQueue now draw net cancelled s =
     (case s of (w, t, h) \<Rightarrow>
        case truthy (hk_sessionId h) of
          None \<Rightarrow> s
        | Some sid \<Rightarrow>
            if hk_status h \<noteq> HookWaiting then s
            else let failed = (if cancelled then h else h\<lparr>hk_status := HookError\<rparr>)
                 in case fetch_poll now draw net sid w of
                      (w', Inl e) \<Rightarrow> (w', t, failed)
                    | (w', Inr None) \<Rightarrow> (w', t, failed)
                    | (w', Inr (Some data)) \<Rightarrow>
                        if cancelled then (w', t, h)
                        else (case admitted_token data of
                                Some (token, expires) \<Rightarrow> (w', handleAdmitted now token expires (t, h))
                              | None \<Rightarrow> (w', t, show_wait data h)))"

text \<open>\<open>WaitingRoomScreen\<close>: what opening and leaving the page does.\<close>

definition open_waiting_page ::
  "room_env \<Rightarrow> time \<Rightarrow> room_draw \<Rightarrow> room_net \<Rightarrow> bool \<Rightarrow> id \<Rightarrow> room \<times> tab \<Rightarrow> room \<times> tab \<times> room_hook" where
  "open_waiting_page env now draw net cancelled c s =
     (let t = (if tb_pendingOrder (snd s) \<noteq> None then snd s else setPurchaseIntent (snd s))
      in joinQueue env now draw net cancelled c (fst s, t, fresh_hook))"

definition leave_waiting_page :: "room \<times> tab \<times> room_hook \<Rightarrow> room \<times> tab" where
  "leave_waiting_page s =
     (case s of (w, t, h) \<Rightarrow>
        (w, if hk_status h \<noteq> HookAdmitted then abandonPurchaseFlow t else t))"

section \<open>The page of the seats\<close>

text \<open>
  \<open>usePurchaseAccess\<close> on the page of the seats, as \<open>SeatMapPage\<close> calls it: the decision whether a
  token is needed, \<open>verifyAccess\<close>, then the first check of the token.
\<close>

datatype page_access = Stays "int option" | ToWaitingRoom | AccessFailed

definition checkToken :: "time \<Rightarrow> tab \<Rightarrow> tab \<times> page_access" where
  "checkToken now t =
     (if tb_pendingOrder t \<noteq> None then (t, Stays None)
      else let (t', remaining) = getAdmittedTokenRemainingMs now t
           in (t', case remaining of None \<Rightarrow> ToWaitingRoom | Some ms \<Rightarrow> Stays (Some ms)))"

definition open_seats_page ::
  "time \<Rightarrow> room_draw \<Rightarrow> room_net \<Rightarrow> room \<times> tab \<Rightarrow> (room \<times> tab) \<times> page_access" where
  "open_seats_page now draw net s =
     (if tb_pendingOrder (snd s) \<noteq> None then (s, Stays None)
      else let (t, requireToken) =
                 (if tb_intent (snd s) then (snd s, True)
                  else let (t', token) = readAdmittedToken now (snd s) in (t', token \<noteq> None))
           in case requestPurchaseAccess now draw net requireToken (fst s, t) of
                (s', Inl e) \<Rightarrow> (s', AccessFailed)
              | (s', Inr WaitingRoomRequired) \<Rightarrow> (s', ToWaitingRoom)
              | (s', Inr (Granted token)) \<Rightarrow>
                  if \<not> requireToken then (s', Stays None)
                  else let (t', r) = checkToken now (snd s') in ((fst s', t'), r))"

end
