(* ===== verification/Waiting_Properties.thy ===== *)
theory Waiting_Properties
  imports Waiting_Room
begin

text \<open>
  What the waiting room guarantees and what it does not: when tokens are handed out, that every
  customer who keeps polling is admitted, and two ways in which its state never recovers.
\<close>

section \<open>The table of sessions\<close>

definition session_ok :: "waiting_session \<Rightarrow> bool" where
  "session_ok rec \<longleftrightarrow>
     (case (ws_token rec, ws_tokenExpiresAt rec) of
        (Some token, Some expires) \<Rightarrow>
          ws_admitted rec \<and> token \<noteq> [] \<and> ws_admitAt rec + TOKEN_TTL_MS \<le> expires \<and>
          (\<not> ws_required rec \<longrightarrow> expires = ws_createdAt rec + TOKEN_TTL_MS)
      | (None, None) \<Rightarrow> \<not> ws_admitted rec \<and> ws_required rec
      | _ \<Rightarrow> False) \<and>
     (if ws_required rec
      then ws_createdAt rec + MIN_WAIT_MS \<le> ws_admitAt rec \<and> ws_admitAt rec < ws_createdAt rec + MAX_WAIT_MS
      else ws_admitAt rec = ws_createdAt rec)"

definition room_ok :: "room \<Rightarrow> bool" where
  "room_ok w \<longleftrightarrow> unique_key ws_sessionId (wr_sessions w) \<and> list_all session_ok (wr_sessions w)"

fun fair_draw :: "room_call \<Rightarrow> bool" where
  "fair_draw (JOIN now draw c existing) \<longleftrightarrow> 0 \<le> dr_random draw \<and> dr_random draw < 1"
| "fair_draw (POLL now draw sid) \<longleftrightarrow> True"

lemma truthy_simps [simp]:
  "truthy None = None" "truthy (Some []) = None" "s \<noteq> [] \<Longrightarrow> truthy (Some s) = Some s"
  by (simp_all add: truthy_def split: list.splits)

lemma truthy_eq_Some: "truthy x = Some s \<longleftrightarrow> x = Some s \<and> s \<noteq> []"
  by (auto simp: truthy_def split: option.splits list.splits)

lemma generateToken_nonempty [simp]: "generateToken u \<noteq> []"
  by (simp add: generateToken_def)

lemma randomWaitMs_bounds:
  assumes "0 \<le> r" and "r < 1"
  shows "MIN_WAIT_MS \<le> randomWaitMs r" and "randomWaitMs r < MAX_WAIT_MS"
proof -
  let ?n = "of_int (MAX_WAIT_MS - MIN_WAIT_MS) :: rat"
  have n: "0 < ?n" by (simp add: room_bounds)
  then have "0 \<le> r * ?n" using assms(1) by simp
  then show "MIN_WAIT_MS \<le> randomWaitMs r" by (simp add: randomWaitMs_def)
  have "r * ?n < 1 * ?n" using assms(2) n by (rule mult_strict_right_mono)
  then have "\<lfloor>r * ?n\<rfloor> < MAX_WAIT_MS - MIN_WAIT_MS" by (simp only: floor_less_iff mult_1_left)
  then show "randomWaitMs r < MAX_WAIT_MS" by (simp add: randomWaitMs_def)
qed

text \<open>\<open>map_put\<close> is the update of a map with unique keys.\<close>

lemma set_map_put: "set (map_put key r xs) \<subseteq> insert r (set xs)"
  by (induction xs) auto

lemma keys_map_put: "key ` set (map_put key r xs) = insert (key r) (key ` set xs)"
  by (induction xs) auto

lemma unique_map_put: "unique_key key xs \<Longrightarrow> unique_key key (map_put key r xs)"
proof (induction xs)
  case Nil
  then show ?case by (simp add: unique_key_def)
next
  case (Cons x xs)
  then show ?case
    using keys_map_put [of key r xs] by (auto simp: unique_key_def)
qed

lemma find_map_put:
  "find_row key k (map_put key r xs) = (if key r = k then Some r else find_row key k xs)"
  by (induction xs) auto

lemma filter_map_put:
  "(\<And>x. key x = key r \<Longrightarrow> \<not> q x) \<Longrightarrow> filter q (map_put key r xs) = filter q xs"
  by (induction xs) auto

lemma count_map_put_fresh:
  "find_row key (key r) xs = None \<Longrightarrow>
   count_where q (map_put key r xs) = count_where q xs + (if q r then 1 else 0)"
  by (induction xs) (auto split: if_splits)

lemma get_put_session [simp]:
  "get_session sid (put_session rec w) = (if ws_sessionId rec = sid then Some rec else get_session sid w)"
  by (simp add: get_session_def put_session_def find_map_put)

lemma room_ok_put: "room_ok w \<Longrightarrow> session_ok rec \<Longrightarrow> room_ok (put_session rec w)"
  using set_map_put [of ws_sessionId rec "wr_sessions w"]
  by (auto simp: room_ok_def put_session_def unique_map_put list_all_iff)

lemma get_session_ok: "room_ok w \<Longrightarrow> get_session sid w = Some rec \<Longrightarrow> session_ok rec \<and> ws_sessionId rec = sid"
  unfolding get_session_def room_ok_def list_all_iff by (metis find_row_SomeD)

lemma get_sessionD: "get_session sid w = Some rec \<Longrightarrow> ws_sessionId rec = sid \<and> rec \<in> set (wr_sessions w)"
  unfolding get_session_def by (metis find_row_SomeD)

text \<open>The bookkeeping of the load does not touch the sessions.\<close>

lemma required_sessions [simp]: "wr_sessions (fst (isWaitingRoomRequired env now c w)) = wr_sessions w"
  by (simp add: isWaitingRoomRequired_def pruneJoinTimestamps_def Let_def)

lemma recordJoin_sessions [simp]: "wr_sessions (recordJoin now c w) = wr_sessions w"
  by (simp add: recordJoin_def pruneJoinTimestamps_def Let_def)

text \<open>The session that a join creates, and the one a poll leaves behind.\<close>

definition drawn_session :: "time \<Rightarrow> room_draw \<Rightarrow> id \<Rightarrow> bool \<Rightarrow> waiting_session" where
  "drawn_session now draw c req =
     \<lparr>ws_sessionId = dr_sessionId draw, ws_concertId = c, ws_createdAt = now,
      ws_admitAt = (if req then now + randomWaitMs (dr_random draw) else now),
      ws_admitted = (\<not> req), ws_required = req,
      ws_token = (if req then None else Some (generateToken (dr_token draw))),
      ws_tokenExpiresAt = (if req then None else Some (now + TOKEN_TTL_MS))\<rparr>"

lemma new_session_cases:
  "wr_sessions (fst (new_session env now draw c w)) =
     map_put ws_sessionId (drawn_session now draw c (snd (isWaitingRoomRequired env now c w))) (wr_sessions w) \<and>
   snd (new_session env now draw c w) =
     (dr_sessionId draw,
      toPollResponse now (drawn_session now draw c (snd (isWaitingRoomRequired env now c w)))
        (fst (new_session env now draw c w)))"
proof -
  obtain w1 req where "isWaitingRoomRequired env now c w = (w1, req)" by fastforce
  moreover have "wr_sessions w1 = wr_sessions w"
    using calculation required_sessions [of env now c w] by simp
  ultimately show ?thesis
    by (cases req) (simp_all add: new_session_def admitImmediately_def drawn_session_def put_session_def Let_def)
qed

lemma drawn_session_ok:
  "0 \<le> dr_random draw \<Longrightarrow> dr_random draw < 1 \<Longrightarrow> session_ok (drawn_session now draw c req)"
  using randomWaitMs_bounds [of "dr_random draw"]
  by (cases req) (simp_all add: session_ok_def drawn_session_def)

lemma join_cases:
  obtains (old) rec sid where "existing = Some sid" "get_session sid w = Some rec" "ws_concertId rec = c"
      "joinWaitingRoom env now draw c existing w = (w, (ws_sessionId rec, toPollResponse now rec w))"
  | (new) "joinWaitingRoom env now draw c existing w = new_session env now draw c w"
proof (cases "truthy existing")
  case None
  then have "joinWaitingRoom env now draw c existing w = new_session env now draw c w"
    by (simp add: joinWaitingRoom_def)
  then show ?thesis by (rule new)
next
  case (Some sid)
  then have sid: "existing = Some sid" by (simp add: truthy_eq_Some)
  show ?thesis
  proof (cases "get_session sid w")
    case None
    with Some have "joinWaitingRoom env now draw c existing w = new_session env now draw c w"
      by (simp add: joinWaitingRoom_def)
    then show ?thesis by (rule new)
  next
    case (Some rec)
    show ?thesis
    proof (cases "ws_concertId rec = c")
      case True
      then show ?thesis
        using old [OF sid Some] Some \<open>truthy existing = Some sid\<close> by (simp add: joinWaitingRoom_def)
    next
      case False
      then show ?thesis
        using new Some \<open>truthy existing = Some sid\<close> by (simp add: joinWaitingRoom_def)
    qed
  qed
qed

definition polled_session :: "time \<Rightarrow> room_draw \<Rightarrow> waiting_session \<Rightarrow> waiting_session" where
  "polled_session now draw rec =
     (if \<not> ws_admitted rec \<and> ws_required rec \<and> now \<ge> ws_admitAt rec
      then rec\<lparr>ws_admitted := True, ws_token := Some (generateToken (dr_token draw)),
               ws_tokenExpiresAt := Some (now + TOKEN_TTL_MS)\<rparr>
      else rec)"

lemma poll_eq:
  "pollWaitingRoom now draw sid w =
     (case get_session sid w of
        None \<Rightarrow> (w, None)
      | Some rec \<Rightarrow>
          (put_session (polled_session now draw rec) w,
           Some (toPollResponse now (polled_session now draw rec)
                   (put_session (polled_session now draw rec) w))))"
  by (simp add: pollWaitingRoom_def polled_session_def Let_def split: option.splits)

lemma polled_session_same [simp]:
  "ws_sessionId (polled_session now draw rec) = ws_sessionId rec"
  "ws_concertId (polled_session now draw rec) = ws_concertId rec"
  "ws_admitAt (polled_session now draw rec) = ws_admitAt rec"
  "ws_createdAt (polled_session now draw rec) = ws_createdAt rec"
  "ws_required (polled_session now draw rec) = ws_required rec"
  by (simp_all add: polled_session_def)

lemma polled_session_ok: "session_ok rec \<Longrightarrow> session_ok (polled_session now draw rec)"
  by (auto simp: session_ok_def polled_session_def split: option.splits if_splits)

lemma new_session_ok:
  assumes "room_ok w" and "0 \<le> dr_random draw" and "dr_random draw < 1"
  shows "room_ok (fst (new_session env now draw c w))"
proof -
  let ?rec = "drawn_session now draw c (snd (isWaitingRoomRequired env now c w))"
  have "room_ok (put_session ?rec w)"
    using room_ok_put [OF assms(1) drawn_session_ok] assms(2,3) by blast
  then show ?thesis
    using new_session_cases [of env now draw c w] by (simp add: room_ok_def put_session_def)
qed

lemma room_call_ok: "room_ok w \<Longrightarrow> fair_draw x \<Longrightarrow> room_ok (fst (run_room_call env x w))"
proof (cases x)
  case (JOIN now draw c existing)
  assume "room_ok w" "fair_draw x"
  then show ?thesis
    by (cases rule: join_cases [of existing w c env now draw])
      (auto simp: JOIN split_def Let_def intro: new_session_ok)
next
  case (POLL now draw sid)
  assume "room_ok w" "fair_draw x"
  then show ?thesis
    by (auto simp: POLL poll_eq split_def polled_session_ok
        intro!: room_ok_put dest: get_session_ok split: option.splits)
qed

interpretation waiting_room: op_system "run_room_call env" fair_draw room_ok for env
  by unfold_locales (rule room_call_ok)

text \<open>The sessions behind an answer.\<close>

fun answer_of :: "room_result \<Rightarrow> poll_response option" where
  "answer_of (Joined sid r) = Some r"
| "answer_of (Polled r) = r"

lemma toPollResponse_admitted:
  assumes "toPollResponse now rec w = Admitted req token expires"
  shows "ws_admitted rec \<and> ws_required rec = req \<and> ws_token rec = Some token \<and> ws_tokenExpiresAt rec = expires"
  using assms by (auto simp: toPollResponse_def Let_def truthy_eq_Some split: option.splits if_splits)

lemma answer_session:
  assumes "room_ok w" and "run_room_call env x w = (w', r)" and "answer_of r = Some data"
  shows "\<exists>now rec. get_session (ws_sessionId rec) w' = Some rec \<and> data = toPollResponse now rec w'"
proof (cases x)
  case (JOIN now draw c existing)
  show ?thesis
  proof (cases rule: join_cases [of existing w c env now draw])
    case (old rec sid)
    then show ?thesis
      using assms(2,3) get_sessionD [OF old(2)] by (intro exI [of _ now] exI [of _ rec]) (auto simp: JOIN)
  next
    case new
    let ?rec = "drawn_session now draw c (snd (isWaitingRoomRequired env now c w))"
    have "get_session (ws_sessionId ?rec) (fst (new_session env now draw c w)) = Some ?rec"
      using new_session_cases [of env now draw c w] by (simp add: get_session_def find_map_put)
    moreover obtain w2 s2 d2 where ns: "new_session env now draw c w = (w2, (s2, d2))"
      by (metis surj_pair)
    moreover have "w' = w2" "data = d2"
      using assms(2,3) new ns by (auto simp: JOIN)
    moreover have "d2 = toPollResponse now ?rec w2"
      using new_session_cases [of env now draw c w] ns by simp
    ultimately show ?thesis by (intro exI [of _ now] exI [of _ ?rec]) simp
  qed
next
  case (POLL now draw sid)
  obtain rec where rec: "get_session sid w = Some rec"
    using assms(2,3) by (cases "get_session sid w") (auto simp: POLL poll_eq)
  let ?rec = "polled_session now draw rec"
  have "w' = put_session ?rec w" "data = toPollResponse now ?rec w'"
    using assms(2,3) rec by (auto simp: POLL poll_eq)
  then show ?thesis by (intro exI [of _ now] exI [of _ ?rec]) simp
qed


section \<open>Every waiting customer is admitted\<close>

text \<open>A session keeps its place, and its token once it has one.\<close>

definition evolves :: "waiting_session \<Rightarrow> waiting_session \<Rightarrow> bool" where
  "evolves rec rec' \<longleftrightarrow>
     ws_sessionId rec' = ws_sessionId rec \<and> ws_concertId rec' = ws_concertId rec \<and>
     ws_admitAt rec' = ws_admitAt rec \<and> ws_createdAt rec' = ws_createdAt rec \<and>
     ws_required rec' = ws_required rec \<and> (ws_admitted rec \<longrightarrow> rec' = rec)"

lemma evolves_refl [simp]: "evolves rec rec"
  by (simp add: evolves_def)

lemma evolves_polled: "evolves rec0 rec \<Longrightarrow> evolves rec0 (polled_session now draw rec)"
  by (auto simp: evolves_def polled_session_def)

definition known_as :: "id \<Rightarrow> waiting_session \<Rightarrow> room \<Rightarrow> bool" where
  "known_as sid rec w \<longleftrightarrow> (\<exists>rec'. get_session sid w = Some rec' \<and> evolves rec rec')"

text \<open>Calls whose generated identifiers are none of the given ones.\<close>

fun draws_none_of :: "id list \<Rightarrow> room_call \<Rightarrow> bool" where
  "draws_none_of ids (JOIN now draw c existing) \<longleftrightarrow> dr_sessionId draw \<notin> set ids"
| "draws_none_of ids (POLL now draw sid) \<longleftrightarrow> True"

lemma new_session_get:
  "get_session sid (fst (new_session env now draw c w)) =
     (if dr_sessionId draw = sid
      then Some (drawn_session now draw c (snd (isWaitingRoomRequired env now c w)))
      else get_session sid w)"
  using new_session_cases [of env now draw c w]
  by (simp add: get_session_def find_map_put drawn_session_def)

lemma known_as_step:
  assumes "known_as sid rec w" and "draws_none_of [sid] x"
  shows "known_as sid rec (fst (run_room_call env x w))"
proof (cases x)
  case (JOIN now draw c existing)
  show ?thesis
    by (cases rule: join_cases [of existing w c env now draw])
      (use assms in \<open>auto simp: JOIN split_def Let_def known_as_def new_session_get\<close>)
next
  case (POLL now draw s)
  obtain rec' where rec': "get_session sid w = Some rec'" "evolves rec rec'"
    using assms(1) by (auto simp: known_as_def)
  show ?thesis
  proof (cases "get_session s w")
    case None
    then show ?thesis using assms(1) by (simp add: POLL poll_eq)
  next
    case (Some r)
    then have "ws_sessionId r = s" using get_sessionD by blast
    then show ?thesis
      using rec' Some evolves_polled [OF rec'(2)]
      by (cases "s = sid") (auto simp: POLL poll_eq known_as_def)
  qed
qed

interpretation known_sessions: op_system "run_room_call env" "draws_none_of [sid]" "known_as sid rec"
  for env sid rec
  by unfold_locales (rule known_as_step)

lemma poll_admits:
  assumes "session_ok rec" and "get_session sid w = Some rec" and "ws_admitted rec \<or> ws_admitAt rec \<le> now"
  shows "\<exists>token e. snd (pollWaitingRoom now draw sid w) = Some (Admitted (ws_required rec) token (Some e)) \<and>
           (\<not> ws_admitted rec \<longrightarrow> e = now + TOKEN_TTL_MS)"
  using assms
  by (auto simp: poll_eq polled_session_def toPollResponse_def session_ok_def Let_def
      split: option.splits)

text \<open>
  C19: A session whose customer polls 38 seconds after it was created is answered with a token,
  whatever the customers of this and other concerts did in the meantime; if it was not admitted
  before, the token is valid for five minutes from then on.
\<close>

theorem polling_sessions_are_admitted:
  assumes "room_ok w" and "get_session sid w = Some rec"
    and "\<And>x. x \<in> set xs \<Longrightarrow> fair_draw x \<and> draws_none_of [sid] x"
    and "now \<ge> ws_createdAt rec + MAX_WAIT_MS"
  shows "\<exists>token e. snd (pollWaitingRoom now draw sid (fst (run_ops (run_room_call env) xs w))) =
             Some (Admitted (ws_required rec) token (Some e))"
proof -
  let ?w = "fst (run_ops (run_room_call env) xs w)"
  have "known_as sid rec w" using assms(2) by (auto simp: known_as_def)
  then have "known_as sid rec ?w" using assms(3) by (intro known_sessions.inv_run) auto
  then obtain rec' where rec': "get_session sid ?w = Some rec'" "evolves rec rec'"
    by (auto simp: known_as_def)
  have "room_ok ?w" using assms(1,3) by (intro waiting_room.inv_run) auto
  then have ok: "session_ok rec'" using get_session_ok rec'(1) by blast
  moreover have "ws_admitted rec' \<or> ws_admitAt rec' \<le> now"
    using ok rec'(2) assms(4)
    by (auto simp: session_ok_def evolves_def room_bounds split: if_splits option.splits)
  ultimately show ?thesis
    using poll_admits [OF ok rec'(1), of now draw] rec'(2) by (auto simp: evolves_def)
qed

section \<open>Customers who leave\<close>

definition left_behind :: "id list \<Rightarrow> id \<Rightarrow> room \<Rightarrow> waiting_session list" where
  "left_behind ids c w = filter (\<lambda>rec. ws_sessionId rec \<in> set ids \<and> is_waiting c rec) (wr_sessions w)"

fun polls_none_of :: "id list \<Rightarrow> room_call \<Rightarrow> bool" where
  "polls_none_of ids (JOIN now draw c existing) \<longleftrightarrow> True"
| "polls_none_of ids (POLL now draw sid) \<longleftrightarrow> sid \<notin> set ids"

lemma left_behind_step:
  assumes "left_behind ids c w = left" and "draws_none_of ids x \<and> polls_none_of ids x"
  shows "left_behind ids c (fst (run_room_call env x w)) = left"
proof (cases x)
  case (JOIN now draw c' existing)
  show ?thesis
  proof (cases rule: join_cases [of existing w c' env now draw])
    case (old rec sid)
    then show ?thesis using assms(1) by (simp add: JOIN)
  next
    case new
    then show ?thesis
      using assms new_session_cases [of env now draw c' w]
      by (auto simp: JOIN split_def Let_def left_behind_def drawn_session_def intro!: filter_map_put)
  qed
next
  case (POLL now draw s)
  show ?thesis
  proof (cases "get_session s w")
    case None
    then show ?thesis using assms(1) by (simp add: POLL poll_eq)
  next
    case (Some r)
    then have "ws_sessionId r \<notin> set ids" using get_sessionD [OF Some] assms(2) by (simp add: POLL)
    then have "left_behind ids c (put_session (polled_session now draw r) w) = left_behind ids c w"
      unfolding left_behind_def put_session_def by (auto intro!: filter_map_put)
    then show ?thesis using Some assms(1) by (simp add: POLL poll_eq)
  qed
qed

interpretation forgotten_sessions: op_system "run_room_call env"
    "\<lambda>x. draws_none_of ids x \<and> polls_none_of ids x" "\<lambda>w. left_behind ids c w = left" for env ids c left
  by unfold_locales (rule left_behind_step)

lemma left_behind_counted: "length (left_behind ids c w) \<le> countActiveWaitingSessions c w"
proof -
  have "count_where (\<lambda>rec. ws_sessionId rec \<in> set ids \<and> is_waiting c rec) recs \<le>
      count_where (is_waiting c) recs" for recs
    by (induction recs) (auto simp: le_SucI)
  then show ?thesis
    by (simp add: left_behind_def countActiveWaitingSessions_def count_where_def [symmetric])
qed

text \<open>
  C21: Once as many customers as the threshold have left the queue of a concert without polling again,
  the waiting room of that concert never opens: at any later time, after any calls of others,
  a new customer has to wait even if nobody else is there.
\<close>

theorem abandoned_sessions_keep_the_room_closed:
  assumes "getJoinThreshold env \<le> int (length (left_behind ids c w))"
    and "\<And>x. x \<in> set xs \<Longrightarrow> draws_none_of ids x \<and> polls_none_of ids x"
    and "joinWaitingRoom env now draw c None (fst (run_ops (run_room_call env) xs w)) = (w', (sid, data))"
  shows "snd (isWaitingRoomRequired env now c (fst (run_ops (run_room_call env) xs w))) \<and>
    (\<exists>pos est. data = Waiting True (Some pos) (Some est))"
proof -
  let ?w = "fst (run_ops (run_room_call env) xs w)"
  have "left_behind ids c ?w = left_behind ids c w"
    using assms(2) by (intro forgotten_sessions.inv_run) auto
  then have "getJoinThreshold env \<le> int (countActiveWaitingSessions c ?w)"
    using assms(1) left_behind_counted [of ids c ?w] by simp
  then have req: "snd (isWaitingRoomRequired env now c ?w)"
    by (simp add: isWaitingRoomRequired_def pruneJoinTimestamps_def Let_def countActiveWaitingSessions_def)
  have "data = toPollResponse now (drawn_session now draw c True) w'"
    using assms(3) new_session_cases [of env now draw c ?w] req
    by (auto simp: joinWaitingRoom_def)
  then have "\<exists>pos est. data = Waiting True (Some pos) (Some est)"
    by (simp add: toPollResponse_def drawn_session_def Let_def)
  with req show ?thesis by blast
qed

section \<open>Places in the queue\<close>

lemma count_where_mono:
  "(\<And>x. p x \<Longrightarrow> q x) \<Longrightarrow> count_where p xs \<le> count_where q xs"
  by (induction xs) (auto simp: le_SucI)

text \<open>Who has the smaller place is due no later, so a place is an order of admission.\<close>

lemma places_order_admission:
  assumes "ws_concertId rec1 = ws_concertId rec2" and "getQueuePosition rec1 w < getQueuePosition rec2 w"
  shows "ws_admitAt rec1 \<le> ws_admitAt rec2"
proof (rule ccontr)
  assume "\<not> ?thesis"
  then have "is_ahead other rec2 \<Longrightarrow> is_ahead other rec1" for other
    using assms(1) by (auto simp: is_ahead_def)
  then have "getQueuePosition rec2 w \<le> getQueuePosition rec1 w"
    by (simp add: getQueuePosition_def count_where_mono)
  with assms(2) show False by simp
qed

text \<open>
  The queue is not first come, first served: a customer who joins later but draws a shorter wait
  is placed ahead, and the customers behind lose a place.
\<close>

theorem late_joiner_overtakes:
  assumes "get_session (dr_sessionId draw) w = None" and "is_waiting c rec"
    and "joinWaitingRoom env now draw c None w = (w', (sid, Waiting True pos est))"
    and "now + randomWaitMs (dr_random draw) < ws_admitAt rec"
  shows "getQueuePosition rec w' = getQueuePosition rec w + 1 \<and>
         (\<exists>place. pos = Some place \<and> place < getQueuePosition rec w')"
proof -
  obtain req where req: "snd (isWaitingRoomRequired env now c w) = req" by simp
  let ?new = "drawn_session now draw c req"
  have sess: "wr_sessions w' = map_put ws_sessionId ?new (wr_sessions w)"
    and resp: "Waiting True pos est = toPollResponse now ?new w'"
    using assms(3) new_session_cases [of env now draw c w] req by (auto simp: joinWaitingRoom_def)
  have "req" using resp
    by (auto simp: toPollResponse_def Let_def drawn_session_def split: if_splits)
  then have ahead: "is_ahead ?new rec"
    using assms(2,4) by (simp add: is_ahead_def is_waiting_def drawn_session_def)
  have "getQueuePosition rec w' = getQueuePosition rec w + 1"
    using ahead assms(1) count_map_put_fresh [of ws_sessionId ?new "wr_sessions w"] sess
    by (simp add: getQueuePosition_def get_session_def drawn_session_def)
  moreover have "getQueuePosition ?new w' < getQueuePosition rec w'"
  proof -
    have sub: "is_ahead other ?new \<Longrightarrow> is_ahead other rec" for other
      using ahead by (auto simp: is_ahead_def is_waiting_def)
    have "?new \<in> set (wr_sessions w')"
      using sess find_map_put [of ws_sessionId "ws_sessionId ?new" ?new "wr_sessions w"]
      by (metis find_row_SomeD)
    then have "count_where (\<lambda>other. is_ahead other ?new) (wr_sessions w') <
        count_where (\<lambda>other. is_ahead other rec) (wr_sessions w')"
      using sub ahead
    proof (induction "wr_sessions w'" arbitrary: w')
      case Nil
      then show ?case by simp
    next
      case (Cons x xs)
      have self: "\<not> is_ahead ?new ?new" by (simp add: is_ahead_def)
      have mono: "count_where (\<lambda>other. is_ahead other ?new) xs \<le> count_where (\<lambda>other. is_ahead other rec) xs"
        using Cons.prems(2) by (rule count_where_mono)
      show ?case
      proof (cases "x = ?new")
        case True
        then show ?thesis using Cons.hyps(2) [symmetric] mono self ahead by simp
      next
        case False
        then have "?new \<in> set (wr_sessions (w'\<lparr>wr_sessions := xs\<rparr>))"
          using Cons.prems(1) Cons.hyps(2) [symmetric] by simp
        then show ?thesis
          using Cons.hyps(1) [of "w'\<lparr>wr_sessions := xs\<rparr>"] Cons.prems(2,3) Cons.hyps(2) [symmetric]
          by (auto simp del: drawn_session_def)
      qed
    qed
    then show ?thesis by (simp add: getQueuePosition_def)
  qed
  moreover have "pos = Some (getQueuePosition ?new w')"
    using resp \<open>req\<close> by (simp add: toPollResponse_def Let_def drawn_session_def)
  ultimately show ?thesis by blast
qed

section \<open>An expired token\<close>

text \<open>
  What a tab with a purchase under way does, with the network working, and what other customers
  do in between.  Leaving the page of the waiting room is part of its visit.
\<close>

datatype tab_visit = VISIT_SEATS time room_draw | VISIT_WAITING time room_draw | OTHERS room_call

datatype visit_result = SeatsPage page_access | WaitingPage hook_status | OthersDone room_result

fun run_visit :: "room_env \<Rightarrow> id \<Rightarrow> tab_visit \<Rightarrow> room \<times> tab \<Rightarrow> (room \<times> tab) \<times> visit_result" where
  "run_visit env c (VISIT_SEATS now draw) s =
     (let (s', r) = open_seats_page now draw Arrives s in (s', SeatsPage r))"
| "run_visit env c (VISIT_WAITING now draw) s =
     (let s' = open_waiting_page env now draw Arrives False c s
      in (leave_waiting_page s', WaitingPage (hk_status (snd (snd s')))))"
| "run_visit env c (OTHERS x) s =
     (let (w, r) = run_room_call env x (fst s) in ((w, snd s), OthersDone r))"

fun visit_after :: "id \<Rightarrow> time \<Rightarrow> tab_visit \<Rightarrow> bool" where
  "visit_after sid e (VISIT_SEATS now draw) \<longleftrightarrow> e < now"
| "visit_after sid e (VISIT_WAITING now draw) \<longleftrightarrow> e < now"
| "visit_after sid e (OTHERS x) \<longleftrightarrow> draws_none_of [sid] x"

definition tab_stuck :: "id \<Rightarrow> waiting_session \<Rightarrow> time \<Rightarrow> room \<times> tab \<Rightarrow> bool" where
  "tab_stuck sid rec e s \<longleftrightarrow>
     get_session sid (fst s) = Some rec \<and> tb_session (snd s) = Some sid \<and>
     tb_pendingOrder (snd s) = None \<and> tb_intent (snd s) \<and>
     (case tb_token (snd s) of Some (token, expires) \<Rightarrow> expires \<le> e | None \<Rightarrow> True)"

definition expired_with :: "id \<Rightarrow> id \<Rightarrow> waiting_session \<Rightarrow> time \<Rightarrow> bool" where
  "expired_with sid c rec e \<longleftrightarrow>
     session_ok rec \<and> ws_admitted rec \<and> ws_sessionId rec = sid \<and> ws_concertId rec = c \<and> sid \<noteq> [] \<and>
     ws_tokenExpiresAt rec = Some e"

lemma expired_answer:
  "expired_with sid c rec e \<Longrightarrow>
   \<exists>token. token \<noteq> [] \<and> toPollResponse now rec w = Admitted (ws_required rec) token (Some e)"
  by (auto simp: expired_with_def session_ok_def toPollResponse_def Let_def split: option.splits)

lemma expired_poll:
  assumes "expired_with sid c rec e" and "get_session sid w = Some rec"
  shows "\<exists>w' token. token \<noteq> [] \<and>
    pollWaitingRoom now draw sid w = (w', Some (Admitted (ws_required rec) token (Some e))) \<and>
    get_session sid w' = Some rec"
proof -
  have "polled_session now draw rec = rec" "ws_sessionId rec = sid"
    using assms(1) by (simp_all add: expired_with_def polled_session_def)
  then show ?thesis
    using assms(2) expired_answer [OF assms(1)] by (simp add: poll_eq)
qed

lemma expired_token_gone:
  assumes "case tb_token t of Some (token, expires) \<Rightarrow> expires \<le> e | None \<Rightarrow> True" and "e < now"
  shows "readAdmittedTokenRecord now t = (t\<lparr>tb_token := None\<rparr>, None)"
  using assms by (auto simp: readAdmittedTokenRecord_def split: option.splits)

lemma stuck_seats:
  assumes "expired_with sid c rec e" and "tab_stuck sid rec e (w, t)" and "e < now"
  shows "\<exists>w' t'. open_seats_page now draw Arrives (w, t) = ((w', t'), ToWaitingRoom) \<and> tab_stuck sid rec e (w', t')"
proof -
  have t: "tb_session t = Some sid" "tb_pendingOrder t = None" "tb_intent t" "get_session sid w = Some rec"
    "case tb_token t of Some (token, expires) \<Rightarrow> expires \<le> e | None \<Rightarrow> True"
    using assms(2) by (simp_all add: tab_stuck_def)
  have gone: "readAdmittedTokenRecord now t = (t\<lparr>tb_token := None\<rparr>, None)"
    using expired_token_gone [OF t(5) assms(3)] .
  obtain w' token where poll: "token \<noteq> []" "get_session sid w' = Some rec"
      "pollWaitingRoom now draw sid w = (w', Some (Admitted (ws_required rec) token (Some e)))"
    using expired_poll [OF assms(1) t(4), of now draw] by blast
  have sid: "sid \<noteq> []" using assms(1) by (simp add: expired_with_def)
  have req: "requestPurchaseAccess now draw Arrives True (w, t) =
      ((w', t\<lparr>tb_token := Some (token, e)\<rparr>), Inr (Granted (Some token)))"
    using gone poll t(1) sid
    by (simp add: requestPurchaseAccess_def readAdmittedToken_def pollExistingSession_def
        fetch_poll_def admitted_token_def storeAdmittedToken_def)
  have "checkToken now (t\<lparr>tb_token := Some (token, e)\<rparr>) = (t\<lparr>tb_token := None\<rparr>, ToWaitingRoom)"
    using t(2) assms(3)
    by (simp add: checkToken_def getAdmittedTokenRemainingMs_def readAdmittedTokenRecord_def)
  then have "open_seats_page now draw Arrives (w, t) = ((w', t\<lparr>tb_token := None\<rparr>), ToWaitingRoom)"
    using t(2,3) req by (simp add: open_seats_page_def)
  then show ?thesis using t poll(2) by (simp add: tab_stuck_def)
qed

lemma stuck_waiting:
  assumes "expired_with sid c rec e" and "tab_stuck sid rec e (w, t)"
  shows "\<exists>w' t' h'. open_waiting_page env now draw Arrives False c (w, t) = (w', t', h') \<and>
    hk_status h' = HookAdmitted \<and> tab_stuck sid rec e (w', t')"
proof -
  have t: "tb_session t = Some sid" "tb_pendingOrder t = None" "get_session sid w = Some rec"
    using assms(2) by (simp_all add: tab_stuck_def)
  have rec: "ws_concertId rec = c" "ws_sessionId rec = sid" "sid \<noteq> []"
    using assms(1) by (simp_all add: expired_with_def)
  obtain token where token: "token \<noteq> []"
      "toPollResponse now rec w = Admitted (ws_required rec) token (Some e)"
    using expired_answer [OF assms(1), of now w] by blast
  have "joinWaitingRoom env now draw c (Some sid) w = (w, (sid, Admitted (ws_required rec) token (Some e)))"
    using t(3) rec token by (simp add: joinWaitingRoom_def)
  then show ?thesis
    using t token(1)
    by (simp add: open_waiting_page_def joinQueue_def joined_def handleAdmitted_def admitted_token_def
        setPurchaseIntent_def storeAdmittedToken_def show_wait_def fresh_hook_def tab_stuck_def Let_def)
qed

lemma stuck_others:
  assumes "expired_with sid c rec e" and "tab_stuck sid rec e (w, t)" and "draws_none_of [sid] x"
  shows "tab_stuck sid rec e (fst (run_room_call env x w), t)"
proof -
  have "known_as sid rec w" using assms(2) by (auto simp: known_as_def tab_stuck_def)
  then have "known_as sid rec (fst (run_room_call env x w))" using known_as_step assms(3) by blast
  then show ?thesis
    using assms(1,2) by (auto simp: known_as_def evolves_def tab_stuck_def expired_with_def)
qed

fun stuck_result :: "visit_result \<Rightarrow> bool" where
  "stuck_result (SeatsPage r) \<longleftrightarrow> r = ToWaitingRoom"
| "stuck_result (WaitingPage h) \<longleftrightarrow> h = HookAdmitted"
| "stuck_result (OthersDone r) \<longleftrightarrow> True"

lemma stuck_visit:
  assumes "expired_with sid c rec e" and "tab_stuck sid rec e s" and "visit_after sid e x"
  shows "tab_stuck sid rec e (fst (run_visit env c x s)) \<and> stuck_result (snd (run_visit env c x s))"
proof -
  obtain w t where s: "s = (w, t)" by (cases s)
  show ?thesis
  proof (cases x)
    case (VISIT_SEATS now draw)
    then show ?thesis
      using stuck_seats [OF assms(1) assms(2) [unfolded s], of now draw] assms(3) by (auto simp: s)
  next
    case (VISIT_WAITING now draw)
    then show ?thesis
      using stuck_waiting [OF assms(1) assms(2) [unfolded s], of env now draw]
      by (auto simp: s leave_waiting_page_def)
  next
    case (OTHERS y)
    then show ?thesis
      using stuck_others [OF assms(1) assms(2) [unfolded s], of y env] assms(3) by (simp add: s split_def Let_def)
  qed
qed

interpretation stuck_tab: op_system "run_visit env c" "visit_after sid e"
    "\<lambda>s. expired_with sid c rec e \<and> tab_stuck sid rec e s" for env c sid rec e
  by unfold_locales (use stuck_visit in blast)


section \<open>Examples\<close>

text \<open>
  With a threshold of one the first customer goes straight in, the second waits 25 seconds.
\<close>

definition demo_env :: room_env where
  "demo_env = \<lparr>WAITING_ROOM_JOIN_THRESHOLD = Some '' 1x'', FORCE_WAITING_ROOM = None\<rparr>"

definition demo_draw :: "string \<Rightarrow> room_draw" where
  "demo_draw s = \<lparr>dr_sessionId = s, dr_token = s @ ''-t'', dr_random = 1 / 2\<rparr>"

definition empty_room :: room where
  "empty_room = \<lparr>wr_sessions = [], wr_joinTimestamps = (\<lambda>_. None)\<rparr>"

definition demo_joins :: "room_call list" where
  "demo_joins = [JOIN 0 (demo_draw ''s1'') ''c'' None, JOIN 1000 (demo_draw ''s2'') ''c'' (Some ''gone'')]"

definition demo_room :: room where
  "demo_room = fst (run_ops (run_room_call demo_env) demo_joins empty_room)"

definition second_session :: waiting_session where
  "second_session =
     \<lparr>ws_sessionId = ''s2'', ws_concertId = ''c'', ws_createdAt = 1000, ws_admitAt = 26000,
      ws_admitted = False, ws_required = True, ws_token = None, ws_tokenExpiresAt = None\<rparr>"

lemma empty_room_ok: "room_ok empty_room"
  by (simp add: room_ok_def empty_room_def unique_key_def)

lemma demo_joins_ok: "x \<in> set demo_joins \<Longrightarrow> fair_draw x"
  by (auto simp: demo_joins_def demo_draw_def)

lemma demo_room_ok: "room_ok demo_room"
  unfolding demo_room_def using empty_room_ok demo_joins_ok by (rule waiting_room.inv_run)

lemma demo_room_second: "get_session ''s2'' demo_room = Some second_session"
  by code_simp


theorem polling_sessions_are_admitted_witness:
  "\<exists>token e. snd (pollWaitingRoom 39000 (demo_draw ''d'') ''s2''
       (fst (run_ops (run_room_call demo_env) [JOIN 2000 (demo_draw ''s3'') ''c'' None] demo_room))) =
     Some (Admitted True token (Some e))"
  using polling_sessions_are_admitted [OF demo_room_ok demo_room_second,
      of "[JOIN 2000 (demo_draw ''s3'') ''c'' None]" 39000 "demo_draw ''d''" demo_env]
  by (simp add: second_session_def demo_draw_def room_bounds)

theorem abandoned_sessions_keep_the_room_closed_witness:
  "snd (isWaitingRoomRequired demo_env 900000000 ''c'' demo_room) \<and>
   (\<exists>pos est. snd (snd (joinWaitingRoom demo_env 900000000 (demo_draw ''s9'') ''c'' None demo_room)) =
      Waiting True (Some pos) (Some est))"
proof -
  have left: "getJoinThreshold demo_env \<le> int (length (left_behind [''s2''] ''c'' demo_room))"
    by code_simp
  obtain w' sid data where "joinWaitingRoom demo_env 900000000 (demo_draw ''s9'') ''c'' None demo_room = (w', (sid, data))"
    by (metis surj_pair)
  then show ?thesis
    using abandoned_sessions_keep_the_room_closed [OF left, of "[]" 900000000 "demo_draw ''s9''" w' sid data]
    by simp
qed

theorem late_joiner_overtakes_witness:
  "getQueuePosition second_session
     (fst (joinWaitingRoom demo_env 1500 \<lparr>dr_sessionId = ''s3'', dr_token = ''t'', dr_random = 0\<rparr> ''c'' None demo_room)) =
   getQueuePosition second_session demo_room + 1"
proof -
  let ?d = "\<lparr>dr_sessionId = ''s3'', dr_token = ''t'', dr_random = 0\<rparr>"
  have fresh: "get_session (dr_sessionId ?d) demo_room = None" by code_simp
  have waits: "is_waiting ''c'' second_session" by code_simp
  have "snd (joinWaitingRoom demo_env 1500 ?d ''c'' None demo_room) = (''s3'', Waiting True (Some 1) (Some 12))"
    by code_simp
  then have joins: "joinWaitingRoom demo_env 1500 ?d ''c'' None demo_room =
      (fst (joinWaitingRoom demo_env 1500 ?d ''c'' None demo_room), (''s3'', Waiting True (Some 1) (Some 12)))"
    by (metis prod.collapse)
  have "1500 + randomWaitMs (dr_random ?d) < ws_admitAt second_session" by code_simp
  then show ?thesis using late_joiner_overtakes [OF fresh waits joins] by blast
qed

definition admitted_session :: waiting_session where
  "admitted_session = second_session\<lparr>ws_admitted := True, ws_token := Some ''t'', ws_tokenExpiresAt := Some 330000\<rparr>"


end
