(* ===== verification/Seat_Selection.thy ===== *)
theory Seat_Selection
  imports Seatmap_Service Payment_Gateway
begin

text \<open>
  The page of the seats in the customers' app (\<open>src/src/frontend/customer-web\<close>): how its seat map is
  built (\<open>lib/seatmap-data.server.ts\<close>, \<open>lib/seatmap-data.ts\<close>), how updates of the backend change
  it, and the selection of a customer (\<open>hooks/useSeatMap.ts\<close>, \<open>lib/user-ticket-usage.ts\<close>,
  \<open>lib/checkout-storage.ts\<close>, \<open>lib/concert-backend-mapping.ts\<close>).

  \<^item> The zones that \<open>parseSvgZones\<close> finds in the SVG of the concert are an argument.
  \<^item> A \<open>Map\<close> built from a list of pairs answers with the last pair of a key.
  \<^item> React runs the effects of a state change before the next event; they are part of the
    operations here.  The page belongs to one concert.
  \<^item> An update of the backend's polling answer carries no ticket type; in a template string the
    missing value reads \<open>undefined\<close>.
\<close>

section \<open>Data of the page\<close>

record client_zone =
  cz_zoneId :: id
  cz_zoneName :: string
  cz_availableCount :: int
  cz_reservedCount :: int
  cz_soldCount :: int
  cz_status :: ZoneStatus

record client_ticket_type =
  ct_id :: id
  ct_name :: string
  ct_price :: int
  ct_zones :: "client_zone list"
  ct_maxPerUser :: int
  ct_totalQty :: int
  ct_soldQty :: int
  ct_reservedQty :: int

record seat_map_data =
  sd_concertId :: id
  sd_concertName :: string
  sd_venueName :: "string option"
  sd_seatMapUrl :: string
  sd_ticketTypes :: "client_ticket_type list"

record zone_selection =
  zs_ticketTypeId :: id
  zs_zoneId :: id
  zs_ticketTypeName :: string
  zs_zoneName :: string
  zs_quantity :: int
  zs_unitPrice :: int

record zone_update =
  zp_ticketTypeId :: "id option"
  zp_zoneId :: id
  zp_status :: ZoneStatus
  zp_availableCount :: int
  zp_reservedCount :: "int option"
  zp_soldCount :: "int option"

record ticket_type_input =
  ti_id :: id
  ti_name :: string
  ti_price :: int
  ti_maxPerUser :: int
  ti_totalQty :: int
  ti_soldQty :: int
  ti_reservedQty :: int
  ti_availableQty :: "int option"

record parsed_svg_zone =
  pz_zoneId :: id
  pz_zoneName :: string
  pz_ticketTypeName :: string

section \<open>Building the seat map\<close>

definition zoneIdForTicketType :: "id \<Rightarrow> id" where
  "zoneIdForTicketType ticketTypeId = ''zone-'' @ ticketTypeId"

definition deriveZoneStatus :: "int \<Rightarrow> int \<Rightarrow> ZoneStatus" where
  "deriveZoneStatus available reserved =
     (if available \<le> 0 then ZONE_SOLD_OUT
      else if reserved > 0 \<and> available \<le> reserved then ZONE_RESERVED
      else ZONE_AVAILABLE)"

definition lowercase :: "string \<Rightarrow> string" where
  "lowercase s = map lower_char s"

definition normalizeName :: "string \<Rightarrow> string" where
  "normalizeName name = lowercase (trim name)"

definition buildZone :: "ticket_type_input \<Rightarrow> parsed_svg_zone option \<Rightarrow> client_zone" where
  "buildZone ticketType parsedZone =
     (let available =
            (case ti_availableQty ticketType of
               Some n \<Rightarrow> n
             | None \<Rightarrow> max 0 (ti_totalQty ticketType - ti_soldQty ticketType - ti_reservedQty ticketType))
      in \<lparr>cz_zoneId = (case parsedZone of Some z \<Rightarrow> pz_zoneId z | None \<Rightarrow> zoneIdForTicketType (ti_id ticketType)),
          cz_zoneName = (case parsedZone of Some z \<Rightarrow> pz_zoneName z | None \<Rightarrow> ti_name ticketType),
          cz_availableCount = available,
          cz_reservedCount = ti_reservedQty ticketType,
          cz_soldCount = ti_soldQty ticketType,
          cz_status = deriveZoneStatus available (ti_reservedQty ticketType)\<rparr>)"

definition push_zone ::
  "parsed_svg_zone \<Rightarrow> (string \<Rightarrow> parsed_svg_zone list option) \<Rightarrow> string \<Rightarrow> parsed_svg_zone list option" where
  "push_zone zone grouped =
     (let name = normalizeName (pz_ticketTypeName zone)
      in grouped(name \<mapsto> (case grouped name of Some zs \<Rightarrow> zs | None \<Rightarrow> []) @ [zone]))"

definition groupSvgZonesByTicketType ::
  "parsed_svg_zone list \<Rightarrow> string \<Rightarrow> parsed_svg_zone list option" where
  "groupSvgZonesByTicketType zones = fold push_zone zones (\<lambda>_. None)"

definition build_ticket_type ::
  "(string \<Rightarrow> parsed_svg_zone list option) \<Rightarrow> ticket_type_input \<Rightarrow> client_ticket_type" where
  "build_ticket_type grouped ticketType =
     (let parsedZones = (case grouped (normalizeName (ti_name ticketType)) of Some zs \<Rightarrow> zs | None \<Rightarrow> []);
          zonesList = (if parsedZones \<noteq> [] then map (\<lambda>pz. buildZone ticketType (Some pz)) parsedZones
                       else [buildZone ticketType None])
      in \<lparr>ct_id = ti_id ticketType, ct_name = ti_name ticketType, ct_price = ti_price ticketType,
          ct_zones = zonesList, ct_maxPerUser = ti_maxPerUser ticketType,
          ct_totalQty = ti_totalQty ticketType, ct_soldQty = ti_soldQty ticketType,
          ct_reservedQty = ti_reservedQty ticketType\<rparr>)"

definition buildSeatMapData ::
  "id \<Rightarrow> string \<Rightarrow> string option \<Rightarrow> string \<Rightarrow> parsed_svg_zone list \<Rightarrow> ticket_type_input list \<Rightarrow>
   seat_map_data option" where
  "buildSeatMapData concertId concertName venueName seatMapUrl svgZones types =
     (if types = [] then None
      else Some \<lparr>sd_concertId = concertId, sd_concertName = concertName, sd_venueName = venueName,
                 sd_seatMapUrl = seatMapUrl,
                 sd_ticketTypes = map (build_ticket_type (groupSvgZonesByTicketType svgZones)) types\<rparr>)"

section \<open>Updates of the availability\<close>

definition zone_key :: "id \<Rightarrow> id \<Rightarrow> string" where
  "zone_key ticketTypeId zone = ticketTypeId @ '':'' @ zone"

definition update_key :: "zone_update \<Rightarrow> string" where
  "update_key u = zone_key (case zp_ticketTypeId u of Some i \<Rightarrow> i | None \<Rightarrow> ''undefined'') (zp_zoneId u)"

definition apply_update :: "zone_update list \<Rightarrow> id \<Rightarrow> client_zone \<Rightarrow> client_zone" where
  "apply_update updates ticketTypeId zone =
     (case List.find (\<lambda>u. update_key u = zone_key ticketTypeId (cz_zoneId zone)) (rev updates) of
        None \<Rightarrow> zone
      | Some u \<Rightarrow>
          zone\<lparr>cz_status := zp_status u,
               cz_availableCount := zp_availableCount u,
               cz_reservedCount := (case zp_reservedCount u of Some n \<Rightarrow> n | None \<Rightarrow> cz_reservedCount zone),
               cz_soldCount := (case zp_soldCount u of Some n \<Rightarrow> n | None \<Rightarrow> cz_soldCount zone)\<rparr>)"

definition applyZoneAvailabilityUpdates :: "zone_update list \<Rightarrow> seat_map_data \<Rightarrow> seat_map_data" where
  "applyZoneAvailabilityUpdates updates data =
     (if updates = [] then data
      else data\<lparr>sd_ticketTypes :=
             map (\<lambda>tt. tt\<lparr>ct_zones := map (apply_update updates (ct_id tt)) (ct_zones tt)\<rparr>)
               (sd_ticketTypes data)\<rparr>)"

text \<open>What the page makes of a message of the backend's socket, and of a polling answer.\<close>

definition mapSocketZoneUpdates :: "zone_update_payload list \<Rightarrow> zone_update list" where
  "mapSocketZoneUpdates updates =
     map (\<lambda>u. \<lparr>zp_ticketTypeId = Some (zu_ticketTypeId u), zp_zoneId = zu_zoneId u,
               zp_status = zu_newStatus u, zp_availableCount = zu_availableCount u,
               zp_reservedCount = None, zp_soldCount = None\<rparr>) updates"

definition polled_updates :: "zone_availability list \<Rightarrow> zone_update list" where
  "polled_updates zones =
     map (\<lambda>z. \<lparr>zp_ticketTypeId = None, zp_zoneId = zoneId z, zp_status = zoneStatus z,
               zp_availableCount = availableCount z, zp_reservedCount = Some (reservedCount z),
               zp_soldCount = Some (soldCount z)\<rparr>) zones"

definition collectZoneAvailabilityUpdates :: "seat_map_data \<Rightarrow> zone_update list" where
  "collectZoneAvailabilityUpdates data =
     concat (map (\<lambda>tt. map (\<lambda>z. \<lparr>zp_ticketTypeId = Some (ct_id tt), zp_zoneId = cz_zoneId z,
               zp_status = cz_status z, zp_availableCount = cz_availableCount z,
               zp_reservedCount = Some (cz_reservedCount z), zp_soldCount = Some (cz_soldCount z)\<rparr>)
             (ct_zones tt)) (sd_ticketTypes data))"

section \<open>What the customer holds already\<close>

record ticket_usage =
  us_paidQty :: int
  us_reservedQty :: int

record client_order =
  co_concertId :: id
  co_status :: OrderStatus
  co_items :: "(id \<times> int) list" \<comment> \<open>\<open>ticketTypeId\<close>, \<open>quantity\<close>\<close>

type_synonym usage_map = "id \<Rightarrow> ticket_usage option"

definition resolveBackendConcertId :: "(id \<Rightarrow> id option) \<Rightarrow> id \<Rightarrow> id" where
  "resolveBackendConcertId concertMap frontendConcertId =
     (case concertMap frontendConcertId of Some i \<Rightarrow> i | None \<Rightarrow> frontendConcertId)"

definition add_usage :: "OrderStatus \<Rightarrow> id \<times> int \<Rightarrow> usage_map \<Rightarrow> usage_map" where
  "add_usage status item m =
     (let current = (case m (fst item) of
            Some c \<Rightarrow> c | None \<Rightarrow> \<lparr>us_paidQty = 0, us_reservedQty = 0\<rparr>)
      in m(fst item \<mapsto>
            (if status = PAID then current\<lparr>us_paidQty := us_paidQty current + snd item\<rparr>
             else current\<lparr>us_reservedQty := us_reservedQty current + snd item\<rparr>)))"

definition accumulateOrderUsage :: "id \<Rightarrow> client_order \<Rightarrow> usage_map \<Rightarrow> usage_map" where
  "accumulateOrderUsage backendConcertId ord m =
     (if co_concertId ord \<noteq> backendConcertId then m
      else if co_status ord \<notin> {PAID, PENDING_PAYMENT} then m
      else fold (add_usage (co_status ord)) (co_items ord) m)"

text \<open>The answers are the first pages of at most 100 orders of each status.\<close>

definition fetchUserTicketUsage ::
  "(id \<Rightarrow> id option) \<Rightarrow> id \<Rightarrow> client_order list \<Rightarrow> client_order list \<Rightarrow> usage_map" where
  "fetchUserTicketUsage concertMap frontendConcertId paidOrders pendingOrders =
     (let backendConcertId = resolveBackendConcertId concertMap frontendConcertId
      in fold (accumulateOrderUsage backendConcertId) (paidOrders @ pendingOrders) (\<lambda>_. None))"

definition remainingTicketAllowance :: "id \<Rightarrow> int \<Rightarrow> usage_map \<Rightarrow> int" where
  "remainingTicketAllowance ticketTypeId maxPerUser usage =
     (let used = (case usage ticketTypeId of
            Some c \<Rightarrow> us_paidQty c + us_reservedQty c | None \<Rightarrow> 0)
      in max 0 (maxPerUser - used))"

section \<open>The page\<close>

datatype limit_warning =
    ZoneSoldOut | LimitReached int | OnlyMoreAllowed int | MaxPerUser int | OnlyLeft int

datatype availability_notice = JustSoldOut | QuantityChanged

record seat_page =
  sp_data :: "seat_map_data option"
  sp_selection :: "zone_selection option"
  sp_ticketTypeFilter :: string
  sp_zoneFilter :: string
  sp_availabilityFilter :: "ZoneStatus option" \<comment> \<open>\<open>None\<close> is \<open>all\<close>\<close>
  sp_limitWarning :: "limit_warning option"
  sp_availabilityNotice :: "availability_notice option"
  sp_userTicketUsage :: usage_map
  sp_isAuthenticated :: bool
  sp_restored :: bool
  sp_saved :: "zone_selection option" \<comment> \<open>\<open>zone-selection:{concertId}\<close> of \<open>sessionStorage\<close>\<close>

definition ALL_TICKET_TYPES :: string where "ALL_TICKET_TYPES = ''all''"
definition ALL_ZONES :: string where "ALL_ZONES = ''all''"

definition zones_of :: "seat_map_data option \<Rightarrow> (client_ticket_type \<times> client_zone) list" where
  "zones_of data =
     (case data of
        None \<Rightarrow> []
      | Some d \<Rightarrow> concat (map (\<lambda>tt. map (\<lambda>z. (tt, z)) (ct_zones tt)) (sd_ticketTypes d)))"

definition entry_key :: "client_ticket_type \<times> client_zone \<Rightarrow> string" where
  "entry_key e = zone_key (ct_id (fst e)) (cz_zoneId (snd e))"

definition zoneLookup :: "seat_map_data option \<Rightarrow> string \<Rightarrow> (client_ticket_type \<times> client_zone) option" where
  "zoneLookup data k = List.find (\<lambda>e. entry_key e = k) (rev (zones_of data))"

definition selection_key :: "zone_selection \<Rightarrow> string" where
  "selection_key s = zone_key (zs_ticketTypeId s) (zs_zoneId s)"

definition filteredZones :: "seat_page \<Rightarrow> (client_ticket_type \<times> client_zone) list" where
  "filteredZones p =
     filter (\<lambda>(tt, z).
         (sp_ticketTypeFilter p = ALL_TICKET_TYPES \<or> ct_id tt = sp_ticketTypeFilter p) \<and>
         (sp_zoneFilter p = ALL_ZONES \<or> cz_zoneId z = sp_zoneFilter p) \<and>
         (case sp_availabilityFilter p of None \<Rightarrow> True | Some st \<Rightarrow> cz_status z = st))
       (zones_of (sp_data p))"

definition is_selected :: "id \<Rightarrow> id \<Rightarrow> seat_page \<Rightarrow> bool" where
  "is_selected ticketTypeId zone p =
     (case sp_selection p of
        Some s \<Rightarrow> zs_ticketTypeId s = ticketTypeId \<and> zs_zoneId s = zone | None \<Rightarrow> False)"

subsection \<open>Effects\<close>

definition restore_selection :: "seat_page \<Rightarrow> seat_page" where
  "restore_selection p =
     (if sp_data p = None \<or> sp_restored p then p
      else case sp_saved p of
        None \<Rightarrow> p\<lparr>sp_restored := True\<rparr>
      | Some saved \<Rightarrow>
          (case zoneLookup (sp_data p) (selection_key saved) of
             None \<Rightarrow> p\<lparr>sp_restored := True\<rparr>
           | Some (tt, z) \<Rightarrow>
               if cz_status z = ZONE_AVAILABLE \<and> cz_availableCount z \<ge> zs_quantity saved
               then p\<lparr>sp_selection := Some saved, sp_restored := True\<rparr>
               else p\<lparr>sp_restored := True\<rparr>))"

definition save_selection :: "seat_page \<Rightarrow> seat_page" where
  "save_selection p =
     (case sp_selection p of None \<Rightarrow> p | Some s \<Rightarrow> p\<lparr>sp_saved := Some s\<rparr>)"

definition drop_filtered :: "seat_page \<Rightarrow> seat_page" where
  "drop_filtered p =
     (case sp_selection p of
        None \<Rightarrow> p
      | Some s \<Rightarrow>
          if \<exists>(tt, z) \<in> set (filteredZones p). ct_id tt = zs_ticketTypeId s \<and> cz_zoneId z = zs_zoneId s
          then p else p\<lparr>sp_selection := None\<rparr>)"

definition run_effects :: "seat_page \<Rightarrow> seat_page" where
  "run_effects p = drop_filtered (save_selection (restore_selection p))"

subsection \<open>Operations\<close>

definition load_page :: "seat_map_data \<Rightarrow> seat_page \<Rightarrow> seat_page" where
  "load_page data p =
     p\<lparr>sp_data := Some data, sp_ticketTypeFilter := ALL_TICKET_TYPES, sp_zoneFilter := ALL_ZONES,
       sp_availabilityFilter := None, sp_restored := False\<rparr>"

definition applyUpdatesAndValidateSelection :: "zone_update list \<Rightarrow> seat_page \<Rightarrow> seat_page" where
  "applyUpdatesAndValidateSelection updates p =
     (if updates = [] then p
      else let p' = p\<lparr>sp_data := map_option (applyZoneAvailabilityUpdates updates) (sp_data p)\<rparr>
           in case sp_selection p of
                None \<Rightarrow> p'
              | Some s \<Rightarrow>
                  (case List.find (\<lambda>u. zp_ticketTypeId u = Some (zs_ticketTypeId s) \<and> zp_zoneId u = zs_zoneId s)
                          updates of
                     None \<Rightarrow> p'
                   | Some current \<Rightarrow>
                       if zp_status current = ZONE_SOLD_OUT \<or> zp_availableCount current < zs_quantity s
                       then p'\<lparr>sp_selection := None,
                               sp_availabilityNotice :=
                                 Some (if zp_status current = ZONE_SOLD_OUT then JustSoldOut
                                       else QuantityChanged)\<rparr>
                       else p'))"

definition getRemainingAllowance :: "id \<Rightarrow> int \<Rightarrow> seat_page \<Rightarrow> int" where
  "getRemainingAllowance ticketTypeId maxPerUser p =
     (if \<not> sp_isAuthenticated p then maxPerUser
      else remainingTicketAllowance ticketTypeId maxPerUser (sp_userTicketUsage p))"

definition selectZone :: "id \<Rightarrow> id \<Rightarrow> seat_page \<Rightarrow> seat_page" where
  "selectZone ticketTypeId zone p =
     (case zoneLookup (sp_data p) (zone_key ticketTypeId zone) of
        None \<Rightarrow> p
      | Some (tt, z) \<Rightarrow>
          if cz_status z = ZONE_SOLD_OUT then p\<lparr>sp_limitWarning := Some ZoneSoldOut\<rparr>
          else if getRemainingAllowance (ct_id tt) (ct_maxPerUser tt) p \<le> 0
          then p\<lparr>sp_limitWarning := Some (LimitReached (ct_maxPerUser tt))\<rparr>
          else let p' = p\<lparr>sp_limitWarning := None, sp_availabilityNotice := None\<rparr>
               in if is_selected ticketTypeId zone p then p'\<lparr>sp_selection := None\<rparr>
                  else p'\<lparr>sp_selection := Some
                         \<lparr>zs_ticketTypeId = ct_id tt, zs_zoneId = cz_zoneId z,
                          zs_ticketTypeName = ct_name tt, zs_zoneName = cz_zoneName z,
                          zs_quantity = 0, zs_unitPrice = ct_price tt\<rparr>\<rparr>)"

definition setQuantity :: "int \<Rightarrow> seat_page \<Rightarrow> seat_page" where
  "setQuantity quantity p =
     (case sp_selection p of
        None \<Rightarrow> p
      | Some s \<Rightarrow>
          (case zoneLookup (sp_data p) (selection_key s) of
             None \<Rightarrow> p
           | Some (tt, z) \<Rightarrow>
               let allowance = getRemainingAllowance (ct_id tt) (ct_maxPerUser tt) p;
                   cap = min (cz_availableCount z) (min (ct_maxPerUser tt) allowance);
                   nextQuantity = max 0 (min quantity cap)
               in if allowance \<le> 0 then p\<lparr>sp_limitWarning := Some (LimitReached (ct_maxPerUser tt))\<rparr>
                  else if nextQuantity > allowance
                  then p\<lparr>sp_limitWarning := Some (OnlyMoreAllowed allowance)\<rparr>
                  else if nextQuantity > ct_maxPerUser tt
                  then p\<lparr>sp_limitWarning := Some (MaxPerUser (ct_maxPerUser tt))\<rparr>
                  else if nextQuantity > cz_availableCount z
                  then p\<lparr>sp_limitWarning := Some (OnlyLeft (cz_availableCount z))\<rparr>
                  else p\<lparr>sp_limitWarning := None, sp_selection := Some (s\<lparr>zs_quantity := nextQuantity\<rparr>)\<rparr>))"

datatype seat_op =
    LOADED seat_map_data
  | USAGE_FETCHED bool usage_map
  | UPDATES "zone_update list"
  | SELECT_ZONE id id
  | SET_QUANTITY int
  | SET_TICKET_TYPE_FILTER string
  | SET_ZONE_FILTER string
  | SET_AVAILABILITY_FILTER "ZoneStatus option"

fun seat_event :: "seat_op \<Rightarrow> seat_page \<Rightarrow> seat_page" where
  "seat_event (LOADED data) p = load_page data p"
| "seat_event (USAGE_FETCHED auth usage) p = p\<lparr>sp_isAuthenticated := auth, sp_userTicketUsage := usage\<rparr>"
| "seat_event (UPDATES us) p = applyUpdatesAndValidateSelection us p"
| "seat_event (SELECT_ZONE tt z) p = selectZone tt z p"
| "seat_event (SET_QUANTITY n) p = setQuantity n p"
| "seat_event (SET_TICKET_TYPE_FILTER f) p = p\<lparr>sp_ticketTypeFilter := f\<rparr>"
| "seat_event (SET_ZONE_FILTER f) p = p\<lparr>sp_zoneFilter := f\<rparr>"
| "seat_event (SET_AVAILABILITY_FILTER f) p = p\<lparr>sp_availabilityFilter := f\<rparr>"

definition run_seat_op :: "seat_op \<Rightarrow> seat_page \<Rightarrow> seat_page \<times> zone_selection option" where
  "run_seat_op x p = (let p' = run_effects (seat_event x p) in (p', sp_selection p'))"

text \<open>What the page shows beside the map.\<close>

definition totalPrice :: "seat_page \<Rightarrow> int" where
  "totalPrice p = (case sp_selection p of None \<Rightarrow> 0 | Some s \<Rightarrow> zs_unitPrice s * zs_quantity s)"

definition availableTotal :: "client_ticket_type \<Rightarrow> int" where
  "availableTotal tt = sum_list (map cz_availableCount (ct_zones tt))"

definition maxQuantityForSelection :: "seat_page \<Rightarrow> int" where
  "maxQuantityForSelection p =
     (case sp_selection p of
        None \<Rightarrow> 1
      | Some s \<Rightarrow>
          (case zoneLookup (sp_data p) (selection_key s) of
             None \<Rightarrow> 1
           | Some (tt, z) \<Rightarrow>
               min (cz_availableCount z)
                 (min (ct_maxPerUser tt) (getRemainingAllowance (ct_id tt) (ct_maxPerUser tt) p))))"

section \<open>From the selection to the order\<close>

definition mapZoneSelectionToOrderItems ::
  "zone_selection \<Rightarrow> (id \<times> string) list \<Rightarrow> exn + (id \<times> int) list" where
  "mapZoneSelectionToOrderItems s backendTicketTypes =
     (case List.find (\<lambda>(i, name). i = zs_ticketTypeId s) (rev backendTicketTypes) of
        Some (i, name) \<Rightarrow> Inr [(i, zs_quantity s)]
      | None \<Rightarrow>
          (case List.find (\<lambda>(i, name). lowercase name = lowercase (zs_ticketTypeName s))
                  (rev backendTicketTypes) of
             Some (i, name) \<Rightarrow> Inr [(i, zs_quantity s)]
           | None \<Rightarrow> Inl (PlainError ''ticket type not on the backend'')))"

end
