(* ===== verification/Seat_Properties.thy ===== *)
theory Seat_Properties
  imports Seat_Selection
begin

text \<open>
  What the page of the seats guarantees of a selection, and what its seat map shows: selections stay
  available as far as updates reach the page, the backend's updates never do, and zones that share
  a ticket type are counted more than once.
\<close>

section \<open>Keys\<close>

lemma zone_key_inject:
  assumes "zone_key a b = zone_key c d" and "CHR '':'' \<notin> set a" and "CHR '':'' \<notin> set c"
  shows "a = c \<and> b = d"
proof -
  have "takeWhile (\<lambda>x. x \<noteq> CHR '':'') (s @ CHR '':'' # r) = s" if "CHR '':'' \<notin> set s" for s r
    using that by (induction s) auto
  then have "a = c"
    using assms unfolding zone_key_def by (metis append_Cons append_Nil)
  then show ?thesis using assms(1) by (simp add: zone_key_def)
qed

lemma find_mapped: "List.find P (map f xs) = map_option f (List.find (\<lambda>x. P (f x)) xs)"
  by (induction xs) auto

lemma find_SomeD: "List.find P xs = Some x \<Longrightarrow> P x \<and> x \<in> set xs"
  by (auto simp: find_Some_iff)

lemma find_None_all: "List.find P xs = None \<longleftrightarrow> (\<forall>x \<in> set xs. \<not> P x)"
  by (auto simp: find_None_iff)

lemma zoneLookup_SomeD: "zoneLookup data k = Some e \<Longrightarrow> entry_key e = k \<and> e \<in> set (zones_of data)"
  unfolding zoneLookup_def by (auto dest: find_SomeD)

section \<open>Selections stay available\<close>

definition updated_entry ::
  "zone_update list \<Rightarrow> client_ticket_type \<times> client_zone \<Rightarrow> client_ticket_type \<times> client_zone" where
  "updated_entry us e =
     ((fst e)\<lparr>ct_zones := map (apply_update us (ct_id (fst e))) (ct_zones (fst e))\<rparr>,
      apply_update us (ct_id (fst e)) (snd e))"

lemma seat_update_id [simp]: "cz_zoneId (apply_update us i z) = cz_zoneId z"
  by (simp add: apply_update_def split: option.splits)

lemma entry_key_updated [simp]: "entry_key (updated_entry us e) = entry_key e"
  by (simp add: entry_key_def updated_entry_def)

lemma zones_of_updated:
  "zones_of (map_option (applyZoneAvailabilityUpdates us) data) =
     (if us = [] then zones_of data else map (updated_entry us) (zones_of data))"
  by (cases data)
    (auto simp: zones_of_def applyZoneAvailabilityUpdates_def updated_entry_def map_concat comp_def)

lemma zoneLookup_updated:
  "us \<noteq> [] \<Longrightarrow> zoneLookup (map_option (applyZoneAvailabilityUpdates us) data) k =
     map_option (updated_entry us) (zoneLookup data k)"
  by (simp add: zoneLookup_def zones_of_updated rev_map find_mapped)

text \<open>Identifiers of ticket types are UUIDs: no colon, and not the word of a missing value.\<close>

definition plain_id :: "id \<Rightarrow> bool" where
  "plain_id i \<longleftrightarrow> CHR '':'' \<notin> set i \<and> i \<noteq> ''undefined''"

definition selection_ok :: "seat_map_data option \<Rightarrow> zone_selection \<Rightarrow> bool" where
  "selection_ok data s \<longleftrightarrow> plain_id (zs_ticketTypeId s) \<and>
     (case zoneLookup data (selection_key s) of
        Some (tt, z) \<Rightarrow>
          ct_id tt = zs_ticketTypeId s \<and> cz_zoneId z = zs_zoneId s \<and>
          0 \<le> zs_quantity s \<and> zs_quantity s \<le> max 0 (cz_availableCount z)
      | None \<Rightarrow> False)"

definition page_ok :: "seat_page \<Rightarrow> bool" where
  "page_ok p \<longleftrightarrow>
     list_all (\<lambda>e. plain_id (ct_id (fst e))) (zones_of (sp_data p)) \<and>
     pred_option (selection_ok (sp_data p)) (sp_selection p) \<and>
     pred_option (\<lambda>s. plain_id (zs_ticketTypeId s) \<and> 0 \<le> zs_quantity s) (sp_saved p)"

text \<open>An update names its zone once, and the map is loaded once.\<close>

fun fair_update :: "seat_op \<Rightarrow> bool" where
  "fair_update (UPDATES us) \<longleftrightarrow>
     distinct (map update_key us) \<and>
     list_all (\<lambda>u. case zp_ticketTypeId u of Some i \<Rightarrow> plain_id i | None \<Rightarrow> True) us"
| "fair_update (LOADED data) \<longleftrightarrow> False"
| "fair_update _ \<longleftrightarrow> True"

lemma selection_okD:
  assumes "selection_ok data s"
  obtains tt z where "zoneLookup data (selection_key s) = Some (tt, z)" "ct_id tt = zs_ticketTypeId s"
    "cz_zoneId z = zs_zoneId s" "0 \<le> zs_quantity s" "zs_quantity s \<le> max 0 (cz_availableCount z)"
    "plain_id (zs_ticketTypeId s)"
  using assms by (auto simp: selection_ok_def split: option.splits)

lemma restore_ok: "page_ok p \<Longrightarrow> page_ok (restore_selection p)"
proof -
  assume p: "page_ok p"
  show ?thesis
  proof (cases "sp_data p = None \<or> sp_restored p \<or> sp_saved p = None")
    case True
    then have "restore_selection p = p \<or> restore_selection p = p\<lparr>sp_restored := True\<rparr>"
      by (auto simp: restore_selection_def)
    moreover have "page_ok (p\<lparr>sp_restored := True\<rparr>)" using p by (simp add: page_ok_def)
    ultimately show ?thesis using p by metis
  next
    case False
    then obtain s where s: "sp_saved p = Some s" "plain_id (zs_ticketTypeId s)" "0 \<le> zs_quantity s"
      using p by (auto simp: page_ok_def)
    have sel: "selection_ok (sp_data p) s"
      if look: "zoneLookup (sp_data p) (selection_key s) = Some (tt, z)"
        and q: "zs_quantity s \<le> cz_availableCount z" for tt z
    proof -
      have "entry_key (tt, z) = selection_key s" "(tt, z) \<in> set (zones_of (sp_data p))"
        using zoneLookup_SomeD [OF look] by auto
      moreover from this have "plain_id (ct_id tt)" using p by (auto simp: page_ok_def list_all_iff)
      ultimately have "ct_id tt = zs_ticketTypeId s \<and> cz_zoneId z = zs_zoneId s"
        using zone_key_inject [of "ct_id tt" "cz_zoneId z" "zs_ticketTypeId s" "zs_zoneId s"] s(2)
        by (simp add: entry_key_def selection_key_def plain_id_def)
      then show ?thesis using look q s by (simp add: selection_ok_def)
    qed
    show ?thesis
    proof (cases "zoneLookup (sp_data p) (selection_key s)")
      case None
      then show ?thesis using p s False by (auto simp: restore_selection_def page_ok_def)
    next
      case (Some e)
      then show ?thesis
        using p s False sel [of "fst e" "snd e"]
        by (cases e) (auto simp: restore_selection_def page_ok_def)
    qed
  qed
qed

lemma save_ok: "page_ok p \<Longrightarrow> page_ok (save_selection p)"
  by (auto simp: save_selection_def page_ok_def elim!: selection_okD split: option.splits)

lemma drop_ok: "page_ok p \<Longrightarrow> page_ok (drop_filtered p)"
  by (auto simp: drop_filtered_def page_ok_def split: option.splits)

lemma effects_ok: "page_ok p \<Longrightarrow> page_ok (run_effects p)"
  by (simp add: run_effects_def restore_ok save_ok drop_ok)

lemma effects_data [simp]: "sp_data (run_effects p) = sp_data p"
  by (simp add: run_effects_def drop_filtered_def save_selection_def restore_selection_def
      split: option.splits prod.splits)

lemma updates_ok:
  assumes "page_ok p" and "fair_update (UPDATES us)"
  shows "page_ok (applyUpdatesAndValidateSelection us p)"
proof (cases "us = []")
  case True
  then show ?thesis using assms(1) by (simp add: applyUpdatesAndValidateSelection_def)
next
  case False
  let ?data = "map_option (applyZoneAvailabilityUpdates us) (sp_data p)"
  have ids: "list_all (\<lambda>e. plain_id (ct_id (fst e))) (zones_of ?data)"
    using assms(1) by (auto simp: page_ok_def zones_of_updated list_all_iff updated_entry_def)
  show ?thesis
  proof (cases "sp_selection p")
    case None
    then show ?thesis
      using assms(1) ids False by (simp add: applyUpdatesAndValidateSelection_def page_ok_def)
  next
    case (Some s)
    then have sel: "selection_ok (sp_data p) s" using assms(1) by (simp add: page_ok_def)
    then obtain tt z where e: "zoneLookup (sp_data p) (selection_key s) = Some (tt, z)"
        "ct_id tt = zs_ticketTypeId s" "cz_zoneId z = zs_zoneId s" "0 \<le> zs_quantity s"
        "zs_quantity s \<le> max 0 (cz_availableCount z)" "plain_id (zs_ticketTypeId s)"
      by (rule selection_okD)
    have look: "zoneLookup ?data (selection_key s) = Some (updated_entry us (tt, z))"
      using e(1) False by (simp add: zoneLookup_updated)
    have key: "update_key u = selection_key s \<longleftrightarrow>
        zp_ticketTypeId u = Some (zs_ticketTypeId s) \<and> zp_zoneId u = zs_zoneId s" if "u \<in> set us" for u
    proof (cases "zp_ticketTypeId u")
      case None
      have "CHR '':'' \<notin> set ''undefined''" by simp
      then show ?thesis
        using None e(6) zone_key_inject [of "''undefined''" "zp_zoneId u" "zs_ticketTypeId s" "zs_zoneId s"]
        by (auto simp: update_key_def selection_key_def plain_id_def)
    next
      case (Some i)
      then have "plain_id i" using assms(2) that by (auto simp: list_all_iff split: option.splits)
      then show ?thesis
        using Some e(6) zone_key_inject [of i "zp_zoneId u" "zs_ticketTypeId s" "zs_zoneId s"]
        by (auto simp: update_key_def selection_key_def plain_id_def)
    qed
    let ?hit = "\<lambda>u. zp_ticketTypeId u = Some (zs_ticketTypeId s) \<and> zp_zoneId u = zs_zoneId s"
    have skey: "zone_key (ct_id tt) (cz_zoneId z) = selection_key s"
      using e(2,3) by (simp add: selection_key_def)
    show ?thesis
    proof (cases "List.find ?hit us")
      case None
      then have "\<not> update_key u = selection_key s" if "u \<in> set us" for u
        using key that by (auto simp: find_None_all)
      then have "List.find (\<lambda>u. update_key u = selection_key s) (rev us) = None"
        by (simp add: find_None_all)
      then have "apply_update us (ct_id tt) z = z" by (simp add: apply_update_def skey)
      then have "selection_ok ?data s"
        using look e by (simp add: selection_ok_def updated_entry_def)
      then show ?thesis
        using assms(1) ids False Some None by (simp add: applyUpdatesAndValidateSelection_def page_ok_def)
    next
      case (Some u)
      then have u: "?hit u" "u \<in> set us" using find_SomeD [OF Some] by auto
      then have uk: "update_key u = selection_key s" using key by blast
      obtain v where v: "List.find (\<lambda>u. update_key u = selection_key s) (rev us) = Some v"
        using uk u(2) by (cases "List.find (\<lambda>u. update_key u = selection_key s) (rev us)") (auto simp: find_None_all)
      then have "v \<in> set us" "update_key v = update_key u" using find_SomeD [OF v] uk by auto
      then have "v = u"
        using assms(2) u(2) by (auto simp: distinct_map dest: inj_onD)
      then have "cz_availableCount (apply_update us (ct_id tt) z) = zp_availableCount u"
        using v by (simp add: apply_update_def skey)
      then have "selection_ok ?data s" if "\<not> zp_availableCount u < zs_quantity s"
        using look e that by (simp add: selection_ok_def updated_entry_def)
      then show ?thesis
        using assms(1) ids False \<open>sp_selection p = Some s\<close> Some
        by (auto simp: applyUpdatesAndValidateSelection_def page_ok_def Let_def)
    qed
  qed
qed

lemma select_ok: "page_ok p \<Longrightarrow> page_ok (selectZone i j p)"
proof -
  assume p: "page_ok p"
  show ?thesis
  proof (cases "zoneLookup (sp_data p) (zone_key i j)")
    case None
    then show ?thesis using p by (simp add: selectZone_def)
  next
    case (Some e)
    obtain tt z where e: "e = (tt, z)" by (cases e)
    have key: "zone_key (ct_id tt) (cz_zoneId z) = zone_key i j" "(tt, z) \<in> set (zones_of (sp_data p))"
      using zoneLookup_SomeD [OF Some] e by (auto simp: entry_key_def)
    then have "plain_id (ct_id tt)" using p by (auto simp: page_ok_def list_all_iff)
    then show ?thesis
      using p Some e key(1) by (simp add: selectZone_def page_ok_def selection_ok_def selection_key_def Let_def)
  qed
qed

lemma quantity_ok: "page_ok p \<Longrightarrow> page_ok (setQuantity n p)"
proof -
  assume p: "page_ok p"
  show ?thesis
  proof (cases "sp_selection p")
    case None
    then show ?thesis using p by (simp add: setQuantity_def)
  next
    case (Some s)
    then have "selection_ok (sp_data p) s" using p by (simp add: page_ok_def)
    then obtain tt z where e: "zoneLookup (sp_data p) (selection_key s) = Some (tt, z)"
        "ct_id tt = zs_ticketTypeId s" "cz_zoneId z = zs_zoneId s" "plain_id (zs_ticketTypeId s)"
      by (rule selection_okD)
    define q where "q = max 0 (min n (min (cz_availableCount z)
        (min (ct_maxPerUser tt) (getRemainingAllowance (ct_id tt) (ct_maxPerUser tt) p))))"
    have "(\<exists>x. setQuantity n p = p\<lparr>sp_limitWarning := Some x\<rparr>) \<or>
        setQuantity n p = p\<lparr>sp_limitWarning := None, sp_selection := Some (s\<lparr>zs_quantity := q\<rparr>)\<rparr>"
      unfolding setQuantity_def by (auto simp: Some e(1) Let_def q_def [symmetric])
    moreover have "page_ok (p\<lparr>sp_limitWarning := w\<rparr>)" for w using p by (simp add: page_ok_def)
    moreover have "selection_ok (sp_data p) (s\<lparr>zs_quantity := q\<rparr>)"
    proof -
      have "0 \<le> q" "q \<le> max 0 (cz_availableCount z)" unfolding q_def by linarith+
      then show ?thesis using e by (simp add: selection_ok_def selection_key_def)
    qed
    then have "page_ok (p\<lparr>sp_limitWarning := None, sp_selection := Some (s\<lparr>zs_quantity := q\<rparr>)\<rparr>)"
      using p by (simp add: page_ok_def)
    ultimately show ?thesis by metis
  qed
qed

lemma seat_op_ok: "page_ok p \<Longrightarrow> fair_update x \<Longrightarrow> page_ok (fst (run_seat_op x p))"
proof -
  assume p: "page_ok p" and x: "fair_update x"
  have "page_ok (seat_event x p)"
  proof (cases x)
    case (UPDATES us)
    then show ?thesis using updates_ok [OF p] x by simp
  next
    case (SELECT_ZONE i j)
    then show ?thesis using select_ok [OF p] by simp
  next
    case (SET_QUANTITY n)
    then show ?thesis using quantity_ok [OF p] by simp
  qed (use p x in \<open>simp_all add: page_ok_def\<close>)
  then show ?thesis by (simp add: run_seat_op_def effects_ok Let_def)
qed

interpretation seats: op_system run_seat_op fair_update page_ok
  by unfold_locales (rule seat_op_ok)


section \<open>Updates of the backend\<close>

text \<open>A message that a refresh of the backend sends, or an answer to polling.\<close>

definition from_backend :: "zone_update list \<Rightarrow> bool" where
  "from_backend us \<longleftrightarrow>
     (\<exists>now c i w w' payload. invalidateAndBroadcast now c i w = (w', Some payload) \<and>
        CHR '':'' \<notin> set i \<and> us = mapSocketZoneUpdates [payload]) \<or>
     (\<exists>now c w. us = polled_updates (snd (getAvailability now c w)))"

fun backend_only :: "seat_op \<Rightarrow> bool" where
  "backend_only (UPDATES us) \<longleftrightarrow> from_backend us"
| "backend_only (LOADED data) \<longleftrightarrow> False"
| "backend_only _ \<longleftrightarrow> True"

lemma find_ticket_type_id: "find_ticket_type i w = Some tt \<Longrightarrow> tt_id tt = i"
  unfolding find_ticket_type_def by (metis find_row_SomeD)

lemma broadcast_names_the_type:
  assumes "invalidateAndBroadcast now c i w = (w', Some payload)"
  shows "zu_ticketTypeId payload = i \<and> zu_zoneId payload = i"
  using assms find_ticket_type_id [of i w]
  by (auto simp: invalidateAndBroadcast_def computeZoneAvailability_def Let_def
      split: option.splits if_splits)

text \<open>Zones of the map are named by the SVG or by \<open>zone-\<close> and the ticket type.\<close>

definition zones_named_apart :: "seat_map_data option \<Rightarrow> bool" where
  "zones_named_apart data \<longleftrightarrow>
     list_all (\<lambda>(tt, z). plain_id (ct_id tt) \<and> cz_zoneId z \<noteq> ct_id tt) (zones_of data)"

lemma backend_key_misses:
  assumes "zones_named_apart data" and "(tt, z) \<in> set (zones_of data)" and "from_backend us" and "u \<in> set us"
  shows "update_key u \<noteq> zone_key (ct_id tt) (cz_zoneId z)"
    and "\<not> (zp_ticketTypeId u = Some (ct_id tt) \<and> zp_zoneId u = cz_zoneId z)"
proof -
  have id: "plain_id (ct_id tt)" "cz_zoneId z \<noteq> ct_id tt"
    using assms(1,2) by (auto simp: zones_named_apart_def list_all_iff)
  consider (sent) i where "CHR '':'' \<notin> set i" "zp_ticketTypeId u = Some i" "zp_zoneId u = i"
    | (polled) "zp_ticketTypeId u = None"
    using assms(3,4) broadcast_names_the_type
    by (fastforce simp: from_backend_def mapSocketZoneUpdates_def polled_updates_def)
  then have "update_key u \<noteq> zone_key (ct_id tt) (cz_zoneId z) \<and>
      \<not> (zp_ticketTypeId u = Some (ct_id tt) \<and> zp_zoneId u = cz_zoneId z)"
  proof cases
    case sent
    then show ?thesis
      using id zone_key_inject [of i i "ct_id tt" "cz_zoneId z"] by (auto simp: update_key_def plain_id_def)
  next
    case polled
    then show ?thesis
      using id zone_key_inject [of "''undefined''" "zp_zoneId u" "ct_id tt" "cz_zoneId z"]
      by (auto simp: update_key_def plain_id_def)
  qed
  then show "update_key u \<noteq> zone_key (ct_id tt) (cz_zoneId z)"
    and "\<not> (zp_ticketTypeId u = Some (ct_id tt) \<and> zp_zoneId u = cz_zoneId z)" by blast+
qed

lemma backend_leaves_data:
  assumes "zones_named_apart (Some data)" and "from_backend us"
  shows "applyZoneAvailabilityUpdates us data = data"
proof -
  have "apply_update us (ct_id tt) z = z"
    if "tt \<in> set (sd_ticketTypes data)" "z \<in> set (ct_zones tt)" for tt z
  proof -
    have "(tt, z) \<in> set (zones_of (Some data))" using that by (auto simp: zones_of_def)
    then have "List.find (\<lambda>u. update_key u = zone_key (ct_id tt) (cz_zoneId z)) (rev us) = None"
      using backend_key_misses(1) [OF assms(1) _ assms(2)] by (auto simp: find_None_all)
    then show ?thesis by (simp add: apply_update_def)
  qed
  then have "map (\<lambda>tt. tt\<lparr>ct_zones := map (apply_update us (ct_id tt)) (ct_zones tt)\<rparr>) (sd_ticketTypes data) =
      sd_ticketTypes data"
    by (intro map_idI) (simp add: map_idI)
  then show ?thesis by (simp add: applyZoneAvailabilityUpdates_def)
qed

lemma backend_leaves_page:
  assumes "zones_named_apart (sp_data p)" and "page_ok p" and "from_backend us"
  shows "applyUpdatesAndValidateSelection us p = p"
proof -
  have data: "map_option (applyZoneAvailabilityUpdates us) (sp_data p) = sp_data p"
    using backend_leaves_data assms(1,3) by (cases "sp_data p") auto
  have p: "p\<lparr>sp_data := sp_data p\<rparr> = p" by simp
  show ?thesis
  proof (cases "sp_selection p")
    case None
    then show ?thesis by (simp add: applyUpdatesAndValidateSelection_def data p)
  next
    case (Some s)
    then have "selection_ok (sp_data p) s" using assms(2) by (simp add: page_ok_def)
    then obtain tt z where e: "zoneLookup (sp_data p) (selection_key s) = Some (tt, z)"
        "ct_id tt = zs_ticketTypeId s" "cz_zoneId z = zs_zoneId s"
      by (rule selection_okD)
    have "(tt, z) \<in> set (zones_of (sp_data p))" using zoneLookup_SomeD [OF e(1)] by blast
    then have "\<not> (zp_ticketTypeId u = Some (zs_ticketTypeId s) \<and> zp_zoneId u = zs_zoneId s)" if "u \<in> set us" for u
      using backend_key_misses(2) [OF assms(1) _ assms(3) that] e(2,3) by metis
    then have "List.find (\<lambda>u. zp_ticketTypeId u = Some (zs_ticketTypeId s) \<and> zp_zoneId u = zs_zoneId s) us = None"
      by (simp add: find_None_all)
    then show ?thesis using Some by (simp add: applyUpdatesAndValidateSelection_def data p Let_def)
  qed
qed

lemma selectZone_data [simp]: "sp_data (selectZone i j p) = sp_data p"
  by (simp add: selectZone_def Let_def split: option.splits prod.splits)

lemma setQuantity_data [simp]: "sp_data (setQuantity n p) = sp_data p"
  by (simp add: setQuantity_def Let_def split: option.splits prod.splits)

lemma backend_step:
  assumes "page_ok p \<and> sp_data p = data" and "zones_named_apart data" and "backend_only x"
  shows "page_ok (fst (run_seat_op x p)) \<and> sp_data (fst (run_seat_op x p)) = data"
proof (cases x)
  case (UPDATES us)
  then have "seat_event x p = p" using backend_leaves_page assms by simp
  then show ?thesis using assms(1) by (simp add: run_seat_op_def effects_ok Let_def)
next
  case (LOADED d)
  then show ?thesis using assms(3) by simp
qed (use assms seat_op_ok [of p x] in \<open>simp_all add: run_seat_op_def Let_def\<close>)

interpretation backend_fed: op_system run_seat_op "\<lambda>x. backend_only x \<and> zones_named_apart data"
    "\<lambda>p. page_ok p \<and> sp_data p = data" for data
  by unfold_locales (use backend_step in blast)

lemma grouped_zone_ids:
  "(case groupSvgZonesByTicketType zones k of Some zs \<Rightarrow> zs | None \<Rightarrow> []) =
     filter (\<lambda>z. normalizeName (pz_ticketTypeName z) = k) zones"
proof -
  have "(case fold push_zone zones g k of Some zs \<Rightarrow> zs | None \<Rightarrow> []) =
      (case g k of Some zs \<Rightarrow> zs | None \<Rightarrow> []) @ filter (\<lambda>z. normalizeName (pz_ticketTypeName z) = k) zones" for g
    by (induction zones arbitrary: g) (auto simp: push_zone_def Let_def split: option.splits)
  then show ?thesis by (simp add: groupSvgZonesByTicketType_def)
qed

lemma built_named_apart:
  assumes "buildSeatMapData c name venue url zones types = Some data"
    and "\<And>t. t \<in> set types \<Longrightarrow> plain_id (ti_id t)"
    and "\<And>t z. t \<in> set types \<Longrightarrow> z \<in> set zones \<Longrightarrow> pz_zoneId z \<noteq> ti_id t"
  shows "zones_named_apart (Some data)"
proof -
  have "''zone-'' @ i \<noteq> i" for i :: id
    by (metis list.discI self_append_conv2)
  then show ?thesis
    using assms
    by (auto simp: zones_named_apart_def list_all_iff zones_of_def buildSeatMapData_def build_ticket_type_def
        grouped_zone_ids buildZone_def zoneIdForTicketType_def Let_def split: if_splits)
qed


text \<open>
  Every zone of a ticket type shows the whole stock of the type, and the summary of the type adds
  it up once for each of its zones.
\<close>

theorem zones_share_one_stock:
  assumes "buildSeatMapData c name venue url zones types = Some data" and "t \<in> set types"
  shows "\<exists>tt. tt \<in> set (sd_ticketTypes data) \<and> ct_id tt = ti_id t \<and>
     set (map cz_availableCount (ct_zones tt)) = {cz_availableCount (buildZone t None)} \<and>
     availableTotal tt =
       int (max 1 (count_where (\<lambda>z. normalizeName (pz_ticketTypeName z) = normalizeName (ti_name t)) zones)) *
       cz_availableCount (buildZone t None)"
proof -
  let ?tt = "build_ticket_type (groupSvgZonesByTicketType zones) t"
  let ?zs = "filter (\<lambda>z. normalizeName (pz_ticketTypeName z) = normalizeName (ti_name t)) zones"
  define stock where "stock = cz_availableCount (buildZone t None)"
  have avail: "cz_availableCount (buildZone t o1) = stock" for o1
    by (simp add: stock_def buildZone_def Let_def)
  have counts: "map cz_availableCount (ct_zones ?tt) = replicate (max 1 (length ?zs)) stock"
    by (cases "?zs = []")
      (simp_all add: build_ticket_type_def grouped_zone_ids Let_def comp_def avail map_replicate_const
        max_def Suc_le_eq)
  have "?tt \<in> set (sd_ticketTypes data)"
    using assms by (auto simp: buildSeatMapData_def split: if_splits)
  moreover have "ct_id ?tt = ti_id t" by (simp add: build_ticket_type_def Let_def)
  moreover have "set (map cz_availableCount (ct_zones ?tt)) = {stock}"
    unfolding counts by (simp add: set_replicate_conv_if)
  moreover have "availableTotal ?tt = int (max 1 (length ?zs)) * stock"
    unfolding availableTotal_def counts by (simp add: sum_list_replicate)
  ultimately show ?thesis unfolding stock_def count_where_def by blast
qed

text \<open>
  A quantity is cut to what the zone, the limit and the remaining allowance permit; while those
  are no negative numbers, none of the three warnings about a larger quantity ever appears.
\<close>

theorem quantity_is_capped:
  assumes "sp_selection p = Some s" and "zoneLookup (sp_data p) (selection_key s) = Some (tt, z)"
    and "0 \<le> cz_availableCount z" and "0 \<le> ct_maxPerUser tt"
  shows "setQuantity n p =
     (if getRemainingAllowance (ct_id tt) (ct_maxPerUser tt) p \<le> 0
      then p\<lparr>sp_limitWarning := Some (LimitReached (ct_maxPerUser tt))\<rparr>
      else p\<lparr>sp_limitWarning := None,
             sp_selection := Some (s\<lparr>zs_quantity := max 0 (min n (maxQuantityForSelection p))\<rparr>)\<rparr>)"
proof -
  let ?a = "getRemainingAllowance (ct_id tt) (ct_maxPerUser tt) p"
  define cap where "cap = min (cz_availableCount z) (min (ct_maxPerUser tt) ?a)"
  define q where "q = max 0 (min n cap)"
  have "maxQuantityForSelection p = cap"
    using assms(1,2) by (simp add: maxQuantityForSelection_def cap_def)
  moreover have "\<not> ?a < q" "\<not> ct_maxPerUser tt < q" "\<not> cz_availableCount z < q" if "\<not> ?a \<le> 0"
    using that assms(3,4) unfolding q_def cap_def by linarith+
  ultimately show ?thesis
    unfolding setQuantity_def using assms(1,2)
    by (simp add: Let_def cap_def [symmetric] q_def [symmetric])
qed

section \<open>Examples\<close>

definition demo_types :: "ticket_type_input list" where
  "demo_types = [\<lparr>ti_id = ''t1'', ti_name = '' Cat1'', ti_price = 50, ti_maxPerUser = 4, ti_totalQty = 10,
     ti_soldQty = 3, ti_reservedQty = 1, ti_availableQty = None\<rparr>]"

definition demo_svg :: "parsed_svg_zone list" where
  "demo_svg = [\<lparr>pz_zoneId = ''cat1-left'', pz_zoneName = ''L'', pz_ticketTypeName = ''CAT1''\<rparr>,
     \<lparr>pz_zoneId = ''cat1-right'', pz_zoneName = ''R'', pz_ticketTypeName = ''CAT1''\<rparr>]"

definition demo_map :: seat_map_data where
  "demo_map = the (buildSeatMapData ''c1'' ''Show'' None ''/x.svg'' demo_svg demo_types)"

definition demo_page :: seat_page where
  "demo_page = run_effects (load_page demo_map
     \<lparr>sp_data = None, sp_selection = None, sp_ticketTypeFilter = ''all'', sp_zoneFilter = ''all'',
      sp_availabilityFilter = None, sp_limitWarning = None, sp_availabilityNotice = None,
      sp_userTicketUsage = (\<lambda>_. None), sp_isAuthenticated = False, sp_restored = False, sp_saved = None\<rparr>)"

lemma demo_built: "buildSeatMapData ''c1'' ''Show'' None ''/x.svg'' demo_svg demo_types = Some demo_map"
  by (simp add: demo_map_def buildSeatMapData_def demo_types_def)

lemma demo_page_data: "sp_data demo_page = Some demo_map"
  by (simp add: demo_page_def load_page_def)

lemma demo_page_ok: "page_ok demo_page"
proof -
  have "sp_selection demo_page = None \<and> sp_saved demo_page = None" by code_simp
  moreover have "list_all (\<lambda>e. plain_id (ct_id (fst e))) (zones_of (sp_data demo_page))" by code_simp
  ultimately show ?thesis by (simp add: page_ok_def)
qed


text \<open>The type is sold out now, and was available when its zone was cached.\<close>

definition demo_stock :: world where
  "demo_stock = empty_world\<lparr>
     ticketTypes := [\<lparr>tt_id = ''t1'', tt_concertId = ''c1'', tt_name = ''Cat1'', tt_price = 50,
                      tt_totalQty = 10, tt_soldQty = 10, tt_reservedQty = 0, tt_maxPerUser = 4,
                      tt_saleStartsAt = 0, tt_saleEndsAt = None, tt_status = ACTIVE\<rparr>],
     redisdb := (\<lambda>_. None)(zoneAvailabilityCacheKey ''c1'' ''t1'' \<mapsto>
       (RZones [\<lparr>zoneId = ''t1'', zoneName = ''Cat1'', availableCount = 6, reservedCount = 0,
                 soldCount = 4, zoneStatus = ZONE_AVAILABLE\<rparr>], None))\<rparr>"

definition sold_out_payload :: zone_update_payload where
  "sold_out_payload = \<lparr>zu_ticketTypeId = ''t1'', zu_zoneId = ''t1'', zu_oldStatus = ZONE_AVAILABLE,
     zu_newStatus = ZONE_SOLD_OUT, zu_availableCount = 0, zu_timestamp = 5\<rparr>"

lemma sold_out_sent: "from_backend (mapSocketZoneUpdates [sold_out_payload])"
proof -
  have "snd (invalidateAndBroadcast 5 ''c1'' ''t1'' demo_stock) = Some sold_out_payload" by code_simp
  then have "invalidateAndBroadcast 5 ''c1'' ''t1'' demo_stock =
      (fst (invalidateAndBroadcast 5 ''c1'' ''t1'' demo_stock), Some sold_out_payload)"
    by (metis prod.collapse)
  moreover have "CHR '':'' \<notin> set ''t1''" by simp
  ultimately show ?thesis unfolding from_backend_def by blast
qed


theorem zones_share_one_stock_witness:
  "\<exists>tt. tt \<in> set (sd_ticketTypes demo_map) \<and> ct_id tt = ''t1'' \<and> availableTotal tt = 12"
proof -
  let ?t = "hd demo_types"
  have t: "?t \<in> set demo_types" "ti_id ?t = ''t1''" by (simp_all add: demo_types_def)
  have "int (max 1 (count_where (\<lambda>z. normalizeName (pz_ticketTypeName z) = normalizeName (ti_name ?t)) demo_svg)) *
      cz_availableCount (buildZone ?t None) = 12"
    by code_simp
  then show ?thesis using zones_share_one_stock [OF demo_built t(1)] t(2) by metis
qed

theorem quantity_is_capped_witness:
  "\<exists>s. sp_selection (setQuantity 9 (fst (run_ops run_seat_op [SELECT_ZONE ''t1'' ''cat1-left''] demo_page))) =
     Some s \<and> zs_quantity s = 4"
proof -
  let ?p = "fst (run_ops run_seat_op [SELECT_ZONE ''t1'' ''cat1-left''] demo_page)"
  have nums: "map_option (\<lambda>e. (cz_availableCount (snd e), ct_maxPerUser (fst e)))
      (zoneLookup (sp_data ?p) (zone_key ''t1'' ''cat1-left'')) = Some (6, 4)"
    "map_option selection_key (sp_selection ?p) = Some (zone_key ''t1'' ''cat1-left'')"
    "sp_isAuthenticated ?p = False" "maxQuantityForSelection ?p = 4"
    by code_simp+
  obtain s where s: "sp_selection ?p = Some s" "selection_key s = zone_key ''t1'' ''cat1-left''"
    using nums(2) by auto
  obtain tt z where e: "zoneLookup (sp_data ?p) (selection_key s) = Some (tt, z)"
      "cz_availableCount z = 6" "ct_maxPerUser tt = 4"
    using nums(1) s(2) by auto
  have a: "getRemainingAllowance (ct_id tt) (ct_maxPerUser tt) ?p = 4"
    using nums(3) e(3) by (simp only: getRemainingAllowance_def if_True not_False_eq_True)
  have "0 \<le> cz_availableCount z" "0 \<le> ct_maxPerUser tt" using e by simp_all
  from quantity_is_capped [OF s(1) e(1) this, of 9]
  show ?thesis unfolding a nums(4) by (simp del: run_ops.simps)
qed

end
