(* ===== verification/Checkout_Client.thy ===== *)
theory Checkout_Client
  imports Idempotency Waiting_Properties Seat_Selection
begin

text \<open>
  The checkout of the customers' app (\<open>src/src/frontend/customer-web\<close>): the button of
  \<open>components/checkout/CheckoutPage.tsx\<close> with \<open>lib/create-order-retry.ts\<close>, \<open>lib/idempotency.ts\<close> and
  the proxy \<open>app/api/orders/route.ts\<close>, in front of the interceptor of the order controller; and
  \<open>lib/order-expiry.ts\<close> and \<open>lib/payment-status.ts\<close>.

  \<^item> An attempt to create an order reaches the server through two links, each of which may lose the
    request or its answer; whether the rate limiter refuses it is an argument.
  \<^item> The handler behind the interceptor is an argument, and so is what the app reads from the body
    of an answer: the order's identifier and its payment address.
  \<^item> The message of an exception is its tag; of the four phrases by which the app recognizes a refusal
    of the waiting room the two English ones are kept.
\<close>

section \<open>Errors of the app\<close>

datatype api_error = ClientApiError int string | NetworkError | RetriesExhausted | AppError exn

fun exn_status :: "exn \<Rightarrow> int" where
  "exn_status (NotFoundException m) = 404"
| "exn_status (BadRequestException m) = 400"
| "exn_status (UnauthorizedException m) = 401"
| "exn_status (ForbiddenException m) = 403"
| "exn_status (ConflictException m) = 409"
| "exn_status (UnprocessableEntityException m) = 422"
| "exn_status (ServiceUnavailableException m) = 503"
| "exn_status (TooManyRequestsException m) = 429"
| "exn_status _ = 500"

fun exn_message :: "exn \<Rightarrow> string" where
  "exn_message (NotFoundException m) = m"
| "exn_message (BadRequestException m) = m"
| "exn_message (UnauthorizedException m) = m"
| "exn_message (ForbiddenException m) = m"
| "exn_message (ConflictException m) = m"
| "exn_message (UnprocessableEntityException m) = m"
| "exn_message (ServiceUnavailableException m) = m"
| "exn_message (TooManyRequestsException m) = m"
| "exn_message _ = ''Internal server error''"

definition isWaitingRoomAccessDenied :: "string \<Rightarrow> bool" where
  "isWaitingRoomAccessDenied message \<longleftrightarrow>
     contains_string ''waiting room'' (lowercase message) \<or>
     contains_string ''waiting-room'' (lowercase message)"

fun isWaitingRoomOrderError :: "api_error \<Rightarrow> bool" where
  "isWaitingRoomOrderError (ClientApiError status message) \<longleftrightarrow>
     status = 403 \<and> isWaitingRoomAccessDenied message"
| "isWaitingRoomOrderError _ \<longleftrightarrow> False"

section \<open>Creating an order, with retries\<close>

datatype order_link =
    BrowserRequestLost | BrowserAnswerLost | ProxyRequestLost | ProxyAnswerLost | LinksUp

record order_attempt =
  oa_link :: order_link
  oa_limited :: bool
  oa_now :: time
  oa_later :: time

text \<open>\<open>POST /api/orders\<close>: the proxy turns a failed request to the backend into a status 500.\<close>

definition orderApi_create ::
  "crypto \<Rightarrow> http_request \<Rightarrow> string handler \<Rightarrow> order_attempt \<Rightarrow> world \<Rightarrow> world \<times> (api_error + string)" where
  "orderApi_create C req h a w =
     (let (w', r) = (if oa_limited a then (w, Inl (TooManyRequestsException ''rate limit''))
                     else intercept C (oa_now a) (oa_later a) req h w)
      in case oa_link a of
           BrowserRequestLost \<Rightarrow> (w, Inl NetworkError)
         | ProxyRequestLost \<Rightarrow> (w, Inl (ClientApiError 500 ''fetch failed''))
         | ProxyAnswerLost \<Rightarrow> (w', Inl (ClientApiError 500 ''fetch failed''))
         | BrowserAnswerLost \<Rightarrow> (w', Inl NetworkError)
         | LinksUp \<Rightarrow>
             (case r of
                Inr body \<Rightarrow> (w', Inr body)
              | Inl e \<Rightarrow> (w', Inl (ClientApiError (exn_status e) (exn_message e)))))"

definition MAX_PROCESSING_RETRIES :: nat where "MAX_PROCESSING_RETRIES = 15"

fun attempts_from :: "nat \<Rightarrow> nat \<Rightarrow> (nat \<Rightarrow> 's \<Rightarrow> 's \<times> (api_error + 'a)) \<Rightarrow> 's \<Rightarrow> 's \<times> (api_error + 'a)" where
  "attempts_from 0 attempt call s = (s, Inl RetriesExhausted)"
| "attempts_from (Suc left) attempt call s =
     (case call attempt s of
        (s', Inl (ClientApiError status message)) \<Rightarrow>
          if status = 409 then attempts_from left (attempt + 1) call s'
          else (s', Inl (ClientApiError status message))
      | (s', r) \<Rightarrow> (s', r))"

definition createOrderWithIdempotencyRetry ::
  "(nat \<Rightarrow> 's \<Rightarrow> 's \<times> (api_error + 'a)) \<Rightarrow> 's \<Rightarrow> 's \<times> (api_error + 'a)" where
  "createOrderWithIdempotencyRetry call s = attempts_from MAX_PROCESSING_RETRIES 0 call s"

section \<open>The key of a checkout\<close>

text \<open>The key of one concert: the memory of the module, and \<open>sessionStorage\<close>.\<close>

record scoped_key =
  sk_memory :: "string option"
  sk_stored :: "string option"

definition getOrCreateScopedKey :: "string \<Rightarrow> scoped_key \<Rightarrow> scoped_key \<times> string" where
  "getOrCreateScopedKey created k =
     (case truthy (sk_memory k) of
        Some cached \<Rightarrow> (k, cached)
      | None \<Rightarrow>
          (case truthy (sk_stored k) of
             Some existing \<Rightarrow> (k\<lparr>sk_memory := Some existing\<rparr>, existing)
           | None \<Rightarrow> (\<lparr>sk_memory = Some created, sk_stored = Some created\<rparr>, created)))"

definition clearScopedKey :: "scoped_key \<Rightarrow> scoped_key" where
  "clearScopedKey k = \<lparr>sk_memory = None, sk_stored = None\<rparr>"

section \<open>The button\<close>

record checkout_client =
  cc_tab :: tab
  cc_selection :: "zone_selection option"
  cc_key :: scoped_key

datatype checkout_result =
    NothingToDo | ToWaiting | ToPayment id string | CheckoutError api_error

definition order_body :: "id \<Rightarrow> (id \<times> int) list \<Rightarrow> json" where
  "order_body concertId items =
     JObj [(''concertId'', JStr concertId),
           (''items'', JArr (map (\<lambda>(i, q). JObj [(''ticketTypeId'', JStr i), (''quantity'', JNum q)]) items))]"

definition order_request :: "id \<Rightarrow> string \<Rightarrow> json \<Rightarrow> http_request" where
  "order_request userId key body =
     \<lparr>hq_idempotencyKey = Some key, hq_userId = Some userId, hq_method = ''POST'', hq_body = body\<rparr>"

record click =
  ck_now :: time
  ck_uuid :: string
  ck_types :: "api_error + (id \<times> string) list"
  ck_attempts :: "nat \<Rightarrow> order_attempt"
  ck_handler :: "string handler"

definition after_success :: "id \<Rightarrow> checkout_client \<Rightarrow> checkout_client" where
  "after_success orderId c =
     c\<lparr>cc_key := clearScopedKey (cc_key c), cc_selection := None,
       cc_tab := (abandonPurchaseFlow (cc_tab c))\<lparr>tb_pendingOrder := Some orderId\<rparr>\<rparr>"

definition order_failed :: "api_error \<Rightarrow> checkout_client \<Rightarrow> checkout_client \<times> checkout_result" where
  "order_failed e c =
     (if isWaitingRoomOrderError e then (c\<lparr>cc_tab := abandonPurchaseFlow (cc_tab c)\<rparr>, ToWaiting)
      else (c, CheckoutError e))"

text \<open>\<open>handleCheckout\<close>; \<open>decode\<close> gives the order and the payment address of an answer.\<close>

definition handleCheckout ::
  "crypto \<Rightarrow> (string \<Rightarrow> id \<times> string option) \<Rightarrow> (id \<Rightarrow> id option) \<Rightarrow> id \<Rightarrow> id \<Rightarrow> click \<Rightarrow>
   world \<times> checkout_client \<Rightarrow> (world \<times> checkout_client) \<times> checkout_result" where
  "handleCheckout C decode concertMap userId concertId k s =
     (case cc_selection (snd s) of
        None \<Rightarrow> (s, NothingToDo)
      | Some sel \<Rightarrow>
          let (t, token) = readAdmittedToken (ck_now k) (cc_tab (snd s));
              c1 = (snd s)\<lparr>cc_tab := t\<rparr>
          in if truthy token = None then ((fst s, c1), ToWaiting)
             else
               let (key', idempotencyKey) = getOrCreateScopedKey (ck_uuid k) (cc_key c1);
                   c2 = c1\<lparr>cc_key := key'\<rparr>
               in case ck_types k of
                    Inl e \<Rightarrow> (case order_failed e c2 of (c3, r) \<Rightarrow> ((fst s, c3), r))
                  | Inr types \<Rightarrow>
                      (case mapZoneSelectionToOrderItems sel types of
                         Inl e \<Rightarrow> (case order_failed (AppError e) c2 of (c3, r) \<Rightarrow> ((fst s, c3), r))
                       | Inr items \<Rightarrow>
                           let req = order_request userId idempotencyKey
                                 (order_body (resolveBackendConcertId concertMap concertId) items)
                           in case createOrderWithIdempotencyRetry
                                     (\<lambda>n. orderApi_create C req (ck_handler k) (ck_attempts k n)) (fst s) of
                                (w', Inl e) \<Rightarrow> (case order_failed e c2 of (c3, r) \<Rightarrow> ((w', c3), r))
                              | (w', Inr body) \<Rightarrow>
                                  (case snd (decode body) of
                                     None \<Rightarrow> ((w', c2), CheckoutError (AppError (PlainError ''no payment URL'')))
                                   | Some url \<Rightarrow>
                                       ((w', after_success (fst (decode body)) c2),
                                        ToPayment (fst (decode body)) url))))"

section \<open>Showing orders and payments\<close>

text \<open>
  \<open>expiry\<close> and \<open>serverTime\<close> are the instants of the two ISO strings.
\<close>

definition remainingMsUntil :: "time \<Rightarrow> time option \<Rightarrow> time option \<Rightarrow> int option" where
  "remainingMsUntil now expiry serverTime =
     (case expiry of
        None \<Rightarrow> None
      | Some expiryTime \<Rightarrow>
          (case serverTime of
             Some st \<Rightarrow>
               let drift = now - st; correctedNow = now - drift in Some (max 0 (expiryTime - correctedNow))
           | None \<Rightarrow> Some (max 0 (expiryTime - now))))"

definition pad2 :: "int \<Rightarrow> string" where
  "pad2 n = (let s = show_int n in if length s < 2 then CHR ''0'' # s else s)"

definition formatReservationCountdown :: "time \<Rightarrow> time option \<Rightarrow> time option \<Rightarrow> string" where
  "formatReservationCountdown now expiresAt serverTime =
     (case remainingMsUntil now expiresAt serverTime of
        None \<Rightarrow> ''--:--''
      | Some remaining \<Rightarrow>
          if remaining \<le> 0 then ''00:00''
          else pad2 (remaining div 60000) @ '':'' @ pad2 (remaining mod 60000 div 1000))"

definition isReservationExpired :: "time \<Rightarrow> time option \<Rightarrow> time option \<Rightarrow> bool" where
  "isReservationExpired now expiresAt serverTime =
     (case remainingMsUntil now expiresAt serverTime of
        None \<Rightarrow> False | Some remaining \<Rightarrow> remaining \<le> 0)"

text \<open>JavaScript's sort is stable: among equal instants the earlier element comes first.\<close>

record payment_row =
  py_status :: PaymentStatus
  py_receivedAt :: "time option"
  py_createdAt :: time

definition payment_instant :: "payment_row \<Rightarrow> time" where
  "payment_instant p = (case py_receivedAt p of Some t \<Rightarrow> t | None \<Rightarrow> py_createdAt p)"

definition getDisplayPayment :: "payment_row list \<Rightarrow> payment_row option" where
  "getDisplayPayment ps =
     (if ps = [] then None
      else case sort_key (\<lambda>p. - payment_instant p) (filter (\<lambda>p. py_status p = PAY_SUCCESS) ps) of
             p # _ \<Rightarrow> Some p
           | [] \<Rightarrow> Some (hd (sort_key (\<lambda>p. - py_createdAt p) ps)))"

section \<open>What an attempt does after the order was made\<close>

text \<open>The record of a completed request, as every reader up to \<open>until\<close> finds it.\<close>

definition completed_under :: "time \<Rightarrow> id \<Rightarrow> string \<Rightarrow> string \<Rightarrow> string \<Rightarrow> world \<Rightarrow> bool" where
  "completed_under until userId key requestHash body w \<longleftrightarrow>
     (\<forall>now \<le> until. idem_read now (buildKey userId key) (redisdb w) =
        Some \<lparr>ir_status = IDEM_COMPLETED, ir_requestHash = requestHash, ir_responseBody = Some body\<rparr>)"

lemma completed_by_run:
  assumes "intercept_run now later (buildKey userId key) h handle w = (w1, Inr body)"
  shows "completed_under (later + 900000) userId key h body w1"
  using assms by (auto simp: completed_under_def intercept_run_def IDEM_TTL_SECONDS_def
      split: prod.splits sum.splits)

fun link_error :: "api_error \<Rightarrow> bool" where
  "link_error (ClientApiError status m) \<longleftrightarrow> status = 500 \<or> status = 429"
| "link_error NetworkError \<longleftrightarrow> True"
| "link_error _ \<longleftrightarrow> False"

lemma intercept_completed:
  assumes "completed_under until userId key h body w" and "now \<le> until"
    and "key \<noteq> []" and "h \<noteq> []" and "body \<noteq> []" and "hashRequest C b = Inr h'"
  shows "intercept C now later (order_request userId key b) handle w =
     (w, if h' = h then Inr body else Inl (ConflictException ''key used for another request''))"
  using assms
  by (simp add: intercept_def order_request_def or_empty_def request_key_def completed_under_def
      intercept_lookup_def)

lemma attempt_completed:
  assumes "completed_under until userId key h body w" and "oa_now a \<le> until"
    and "key \<noteq> []" and "h \<noteq> []" and "body \<noteq> []" and "hashRequest C b = Inr h'"
  obtains (link) e where "orderApi_create C (order_request userId key b) handle a w = (w, Inl e)" "link_error e"
  | (replay) "h' = h" "orderApi_create C (order_request userId key b) handle a w = (w, Inr body)"
  | (conflict) m where "h' \<noteq> h"
      "orderApi_create C (order_request userId key b) handle a w = (w, Inl (ClientApiError 409 m))"
  using intercept_completed [OF assms(1-6), of "oa_later a" handle]
  by (cases "oa_link a"; cases "oa_limited a"; cases "h' = h") (auto simp: orderApi_create_def)

lemma attempts_stay:
  assumes "\<And>n. fst (call n s) = s" and "\<And>n r. snd (call n s) = r \<Longrightarrow> good r"
    and "good (Inl RetriesExhausted)"
  shows "fst (attempts_from left n call s) = s \<and> good (snd (attempts_from left n call s))"
proof (induction left arbitrary: n)
  case 0
  then show ?case using assms(3) by simp
next
  case (Suc left)
  obtain r where r: "call n s = (s, r)" using assms(1) [of n] by (metis prod.collapse)
  then have "good r" using assms(2) [of n] by simp
  then show ?case using r Suc [of "n + 1"] by (auto split: sum.splits api_error.splits)
qed

text \<open>What a click can report while its order exists already under another or the same body.\<close>

definition replayed :: "bool \<Rightarrow> string \<Rightarrow> api_error + string \<Rightarrow> bool" where
  "replayed same body r \<longleftrightarrow> (case r of Inr b \<Rightarrow> same \<and> b = body | Inl e \<Rightarrow> \<not> isWaitingRoomOrderError e)"

lemma retry_completed:
  assumes "completed_under until userId key h body w" and "\<And>n. oa_now (attempts n) \<le> until"
    and "key \<noteq> []" and "h \<noteq> []" and "body \<noteq> []" and "hashRequest C b = Inr h'"
  shows "fst (createOrderWithIdempotencyRetry
             (\<lambda>n. orderApi_create C (order_request userId key b) handle (attempts n)) w) = w \<and>
         replayed (h' = h) body (snd (createOrderWithIdempotencyRetry
             (\<lambda>n. orderApi_create C (order_request userId key b) handle (attempts n)) w))"
  unfolding createOrderWithIdempotencyRetry_def
proof (rule attempts_stay)
  fix n
  show "fst (orderApi_create C (order_request userId key b) handle (attempts n) w) = w"
    by (rule attempt_completed [OF assms(1) assms(2) [of n] assms(3-6), of handle]) auto
next
  fix n r
  assume r: "snd (orderApi_create C (order_request userId key b) handle (attempts n) w) = r"
  show "replayed (h' = h) body r"
    by (rule attempt_completed [OF assms(1) assms(2) [of n] assms(3-6), of handle])
      (use r in \<open>auto simp: replayed_def elim: link_error.elims\<close>)
next
  show "replayed (h' = h) body (Inl RetriesExhausted)" by (simp add: replayed_def)
qed

lemma scoped_key_kept:
  assumes "truthy (sk_stored k) = Some key" and "sk_memory k = None \<or> sk_memory k = Some key"
  shows "snd (getOrCreateScopedKey u k) = key \<and>
    (let k' = fst (getOrCreateScopedKey u k) in truthy (sk_stored k') = Some key \<and> sk_memory k' = Some key)"
  using assms by (auto simp: getOrCreateScopedKey_def truthy_eq_Some split: option.splits)

definition key_is :: "string \<Rightarrow> checkout_client \<Rightarrow> bool" where
  "key_is key c \<longleftrightarrow> truthy (sk_stored (cc_key c)) = Some key \<and>
     (sk_memory (cc_key c) = None \<or> sk_memory (cc_key c) = Some key)"

lemma key_is_tab [simp]: "key_is key (c\<lparr>cc_tab := t\<rparr>) = key_is key c"
  by (simp add: key_is_def)

lemma order_failed_cases:
  obtains t where "order_failed e c = (c\<lparr>cc_tab := t\<rparr>, ToWaiting)"
  | "order_failed e c = (c\<lparr>cc_tab := cc_tab c\<rparr>, CheckoutError e)"
  by (cases "isWaitingRoomOrderError e") (auto simp: order_failed_def)

text \<open>The click would send the request that the record is about.\<close>

definition orders_with ::
  "crypto \<Rightarrow> (id \<Rightarrow> id option) \<Rightarrow> id \<Rightarrow> string \<Rightarrow> click \<Rightarrow> checkout_client \<Rightarrow> bool" where
  "orders_with C concertMap concertId h k c =
     (case (cc_selection c, ck_types k) of
        (Some sel, Inr types) \<Rightarrow>
          (case mapZoneSelectionToOrderItems sel types of
             Inr items \<Rightarrow>
               hashRequest C (order_body (resolveBackendConcertId concertMap concertId) items) = Inr h
           | Inl e \<Rightarrow> False)
      | _ \<Rightarrow> False)"

lemma click_after_completion:
  assumes "completed_under until userId key h body w" and "h \<noteq> []" and "body \<noteq> []"
    and "key_is key c" and "\<And>n. oa_now (ck_attempts k n) \<le> until"
    and "handleCheckout C decode concertMap userId concertId k (w, c) = ((w', c'), r)"
  shows "w' = w \<and>
    (case r of ToPayment orderId url \<Rightarrow> decode body = (orderId, Some url) \<and> orders_with C concertMap concertId h k c
     | _ \<Rightarrow> key_is key c' \<and> cc_selection c' = cc_selection c)"
proof (cases "cc_selection c")
  case None
  then show ?thesis using assms(4,6) by (auto simp: handleCheckout_def)
next
  case (Some sel)
  obtain t token where t: "readAdmittedToken (ck_now k) (cc_tab c) = (t, token)" by fastforce
  obtain key' where key': "getOrCreateScopedKey (ck_uuid k) (cc_key c) = (key', key)"
      "truthy (sk_stored key') = Some key" "sk_memory key' = Some key"
    using scoped_key_kept [of "cc_key c" key "ck_uuid k"] assms(4)
    by (cases "getOrCreateScopedKey (ck_uuid k) (cc_key c)") (auto simp: key_is_def)
  have keep: "key_is key (c\<lparr>cc_key := key'\<rparr>)" "key_is key (c\<lparr>cc_tab := t, cc_key := key'\<rparr>)"
    using key' by (simp_all add: key_is_def)
  have fails: "w'' = w \<and> (case r'' of ToPayment orderId url \<Rightarrow>
         decode body = (orderId, Some url) \<and> orders_with C concertMap concertId h k c
       | _ \<Rightarrow> key_is key c'' \<and> cc_selection c'' = cc_selection c)"
    if "(case order_failed e (c\<lparr>cc_tab := t, cc_key := key'\<rparr>) of (c3, r3) \<Rightarrow> ((w, c3), r3)) = ((w'', c''), r'')"
    for e w'' c'' r''
    by (rule order_failed_cases [of e "c\<lparr>cc_tab := t, cc_key := key'\<rparr>"]) (use that keep in auto)
  note def = handleCheckout_def Some t key'(1) Let_def
  show ?thesis
  proof (cases "truthy token")
    case None
    then show ?thesis using assms(4,6) by (auto simp: def)
  next
    case (Some tok)
    note def = def Some
    show ?thesis
    proof (cases "ck_types k")
      case (Inl e)
      then show ?thesis using assms(6) fails [of e w' c' r] by (simp add: def)
    next
      case (Inr types)
      note def = def Inr
      show ?thesis
      proof (cases "mapZoneSelectionToOrderItems sel types")
        case (Inl e)
        then show ?thesis using assms(6) fails [of "AppError e" w' c' r] by (simp add: def)
      next
        case (Inr items)
        note def = def Inr
        let ?b = "order_body (resolveBackendConcertId concertMap concertId) items"
        let ?run = "createOrderWithIdempotencyRetry
            (\<lambda>n. orderApi_create C (order_request userId key ?b) (ck_handler k) (ck_attempts k n)) w"
        obtain h' where h': "hashRequest C ?b = Inr h'"
          by (auto simp: order_body_def hashRequest_def)
        have "key \<noteq> []" using assms(4) by (auto simp: key_is_def truthy_eq_Some)
        then have "fst ?run = w" "replayed (h' = h) body (snd ?run)"
          using retry_completed [where attempts = "ck_attempts k" and handle = "ck_handler k",
              OF assms(1,5) _ assms(2,3) h'] by blast+
        then obtain res where res: "?run = (w, res)" "replayed (h' = h) body res"
          by (metis prod.collapse)
        show ?thesis
        proof (cases res)
          case (Inl e)
          then show ?thesis using assms(6) res(1) fails [of e w' c' r] by (simp add: def)
        next
          case (Inr b)
          then have "b = body" "h' = h" using res(2) by (auto simp: replayed_def)
          moreover from this have "orders_with C concertMap concertId h k c"
            using h' by (simp add: orders_with_def def)
          ultimately show ?thesis
            using assms(6) res(1) Inr keep
            by (cases "decode body"; cases "snd (decode body)") (auto simp: def)
        qed
      qed
    qed
  qed
qed

text \<open>
  C16: A checkout whose answer was lost is safe to repeat: as long as the record of the request lives,
  another click of the customer, over any links and refusals of the rate limiter and with any
  handler behind the interceptor, changes nothing on the server.  Either it brings the customer to
  the payment of the order that was made, or the key of the checkout is kept for the next click.
\<close>

theorem repeated_checkout_orders_once:
  assumes "completed_under until userId key h body w" and "h \<noteq> []" and "body \<noteq> []"
    and "key_is key c" and "\<And>n. oa_now (ck_attempts k n) \<le> until"
    and "handleCheckout C decode concertMap userId concertId k (w, c) = ((w', c'), r)"
  shows "w' = w \<and>
    (case r of ToPayment orderId url \<Rightarrow> decode body = (orderId, Some url)
     | _ \<Rightarrow> key_is key c' \<and> cc_selection c' = cc_selection c)"
  using click_after_completion [OF assms] by (cases r) auto

lemma orders_with_selection:
  "cc_selection c' = cc_selection c \<Longrightarrow> orders_with C m i h k c' = orders_with C m i h k c"
  by (simp add: orders_with_def)

definition changed_click ::
  "crypto \<Rightarrow> (id \<Rightarrow> id option) \<Rightarrow> id \<Rightarrow> string \<Rightarrow> time \<Rightarrow> zone_selection \<Rightarrow> click \<Rightarrow> bool" where
  "changed_click C concertMap concertId h until sel k \<longleftrightarrow>
     (\<forall>n. oa_now (ck_attempts k n) \<le> until) \<and>
     (\<forall>c. cc_selection c = Some sel \<longrightarrow> \<not> orders_with C concertMap concertId h k c)"

definition changed_client :: "world \<Rightarrow> string \<Rightarrow> zone_selection \<Rightarrow> world \<times> checkout_client \<Rightarrow> bool" where
  "changed_client w key sel s \<longleftrightarrow>
     fst s = w \<and> key_is key (snd s) \<and> cc_selection (snd s) = Some sel"

fun leads_to_payment :: "checkout_result \<Rightarrow> bool" where
  "leads_to_payment (ToPayment orderId url) \<longleftrightarrow> True"
| "leads_to_payment _ \<longleftrightarrow> False"

lemma changed_click_step:
  assumes "completed_under until userId key h body w" and "h \<noteq> []" and "body \<noteq> []"
    and "changed_client w key sel s" and "changed_click C concertMap concertId h until sel k"
  shows "changed_client w key sel (fst (handleCheckout C decode concertMap userId concertId k s)) \<and>
     \<not> leads_to_payment (snd (handleCheckout C decode concertMap userId concertId k s))"
proof -
  obtain c where s: "s = (w, c)" "key_is key c" "cc_selection c = Some sel"
    using assms(4) by (cases s) (auto simp: changed_client_def)
  obtain w' c' r where run: "handleCheckout C decode concertMap userId concertId k (w, c) = ((w', c'), r)"
    by (metis surj_pair)
  have "\<not> orders_with C concertMap concertId h k c" "\<And>n. oa_now (ck_attempts k n) \<le> until"
    using assms(5) s(3) by (auto simp: changed_click_def)
  then show ?thesis
    using click_after_completion [OF assms(1-3) s(2) _ run] run s by (cases r) (auto simp: changed_client_def)
qed

interpretation changed_checkout: op_system "handleCheckout C decode concertMap userId concertId"
    "changed_click C concertMap concertId h until sel"
    "\<lambda>s. completed_under until userId key h body w \<and> h \<noteq> [] \<and> body \<noteq> [] \<and> changed_client w key sel s"
  for C decode concertMap userId concertId h until sel key body w
  by unfold_locales (use changed_click_step in blast)


section \<open>The countdown\<close>

text \<open>With the server's time at hand the drift cancels the clock: the countdown stands still.\<close>

lemma countdown_stands_still:
  "remainingMsUntil now expiry (Some st) = map_option (\<lambda>e. max 0 (e - st)) expiry"
  by (cases expiry) (simp_all add: remainingMsUntil_def)

section \<open>Examples\<close>

definition demo_selection :: "int \<Rightarrow> zone_selection" where
  "demo_selection q = \<lparr>zs_ticketTypeId = ''vip'', zs_zoneId = ''z'', zs_ticketTypeName = ''VIP'',
     zs_zoneName = ''Z'', zs_quantity = q, zs_unitPrice = 100\<rparr>"

definition demo_client :: "int \<Rightarrow> checkout_client" where
  "demo_client q = \<lparr>cc_tab = \<lparr>tb_session = None, tb_token = Some (''wr_t'', 10 ^ 9), tb_intent = True, tb_pendingOrder = None\<rparr>,
     cc_selection = Some (demo_selection q), cc_key = \<lparr>sk_memory = None, sk_stored = Some ''k1''\<rparr>\<rparr>"

definition demo_click :: "order_link \<Rightarrow> time \<Rightarrow> click" where
  "demo_click link t = \<lparr>ck_now = t, ck_uuid = ''k2'', ck_types = Inr [(''vip'', ''VIP'')],
     ck_attempts = (\<lambda>n. \<lparr>oa_link = link, oa_limited = False, oa_now = t, oa_later = t + 1\<rparr>),
     ck_handler = (\<lambda>w. (w, Inr ''o1''))\<rparr>"

definition demo_decode :: "string \<Rightarrow> id \<times> string option" where
  "demo_decode body = (body, Some (''/pay/'' @ body))"

definition demo_order_body :: "int \<Rightarrow> json" where
  "demo_order_body q = order_body ''c1'' [(''vip'', q)]"

definition plain_crypto :: crypto where
  "plain_crypto = \<lparr>sha256 = (\<lambda>s. s), hmac256 = (\<lambda>k s. k @ s)\<rparr>"

definition demo_hash :: "int \<Rightarrow> string" where
  "demo_hash q = (case hashRequest plain_crypto (order_body ''c1'' [(''vip'', q)]) of Inr h \<Rightarrow> h | Inl e \<Rightarrow> [])"

definition demo_ordered :: world where
  "demo_ordered = idem_write 6 (buildKey ''alice'' ''k1'')
     \<lparr>ir_status = IDEM_COMPLETED, ir_requestHash = demo_hash 1, ir_responseBody = Some ''o1''\<rparr>
     empty_world"

abbreviation demo_checkout ::
  "click \<Rightarrow> world \<times> checkout_client \<Rightarrow> (world \<times> checkout_client) \<times> checkout_result" where
  "demo_checkout \<equiv> handleCheckout plain_crypto demo_decode (\<lambda>_. None) ''alice'' ''c1''"

lemma demo_ordered_completed: "completed_under 900006 ''alice'' ''k1'' (demo_hash 1) ''o1'' demo_ordered"
  by (simp add: completed_under_def demo_ordered_def IDEM_TTL_SECONDS_def)

lemma demo_hashes: "demo_hash 1 \<noteq> []" "hashRequest plain_crypto (order_body ''c1'' [(''vip'', 2)]) \<noteq> Inr (demo_hash 1)"
  by code_simp+

lemma demo_client_key: "key_is ''k1'' (demo_client q)"
  by (simp add: key_is_def demo_client_def)

theorem repeated_checkout_orders_once_witness:
  "fst (fst (demo_checkout (demo_click LinksUp 9) (demo_ordered, demo_client 1))) = demo_ordered \<and>
   snd (demo_checkout (demo_click LinksUp 9) (demo_ordered, demo_client 1)) = ToPayment ''o1'' ''/pay/o1''"
proof -
  let ?run = "demo_checkout (demo_click LinksUp 9) (demo_ordered, demo_client 1)"
  have "snd ?run = ToPayment ''o1'' ''/pay/o1''" by code_simp
  moreover obtain w' c' r where run: "?run = ((w', c'), r)" by (metis surj_pair)
  have "w' = demo_ordered"
    using repeated_checkout_orders_once [OF demo_ordered_completed demo_hashes(1) _ demo_client_key _ run]
    by (simp add: demo_click_def)
  ultimately show ?thesis using run by simp
qed


end
