(* ===== verification/Notification.thy ===== *)
theory Notification
  imports Domain
begin

text \<open>
  E-mails of the worker: \<open>worker/processors/notification.processor.ts\<close>, with what it hands to
  \<open>notification/services/email.service.ts\<close>.

  \<^item> The mails that the mail server accepted are a list; whether it accepts a mail is an argument,
    and so is the query at which the database fails.
  \<^item> A query of users answers in the order of \<open>createdAt\<close>, equal instants in the order of the
    table, and a cursor continues after its row.  The tables do not change during a job.
  \<^item> The loop over batches is a partial function: \<open>None\<close> would be a loop without end.
\<close>

record ticket_info =
  nf_ticketId :: id
  nf_ticketTypeName :: string
  nf_concertVenue :: string
  nf_concertStartsAt :: time
  nf_gateId :: "string option"
  nf_status :: TicketStatus

datatype mail =
    OrderConfirmation (mail_to: string) id string string time nat int "ticket_info list"
  | ConcertReminder (mail_to: string) string string time nat

datatype notification_job = Reminder24h id | SendOrderPaid id id | OtherJob string

datatype notification_result =
    SentTo string id
  | ReminderSent id nat nat
  | SkippedUnknownJob string
  | SkippedNoConcert
  | SkippedCancelled

definition BATCH_SIZE :: nat where "BATCH_SIZE = 100"

section \<open>Order confirmation\<close>

definition type_name_of :: "world \<Rightarrow> id \<Rightarrow> string" where
  "type_name_of w i = (case find_ticket_type i w of Some tt \<Rightarrow> tt_name tt | None \<Rightarrow> [])"

definition ticket_info_of :: "world \<Rightarrow> concert \<Rightarrow> ticket \<Rightarrow> ticket_info" where
  "ticket_info_of w c t =
     \<lparr>nf_ticketId = t_id t, nf_ticketTypeName = type_name_of w (t_ticketTypeId t),
      nf_concertVenue = c_venue c, nf_concertStartsAt = c_startsAt c,
      nf_gateId = t_gateId t, nf_status = t_status t\<rparr>"

definition handleOrderPaid ::
  "(mail \<Rightarrow> bool) \<Rightarrow> id \<Rightarrow> world \<Rightarrow> mail list \<Rightarrow> mail list \<times> (exn + notification_result)" where
  "handleOrderPaid accepts orderId w outbox =
     (case find_order orderId w of
        None \<Rightarrow> (outbox, Inl (PlainError ''order not found''))
      | Some ord \<Rightarrow>
          (case (find_user (o_userId ord) w, find_concert (o_concertId ord) w) of
             (Some u, Some c) \<Rightarrow>
               let ts = filter (\<lambda>t. t_orderId t = orderId) (tickets w);
                   m = OrderConfirmation (u_email u) orderId (c_title c) (c_venue c) (c_startsAt c)
                         (length ts) (o_totalAmountInVnd ord) (map (ticket_info_of w c) ts)
               in if accepts m then (outbox @ [m], Inr (SentTo (u_email u) orderId))
                  else (outbox, Inl (PlainError ''mail server''))
           | _ \<Rightarrow> (outbox, Inl (PlainError ''required relation missing''))))"

section \<open>Reminder\<close>

definition holds_ticket :: "world \<Rightarrow> id \<Rightarrow> user \<Rightarrow> ticket \<Rightarrow> bool" where
  "holds_ticket w concertId u t \<longleftrightarrow>
     t_userId t = u_id u \<and> t_concertId t = concertId \<and> t_status t \<in> {ISSUED, CHECKED_IN}"

definition held_tickets :: "world \<Rightarrow> id \<Rightarrow> user \<Rightarrow> ticket list" where
  "held_tickets w concertId u = filter (holds_ticket w concertId u) (tickets w)"

definition ticket_holders :: "id \<Rightarrow> world \<Rightarrow> user list" where
  "ticket_holders concertId w =
     filter (\<lambda>u. held_tickets w concertId u \<noteq> []) (sort_key u_createdAt (users w))"

definition user_batch :: "id option \<Rightarrow> user list \<Rightarrow> user list" where
  "user_batch cursor holders =
     take BATCH_SIZE
       (case cursor of None \<Rightarrow> holders | Some i \<Rightarrow> drop 1 (dropWhile (\<lambda>u. u_id u \<noteq> i) holders))"

definition reminder_mail :: "world \<Rightarrow> concert \<Rightarrow> user \<Rightarrow> mail" where
  "reminder_mail w c u =
     ConcertReminder (u_email u) (c_title c) (c_venue c) (c_startsAt c) (length (held_tickets w (c_id c) u))"

partial_function (option) reminder_loop ::
  "(mail \<Rightarrow> bool) \<Rightarrow> (nat \<Rightarrow> bool) \<Rightarrow> (user \<Rightarrow> mail) \<Rightarrow> user list \<Rightarrow> nat \<Rightarrow> id option \<Rightarrow> nat \<Rightarrow> nat \<Rightarrow>
   mail list \<Rightarrow> (mail list \<times> (exn + (nat \<times> nat))) option"
where
  [code]: "reminder_loop accepts dbFails mailFor holders n cursor totalSent totalSkipped outbox =
     (if dbFails n then Some (outbox, Inl (PlainError ''database''))
      else
        let batch = user_batch cursor holders
        in if batch = [] then Some (outbox, Inr (totalSent, totalSkipped))
           else
             let fulfilled = filter (\<lambda>u. accepts (mailFor u)) batch;
                 rejected = filter (\<lambda>u. \<not> accepts (mailFor u)) batch
             in reminder_loop accepts dbFails mailFor holders (n + 1) (Some (u_id (last batch)))
                  (totalSent + length fulfilled) (totalSkipped + length rejected)
                  (outbox @ map mailFor fulfilled))"

definition handleConcertReminder ::
  "(mail \<Rightarrow> bool) \<Rightarrow> (nat \<Rightarrow> bool) \<Rightarrow> id \<Rightarrow> world \<Rightarrow> mail list \<Rightarrow>
   (mail list \<times> (exn + notification_result)) option" where
  "handleConcertReminder accepts dbFails concertId w outbox =
     (case find_concert concertId w of
        None \<Rightarrow> Some (outbox, Inr SkippedNoConcert)
      | Some c \<Rightarrow>
          if c_status c = CONCERT_CANCELLED then Some (outbox, Inr SkippedCancelled)
          else map_option (\<lambda>(out, r). (out, map_sum id (\<lambda>(sent, skipped). ReminderSent concertId sent skipped) r))
                 (reminder_loop accepts dbFails (reminder_mail w c) (ticket_holders concertId w) 0 None 0 0 outbox))"

definition process_notification ::
  "(mail \<Rightarrow> bool) \<Rightarrow> (nat \<Rightarrow> bool) \<Rightarrow> notification_job \<Rightarrow> world \<Rightarrow> mail list \<Rightarrow>
   (mail list \<times> (exn + notification_result)) option" where
  "process_notification accepts dbFails j w outbox =
     (case j of
        Reminder24h concertId \<Rightarrow> handleConcertReminder accepts dbFails concertId w outbox
      | SendOrderPaid orderId userId \<Rightarrow> Some (handleOrderPaid accepts orderId w outbox)
      | OtherJob name \<Rightarrow> Some (outbox, Inr (SkippedUnknownJob name)))"

text \<open>The queue delivers a job again when it failed, three times in all.\<close>

fun deliveries ::
  "(mail \<Rightarrow> bool) \<Rightarrow> (nat \<Rightarrow> bool) list \<Rightarrow> notification_job \<Rightarrow> world \<Rightarrow> mail list \<Rightarrow>
   (mail list \<times> (exn + notification_result)) option" where
  "deliveries accepts [] j w outbox = Some (outbox, Inl (PlainError ''no attempt left''))"
| "deliveries accepts (dbFails # others) j w outbox =
     (case process_notification accepts dbFails j w outbox of
        Some (out, Inl e) \<Rightarrow> if others = [] then Some (out, Inl e) else deliveries accepts others j w out
      | r \<Rightarrow> r)"

section \<open>The loop over batches\<close>

lemma batch_after:
  assumes "distinct (map u_id (pre @ rest))"
  shows "user_batch (if pre = [] then None else Some (u_id (last pre))) (pre @ rest) = take BATCH_SIZE rest"
proof (cases "pre = []")
  case True
  then show ?thesis by (simp add: user_batch_def)
next
  case False
  then obtain front u where pre: "pre = front @ [u]" by (metis append_butlast_last_id)
  have "u_id u \<notin> u_id ` set front" using assms pre by auto
  then have "dropWhile (\<lambda>x. u_id x \<noteq> u_id u) (front @ u # rest) = u # rest"
    by (induction front) auto
  then show ?thesis using pre by (simp add: user_batch_def)
qed

definition accepted_mails :: "(mail \<Rightarrow> bool) \<Rightarrow> (user \<Rightarrow> mail) \<Rightarrow> user list \<Rightarrow> mail list" where
  "accepted_mails accepts mailFor us = map mailFor (filter (\<lambda>u. accepts (mailFor u)) us)"

lemma accepted_append [simp]:
  "accepted_mails accepts mailFor (us @ vs) =
     accepted_mails accepts mailFor us @ accepted_mails accepts mailFor vs"
  by (simp add: accepted_mails_def)

lemma accepted_Nil [simp]: "accepted_mails accepts mailFor [] = []"
  by (simp add: accepted_mails_def)

definition rejected_count :: "(mail \<Rightarrow> bool) \<Rightarrow> (user \<Rightarrow> mail) \<Rightarrow> user list \<Rightarrow> nat" where
  "rejected_count accepts mailFor us = length (filter (\<lambda>u. \<not> accepts (mailFor u)) us)"

lemma rejected_append [simp]:
  "rejected_count accepts mailFor (us @ vs) =
     rejected_count accepts mailFor us + rejected_count accepts mailFor vs"
  by (simp add: rejected_count_def)

lemma rejected_Nil [simp]: "rejected_count accepts mailFor [] = 0"
  by (simp add: rejected_count_def)

abbreviation cursor_of :: "user list \<Rightarrow> id option" where
  "cursor_of pre \<equiv> (if pre = [] then None else Some (u_id (last pre)))"

text \<open>One round: the batch is the next hundred holders, and the cursor moves behind them.\<close>

lemma loop_round:
  assumes "distinct (map u_id (pre @ rest))" and "\<not> dbFails n" and "rest \<noteq> []"
  shows "reminder_loop accepts dbFails mailFor (pre @ rest) n (cursor_of pre) sent skipped outbox =
     reminder_loop accepts dbFails mailFor (pre @ rest) (n + 1) (cursor_of (pre @ take BATCH_SIZE rest))
       (sent + length (accepted_mails accepts mailFor (take BATCH_SIZE rest)))
       (skipped + rejected_count accepts mailFor (take BATCH_SIZE rest))
       (outbox @ accepted_mails accepts mailFor (take BATCH_SIZE rest))"
proof -
  have batch: "user_batch (cursor_of pre) (pre @ rest) = take BATCH_SIZE rest"
    using batch_after [OF assms(1)] .
  have ne: "take BATCH_SIZE rest \<noteq> []" using assms(3) by (simp add: BATCH_SIZE_def)
  then have cur: "cursor_of (pre @ take BATCH_SIZE rest) = Some (u_id (last (take BATCH_SIZE rest)))"
    by simp
  show ?thesis
    by (subst reminder_loop.simps)
      (simp add: batch cur ne assms(2) Let_def accepted_mails_def rejected_count_def del: take_eq_Nil)
qed

lemma loop_end:
  assumes "distinct (map u_id pre)" and "\<not> dbFails n"
  shows "reminder_loop accepts dbFails mailFor pre n (cursor_of pre) sent skipped outbox =
     Some (outbox, Inr (sent, skipped))"
  using batch_after [of pre "[]"] assms by (subst reminder_loop.simps) simp

lemma loop_completes:
  assumes "distinct (map u_id (pre @ rest))" and "\<And>n. \<not> dbFails n"
  shows "reminder_loop accepts dbFails mailFor (pre @ rest) n (cursor_of pre) sent skipped outbox =
     Some (outbox @ accepted_mails accepts mailFor rest,
           Inr (sent + length (accepted_mails accepts mailFor rest), skipped + rejected_count accepts mailFor rest))"
  using assms(1)
proof (induction "length rest" arbitrary: pre rest n sent skipped outbox rule: less_induct)
  case less
  show ?case
  proof (cases "rest = []")
    case True
    then show ?thesis using loop_end [of pre dbFails n] less.prems assms(2) by simp
  next
    case False
    let ?b = "take BATCH_SIZE rest" and ?r = "drop BATCH_SIZE rest"
    have "length ?r < length rest" using False by (simp add: BATCH_SIZE_def)
    moreover have "distinct (map u_id ((pre @ ?b) @ ?r))" using less.prems by simp
    ultimately have IH: "reminder_loop accepts dbFails mailFor ((pre @ ?b) @ ?r) m (cursor_of (pre @ ?b)) se sk ob =
        Some (ob @ accepted_mails accepts mailFor ?r,
              Inr (se + length (accepted_mails accepts mailFor ?r), sk + rejected_count accepts mailFor ?r))"
      for m se sk ob
      by (rule less.hyps)
    have acc: "accepted_mails accepts mailFor rest =
        accepted_mails accepts mailFor ?b @ accepted_mails accepts mailFor ?r"
      "rejected_count accepts mailFor rest =
        rejected_count accepts mailFor ?b + rejected_count accepts mailFor ?r"
      by (metis accepted_append append_take_drop_id) (metis rejected_append append_take_drop_id)
    have same: "(pre @ ?b) @ ?r = pre @ rest" by simp
    show ?thesis
      by (simp only: loop_round [where dbFails = dbFails and n = n, OF less.prems assms(2) False] IH [unfolded same] acc append_assoc length_append add.assoc)
  qed
qed

lemma loop_fails_at:
  assumes "distinct (map u_id (pre @ rest))" and "\<And>m. dbFails m \<longleftrightarrow> m = n + j"
    and "BATCH_SIZE * j \<le> length rest"
  shows "reminder_loop accepts dbFails mailFor (pre @ rest) n (cursor_of pre) sent skipped outbox =
     Some (outbox @ accepted_mails accepts mailFor (take (BATCH_SIZE * j) rest), Inl (PlainError ''database''))"
  using assms
proof (induction j arbitrary: pre rest n sent skipped outbox)
  case 0
  then show ?case by (subst reminder_loop.simps) simp
next
  case (Suc j)
  let ?b = "take BATCH_SIZE rest" and ?r = "drop BATCH_SIZE rest"
  have ne: "rest \<noteq> []" using Suc.prems(3) by (auto simp: BATCH_SIZE_def)
  have IH: "reminder_loop accepts dbFails mailFor ((pre @ ?b) @ ?r) (n + 1) (cursor_of (pre @ ?b)) se sk ob =
      Some (ob @ accepted_mails accepts mailFor (take (BATCH_SIZE * j) ?r), Inl (PlainError ''database''))" for se sk ob
  proof (rule Suc.IH)
    show "distinct (map u_id ((pre @ ?b) @ ?r))" using Suc.prems(1) by simp
    show "dbFails m \<longleftrightarrow> m = n + 1 + j" for m using Suc.prems(2) [of m] by simp
    show "BATCH_SIZE * j \<le> length ?r" using Suc.prems(3) by (simp add: algebra_simps)
  qed
  have same: "(pre @ ?b) @ ?r = pre @ rest" by simp
  have "take (BATCH_SIZE * Suc j) rest = ?b @ take (BATCH_SIZE * j) ?r"
    by (simp add: take_add)
  then have acc: "accepted_mails accepts mailFor (take (BATCH_SIZE * Suc j) rest) =
      accepted_mails accepts mailFor ?b @ accepted_mails accepts mailFor (take (BATCH_SIZE * j) ?r)"
    by (simp only: accepted_append)
  have up: "\<not> dbFails n" using Suc.prems(2) [of n] by simp
  show ?case
    by (simp only: loop_round [where dbFails = dbFails and n = n, OF Suc.prems(1) up ne] IH [unfolded same] acc append_assoc)
qed

section \<open>What a reminder job does\<close>

text \<open>The loop reads the holders from the start.\<close>

lemma holders_distinct: "unique_key u_id (users w) \<Longrightarrow> distinct (map u_id ([] @ ticket_holders c w))"
  by (simp add: unique_key_def ticket_holders_def distinct_map inj_on_def)

definition reminders :: "(mail \<Rightarrow> bool) \<Rightarrow> world \<Rightarrow> concert \<Rightarrow> user list \<Rightarrow> mail list" where
  "reminders accepts w c us = accepted_mails accepts (reminder_mail w c) us"

text \<open>
  While the database answers, the job ends: every holder of a valid ticket of the concert is
  written to exactly once, in the order of the accounts, over as many batches as it takes; and the
  job counts as done even if the mail server refused every mail.
\<close>

theorem reminder_writes_each_holder_once:
  assumes "unique_key u_id (users w)" and "find_concert i w = Some c" and "c_status c \<noteq> CONCERT_CANCELLED"
  shows "handleConcertReminder accepts (\<lambda>_. False) i w outbox =
     Some (outbox @ reminders accepts w c (ticket_holders i w),
           Inr (ReminderSent i (length (reminders accepts w c (ticket_holders i w)))
                  (rejected_count accepts (reminder_mail w c) (ticket_holders i w))))"
proof -
  have "reminder_loop accepts (\<lambda>_. False) (reminder_mail w c) ([] @ ticket_holders i w) 0 (cursor_of []) 0 0 outbox =
      Some (outbox @ accepted_mails accepts (reminder_mail w c) (ticket_holders i w),
            Inr (0 + length (accepted_mails accepts (reminder_mail w c) (ticket_holders i w)),
                 0 + rejected_count accepts (reminder_mail w c) (ticket_holders i w)))"
    by (rule loop_completes [OF holders_distinct [OF assms(1)]]) simp
  then show ?thesis using assms(2,3) by (simp add: handleConcertReminder_def reminders_def)
qed

text \<open>
  C24: The comment of the code promises that a repeated job skips whoever was reminded.  It does not:
  when the database fails at the batch after \<open>j\<close>, the next delivery of the job starts over, and the
  first \<open>100 * j\<close> holders are written to a second time.
\<close>

theorem reminder_retry_writes_twice:
  assumes "unique_key u_id (users w)" and "find_concert i w = Some c" and "c_status c \<noteq> CONCERT_CANCELLED"
    and "100 * j \<le> length (ticket_holders i w)"
  shows "\<exists>r. deliveries accepts [\<lambda>n. n = j, \<lambda>_. False] (Reminder24h i) w outbox =
     Some (outbox @ reminders accepts w c (take (100 * j) (ticket_holders i w)) @
             reminders accepts w c (ticket_holders i w), Inr r)"
proof -
  let ?hs = "ticket_holders i w"
  have "reminder_loop accepts (\<lambda>n. n = j) (reminder_mail w c) ([] @ ?hs) 0 (cursor_of []) 0 0 outbox =
      Some (outbox @ accepted_mails accepts (reminder_mail w c) (take (BATCH_SIZE * j) ?hs), Inl (PlainError ''database''))"
    by (rule loop_fails_at [OF holders_distinct [OF assms(1)]]) (use assms(4) in \<open>simp_all add: BATCH_SIZE_def\<close>)
  then have first: "handleConcertReminder accepts (\<lambda>n. n = j) i w outbox =
      Some (outbox @ reminders accepts w c (take (100 * j) ?hs), Inl (PlainError ''database''))"
    using assms(2,3) by (simp add: handleConcertReminder_def reminders_def BATCH_SIZE_def)
  have "reminder_loop accepts (\<lambda>_. False) (reminder_mail w c) ([] @ ?hs) 0 (cursor_of []) 0 0
        (outbox @ reminders accepts w c (take (100 * j) ?hs)) =
      Some ((outbox @ reminders accepts w c (take (100 * j) ?hs)) @ accepted_mails accepts (reminder_mail w c) ?hs,
            Inr (0 + length (accepted_mails accepts (reminder_mail w c) ?hs),
                 0 + rejected_count accepts (reminder_mail w c) ?hs))"
    by (rule loop_completes [OF holders_distinct [OF assms(1)]]) simp
  then show ?thesis
    using first assms(2,3)
    by (simp add: process_notification_def) (simp add: handleConcertReminder_def reminders_def)
qed

section \<open>Example\<close>

text \<open>A concert with 101 ticket holders.\<close>

definition demo_holder :: "nat \<Rightarrow> user" where
  "demo_holder n = \<lparr>u_id = replicate n CHR ''a'', u_email = replicate n CHR ''e'', u_phone = None, u_passwordHash = [],
     u_fullName = None, u_role = CUSTOMER, u_createdAt = int n\<rparr>"

definition demo_held :: "nat \<Rightarrow> ticket" where
  "demo_held n = \<lparr>t_id = replicate n CHR ''t'', t_orderId = ''o'', t_orderItemId = ''i'', t_concertId = ''c1'',
     t_ticketTypeId = ''vip'', t_userId = replicate n CHR ''a'', t_gateId = None, t_qrRawToken = [],
     t_qrTokenHash = [], t_qrSignature = None, t_status = ISSUED, t_checkedInAt = None, t_createdAt = 0\<rparr>"

definition demo_concert :: concert where
  "demo_concert = \<lparr>c_id = ''c1'', c_organizerId = ''org'', c_title = ''Show'', c_slug = ''show'',
     c_description = None, c_artistBio = None, c_venue = ''Hall'', c_startsAt = 10 ^ 9,
     c_saleStartsAt = None, c_saleEndsAt = None, c_status = PUBLISHED, c_seatMapUrl = None,
     c_coverImageUrl = None, c_reminderJobId = None, c_createdAt = 0, c_updatedAt = 0\<rparr>"

definition demo_audience :: world where
  "demo_audience = empty_world\<lparr>users := map demo_holder [0..<101], tickets := map demo_held [0..<101],
     concerts := [demo_concert]\<rparr>"

lemma demo_audience_facts:
  "unique_key u_id (users demo_audience)" "find_concert ''c1'' demo_audience = Some demo_concert"
  "c_status demo_concert \<noteq> CONCERT_CANCELLED"
proof -
  have "distinct (map (\<lambda>n. replicate n CHR ''a'') [0..<101])"
    by (simp add: distinct_map inj_on_def)
  then show "unique_key u_id (users demo_audience)"
    by (simp add: unique_key_def demo_audience_def demo_holder_def comp_def)
qed (simp_all add: demo_audience_def demo_concert_def find_concert_def)

lemma demo_holders: "length (ticket_holders ''c1'' demo_audience) = 101"
proof -
  have "held_tickets demo_audience ''c1'' (demo_holder n) \<noteq> []" if "n < 101" for n
  proof -
    have "demo_held n \<in> set (tickets demo_audience)" using that by (auto simp: demo_audience_def)
    moreover have "holds_ticket demo_audience ''c1'' (demo_holder n) (demo_held n)"
      by (simp add: holds_ticket_def demo_held_def demo_holder_def)
    ultimately show ?thesis by (force simp: held_tickets_def filter_empty_conv)
  qed
  then have "filter (\<lambda>u. held_tickets demo_audience ''c1'' u \<noteq> []) (sort_key u_createdAt (users demo_audience)) =
      sort_key u_createdAt (users demo_audience)"
    by (intro filter_True) (auto simp: demo_audience_def)
  then have "ticket_holders ''c1'' demo_audience = sort_key u_createdAt (map demo_holder [0..<101])"
    by (simp add: ticket_holders_def demo_audience_def)
  then show ?thesis by simp
qed

theorem reminder_writes_each_holder_once_witness:
  "\<exists>out sent skipped. handleConcertReminder (\<lambda>_. True) (\<lambda>_. False) ''c1'' demo_audience [] =
     Some (out, Inr (ReminderSent ''c1'' sent skipped)) \<and> length out = 101"
  using reminder_writes_each_holder_once [OF demo_audience_facts, of "\<lambda>_. True" "[]"] demo_holders
  by (simp add: reminders_def accepted_mails_def)

theorem reminder_retry_writes_twice_witness:
  "\<exists>out r. deliveries (\<lambda>_. True) [\<lambda>n. n = 1, \<lambda>_. False] (Reminder24h ''c1'') demo_audience [] =
     Some (out, Inr r) \<and> length out = 201"
proof -
  have "100 * 1 \<le> length (ticket_holders ''c1'' demo_audience)" by (simp add: demo_holders)
  from reminder_retry_writes_twice [OF demo_audience_facts this, of "\<lambda>_. True" "[]"]
  obtain r where r: "deliveries (\<lambda>_. True) [\<lambda>n. n = 1, \<lambda>_. False] (Reminder24h ''c1'') demo_audience [] =
      Some ([] @ reminders (\<lambda>_. True) demo_audience demo_concert (take (100 * 1) (ticket_holders ''c1'' demo_audience)) @
        reminders (\<lambda>_. True) demo_audience demo_concert (ticket_holders ''c1'' demo_audience), Inr r)"
    by blast
  show ?thesis
    unfolding r by (intro exI conjI, rule refl) (simp add: reminders_def accepted_mails_def demo_holders)
qed

end
