(* ===== verification/Spec2Isabelle.thy ===== *)
theory Spec2Isabelle
  imports Shop_Inventory Shop_Issue Seatmap_Properties Ticket_Service Offline_Properties Guest_Import_Properties
    Http_Routes Waiting_Properties Seat_Properties Checkout_Client Notification
begin

text \<open>
  TicketBox: a verification development of the ticket shop: its backend with the worker, and the
  logic of the customers' and of the staff's app.  Paths below are relative to
  \<open>src/src/backend/src/modules\<close> unless they start with \<open>worker\<close>, \<open>common\<close> or \<open>src\<close>.

  \<^bold>\<open>The program.\<close>  Customers order tickets of a concert.  An order reserves stock in Redis through a
  Lua script, then in PostgreSQL under a guarded update, and waits for its payment.  A signed
  webhook of the payment gateway, or a periodic check of overdue orders, settles it: paid, failed
  or expired.  A paid order gets its tickets from the webhook or from a queue worker; each ticket
  carries a QR payload whose token is stored as a hash and whose gate is covered by an HMAC.
  Staff scan the payload online or upload scans made offline.  Organizers maintain ticket types
  and gates.  Idempotency keys and token buckets guard the public endpoints.

  \<^bold>\<open>State.\<close>  \<open>world\<close> (theory \<open>Domain\<close>) holds the tables that the services share as lists of rows, the
  Redis keyspace as a map from the key strings of \<open>redis-keys.ts\<close> to values with an expiry, the
  queued jobs, and the messages sent to socket rooms.  A handler maps a world to a world and
  either an exception or a result; effects that precede an exception stay, unless the code runs
  them in a transaction.  The clock, generated identifiers and random tokens, the answers of the
  payment gateway and the failures of single database writes are arguments.  SHA-256 and HMAC are
  a record of two functions; no theorem assumes anything of them beyond what its statement says.

  \<^bold>\<open>Theories and code.\<close>
  \<^item> \<open>Prelude\<close>: exceptions and their sequencing, tables as lists with keys, the interfaces
    \<open>op_system\<close>, \<open>at_most_once\<close> and \<open>ledger\<close>.
  \<^item> \<open>Domain\<close>: the models of \<open>prisma/schema.prisma\<close>, table writes with the constraints that can
    refuse them, \<open>transaction\<close>, \<open>Promise.all\<close>, the predicate \<open>keeps\<close>.
  \<^item> \<open>Redis_Store\<close>: \<open>redis/redis.service.ts\<close>, \<open>reserve-ticket.lua\<close>, \<open>release-reservation.lua\<close>.
  \<^item> \<open>Seatmap_Service\<close>, \<open>Seatmap_Properties\<close>: \<open>seatmap\<close>.
  \<^item> \<open>Qr_Payload\<close>: \<open>ticket/utils/qr-payload.util.ts\<close> and the token of a ticket.
  \<^item> \<open>Payment_Gateway\<close>, \<open>Payment_Service\<close>, \<open>Payment_Properties\<close>, \<open>Payment_Cron\<close>: \<open>payment\<close>.
  \<^item> \<open>Order_Service\<close>, \<open>Order_Properties\<close>: \<open>order/order.service.ts\<close>; \<open>createOrder\<close> is the
    composition of its stages, each with its rollback.
  \<^item> \<open>Ticket_Issue\<close>: \<open>worker/processors/ticket-issue.processor.ts\<close>.
  \<^item> \<open>Checkin\<close>, \<open>Checkin_Properties\<close>: \<open>checkin/checkin.service.ts\<close>.
  \<^item> \<open>Gate_Service\<close>, \<open>Gate_Properties\<close>: \<open>gate/gate.service.ts\<close>.
  \<^item> \<open>Ticket_Type_Service\<close>: \<open>ticket-type/ticket-type.service.ts\<close>.
  \<^item> \<open>Idempotency\<close>: \<open>idempotency\<close>, \<open>common/interceptors/idempotency.interceptor.ts\<close>, and the
    payment creation that uses them.
  \<^item> \<open>Rate_Limit\<close>: \<open>rate-limit\<close> with \<open>token-bucket.lua\<close>, whose numbers are rationals here.
  \<^item> \<open>Concert_Service\<close>, \<open>Concert_Cache\<close>, \<open>Concert_Properties\<close>: \<open>concert/concert.service.ts\<close> and
    \<open>notification/reminder.service.ts\<close>.
  \<^item> \<open>Ticket_Service\<close>: \<open>ticket/ticket.service.ts\<close>.
  \<^item> \<open>Offline_Checkin\<close>, \<open>Offline_Properties\<close>: the staff's app, \<open>hooks/useOfflineCheckin.ts\<close> and
    \<open>lib/idb.ts\<close> of \<open>src/src/frontend/checkin-pwa/src\<close>, with the server of \<open>Checkin\<close> behind it.
  \<^item> \<open>Guest_Import\<close>, \<open>Guest_Import_Properties\<close>: \<open>uploads/uploads.service.ts\<close>, the worker's
    \<open>csv-import\<close> and \<open>ai-bio\<close> processors, \<open>csv-parse.service.ts\<close> and \<open>pdf-extract.service.ts\<close>.
  \<^item> \<open>Auth_Service\<close>, \<open>Auth_Properties\<close>: \<open>auth\<close> and \<open>user\<close>; bcrypt and the signature of a token are
    parameters with their documented behaviour as named hypotheses.
  \<^item> \<open>Http_Routes\<close>: the routes of all controllers, the guards of \<open>common/guards\<close> in the order the
    framework runs them, and the controllers whose own code does more than call a service.
  \<^item> \<open>Notification\<close>: \<open>worker/processors/notification.processor.ts\<close>, the mails of an order and of a
    reminder.
  \<^item> \<open>Waiting_Room\<close>, \<open>Waiting_Properties\<close>: the waiting room of the customers' app
    (\<open>src/src/frontend/customer-web\<close>): \<open>lib/mock-waiting-room.ts\<close> behind its route, and the tab of a
    customer with \<open>useWaitingRoom\<close>, \<open>usePurchaseAccess\<close> and what they keep in \<open>sessionStorage\<close>.
  \<^item> \<open>Seat_Selection\<close>, \<open>Seat_Properties\<close>: the page of the seats of that app, \<open>hooks/useSeatMap.ts\<close>
    and \<open>lib/seatmap-data*.ts\<close>, fed by the backend's \<open>Seatmap_Service\<close>.
  \<^item> \<open>Checkout_Client\<close>: its checkout button, \<open>lib/create-order-retry.ts\<close> and \<open>lib/idempotency.ts\<close>, in
    front of the interceptor of \<open>Idempotency\<close>.
  \<^item> \<open>Sale_Machine\<close>, \<open>Sale_Refinement\<close>, \<open>Shop_System\<close>, \<open>Shop_Inventory\<close>, \<open>Shop_Issue\<close>: all handlers
    on one world, an abstract machine of sales, and the proof that every handler refines it.

  \<^bold>\<open>What is shown.\<close>
  \<^item> For every run of the shop, that is every interleaving of handler calls: tickets exist only for
    paid orders and in the ordered number, a settled order stays settled, the inventory is never
    oversold, and no paid order loses its issue job.
  \<^item> For Redis: the scripts implement an abstract inventory, never oversell it, respect the limit of
    a user, and release a reservation at most once.
  \<^item> For each handler: what it does on success, which calls it refuses, and what it leaves behind
    when a later step fails.  Several of these theorems record behaviour that the code did not
    intend: orders with several items, the rollbacks of an order, reservations that expire with
    their order, concurrent webhooks, gates of other concerts, records of unknown tickets, and
    denied requests.
  \<^item> For concerts: the cache of the detail and of the default list never shows, a removal takes every
    row or none, and a concert has at most one reminder.
  \<^item> For the app of the staff: no scan is marked as uploaded unless the server logged it, two uploads
    empty the queue unless it holds an unknown ticket, and a device accepts a ticket offline once.
  \<^item> For guest lists: what a first import and a retry insert, what a failure leaves, and that the
    rows stay well formed; a biography is visible at once.
  \<^item> For accounts: the table of users stays well formed and holds one row for an address, whatever
    requests come; and which resets of a password the code refuses.
  \<^item> For the routes: a route with declared roles answers nobody else, writes need a token except at
    the listed routes, and which routes are open that should not be.
  \<^item> For customers who wait: no token before its time, admission within 38 seconds of polling, and two
    states that never recover: a session whose token expired, and a queue that was left.
  \<^item> For the page of the seats: a selection fits the availability on display, which no update of the
    backend ever changes.
  \<^item> For the checkout: repeating a click whose answer was lost makes no second order, and a changed
    selection is not ordered under the old key.
  \<^item> For mails: a reminder reaches every holder once while the database answers, and twice after a
    failure.
  \<^item> For the door: a ticket is admitted at most once over online checks and uploads together.
  \<^item> Interfaces: \<open>at_most_once\<close> is interpreted for the release script, the door, the issue worker
    and the guard of a device, \<open>op_system\<close> for the user limit, the gates, the spread of tickets, the
    concert cache, the reminders, the queue of a device, the accounts,
    the sessions of the waiting room, a tab, the page of the seats and the checkout, \<open>ledger\<close> for the stock.

  \<^bold>\<open>Bounds.\<close>  Loops over lists are structurally recursive; the canonical form of a request body ends
  by the size of the value.  The loop over the batches of a reminder is a partial function, where
  \<open>None\<close> would be a loop without end, and \<open>reminder_writes_each_holder_once\<close> shows that it ends.  The
  periodic check handles 50 orders a run; \<open>cron_drains_backlog\<close> shows how many runs a backlog needs.
  An order is attempted 15 times, as in the code.  Integers are unbounded where the code uses
  JavaScript numbers; the 32-bit columns appear as the check \<open>order_fits\<close> of the insert.

  \<^bold>\<open>Not modelled.\<close>  Handlers run one at a time on the world: interleavings inside a handler are shown
  only where a theorem names them (two webhooks that read the same order).  Logging, the
  validation pipes other than the checks a theorem needs, e-mail templates, start-up and module
  wiring, the clients of object storage and of the language model, seeds, and the React pages are
  left out.
\<close>

end
